(* ===== verification/Prelude.thy ===== *)
theory Prelude
  imports Main "HOL-Library.Word" "HOL-Library.AList"
begin

text \<open>
  What every component of the model shares: names for the machine integers of the C++ sources,
  the named collections of simplification rules, and generic lemmas on words, lists and
  association lists.

  Conventions of the whole development. A \<open>uintN_t\<close> is an \<open>N word\<close>, so that
  arithmetic wraps as in C++. An \<open>int64_t\<close> that is only an identifier and an
  \<open>int32_t\<close> status code are an \<open>int\<close>. An \<open>std::unordered_map\<close> is an association list
  with distinct keys, so that a loop over it is executable: its order is the order of the list, which the
  theorems leave arbitrary, as the standard leaves the order of the container open. An
  \<open>std::unordered_set\<close> is a list without duplicates.
\<close>

unbundle bit_operations_syntax

named_theorems status_defs \<open>the numeric values of status codes and constants\<close>
named_theorems ump_defs \<open>definitions of the converters' bit helpers\<close>
named_theorems ring_defs \<open>definitions of the ring's small helpers\<close>
named_theorems ctl_simps \<open>rules for the operations on the controller's tables\<close>

type_synonym u8 = "8 word"
type_synonym u16 = "16 word"
type_synonym u32 = "32 word"
type_synonym u64 = "64 word"

section \<open>Unordered maps and sets\<close>

abbreviation find_key :: "('k \<times> 'v) list \<Rightarrow> 'k \<Rightarrow> 'v option" where
  "find_key m k \<equiv> map_of m k"

abbreviation has_key :: "('k \<times> 'v) list \<Rightarrow> 'k \<Rightarrow> bool" where
  "has_key m k \<equiv> map_of m k \<noteq> None"

abbreviation keys_of :: "('k \<times> 'v) list \<Rightarrow> 'k list" where
  "keys_of m \<equiv> map fst m"

text \<open>\<open>set_add\<close> and \<open>set_remove\<close> are \<open>insert\<close> and \<open>erase\<close> of an unordered set.\<close>

definition set_add :: "'a \<Rightarrow> 'a list \<Rightarrow> 'a list" where
  "set_add x xs = (if x \<in> set xs then xs else xs @ [x])"

definition set_remove :: "'a \<Rightarrow> 'a list \<Rightarrow> 'a list" where
  "set_remove x xs = filter (\<lambda>y. y \<noteq> x) xs"

lemma set_set_add [simp]: "set (set_add x xs) = insert x (set xs)"
  by (auto simp: set_add_def)

lemma set_set_remove [simp]: "set (set_remove x xs) = set xs - {x}"
  by (auto simp: set_remove_def)

lemma distinct_set_add [simp]: "distinct (set_add x xs) = distinct xs"
  by (auto simp: set_add_def)

lemma distinct_set_remove [simp]: "distinct xs \<Longrightarrow> distinct (set_remove x xs)"
  by (simp add: set_remove_def)

lemma length_set_add:
  "length (set_add x xs) = (if x \<in> set xs then length xs else Suc (length xs))"
  by (simp add: set_add_def)

lemma length_set_remove_le [simp]: "length (set_remove x xs) \<le> length xs"
  by (simp add: set_remove_def)

lemma find_update [simp]: "map_of (AList.update k v m) k' = (if k' = k then Some v else map_of m k')"
  by (simp add: update_conv')

lemma find_delete [simp]: "map_of (AList.delete k m) k' = (if k' = k then None else map_of m k')"
  by (simp add: delete_conv')

lemma length_update:
  "length (AList.update k v m) = (if has_key m k then length m else Suc (length m))"
  by (induction m) auto

lemma length_delete_le: "length (AList.delete k m) \<le> length m"
  by (simp add: AList.length_delete_le)

section \<open>Words\<close>

text \<open>
  A mask of low bits is a \<open>take_bit\<close>, so that \<open>bit_simps\<close> decides equalities of packed words bit
  by bit.
\<close>

lemma and_0xF: "(x :: 'a::len word) AND 0x0F = take_bit 4 x"
  by (simp add: take_bit_eq_mask mask_numeral)

lemma and_0x7F: "(x :: 'a::len word) AND 0x7F = take_bit 7 x"
  by (simp add: take_bit_eq_mask mask_numeral)

lemma and_0xFF: "(x :: 'a::len word) AND 0xFF = take_bit 8 x"
  by (simp add: take_bit_eq_mask mask_numeral)

lemma and_0x1FFF: "(x :: 'a::len word) AND 0x1FFF = take_bit 13 x"
  by (simp add: take_bit_eq_mask mask_numeral)

lemma and_0x3F: "(x :: 'a::len word) AND 0x3F = take_bit 6 x"
  by (simp add: take_bit_eq_mask mask_numeral)

lemma and_0x3FFF: "(x :: 'a::len word) AND 0x3FFF = take_bit 14 x"
  by (simp add: take_bit_eq_mask mask_numeral)

lemmas and_masks = and_0xF and_0x7F and_0xFF and_0x1FFF and_0x3F and_0x3FFF

lemma take_bit_7_id: "(x :: u8) < 0x80 \<Longrightarrow> take_bit 7 x = x"
  using less_mask_eq [of x 7] by (simp add: take_bit_eq_mask)

lemma and_0x7F_id: "(x :: u8) < 0x80 \<Longrightarrow> x AND 0x7F = x"
  by (simp add: and_0x7F take_bit_7_id)

text \<open>The status bit of a MIDI byte.\<close>

lemma bit_7_iff: "bit (b :: u8) 7 \<longleftrightarrow> 0x80 \<le> b"
proof -
  have "unat b < 256" using unsigned_less [of b, where ?'a = nat] by simp
  then have "unat b div 128 < 2" by (simp add: less_mult_imp_div_less)
  then have *: "odd (unat b div 128) \<longleftrightarrow> 1 \<le> unat b div 128"
    by (cases "unat b div 128") auto
  have "bit b 7 \<longleftrightarrow> bit (unat b) 7" by (simp add: bit_unsigned_iff)
  also have "\<dots> \<longleftrightarrow> odd (unat b div 128)" using bit_iff_odd [of "unat b" 7] by simp
  also have "\<dots> \<longleftrightarrow> 128 \<le> unat b" unfolding * by (simp add: less_eq_div_iff_mult_less_eq)
  finally show ?thesis by (simp add: word_le_nat_alt)
qed

lemma and_0x80: "(b :: u8) AND 0x80 \<noteq> 0 \<longleftrightarrow> 0x80 \<le> b"
  using and_exp_eq_0_iff_not_bit [of b 7] by (simp add: bit_7_iff)

lemma bit_add_diff [simp]: "k \<le> n \<Longrightarrow> bit w (k + (n - k)) = bit w n"
  by simp

section \<open>Machines with output\<close>

text \<open>
  A step of a stateful component maps an input and a state to the new state with a list of
  outputs; \<open>run\<close> feeds it a list of inputs.
\<close>

primrec run :: "('s \<Rightarrow> 'i \<Rightarrow> 's \<times> 'o list) \<Rightarrow> 's \<Rightarrow> 'i list \<Rightarrow> 's \<times> 'o list" where
  "run step s [] = (s, [])"
| "run step s (x # xs) =
     (case step s x of (s1, o1) \<Rightarrow> case run step s1 xs of (s2, o2) \<Rightarrow> (s2, o1 @ o2))"

lemma run_append:
  "run step s (xs @ ys) =
     (case run step s xs of (s1, o1) \<Rightarrow> case run step s1 ys of (s2, o2) \<Rightarrow> (s2, o1 @ o2))"
  by (induction xs arbitrary: s) (auto split: prod.splits)

lemma run_invariant:
  assumes "P s" "\<And>s x. P s \<Longrightarrow> x \<in> set xs \<Longrightarrow> P (fst (step s x)) \<and> list_all Q (snd (step s x))"
  shows "P (fst (run step s xs)) \<and> list_all Q (snd (run step s xs))"
  using assms
proof (induction xs arbitrary: s)
  case (Cons x xs)
  have "P (fst (step s x)) \<and> list_all Q (snd (step s x))" using Cons.prems by simp
  moreover from this have "P (fst (run step (fst (step s x)) xs)) \<and> list_all Q (snd (run step (fst (step s x)) xs))"
    using Cons.IH Cons.prems(2) by simp
  ultimately show ?case by (auto split: prod.splits)
qed simp


end
