(* ===== verification/Midi_Types.thy ===== *)
theory Midi_Types
  imports Prelude
begin

text \<open>
  The data that the components exchange: the status codes of
  \<^verbatim>\<open>interfaces/kits/c/midi/native_midi_base.h\<close>, the enumerations and structures of
  \<^verbatim>\<open>interfaces/midi_info.h\<close>, and the status codes of the shared ring.
\<close>

section \<open>Status codes\<close>

text \<open>
  The C enumeration mixes freely with \<open>int32_t\<close> in the service (a driver may also return
  \<open>-1\<close>), so a status is an \<open>int\<close> with the values of the header.
\<close>

definition OH_MIDI_STATUS_OK :: int where
  [status_defs]: "OH_MIDI_STATUS_OK = 0"

definition OH_MIDI_STATUS_GENERIC_INVALID_ARGUMENT :: int where
  [status_defs]: "OH_MIDI_STATUS_GENERIC_INVALID_ARGUMENT = 35500001"

definition OH_MIDI_STATUS_GENERIC_IPC_FAILURE :: int where
  [status_defs]: "OH_MIDI_STATUS_GENERIC_IPC_FAILURE = 35500002"

definition OH_MIDI_STATUS_INVALID_CLIENT :: int where
  [status_defs]: "OH_MIDI_STATUS_INVALID_CLIENT = 35500003"

definition OH_MIDI_STATUS_INVALID_DEVICE_HANDLE :: int where
  [status_defs]: "OH_MIDI_STATUS_INVALID_DEVICE_HANDLE = 35500004"

definition OH_MIDI_STATUS_INVALID_PORT :: int where
  [status_defs]: "OH_MIDI_STATUS_INVALID_PORT = 35500005"

definition OH_MIDI_STATUS_WOULD_BLOCK :: int where
  [status_defs]: "OH_MIDI_STATUS_WOULD_BLOCK = 35500006"

definition OH_MIDI_STATUS_TIMEOUT :: int where
  [status_defs]: "OH_MIDI_STATUS_TIMEOUT = 35500007"

definition OH_MIDI_STATUS_TOO_MANY_OPEN_DEVICES :: int where
  [status_defs]: "OH_MIDI_STATUS_TOO_MANY_OPEN_DEVICES = 35500008"

definition OH_MIDI_STATUS_TOO_MANY_OPEN_PORTS :: int where
  [status_defs]: "OH_MIDI_STATUS_TOO_MANY_OPEN_PORTS = 35500009"

definition OH_MIDI_STATUS_DEVICE_ALREADY_OPEN :: int where
  [status_defs]: "OH_MIDI_STATUS_DEVICE_ALREADY_OPEN = 35500010"

definition OH_MIDI_STATUS_PORT_ALREADY_OPEN :: int where
  [status_defs]: "OH_MIDI_STATUS_PORT_ALREADY_OPEN = 35500011"

definition OH_MIDI_STATUS_TOO_MANY_CLIENTS :: int where
  [status_defs]: "OH_MIDI_STATUS_TOO_MANY_CLIENTS = 35500012"

definition OH_MIDI_STATUS_PERMISSION_DENIED :: int where
  [status_defs]: "OH_MIDI_STATUS_PERMISSION_DENIED = 35500013"

definition OH_MIDI_STATUS_SERVICE_DIED :: int where
  [status_defs]: "OH_MIDI_STATUS_SERVICE_DIED = 35500014"

definition OH_MIDI_STATUS_SYSTEM_ERROR :: int where
  [status_defs]: "OH_MIDI_STATUS_SYSTEM_ERROR = 35500100"

section \<open>Enumerations and structures\<close>

datatype PortDirection = PORT_DIRECTION_INPUT | PORT_DIRECTION_OUTPUT

datatype DeviceType = DEVICE_TYPE_USB | DEVICE_TYPE_BLE

datatype TransportProtocol = PROTOCOL_1_0 | PROTOCOL_2_0

datatype DeviceChangeType = ADD | REMOVED

record MidiPortInfo =
  portId :: int
  port_name :: string
  direction :: PortDirection
  port_transportProtocol :: TransportProtocol

record MidiDeviceInfo =
  deviceId :: int
  driverDeviceId :: int
  deviceType :: DeviceType
  transportProtocol :: TransportProtocol
  address :: string
  deviceName :: string
  productId :: u64
  vendorId :: u64

text \<open>The default member initialisers of the structure.\<close>

definition default_MidiDeviceInfo :: MidiDeviceInfo where
  "default_MidiDeviceInfo =
     \<lparr>deviceId = 0, driverDeviceId = 0, deviceType = DEVICE_TYPE_USB,
      transportProtocol = PROTOCOL_1_0, address = [], deviceName = [],
      productId = 0, vendorId = 0\<rparr>"

record DeviceInformation =
  midiDeviceInfo :: MidiDeviceInfo
  portInfos :: "MidiPortInfo list"

definition default_DeviceInformation :: DeviceInformation where
  "default_DeviceInformation = \<lparr>midiDeviceInfo = default_MidiDeviceInfo, portInfos = []\<rparr>"

text \<open>
  \<open>MidiEventInner\<close> holds a pointer to UMP words. A pointer is \<open>None\<close> for \<open>nullptr\<close>, and otherwise
  the words it leads to, by index: memory goes on behind the end of an array, so reading past
  the end yields whatever lies there, not an error. \<open>ptr_to ws beyond\<close> points to an array holding
  \<open>ws\<close>, with \<open>beyond\<close> the memory after it.
\<close>

type_synonym word_ptr = "(nat \<Rightarrow> u32) option"

record MidiEventInner =
  timestamp :: u64
  ev_length :: nat
  ev_data :: word_ptr

definition ptr_to :: "u32 list \<Rightarrow> (nat \<Rightarrow> u32) \<Rightarrow> nat \<Rightarrow> u32" where
  "ptr_to ws beyond i = (if i < length ws then ws ! i else beyond (i - length ws))"

definition read_words :: "(nat \<Rightarrow> u32) \<Rightarrow> nat \<Rightarrow> u32 list" where
  "read_words p n = map p [0..<n]"

text \<open>\<open>MidiEvent\<close> owns its words in the model: the code keeps them in a buffer beside it.\<close>

record MidiEvent =
  me_timestamp :: u64
  me_words :: "u32 list"

datatype MidiStatusCode = OK | WOULD_BLOCK | INVALID_ARGUMENT | SHM_BROKEN | INTERNAL_ERROR

lemma length_read_words [simp]: "length (read_words p n) = n"
  by (simp add: read_words_def)

lemma read_words_ptr_to: "n \<le> length ws \<Longrightarrow> read_words (ptr_to ws b) n = take n ws"
  by (auto simp: read_words_def ptr_to_def intro!: nth_equalityI)

lemma read_words_ptr_to_all [simp]: "read_words (ptr_to ws b) (length ws) = ws"
  by (simp add: read_words_ptr_to)

end
