(* ===== verification/Ump_Converter.thy ===== *)
theory Ump_Converter
  imports Midi_Types
begin

text \<open>
  \<^verbatim>\<open>services/common/src/ump_converter.cpp\<close>: conversion of single UMP packets between MIDI 1.0
  and MIDI 2.0 channel voice messages, and the splitting of a block of concatenated packets.

  A \<open>(pointer, count)\<close> argument is an optional list whose length is the count; an out-parameter
  vector is threaded through as a list that the code appends to.
\<close>

section \<open>Basic helpers\<close>

definition Byte3 :: "u32 \<Rightarrow> u8" where
  [ump_defs]: "Byte3 w = ucast (drop_bit 24 w AND 0xFF)"

definition Byte2 :: "u32 \<Rightarrow> u8" where
  [ump_defs]: "Byte2 w = ucast (drop_bit 16 w AND 0xFF)"

definition Byte1 :: "u32 \<Rightarrow> u8" where
  [ump_defs]: "Byte1 w = ucast (drop_bit 8 w AND 0xFF)"

definition Byte0 :: "u32 \<Rightarrow> u8" where
  [ump_defs]: "Byte0 w = ucast (drop_bit 0 w AND 0xFF)"

definition MessageType :: "u32 \<Rightarrow> u8" where
  [ump_defs]: "MessageType w0 = ucast (drop_bit 28 w0 AND 0x0F)"

definition Group :: "u32 \<Rightarrow> u8" where
  [ump_defs]: "Group w0 = ucast (drop_bit 24 w0 AND 0x0F)"

section \<open>Scaling\<close>

definition U7ToU32 :: "u8 \<Rightarrow> u32" where
  [ump_defs]: "U7ToU32 v7 = push_bit 25 (ucast v7)"

definition U14ToU32 :: "u16 \<Rightarrow> u32" where
  [ump_defs]: "U14ToU32 v14 = push_bit 18 (ucast v14)"

definition ROUND_U32_TO_U7 :: u32 where
  [ump_defs]: "ROUND_U32_TO_U7 = 0x01000000"

definition ROUND_U32_TO_U14 :: u32 where
  [ump_defs]: "ROUND_U32_TO_U14 = 0x00020000"

definition U32ToU7 :: "u32 \<Rightarrow> u8" where
  [ump_defs]: "U32ToU7 v32 = ucast (drop_bit 25 (v32 + ROUND_U32_TO_U7))"

definition U32ToU14 :: "u32 \<Rightarrow> u16" where
  [ump_defs]: "U32ToU14 v32 = ucast (drop_bit 18 (v32 + ROUND_U32_TO_U14))"

section \<open>Builders\<close>

record Midi2ChannelVoiceMsg =
  m2_group :: u8
  statusNibble :: u8
  channel :: u8
  m2_data1 :: u8
  m2_data2 :: u8
  value32 :: u32

record Midi1ChannelVoiceMsg =
  m1_group :: u8
  statusByte :: u8
  m1_data1 :: u8
  m1_data2 :: u8

definition PushMidi2ChannelVoice :: "u32 list \<Rightarrow> Midi2ChannelVoiceMsg \<Rightarrow> u32 list" where
  "PushMidi2ChannelVoice out msg =
     (let w0 = push_bit 28 (ucast (0x4 :: u8))
            OR push_bit 24 (ucast (m2_group msg AND 0x0F))
            OR push_bit 20 (ucast (statusNibble msg AND 0x0F))
            OR push_bit 16 (ucast (channel msg AND 0x0F))
            OR push_bit 8 (ucast (m2_data1 msg))
            OR push_bit 0 (ucast (m2_data2 msg))
      in out @ [w0] @ [value32 msg])"

definition PushMidi1ChannelVoice :: "u32 list \<Rightarrow> Midi1ChannelVoiceMsg \<Rightarrow> u32 list" where
  "PushMidi1ChannelVoice out msg =
     (let w0 = push_bit 28 (ucast (0x2 :: u8))
            OR push_bit 24 (ucast (m1_group msg AND 0x0F))
            OR push_bit 16 (ucast (statusByte msg))
            OR push_bit 8 (ucast (m1_data1 msg))
            OR push_bit 0 (ucast (m1_data2 msg))
      in out @ [w0])"

section \<open>Conversion of channel voice messages\<close>

text \<open>
  The message is an in-out parameter that the caller does not read again, so only the verdict
  and the output vector are returned.
\<close>

definition ConvertMidi1ChannelVoiceToMidi2Inner ::
  "u8 \<Rightarrow> u8 \<Rightarrow> u8 \<Rightarrow> Midi2ChannelVoiceMsg \<Rightarrow> u32 list \<Rightarrow> bool \<times> u32 list" where
  "ConvertMidi1ChannelVoiceToMidi2Inner sn d1 d2 m out =
     (if sn = 0x8 \<or> sn = 0x9 then
        (True, PushMidi2ChannelVoice out
           (m\<lparr>m2_data1 := d1 AND 0x7F, m2_data2 := 0, value32 := U7ToU32 (d2 AND 0x7F)\<rparr>))
      else if sn = 0xA then
        (True, PushMidi2ChannelVoice out
           (m\<lparr>m2_data1 := d1 AND 0x7F, m2_data2 := 0, value32 := U7ToU32 (d2 AND 0x7F)\<rparr>))
      else if sn = 0xB then
        (True, PushMidi2ChannelVoice out
           (m\<lparr>m2_data1 := d1, m2_data2 := 0, value32 := U7ToU32 (d2 AND 0x7F)\<rparr>))
      else if sn = 0xC then
        (True, PushMidi2ChannelVoice out
           (m\<lparr>m2_data1 := d1 AND 0x7F, m2_data2 := 0, value32 := U7ToU32 (d1 AND 0x7F)\<rparr>))
      else if sn = 0xD then
        (True, PushMidi2ChannelVoice out
           (m\<lparr>m2_data1 := 0, m2_data2 := 0, value32 := U7ToU32 (d1 AND 0x7F)\<rparr>))
      else if sn = 0xE then
        (let lsb7 = (ucast (d1 AND 0x7F) :: u16);
             msb7 = (ucast (d2 AND 0x7F) :: u16);
             pb14 = push_bit 7 msb7 OR lsb7
         in (True, PushMidi2ChannelVoice out
               (m\<lparr>m2_data1 := 0, m2_data2 := 0, value32 := U14ToU32 (pb14 AND 0x3FFF)\<rparr>)))
      else (False, out))"

definition ConvertMidi2ChannelVoiceToMidi1Inner ::
  "u8 \<Rightarrow> u8 \<Rightarrow> u32 \<Rightarrow> Midi1ChannelVoiceMsg \<Rightarrow> u32 list \<Rightarrow> bool \<times> u32 list" where
  "ConvertMidi2ChannelVoiceToMidi1Inner sn d1 w1 m out =
     (if sn = 0x8 \<or> sn = 0x9 \<or> sn = 0xA then
        (True, PushMidi1ChannelVoice out
           (m\<lparr>m1_data1 := d1 AND 0x7F, m1_data2 := U32ToU7 w1 AND 0x7F\<rparr>))
      else if sn = 0xB then
        (True, PushMidi1ChannelVoice out
           (m\<lparr>m1_data1 := d1, m1_data2 := U32ToU7 w1 AND 0x7F\<rparr>))
      else if sn = 0xC then
        (True, PushMidi1ChannelVoice out (m\<lparr>m1_data1 := d1 AND 0x7F, m1_data2 := 0\<rparr>))
      else if sn = 0xD then
        (True, PushMidi1ChannelVoice out (m\<lparr>m1_data1 := U32ToU7 w1 AND 0x7F, m1_data2 := 0\<rparr>))
      else if sn = 0xE then
        (let pb14 = U32ToU14 w1 AND 0x3FFF
         in (True, PushMidi1ChannelVoice out
               (m\<lparr>m1_data1 := ucast (pb14 AND 0x7F), m1_data2 := ucast (drop_bit 7 pb14 AND 0x7F)\<rparr>)))
      else (False, out))"

definition ConvertMidi1ChannelVoiceToMidi2 :: "u32 list \<Rightarrow> u32 list \<Rightarrow> bool \<times> u32 list" where
  "ConvertMidi1ChannelVoiceToMidi2 inWords out =
     (if length inWords \<noteq> 1 then (False, out)
      else
        let w0 = inWords ! 0;
            status = Byte2 w0;
            d1 = Byte1 w0;
            d2 = Byte0 w0;
            sn = drop_bit 4 status AND 0x0F;
            ch = status AND 0x0F;
            m = \<lparr>m2_group = Group w0, statusNibble = sn, channel = ch,
                 m2_data1 = 0, m2_data2 = 0, value32 = 0\<rparr>
        in ConvertMidi1ChannelVoiceToMidi2Inner sn d1 d2 m out)"

definition ConvertMidi2ChannelVoiceToMidi1 :: "u32 list \<Rightarrow> u32 list \<Rightarrow> bool \<times> u32 list" where
  "ConvertMidi2ChannelVoiceToMidi1 inWords out =
     (if length inWords \<noteq> 2 then (False, out)
      else
        let w0 = inWords ! 0;
            w1 = inWords ! 1;
            sn = (ucast (drop_bit 20 w0 AND 0x0F) :: u8);
            ch = (ucast (drop_bit 16 w0 AND 0x0F) :: u8);
            d1 = (ucast (drop_bit 8 w0 AND 0xFF) :: u8);
            m = \<lparr>m1_group = Group w0, statusByte = push_bit 4 sn OR (ch AND 0x0F),
                 m1_data1 = 0, m1_data2 = 0\<rparr>
        in ConvertMidi2ChannelVoiceToMidi1Inner sn d1 w1 m out)"

section \<open>Public entry\<close>

datatype Direction = Midi1ToMidi2 | Midi2ToMidi1

definition ConvertOne :: "Direction \<Rightarrow> u32 list option \<Rightarrow> u32 list \<Rightarrow> bool \<times> u32 list" where
  "ConvertOne dir inp out =
     (case inp of
        None \<Rightarrow> (False, out)
      | Some inWords \<Rightarrow>
          if inWords = [] then (False, out)
          else
            let w0 = inWords ! 0;
                mt = MessageType w0
            in if mt = 0x1 then
                 (if length inWords \<noteq> 1 then (False, out) else (True, out @ [w0]))
               else if mt = 0x3 then
                 (if length inWords mod 2 \<noteq> 0 then (False, out) else (True, out @ inWords))
               else if dir = Midi1ToMidi2 then
                 (if mt \<noteq> 0x2 then (False, out)
                  else ConvertMidi1ChannelVoiceToMidi2 inWords out)
               else if mt \<noteq> 0x4 then (False, out)
               else ConvertMidi2ChannelVoiceToMidi1 inWords out)"

definition ConvertMidi1ToMidi2 :: "u32 list option \<Rightarrow> u32 list \<Rightarrow> bool \<times> u32 list" where
  "ConvertMidi1ToMidi2 inp out = ConvertOne Midi1ToMidi2 inp out"

definition ConvertMidi2ToMidi1 :: "u32 list option \<Rightarrow> u32 list \<Rightarrow> bool \<times> u32 list" where
  "ConvertMidi2ToMidi1 inp out = ConvertOne Midi2ToMidi1 inp out"

section \<open>Packet splitting\<close>

definition UMP_WORD_COUNT :: "nat list" where
  "UMP_WORD_COUNT = [1, 1, 1, 2, 2, 4, 1, 1, 2, 2, 2, 3, 3, 4, 4, 4]"

definition GetUmpWordCount :: "u32 \<Rightarrow> nat" where
  "GetUmpWordCount word0 =
     (let mt = MessageType word0
      in if mt = 0xD then
           (let fmt = (ucast (drop_bit 20 word0 AND 0x0F) :: u8)
            in if fmt < 8 then 2 else 4)
         else UMP_WORD_COUNT ! unat mt)"

text \<open>
  The loop over \<open>offset\<close>. A packet is reported as the pair of the offset of its first word (for
  the pointer \<open>data + offset\<close>) and its length. The loop advances by at least one word, so the
  distance to the end is a measure.
\<close>

function SplitLoop :: "u32 list \<Rightarrow> nat \<Rightarrow> (nat \<times> nat) list \<Rightarrow> (nat \<times> nat) list" where
  "SplitLoop ws offset outPackets =
     (if offset < length ws then
        (let pktLen = GetUmpWordCount (ws ! offset)
         in if pktLen = 0 then SplitLoop ws (offset + 1) outPackets
            else if offset + pktLen > length ws then outPackets
            else SplitLoop ws (offset + pktLen) (outPackets @ [(offset, pktLen)]))
      else outPackets)"
  by pat_completeness auto
termination
  by (relation "measure (\<lambda>(ws, offset, out). length ws - offset)") (auto simp: Let_def)

declare SplitLoop.simps [simp del]

definition SplitUmpPackets :: "u32 list option \<Rightarrow> (nat \<times> nat) list" where
  "SplitUmpPackets d =
     (case d of None \<Rightarrow> [] | Some ws \<Rightarrow> if ws = [] then [] else SplitLoop ws 0 [])"

definition packet_words :: "u32 list \<Rightarrow> nat \<times> nat \<Rightarrow> u32 list" where
  "packet_words ws p = take (snd p) (drop (fst p) ws)"

section \<open>Packed words\<close>

text \<open>The two channel voice words, with what the field extractors read back from them.\<close>

definition cv1_word :: "u8 \<Rightarrow> u8 \<Rightarrow> u8 \<Rightarrow> u8 \<Rightarrow> u32" where
  "cv1_word g s a b = push_bit 28 (ucast (0x2 :: u8))
            OR push_bit 24 (ucast (g AND 0x0F))
            OR push_bit 16 (ucast s)
            OR push_bit 8 (ucast a)
            OR push_bit 0 (ucast b)"

definition cv2_word :: "u8 \<Rightarrow> u8 \<Rightarrow> u8 \<Rightarrow> u8 \<Rightarrow> u8 \<Rightarrow> u32" where
  "cv2_word g sn ch a b = push_bit 28 (ucast (0x4 :: u8))
            OR push_bit 24 (ucast (g AND 0x0F))
            OR push_bit 20 (ucast (sn AND 0x0F))
            OR push_bit 16 (ucast (ch AND 0x0F))
            OR push_bit 8 (ucast a)
            OR push_bit 0 (ucast b)"

lemma cv1_word_sel [simp]:
  "MessageType (cv1_word g s a b) = 2"
  "Group (cv1_word g s a b) = g AND 0x0F"
  "Byte2 (cv1_word g s a b) = s"
  "Byte1 (cv1_word g s a b) = a"
  "Byte0 (cv1_word g s a b) = b"
  unfolding ump_defs cv1_word_def and_masks
  by (rule bit_word_eqI; auto simp: bit_simps dest: bit_imp_le_length)+

lemma cv2_word_sel [simp]:
  "MessageType (cv2_word g sn ch a b) = 4"
  "Group (cv2_word g sn ch a b) = g AND 0x0F"
  "ucast (drop_bit 20 (cv2_word g sn ch a b) AND 0x0F) = sn AND 0x0F"
  "ucast (drop_bit 16 (cv2_word g sn ch a b) AND 0x0F) = ch AND 0x0F"
  "ucast (drop_bit 8 (cv2_word g sn ch a b) AND 0xFF) = a"
  unfolding ump_defs cv2_word_def and_masks
  by (rule bit_word_eqI; auto simp: bit_simps dest: bit_imp_le_length)+

lemma PushMidi1_word:
  "PushMidi1ChannelVoice out msg =
     out @ [cv1_word (m1_group msg) (statusByte msg) (m1_data1 msg) (m1_data2 msg)]"
  by (simp add: PushMidi1ChannelVoice_def cv1_word_def)

lemma PushMidi2_word:
  "PushMidi2ChannelVoice out msg =
     out @ [cv2_word (m2_group msg) (statusNibble msg) (channel msg) (m2_data1 msg) (m2_data2 msg),
            value32 msg]"
  by (simp add: PushMidi2ChannelVoice_def cv2_word_def)

lemma drop_bit_28_id: "MessageType w = 2 \<Longrightarrow> drop_bit 28 w = 2"
proof -
  have "ucast (MessageType w) = drop_bit 28 w"
    unfolding ump_defs and_masks
    by (rule bit_word_eqI; auto simp: bit_simps dest: bit_imp_le_length)
  moreover have "ucast (2::u8) = (2::u32)" by simp
  ultimately show "MessageType w = 2 \<Longrightarrow> drop_bit 28 w = 2" by metis
qed

lemma cv1_word_eta:
  assumes "MessageType w = 2"
  shows "cv1_word (Group w) (Byte2 w) (Byte1 w) (Byte0 w) = w"
proof -
  have mt: "drop_bit 28 w = 2" using assms by (rule drop_bit_28_id)
  have "w = push_bit 28 (drop_bit 28 w) OR take_bit 28 w"
    by (rule bit_word_eqI) (auto simp: bit_simps)
  also have "\<dots> = cv1_word (Group w) (Byte2 w) (Byte1 w) (Byte0 w)"
    unfolding mt
  proof (rule bit_word_eqI)
    fix n assume "n < LENGTH(32)"
    then consider "n < 8" | "8 \<le> n" "n < 16" | "16 \<le> n" "n < 24" | "24 \<le> n" "n < 28" | "28 \<le> n" "n < 32"
      by force
    then show "bit (push_bit 28 2 OR take_bit 28 w) n = bit (cv1_word (Group w) (Byte2 w) (Byte1 w) (Byte0 w)) n"
      unfolding ump_defs cv1_word_def and_masks
      by cases (auto simp: bit_simps)
  qed
  finally show ?thesis by simp
qed

lemma U7_add: "push_bit 25 (ucast (v::u8)) + (0x01000000 :: u32) = push_bit 25 (ucast v) OR 2^24"
proof -
  have "push_bit 25 (ucast (v::u8)) + (2 ^ 24 :: u32) = push_bit 25 (ucast v) OR 2^24"
    by (rule disjunctive_add_eq_or, rule bit_word_eqI) (auto simp: bit_simps simp del: power_numeral)
  then show ?thesis by simp
qed

lemma U14_add: "push_bit 18 (ucast (v::u16)) + (0x00020000 :: u32) = push_bit 18 (ucast v) OR 2^17"
proof -
  have "push_bit 18 (ucast (v::u16)) + (2 ^ 17 :: u32) = push_bit 18 (ucast v) OR 2^17"
    by (rule disjunctive_add_eq_or, rule bit_word_eqI) (auto simp: bit_simps simp del: power_numeral)
  then show ?thesis by simp
qed

lemma U7_roundtrip: "U32ToU7 (U7ToU32 v) AND 0x7F = v AND 0x7F"
  unfolding ump_defs and_masks U7_add
  by (rule bit_word_eqI; auto simp: bit_simps dest: bit_imp_le_length simp del: power_numeral)

lemma U14_roundtrip: "U32ToU14 (U14ToU32 v) AND 0x3FFF = v AND 0x3FFF"
  unfolding ump_defs and_masks U14_add
  by (rule bit_word_eqI; auto simp: bit_simps dest: bit_imp_le_length simp del: power_numeral)

definition status_nibble_ok :: "u8 \<Rightarrow> bool" where
  "status_nibble_ok sn \<longleftrightarrow> sn \<in> {0x8, 0x9, 0xA, 0xB, 0xC, 0xD, 0xE}"

definition midi1_cv_ok :: "u32 \<Rightarrow> bool" where
  "midi1_cv_ok w \<longleftrightarrow>
     MessageType w = 2 \<and> status_nibble_ok (drop_bit 4 (Byte2 w)) \<and> Byte1 w < 0x80 \<and> Byte0 w < 0x80
     \<and> (drop_bit 4 (Byte2 w) \<in> {0xC, 0xD} \<longrightarrow> Byte0 w = 0)"

lemma drop_bit_4_and: "drop_bit 4 (s::u8) AND 0x0F = drop_bit 4 s"
  unfolding and_masks
  by (rule bit_word_eqI; auto simp: bit_simps dest: bit_imp_le_length)

lemma status_join: "push_bit 4 (drop_bit 4 (s::u8)) OR (s AND 0x0F) = s"
  unfolding and_masks
proof (rule bit_word_eqI)
  fix n assume "n < LENGTH(8)"
  then show "bit (push_bit 4 (drop_bit 4 s) OR take_bit 4 s) n = bit s n"
    by (cases "n < 4") (auto simp: bit_simps)
qed

definition m2_first :: "u8 \<Rightarrow> u8 \<Rightarrow> u8" where
  "m2_first sn d1 = (if sn = 0xB then d1 else if sn = 0xD \<or> sn = 0xE then 0 else d1 AND 0x7F)"

definition pitch14 :: "u8 \<Rightarrow> u8 \<Rightarrow> u16" where
  "pitch14 d1 d2 = (push_bit 7 (ucast (d2 AND 0x7F)) OR ucast (d1 AND 0x7F)) AND 0x3FFF"

definition m2_value :: "u8 \<Rightarrow> u8 \<Rightarrow> u8 \<Rightarrow> u32" where
  "m2_value sn d1 d2 =
     (if sn = 0xC \<or> sn = 0xD then U7ToU32 (d1 AND 0x7F)
      else if sn = 0xE then U14ToU32 (pitch14 d1 d2)
      else U7ToU32 (d2 AND 0x7F))"

lemma Convert1to2_Inner:
  "status_nibble_ok sn \<Longrightarrow>
   ConvertMidi1ChannelVoiceToMidi2Inner sn d1 d2 m out =
     (True, out @ [cv2_word (m2_group m) (statusNibble m) (channel m) (m2_first sn d1) 0,
                   m2_value sn d1 d2])"
  by (auto simp: status_nibble_ok_def ConvertMidi1ChannelVoiceToMidi2Inner_def PushMidi2_word
      m2_first_def m2_value_def pitch14_def Let_def)

lemma pitch14_split:
  "ucast (pitch14 d1 d2 AND 0x7F) = d1 AND 0x7F"
  "ucast (drop_bit 7 (pitch14 d1 d2) AND 0x7F) = d2 AND 0x7F"
  "pitch14 d1 d2 AND 0x3FFF = pitch14 d1 d2"
  unfolding pitch14_def and_masks
  by (rule bit_word_eqI; auto simp: bit_simps dest: bit_imp_le_length)+

lemma Convert2to1_Inner:
  assumes "status_nibble_ok sn" "d1 < 0x80" "d2 < 0x80" "sn \<in> {0xC, 0xD} \<longrightarrow> d2 = 0"
  shows "ConvertMidi2ChannelVoiceToMidi1Inner sn (m2_first sn d1) (m2_value sn d1 d2) m out =
     (True, out @ [cv1_word (m1_group m) (statusByte m) d1 d2])"
  using assms(1,4) unfolding status_nibble_ok_def
  by (auto simp: ConvertMidi2ChannelVoiceToMidi1Inner_def PushMidi1_word m2_first_def m2_value_def Let_def
      U7_roundtrip U14_roundtrip and_0x7F_id assms(2,3) pitch14_split)


section \<open>Packets\<close>

text \<open>
  The reference splitting by structural recursion, which \<open>SplitLoop\<close> implements.
\<close>

lemma MessageType_less: "MessageType w < 16"
proof -
  have "MessageType w = take_bit 4 (MessageType w)"
    unfolding ump_defs and_masks by (rule bit_word_eqI; auto simp: bit_simps)
  then have "MessageType w AND mask 4 = MessageType w" by (simp add: take_bit_eq_mask)
  then have "MessageType w < 2 ^ 4" using and_mask_less' [of 4 "MessageType w"] by (simp del: power_numeral)
  then show ?thesis by simp
qed

lemma unat_MessageType_less: "unat (MessageType w) < 16"
  using MessageType_less [of w] by (simp add: word_less_nat_alt)

lemma UMP_WORD_COUNT_range: "i < 16 \<Longrightarrow> UMP_WORD_COUNT ! i \<in> {1, 2, 3, 4}"
proof -
  assume "i < 16"
  then have "UMP_WORD_COUNT ! i \<in> set UMP_WORD_COUNT"
    by (intro nth_mem) (simp add: UMP_WORD_COUNT_def)
  then show ?thesis by (auto simp: UMP_WORD_COUNT_def)
qed

lemma GetUmpWordCount_range: "GetUmpWordCount w \<in> {1, 2, 3, 4}"
  using UMP_WORD_COUNT_range [OF unat_MessageType_less, of w]
  by (auto simp: GetUmpWordCount_def Let_def)

lemma GetUmpWordCount_bounds [simp]: "0 < GetUmpWordCount w" "GetUmpWordCount w \<noteq> 0"
  "GetUmpWordCount w \<le> 4"
  using GetUmpWordCount_range [of w] by auto

fun ump_packets :: "u32 list \<Rightarrow> u32 list list" where
  "ump_packets [] = []"
| "ump_packets (w # ws) =
     (let n = GetUmpWordCount w
      in if n \<le> Suc (length ws) then (w # take (n - 1) ws) # ump_packets (drop (n - 1) ws) else [])"

definition ump_packet_ok :: "u32 list \<Rightarrow> bool" where
  "ump_packet_ok p \<longleftrightarrow> p \<noteq> [] \<and> length p = GetUmpWordCount (hd p)"

lemma SplitLoop_packets:
  "map (packet_words ws) (SplitLoop ws off out)
     = map (packet_words ws) out @ ump_packets (drop off ws)"
proof (induction ws off out rule: SplitLoop.induct)
  case (1 ws off out)
  show ?case
  proof (cases "off < length ws")
    case True
    define n where "n = GetUmpWordCount (ws ! off)"
    have n: "0 < n" by (simp add: n_def)
    have d: "drop off ws = ws ! off # drop (Suc off) ws" using True by (simp add: Cons_nth_drop_Suc)
    have p: "packet_words ws (off, n) = ws ! off # take (n - 1) (drop (Suc off) ws)"
      using n by (cases n) (simp_all add: packet_words_def d)
    have r: "drop (n - 1) (drop (Suc off) ws) = drop (n + off) ws" using n by simp
    show ?thesis
      using True n 1 by (subst SplitLoop.simps) (auto simp: d p r add.commute Let_def n_def [symmetric])
  qed (simp add: SplitLoop.simps)
qed

lemma SplitUmpPackets_packets:
  "map (packet_words ws) (SplitUmpPackets (Some ws)) = ump_packets ws"
  by (cases "ws = []") (simp_all add: SplitUmpPackets_def SplitLoop_packets)

lemma ump_packets_ok: "p \<in> set (ump_packets ws) \<Longrightarrow> ump_packet_ok p"
proof (induction ws rule: ump_packets.induct)
  case (2 w ws)
  have "0 < GetUmpWordCount w" by simp
  with 2 show ?case by (auto simp: Let_def ump_packet_ok_def min_def simp del: GetUmpWordCount_bounds split: if_splits)
qed simp

lemma ump_packets_maximal:
  "\<exists>rest. ws = concat (ump_packets ws) @ rest \<and> (rest = [] \<or> length rest < GetUmpWordCount (hd rest))"
proof (induction ws rule: ump_packets.induct)
  case (2 w ws)
  define n where "n = GetUmpWordCount w"
  have n: "0 < n" by (simp add: n_def)
  show ?case
  proof (cases "n \<le> Suc (length ws)")
    case True
    then obtain rest where r: "drop (n - 1) ws = concat (ump_packets (drop (n - 1) ws)) @ rest"
      "rest = [] \<or> length rest < GetUmpWordCount (hd rest)"
      using "2.IH" [OF n_def] by blast
    have "w # ws = concat (ump_packets (w # ws)) @ rest"
      using True r(1) append_take_drop_id [of "n - 1" ws] by (simp add: Let_def n_def [symmetric])
    with r(2) show ?thesis by blast
  qed (auto simp: Let_def n_def)
qed simp

lemma ump_packets_concat:
  "\<forall>p\<in>set ps. ump_packet_ok p \<Longrightarrow> ump_packets (concat ps) = ps"
proof (induction ps)
  case (Cons p ps)
  then obtain w t where p: "p = w # t" "Suc (length t) = GetUmpWordCount w"
    by (cases p) (auto simp: ump_packet_ok_def)
  then show ?case using Cons by (simp add: Let_def p(2) [symmetric])
qed simp

lemma div_mod_wrap:
  "v < (2::nat)^32 \<Longrightarrow> k < 32 \<Longrightarrow>
    (v + 2^k) mod 2^32 div 2^Suc k = (if v + 2^k < 2^32 then (v + 2^k) div 2^Suc k else 0)"
proof -
  assume v: "v < 2^32" and k: "k < 32"
  show ?thesis
  proof (cases "v + 2^k < 2^32")
    case False
    have kk: "(2::nat)^k < 2^32" using k by (intro power_strict_increasing) auto
    have "(v + 2^k) mod 2^32 = (v + 2^k - 2^32) mod 2^32" using False by (simp add: le_mod_geq del: power_numeral)
    also have "\<dots> = v + 2^k - 2^32" using False v kk by (intro mod_less) linarith
    also have "\<dots> < 2 ^ k" using v kk False by linarith
    finally show ?thesis using False by simp
  qed (simp del: power_numeral)
qed

lemma unat_U32ToU7:
  "unat (U32ToU7 v) = (if unat v + 2^24 < 2^32 then (unat v + 2^24) div 2^25 else 0)"
proof -
  have v: "unat v < 2^32" using unsigned_less [of v, where ?'a = nat] by simp
  have "unat (U32ToU7 v) = unat (drop_bit 25 (v + 2^24)) mod 256"
    by (simp add: ump_defs unsigned_ucast_eq take_bit_eq_mod)
  also have "unat (drop_bit 25 (v + 2^24)) = (unat v + 2^24) mod 2^32 div 2^25"
    by (simp add: unsigned_drop_bit_eq drop_bit_eq_div unat_word_ariths)
  also have "\<dots> = (if unat v + 2^24 < 2^32 then (unat v + 2^24) div 2^25 else 0)"
    using div_mod_wrap [of "unat v" 24, OF v] by (simp only: Suc_numeral) simp
  also have "\<dots> mod 256 = (if unat v + 2^24 < 2^32 then (unat v + 2^24) div 2^25 else 0)"
    by (rule mod_less) (simp add: less_mult_imp_div_less)
  finally show ?thesis .
qed

lemma unat_U32ToU14:
  "unat (U32ToU14 v) = (if unat v + 2^17 < 2^32 then (unat v + 2^17) div 2^18 else 0)"
proof -
  have v: "unat v < 2^32" using unsigned_less [of v, where ?'a = nat] by simp
  have "unat (U32ToU14 v) = unat (drop_bit 18 (v + 2^17)) mod 65536"
    by (simp add: ump_defs unsigned_ucast_eq take_bit_eq_mod)
  also have "unat (drop_bit 18 (v + 2^17)) = (unat v + 2^17) mod 2^32 div 2^18"
    by (simp add: unsigned_drop_bit_eq drop_bit_eq_div unat_word_ariths)
  also have "\<dots> = (if unat v + 2^17 < 2^32 then (unat v + 2^17) div 2^18 else 0)"
    using div_mod_wrap [of "unat v" 17, OF v] by (simp only: Suc_numeral) simp
  also have "\<dots> mod 65536 = (if unat v + 2^17 < 2^32 then (unat v + 2^17) div 2^18 else 0)"
    by (rule mod_less) (simp add: less_mult_imp_div_less)
  finally show ?thesis .
qed

lemma Convert2to1_shape:
  "\<exists>p. ConvertMidi2ChannelVoiceToMidi1Inner sn d1 w1 m out = (False, out) \<or>
       ConvertMidi2ChannelVoiceToMidi1Inner sn d1 w1 m out
         = (True, out @ [cv1_word (m1_group m) (statusByte m) (fst p) (snd p)])"
  by (simp add: ConvertMidi2ChannelVoiceToMidi1Inner_def PushMidi1_word Let_def) (metis fst_conv snd_conv)

lemma Convert1to2_shape:
  "ConvertMidi1ChannelVoiceToMidi2Inner sn d1 d2 m out =
     (if status_nibble_ok sn then
        (True, out @ [cv2_word (m2_group m) (statusNibble m) (channel m) (m2_first sn d1) 0, m2_value sn d1 d2])
      else (False, out))"
  by (cases "status_nibble_ok sn")
    (simp_all add: Convert1to2_Inner, simp add: status_nibble_ok_def ConvertMidi1ChannelVoiceToMidi2Inner_def)

lemma word_count_by_type:
  "MessageType w = 1 \<Longrightarrow> GetUmpWordCount w = 1"
  "MessageType w = 2 \<Longrightarrow> GetUmpWordCount w = 1"
  "MessageType w = 3 \<Longrightarrow> GetUmpWordCount w = 2"
  "MessageType w = 4 \<Longrightarrow> GetUmpWordCount w = 2"
  by (simp_all add: GetUmpWordCount_def UMP_WORD_COUNT_def)

lemma Group_nibble [simp]: "Group w AND 0x0F = Group w"
  unfolding ump_defs and_masks by (rule bit_word_eqI; auto simp: bit_simps)

lemma unat_and_0x7F: "unat (x::u8) < 128 \<Longrightarrow> unat (x AND 0x7F) = unat x"
  by (simp add: and_0x7F_id word_less_nat_alt)


lemma ConvertOne_packet:
  assumes "ump_packet_ok ws"
  shows "case ConvertOne dir (Some ws) out of (ok, out') \<Rightarrow>
     (if ok then \<exists>p. out' = out @ p \<and> ump_packet_ok p \<and> Group (hd p) = Group (hd ws)
          \<and> MessageType (hd p) \<in> {1, 3, case dir of Midi1ToMidi2 \<Rightarrow> 4 | Midi2ToMidi1 \<Rightarrow> 2}
      else out' = out)"
proof -
  obtain w t where ws: "ws = w # t" and l: "Suc (length t) = GetUmpWordCount w"
    using assms by (cases ws) (auto simp: ump_packet_ok_def)
  consider "MessageType w = 1" | "MessageType w = 3" | "MessageType w \<noteq> 1" "MessageType w \<noteq> 3" "dir = Midi1ToMidi2"
    | "MessageType w \<noteq> 1" "MessageType w \<noteq> 3" "dir = Midi2ToMidi1"
    by (cases dir) auto
  then show ?thesis
  proof cases
    case 3
    then show ?thesis using l
      by (simp add: ConvertOne_def ws ConvertMidi1ChannelVoiceToMidi2_def Convert1to2_shape Let_def
          ump_packet_ok_def word_count_by_type)
  next
    case 4
    obtain p where p: "\<And>sn d1 w1 m. ConvertMidi2ChannelVoiceToMidi1Inner sn d1 w1 m out = (False, out) \<or>
       ConvertMidi2ChannelVoiceToMidi1Inner sn d1 w1 m out
         = (True, out @ [cv1_word (m1_group m) (statusByte m) (fst (p sn d1 w1 m)) (snd (p sn d1 w1 m))])"
      using Convert2to1_shape [of _ _ _ _ out] by metis
    show ?thesis using l 4
      using p [of "ucast (drop_bit 20 w AND 0x0F)" "ucast (drop_bit 8 w AND 0xFF)" "t ! 0"
         "\<lparr>m1_group = Group w, statusByte = push_bit 4 (ucast (drop_bit 20 w AND 0x0F))
            OR (ucast (drop_bit 16 w AND 0x0F) AND 0x0F), m1_data1 = 0, m1_data2 = 0\<rparr>"]
      by (auto simp: ConvertOne_def ws ConvertMidi2ChannelVoiceToMidi1_def Let_def
          ump_packet_ok_def word_count_by_type)
  qed (use l in \<open>auto simp: ConvertOne_def ws ump_packet_ok_def word_count_by_type\<close>)
qed

section \<open>Properties\<close>

text \<open>
  C1: converting a well-formed MIDI 1.0 channel voice packet to MIDI 2.0 gives a two word packet,
  and converting that back gives the original packet: the upward scaling loses nothing.
\<close>

theorem convert_roundtrip_midi1:
  assumes "midi1_cv_ok w"
  shows "\<exists>ws. ConvertMidi1ToMidi2 (Some [w]) [] = (True, ws) \<and> length ws = 2
      \<and> ConvertMidi2ToMidi1 (Some ws) [] = (True, [w])"
proof -
  note ok = assms [unfolded midi1_cv_ok_def]
  let ?sn = "drop_bit 4 (Byte2 w)"
  let ?ws = "[cv2_word (Group w) ?sn (Byte2 w AND 0x0F) (m2_first ?sn (Byte1 w)) 0,
              m2_value ?sn (Byte1 w) (Byte0 w)]"
  have "ConvertMidi1ToMidi2 (Some [w]) [] = (True, ?ws)"
    using ok by (simp add: ConvertMidi1ToMidi2_def ConvertOne_def ConvertMidi1ChannelVoiceToMidi2_def
        drop_bit_4_and Convert1to2_Inner Let_def)
  moreover have "Group w AND 0x0F = Group w"
    unfolding ump_defs and_masks by (rule bit_word_eqI; auto simp: bit_simps)
  then have "ConvertMidi2ToMidi1 (Some ?ws) [] = (True, [w])"
    using ok by (simp add: ConvertMidi2ToMidi1_def ConvertOne_def ConvertMidi2ChannelVoiceToMidi1_def
       drop_bit_4_and Convert2to1_Inner status_join cv1_word_eta Let_def)
  ultimately show ?thesis by simp
qed

theorem convert_roundtrip_midi1_witness:
  "midi1_cv_ok 0x20913C40 \<and> (\<exists>ws. ConvertMidi1ToMidi2 (Some [0x20913C40]) [] = (True, ws)
     \<and> length ws = 2 \<and> ConvertMidi2ToMidi1 (Some ws) [] = (True, [0x20913C40]))"
proof -
  have "midi1_cv_ok 0x20913C40" by code_simp
  from convert_roundtrip_midi1 [OF this] this show ?thesis by blast
qed

text \<open>
  The packets that \<open>SplitUmpPackets\<close> reports are whole packets whose concatenation is a
  prefix of the block, and what is left behind it is too short to hold the packet it starts.
\<close>

lemma split_packets_maximal:
  "\<exists>rest. ws = concat (map (packet_words ws) (SplitUmpPackets (Some ws))) @ rest
     \<and> (rest = [] \<or> length rest < GetUmpWordCount (hd rest))
     \<and> list_all ump_packet_ok (map (packet_words ws) (SplitUmpPackets (Some ws)))"
  unfolding SplitUmpPackets_packets
  using ump_packets_maximal [of ws] by (auto simp: list_all_iff intro: ump_packets_ok)

text \<open>
  Splitting the concatenation of whole packets gives exactly those packets.
\<close>

lemma split_packets_roundtrip:
  assumes "\<forall>p\<in>set ps. ump_packet_ok p"
  shows "map (packet_words (concat ps)) (SplitUmpPackets (Some (concat ps))) = ps"
  unfolding SplitUmpPackets_packets by (rule ump_packets_concat [OF assms])

text \<open>
  C2: converting a MIDI 2.0 note (or poly pressure) message keeps status, channel and note, and
  rounds the 32 bit velocity to the nearest 7 bit value, except that the top half step does not
  saturate at 127: the addition of the rounding constant wraps and the velocity becomes 0.
\<close>

theorem midi2_velocity_rounds:
  assumes "MessageType w0 = 4" "Byte2 w0 = push_bit 4 sn OR ch" "sn \<in> {0x8, 0x9, 0xA}" "ch < 16"
  shows "\<exists>w. ConvertMidi2ToMidi1 (Some [w0, w1]) [] = (True, [w]) \<and> Byte2 w = Byte2 w0
     \<and> Byte1 w = Byte1 w0 AND 0x7F
     \<and> unat (Byte0 w) = (if unat w1 + 2^24 < 2^32 then (unat w1 + 2^24) div 2^25 else 0)"
proof -
  have c: "ch = take_bit 4 ch" using assms(4) less_mask_eq [of ch 4] by (simp add: take_bit_eq_mask)
  have sn: "ucast (drop_bit 20 w0 AND 0x0F) = drop_bit 4 (Byte2 w0)"
    and ch: "ucast (drop_bit 16 w0 AND 0x0F) = Byte2 w0 AND 0x0F"
    and d1: "ucast (drop_bit 8 w0 AND 0xFF) = Byte1 w0"
    unfolding ump_defs and_masks
    by (rule bit_word_eqI; auto simp: bit_simps dest: bit_imp_le_length)+
  have "drop_bit 4 (Byte2 w0) = drop_bit 4 (push_bit 4 sn)"
    unfolding assms(2) by (subst c, rule bit_word_eqI) (auto simp: bit_simps)
  also have "\<dots> = sn" using assms(3) by auto
  finally have s: "drop_bit 4 (Byte2 w0) = sn" .
  have "unat (U32ToU7 w1) < 128"
    unfolding unat_U32ToU7 by (auto intro: less_mult_imp_div_less)
  then have u: "unat (U32ToU7 w1 AND 0x7F) = unat (U32ToU7 w1)" by (rule unat_and_0x7F)
  have j: "push_bit 4 sn OR (Byte2 w0 AND 0x0F) = Byte2 w0"
    using status_join [of "Byte2 w0"] by (simp only: s)
  show ?thesis
    unfolding unat_U32ToU7 [symmetric] using assms(1,3)
    by (simp add: ConvertMidi2ToMidi1_def ConvertOne_def ConvertMidi2ChannelVoiceToMidi1_def Let_def sn ch d1 s
        ConvertMidi2ChannelVoiceToMidi1Inner_def PushMidi1_word u j)
qed

theorem midi2_velocity_rounds_witness:
  "\<exists>w. ConvertMidi2ToMidi1 (Some [0x40913C00, 0xFFFFFFFF]) [] = (True, [w])
     \<and> Byte2 w = Byte2 0x40913C00 \<and> Byte1 w = Byte1 0x40913C00 AND 0x7F
     \<and> unat (Byte0 w) = (if unat (0xFFFFFFFF :: u32) + 2^24 < 2^32
          then (unat (0xFFFFFFFF :: u32) + 2^24) div 2^25 else 0)"
  by (rule midi2_velocity_rounds [where sn = 9 and ch = 1]) (code_simp+)

end
