(* ===== verification/Ump_Packet.thy ===== *)
theory Ump_Packet
  imports Ump_Converter
begin

text \<open>
  \<^verbatim>\<open>services/common/src/ump_packet.cpp\<close>: the fixed size container in which the processor hands
  out a packet.
\<close>

definition MAX_WORD_COUNT :: nat where
  "MAX_WORD_COUNT = 4"

record UmpPacket =
  packet_data :: "u32 list"
  word_count :: nat

text \<open>The constructor for one word, and the constructor from an initialiser list.\<close>

definition UmpPacket_word :: "u32 \<Rightarrow> UmpPacket" where
  "UmpPacket_word w0 = \<lparr>packet_data = (replicate MAX_WORD_COUNT 0)[0 := w0], word_count = 1\<rparr>"

primrec fill_words :: "u32 list \<Rightarrow> nat \<Rightarrow> u32 list \<Rightarrow> u32 list" where
  "fill_words [] i d = d"
| "fill_words (w # ws) i d =
     (if i < MAX_WORD_COUNT then fill_words ws (i + 1) (d[i := w]) else fill_words ws i d)"

definition UmpPacket_words :: "u32 list \<Rightarrow> UmpPacket" where
  "UmpPacket_words ws =
     \<lparr>packet_data = fill_words ws 0 (replicate MAX_WORD_COUNT 0),
      word_count = min (length ws) MAX_WORD_COUNT\<rparr>"

definition Word :: "UmpPacket \<Rightarrow> nat \<Rightarrow> u32" where
  "Word p index = (if index < MAX_WORD_COUNT then packet_data p ! index else 0)"

definition WordCount :: "UmpPacket \<Rightarrow> nat" where
  "WordCount p = word_count p"

text \<open>The words that a consumer reads out of a packet.\<close>

definition words_of :: "UmpPacket \<Rightarrow> u32 list" where
  "words_of p = map (Word p) [0..<WordCount p]"

lemma fill_words_fits:
  "i + length ws \<le> MAX_WORD_COUNT \<Longrightarrow> length d = MAX_WORD_COUNT \<Longrightarrow>
    fill_words ws i d = take i d @ ws @ drop (i + length ws) d"
  by (induction ws arbitrary: i d) (auto simp: take_Suc_conv_app_nth upd_conv_take_nth_drop add.commute)

lemma words_of_words [simp]: "length ws \<le> 4 \<Longrightarrow> words_of (UmpPacket_words ws) = ws"
  by (rule nth_equalityI)
    (auto simp: words_of_def UmpPacket_words_def WordCount_def Word_def MAX_WORD_COUNT_def
        fill_words_fits nth_append)

lemma words_of_word [simp]: "words_of (UmpPacket_word w) = [w]"
  by (simp add: words_of_def UmpPacket_word_def WordCount_def Word_def MAX_WORD_COUNT_def numeral_eq_Suc)

end
