(* ===== verification/Ump_Processor.thy ===== *)
theory Ump_Processor
  imports Ump_Packet
begin

text \<open>
  \<^verbatim>\<open>services/common/src/ump_processor.cpp\<close>: the stateful translation of MIDI 1.0 bytes into UMP
  packets, and back. A callback is an output: each operation returns the new state of the object
  with the list of the values passed to the callback, in order.
\<close>

section \<open>State\<close>

definition CV_BUFFER_SIZE :: nat where "CV_BUFFER_SIZE = 3"

definition SYSEX_BUFFER_SIZE :: nat where "SYSEX_BUFFER_SIZE = 6"

record UmpProcessor =
  proc_group :: u8
  cv_buffer :: "u8 list"
  cv_pos :: nat
  running_status :: u8
  expected_len :: nat
  in_sysex :: bool
  sysex_buffer :: "u8 list"
  sysex_pos :: nat
  sysex_has_started :: bool
  reverse_sysex_active :: bool

definition new_UmpProcessor :: UmpProcessor where
  "new_UmpProcessor =
     \<lparr>proc_group = 0, cv_buffer = replicate CV_BUFFER_SIZE 0, cv_pos = 0, running_status = 0,
      expected_len = 0, in_sysex = False, sysex_buffer = replicate SYSEX_BUFFER_SIZE 0,
      sysex_pos = 0, sysex_has_started = False, reverse_sysex_active = False\<rparr>"

definition SetGroup :: "u8 \<Rightarrow> UmpProcessor \<Rightarrow> UmpProcessor" where
  "SetGroup g st = (if g \<le> 0x0F then st\<lparr>proc_group := g\<rparr> else st)"

definition Reset :: "UmpProcessor \<Rightarrow> UmpProcessor" where
  "Reset st =
     st\<lparr>cv_pos := 0, running_status := 0, expected_len := 0, in_sysex := False, sysex_pos := 0,
        sysex_has_started := False, cv_buffer := map (\<lambda>_. 0) (cv_buffer st),
        sysex_buffer := map (\<lambda>_. 0) (sysex_buffer st), reverse_sysex_active := False\<rparr>"

section \<open>Bytes to packets\<close>

definition HandleRealTime :: "u8 \<Rightarrow> UmpProcessor \<Rightarrow> bool \<times> UmpPacket list" where
  "HandleRealTime byte st =
     (if byte < 0xF8 then (False, [])
      else
        let mt1 = push_bit 28 (ucast (0x1 :: u8)) OR push_bit 24 (ucast (proc_group st))
                  OR push_bit 16 (ucast byte)
        in (True, [UmpPacket_words [mt1]]))"

definition GetExpectedDataLength :: "u8 \<Rightarrow> nat" where
  "GetExpectedDataLength status =
     (if status < 0xF0 then
        (let type = status AND 0xF0 in if type = 0xC0 \<or> type = 0xD0 then 1 else 2)
      else if status = 0xF1 \<or> status = 0xF3 then 1
      else if status = 0xF2 then 2
      else 0)"

definition DispatchChannelMessage :: "UmpProcessor \<Rightarrow> UmpPacket list" where
  "DispatchChannelMessage st =
     (let status = cv_buffer st ! 0;
          mt = (if status < 0xF0 then 0x2 else 0x1) :: u32;
          w0 = push_bit 28 mt OR push_bit 24 (ucast (proc_group st)) OR push_bit 16 (ucast status);
          w0 = (if 1 \<le> expected_len st then w0 OR push_bit 8 (ucast (cv_buffer st ! 1)) else w0);
          w0 = (if expected_len st = 2 then w0 OR push_bit 0 (ucast (cv_buffer st ! 2)) else w0)
      in [UmpPacket_words [w0]])"

definition DispatchSysExPacket :: "u8 \<Rightarrow> nat \<Rightarrow> UmpProcessor \<Rightarrow> UmpPacket list" where
  "DispatchSysExPacket status_code byte_count st =
     (let byte = (\<lambda>i. ucast (sysex_buffer st ! i) :: u32);
          w0 = push_bit 28 (ucast (0x3 :: u8)) OR push_bit 24 (ucast (proc_group st))
               OR push_bit 20 (ucast status_code) OR push_bit 16 (ucast (of_nat byte_count :: u8));
          w0 = (if byte_count > 0 then w0 OR push_bit 8 (byte 0) else w0);
          w0 = (if byte_count > 1 then w0 OR push_bit 0 (byte 1) else w0);
          w1 = 0;
          w1 = (if byte_count > 2 then w1 OR push_bit 24 (byte 2) else w1);
          w1 = (if byte_count > 3 then w1 OR push_bit 16 (byte 3) else w1);
          w1 = (if byte_count > 4 then w1 OR push_bit 8 (byte 4) else w1);
          w1 = (if byte_count > 5 then w1 OR push_bit 0 (byte 5) else w1)
      in [UmpPacket_words [w0, w1]])"

definition ProcessSysExData :: "u8 \<Rightarrow> UmpProcessor \<Rightarrow> UmpProcessor \<times> UmpPacket list" where
  "ProcessSysExData byte st =
     (let st = (if sysex_pos st < SYSEX_BUFFER_SIZE
                then st\<lparr>sysex_buffer := (sysex_buffer st)[sysex_pos st := byte],
                        sysex_pos := sysex_pos st + 1\<rparr>
                else st)
      in if sysex_pos st = SYSEX_BUFFER_SIZE then
           (let status = (if sysex_has_started st then 0x2 else 0x1);
                out = DispatchSysExPacket status SYSEX_BUFFER_SIZE st
            in (st\<lparr>sysex_pos := 0, sysex_has_started := True\<rparr>, out))
         else (st, []))"

definition FinalizeSysEx :: "UmpProcessor \<Rightarrow> UmpProcessor \<times> UmpPacket list" where
  "FinalizeSysEx st =
     (let status = (if sysex_has_started st then 0x3 else 0x0);
          out = DispatchSysExPacket status (sysex_pos st) st
      in (st\<lparr>sysex_pos := 0, sysex_has_started := False\<rparr>, out))"

definition HandleStatusByte :: "u8 \<Rightarrow> UmpProcessor \<Rightarrow> UmpProcessor \<times> UmpPacket list" where
  "HandleStatusByte byte st0 =
     (let st = st0\<lparr>cv_pos := 0\<rparr>
      in if byte = 0xF0 then
           (st\<lparr>in_sysex := True, sysex_pos := 0, sysex_has_started := False, running_status := 0\<rparr>, [])
         else if byte = 0xF7 then
           (if in_sysex st then
              (case FinalizeSysEx st of
                 (st, out) \<Rightarrow> (st\<lparr>in_sysex := False, running_status := 0\<rparr>, out))
            else (st\<lparr>running_status := 0\<rparr>, []))
         else
           (let st = st\<lparr>in_sysex := False, cv_buffer := (cv_buffer st)[0 := byte], cv_pos := 1,
                        expected_len := GetExpectedDataLength byte\<rparr>;
                st = (if byte < 0xF0 then st\<lparr>running_status := byte\<rparr> else st\<lparr>running_status := 0\<rparr>)
            in if expected_len st = 0 then (st\<lparr>cv_pos := 0\<rparr>, DispatchChannelMessage st)
               else (st, [])))"

definition HandleChannelData :: "u8 \<Rightarrow> UmpProcessor \<Rightarrow> UmpProcessor \<times> UmpPacket list" where
  "HandleChannelData byte st0 =
     (let dispatch = (\<lambda>st. if cv_pos st = expected_len st + 1
                           then (st\<lparr>cv_pos := 0\<rparr>, DispatchChannelMessage st) else (st, []))
      in if cv_pos st0 = 0 \<and> running_status st0 \<noteq> 0 then
           dispatch (st0\<lparr>cv_buffer := (cv_buffer st0)[0 := running_status st0, 1 := byte],
                         cv_pos := 2, expected_len := GetExpectedDataLength (running_status st0)\<rparr>)
         else if 0 < cv_pos st0 \<and> cv_pos st0 < CV_BUFFER_SIZE then
           dispatch (st0\<lparr>cv_buffer := (cv_buffer st0)[cv_pos st0 := byte], cv_pos := cv_pos st0 + 1\<rparr>)
         else (st0, []))"

definition HandleDataByte :: "u8 \<Rightarrow> UmpProcessor \<Rightarrow> UmpProcessor \<times> UmpPacket list" where
  "HandleDataByte byte st = (if in_sysex st then ProcessSysExData byte st else HandleChannelData byte st)"

text \<open>What the body of the loop of \<open>ProcessBytes\<close> does with a status byte after the look-ahead.\<close>

definition HandleStatus :: "u8 \<Rightarrow> UmpProcessor \<Rightarrow> UmpProcessor \<times> UmpPacket list" where
  "HandleStatus b st =
     (case HandleRealTime b st of
        (True, out) \<Rightarrow> (st, out)
      | (False, _) \<Rightarrow> HandleStatusByte b st)"

fun ProcessBytes :: "UmpProcessor \<Rightarrow> u8 list \<Rightarrow> UmpProcessor \<times> UmpPacket list" where
  "ProcessBytes st [] = (st, [])"
| "ProcessBytes st [b] = (if 0x80 \<le> b then HandleStatus b st else HandleDataByte b st)"
| "ProcessBytes st (b # b' # rest) =
     (if 0x80 \<le> b then
        (if 0x80 \<le> b' then
           (case HandleStatus b' st of (st, out) \<Rightarrow>
              case ProcessBytes st rest of (st, out') \<Rightarrow> (st, out @ out'))
         else
           (case HandleStatus b st of (st, out) \<Rightarrow>
              case ProcessBytes st (b' # rest) of (st, out') \<Rightarrow> (st, out @ out')))
      else
        (case HandleDataByte b st of (st, out) \<Rightarrow>
           case ProcessBytes st (b' # rest) of (st, out') \<Rightarrow> (st, out @ out')))"

section \<open>Packets to bytes\<close>

definition ProcessUmpType1 :: "u32 \<Rightarrow> u8 list list" where
  "ProcessUmpType1 word0 =
     (let status = (ucast (drop_bit 16 word0 AND 0xFF) :: u8);
          d1 = (ucast (drop_bit 8 word0 AND 0xFF) :: u8);
          d2 = (ucast (drop_bit 0 word0 AND 0xFF) :: u8);
          output =
            (if status = 0xF1 then [status, d1]
             else if status = 0xF2 then [status, d1, d2]
             else if status = 0xF3 then [status, d1]
             else if status = 0xF6 then [status]
             else if status \<in> {0xF8, 0xF9, 0xFA, 0xFB, 0xFC, 0xFD, 0xFE, 0xFF} then [status]
             else [])
      in if output \<noteq> [] then [output] else [])"

definition ProcessUmpType2 :: "u32 \<Rightarrow> u8 list list" where
  "ProcessUmpType2 word0 =
     (let status = (ucast (drop_bit 16 word0 AND 0xFF) :: u8);
          d1 = (ucast (drop_bit 8 word0 AND 0xFF) :: u8);
          d2 = (ucast (drop_bit 0 word0 AND 0xFF) :: u8);
          cmd = status AND 0xF0
      in [if cmd = 0xC0 \<or> cmd = 0xD0 then [status, d1] else [status, d1, d2]])"

definition ProcessUmpType3 :: "u32 \<Rightarrow> u32 \<Rightarrow> UmpProcessor \<Rightarrow> UmpProcessor \<times> u8 list list" where
  "ProcessUmpType3 word0 word1 st =
     (let status = (ucast (drop_bit 20 word0 AND 0x0F) :: u8);
          count = (ucast (drop_bit 16 word0 AND 0x0F) :: u8);
          dat = [ucast (drop_bit 8 word0 AND 0xFF), ucast (drop_bit 0 word0 AND 0xFF),
                 ucast (drop_bit 24 word1 AND 0xFF), ucast (drop_bit 16 word1 AND 0xFF),
                 ucast (drop_bit 8 word1 AND 0xFF), ucast (drop_bit 0 word1 AND 0xFF)];
          bytes = take (unat count) dat;
          (st, output) =
            (if status = 0x0 then (st\<lparr>reverse_sysex_active := False\<rparr>, [0xF0] @ bytes @ [0xF7])
             else if status = 0x1 then (st\<lparr>reverse_sysex_active := True\<rparr>, [0xF0] @ bytes)
             else if status = 0x2 then (st, if reverse_sysex_active st then bytes else [])
             else if status = 0x3 then (st\<lparr>reverse_sysex_active := False\<rparr>, bytes @ [0xF7])
             else (st\<lparr>reverse_sysex_active := False\<rparr>, []))
      in (st, if output \<noteq> [] then [output] else []))"

text \<open>
  The loop over the index, as recursion on the words not yet read. \<open>ProcessUmp\<close> adds the check
  of the arguments.
\<close>

function ProcessUmpLoop :: "UmpProcessor \<Rightarrow> u32 list \<Rightarrow> UmpProcessor \<times> u8 list list" where
  "ProcessUmpLoop st [] = (st, [])"
| "ProcessUmpLoop st (word0 # ws) =
     (let mt = (ucast (drop_bit 28 word0 AND 0x0F) :: u8)
      in if mt = 0x1 then
           (case ProcessUmpLoop st ws of (st', out) \<Rightarrow> (st', ProcessUmpType1 word0 @ out))
         else if mt = 0x2 then
           (case ProcessUmpLoop st ws of (st', out) \<Rightarrow> (st', ProcessUmpType2 word0 @ out))
         else if mt = 0x3 then
           (case ws of
              word1 # ws' \<Rightarrow>
                (case ProcessUmpType3 word0 word1 st of (st1, out1) \<Rightarrow>
                   case ProcessUmpLoop st1 ws' of (st', out) \<Rightarrow> (st', out1 @ out))
            | [] \<Rightarrow> ProcessUmpType3 word0 0 st)
         else
           (let n = GetUmpWordCount word0;
                n = (if n = 0 then 1 else n)
            in ProcessUmpLoop st (drop n (word0 # ws))))"
  by pat_completeness auto
termination
  by (relation "measure (\<lambda>(st, ws). length ws)") (auto simp: Let_def)

definition ProcessUmp :: "UmpProcessor \<Rightarrow> u32 list option \<Rightarrow> UmpProcessor \<times> u8 list list" where
  "ProcessUmp st packets =
     (case packets of None \<Rightarrow> (st, []) | Some ws \<Rightarrow> if ws = [] then (st, []) else ProcessUmpLoop st ws)"

definition ProcessUmpPacket :: "UmpProcessor \<Rightarrow> UmpPacket \<Rightarrow> UmpProcessor \<times> u8 list list" where
  "ProcessUmpPacket st packet =
     (if WordCount packet = 0 then (st, [])
      else ProcessUmp st (Some (map (Word packet) [0..<min (WordCount packet) 4])))"

section \<open>The byte parser\<close>

text \<open>
  The reference parser handles one byte at a time, without look-ahead.
\<close>

definition ParseByte :: "UmpProcessor \<Rightarrow> u8 \<Rightarrow> UmpProcessor \<times> UmpPacket list" where
  "ParseByte st b = (if 0x80 \<le> b then HandleStatus b st else HandleDataByte b st)"

lemma ProcessBytes_data:
  "\<not> 0x80 \<le> b \<Longrightarrow> ProcessBytes st (b # bs) =
     (case HandleDataByte b st of (st, out) \<Rightarrow> case ProcessBytes st bs of (st, out') \<Rightarrow> (st, out @ out'))"
  by (cases bs) (auto split: prod.splits)

lemma ProcessBytes_status_data:
  "0x80 \<le> b \<Longrightarrow> bs = [] \<or> \<not> 0x80 \<le> hd bs \<Longrightarrow> ProcessBytes st (b # bs) =
     (case HandleStatus b st of (st, out) \<Rightarrow> case ProcessBytes st bs of (st, out') \<Rightarrow> (st, out @ out'))"
  by (cases bs) (auto split: prod.splits)

definition stamp :: "u8 \<Rightarrow> u8 list \<Rightarrow> u8 list" where
  "stamp t bs = concat (map (\<lambda>b. if 0x80 \<le> b then [t, b] else [b]) bs)"

lemma ProcessBytes_stamp:
  assumes "0x80 \<le> t"
  shows "ProcessBytes st (stamp t bs @ rest) =
     (case run ParseByte st bs of (st1, o1) \<Rightarrow> case ProcessBytes st1 rest of (st2, o2) \<Rightarrow> (st2, o1 @ o2))"
proof (induction bs arbitrary: st)
  case (Cons b bs)
  show ?case
    by (cases "0x80 \<le> b")
      (auto simp: stamp_def [where bs = "b # bs"] stamp_def [where bs = bs, symmetric] assms Cons ParseByte_def
        ProcessBytes_data split: prod.splits)
qed (simp add: stamp_def)

text \<open>
  The streams that the look-ahead reads as they are meant: before a status byte there may be a timestamp (any byte with the
  top bit set), as BLE MIDI has it, and there must be one unless the status byte is followed by a data byte or
  by nothing. \<open>stream_of bs cs\<close>: \<open>cs\<close> is such a stream of the message bytes \<open>bs\<close>.
\<close>

inductive stream_of :: "u8 list \<Rightarrow> u8 list \<Rightarrow> bool" where
  nothing: "stream_of [] []"
| data: "b < 0x80 \<Longrightarrow> stream_of bs cs \<Longrightarrow> stream_of (b # bs) (b # cs)"
| stamped: "0x80 \<le> b \<Longrightarrow> 0x80 \<le> t \<Longrightarrow> stream_of bs cs \<Longrightarrow> stream_of (b # bs) (t # b # cs)"
| plain: "0x80 \<le> b \<Longrightarrow> bs = [] \<or> hd bs < 0x80 \<Longrightarrow> stream_of bs cs \<Longrightarrow> stream_of (b # bs) (b # cs)"

lemma stream_of_hd: "stream_of bs cs \<Longrightarrow> bs = [] \<or> hd bs < 0x80 \<Longrightarrow> cs = [] \<or> hd cs < 0x80"
  by (cases rule: stream_of.cases) auto

lemma ProcessBytes_stream: "stream_of bs cs \<Longrightarrow> ProcessBytes st cs = run ParseByte st bs"
proof (induction arbitrary: st rule: stream_of.induct)
  case (data b bs cs)
  then have "\<not> 0x80 \<le> b" by (simp add: not_le)
  with data.IH show ?case by (simp add: ProcessBytes_data ParseByte_def [of _ b])
next
  case (plain b bs cs)
  then show ?case using stream_of_hd [OF plain(3,2)] by (simp add: ProcessBytes_status_data ParseByte_def [of _ b] not_le)
qed (simp_all add: ParseByte_def)

section \<open>Packed words\<close>

definition sys_word :: "u8 \<Rightarrow> u8 \<Rightarrow> u8 \<Rightarrow> u8 \<Rightarrow> u8 \<Rightarrow> u32" where
  "sys_word mt g s a b = push_bit 28 (ucast mt) OR push_bit 24 (ucast g) OR push_bit 16 (ucast s)
     OR push_bit 8 (ucast a) OR push_bit 0 (ucast b)"

definition sx_word0 :: "u8 \<Rightarrow> u8 \<Rightarrow> u8 \<Rightarrow> u8 \<Rightarrow> u8 \<Rightarrow> u32" where
  "sx_word0 g s c a b = push_bit 28 (ucast (0x3 :: u8)) OR push_bit 24 (ucast g) OR push_bit 20 (ucast s)
     OR push_bit 16 (ucast c) OR push_bit 8 (ucast a) OR push_bit 0 (ucast b)"

definition sx_word1 :: "u8 \<Rightarrow> u8 \<Rightarrow> u8 \<Rightarrow> u8 \<Rightarrow> u32" where
  "sx_word1 a b c d = push_bit 24 (ucast a) OR push_bit 16 (ucast b) OR push_bit 8 (ucast c) OR push_bit 0 (ucast d)"

lemma nibble_id: "(x :: u8) < 16 \<Longrightarrow> take_bit 4 x = x"
  using less_mask_eq [of x 4] by (simp add: take_bit_eq_mask)

lemma nibble_bit: "(x :: u8) < 16 \<Longrightarrow> 4 \<le> n \<Longrightarrow> \<not> bit x n"
  using nibble_id [of x] by (metis bit_take_bit_iff not_less)

lemma sys_word_sel:
  assumes "mt < 16" "g < 16"
  shows "MessageType (sys_word mt g s a b) = mt" "Group (sys_word mt g s a b) = g"
    "ucast (drop_bit 16 (sys_word mt g s a b) AND 0xFF) = s"
    "ucast (drop_bit 8 (sys_word mt g s a b) AND 0xFF) = a"
    "ucast (sys_word mt g s a b AND 0xFF) = b"
  unfolding ump_defs sys_word_def and_masks
  by (rule bit_word_eqI; auto simp: bit_simps nibble_bit [OF assms(1)] nibble_bit [OF assms(2)]
      dest: bit_imp_le_length nibble_bit [OF assms(1)] nibble_bit [OF assms(2)])+

lemma sx_word0_sel:
  assumes "g < 16" "s < 16" "c < 16"
  shows "MessageType (sx_word0 g s c a b) = 3" "Group (sx_word0 g s c a b) = g"
    "ucast (drop_bit 20 (sx_word0 g s c a b) AND 0x0F) = s"
    "ucast (drop_bit 16 (sx_word0 g s c a b) AND 0x0F) = c"
    "ucast (drop_bit 8 (sx_word0 g s c a b) AND 0xFF) = a"
    "ucast (sx_word0 g s c a b AND 0xFF) = b"
  unfolding ump_defs sx_word0_def and_masks
  by (rule bit_word_eqI; auto simp: bit_simps nibble_bit [OF assms(1)] nibble_bit [OF assms(2)] nibble_bit [OF assms(3)]
      dest: bit_imp_le_length)+

lemma sx_word1_sel:
  "ucast (drop_bit 24 (sx_word1 a b c d) AND 0xFF) = a"
  "ucast (drop_bit 16 (sx_word1 a b c d) AND 0xFF) = b"
  "ucast (drop_bit 8 (sx_word1 a b c d) AND 0xFF) = c"
  "ucast (sx_word1 a b c d AND 0xFF) = d"
  unfolding sx_word1_def and_masks
  by (rule bit_word_eqI; auto simp: bit_simps dest: bit_imp_le_length)+

section \<open>The invariant of the object\<close>

definition proc_inv :: "UmpProcessor \<Rightarrow> bool" where
  "proc_inv st \<longleftrightarrow>
     proc_group st < 16 \<and> length (cv_buffer st) = CV_BUFFER_SIZE \<and> length (sysex_buffer st) = SYSEX_BUFFER_SIZE
     \<and> sysex_pos st < SYSEX_BUFFER_SIZE \<and> (running_status st = 0 \<or> 0x80 \<le> running_status st \<and> running_status st < 0xF0)
     \<and> (0 < cv_pos st \<longrightarrow> cv_pos st \<le> expected_len st \<and> expected_len st = GetExpectedDataLength (cv_buffer st ! 0)
          \<and> 0x80 \<le> cv_buffer st ! 0 \<and> (\<forall>i. 0 < i \<and> i < cv_pos st \<longrightarrow> cv_buffer st ! i < 0x80))"

lemma GetExpectedDataLength_le: "GetExpectedDataLength s \<le> 2"
  by (simp add: GetExpectedDataLength_def Let_def)

definition sx_byte :: "UmpProcessor \<Rightarrow> nat \<Rightarrow> nat \<Rightarrow> u8" where
  "sx_byte st n i = (if i < n then sysex_buffer st ! i else 0)"

lemma DispatchSysEx_words:
  assumes "n \<le> 6"
  shows "DispatchSysExPacket s n st =
     [UmpPacket_words [sx_word0 (proc_group st) s (of_nat n) (sx_byte st n 0) (sx_byte st n 1),
        sx_word1 (sx_byte st n 2) (sx_byte st n 3) (sx_byte st n 4) (sx_byte st n 5)]]"
  unfolding DispatchSysExPacket_def sx_word0_def sx_word1_def Let_def sx_byte_def
  by (simp add: or.assoc)

definition sx_bytes :: "UmpProcessor \<Rightarrow> u8 \<Rightarrow> u8 list \<Rightarrow> u8 list" where
  "sx_bytes r s bs =
     (if s = 0 then [0xF0] @ bs @ [0xF7] else if s = 1 then [0xF0] @ bs
      else if s = 2 then (if reverse_sysex_active r then bs else []) else bs @ [0xF7])"

lemma Type3_words:
  assumes st: "proc_group st < 16" "length (sysex_buffer st) = SYSEX_BUFFER_SIZE" and n: "n \<le> 6" and s: "s < 4"
  shows "ProcessUmpType3 (sx_word0 (proc_group st) s (of_nat n) (sx_byte st n 0) (sx_byte st n 1))
        (sx_word1 (sx_byte st n 2) (sx_byte st n 3) (sx_byte st n 4) (sx_byte st n 5)) r =
     (r\<lparr>reverse_sysex_active := (if s = 1 then True else if s = 2 then reverse_sysex_active r else False)\<rparr>,
      if sx_bytes r s (take n (sysex_buffer st)) = [] then [] else [sx_bytes r s (take n (sysex_buffer st))])"
proof -
  have s16: "s < 16" and n16: "(of_nat n :: u8) < 16" and un: "unat (of_nat n :: u8) = n"
    using s n by (auto simp: word_less_nat_alt take_bit_eq_mod unat_of_nat)
  have s': "s = 0 \<or> s = 1 \<or> s = 2 \<or> s = 3"
    using s by (auto simp: word_less_nat_alt word_unat_eq_iff)
  have b: "take n [sx_byte st n 0, sx_byte st n 1, sx_byte st n 2, sx_byte st n 3, sx_byte st n 4, sx_byte st n 5]
     = take n (sysex_buffer st)"
  proof -
    have "take n (map (sx_byte st n) [0..<6]) = take n (sysex_buffer st)"
      using st(2) n by (intro nth_equalityI) (auto simp: SYSEX_BUFFER_SIZE_def sx_byte_def)
    then show ?thesis by (simp add: upt_rec numeral_eq_Suc)
  qed
  show ?thesis using s'
    by (auto simp: ProcessUmpType3_def Let_def sx_word0_sel(3-6) [OF st(1) s16 n16] sx_word1_sel un b sx_bytes_def simp del: One_nat_def)
qed

lemma ProcessUmpLoop_packet:
  assumes "ump_packet_ok p"
  shows "ProcessUmpLoop r (p @ rest) =
     (case ProcessUmpLoop r p of (r1, o1) \<Rightarrow> case ProcessUmpLoop r1 rest of (r2, o2) \<Rightarrow> (r2, o1 @ o2))"
proof -
  obtain w t where p: "p = w # t" "Suc (length t) = GetUmpWordCount w"
    using assms by (cases p) (auto simp: ump_packet_ok_def)
  have mt: "ucast (drop_bit 28 w AND 0x0F) = MessageType w" by (simp add: MessageType_def)
  consider "MessageType w = 1" | "MessageType w = 2" | "MessageType w = 3"
    | "MessageType w \<noteq> 1" "MessageType w \<noteq> 2" "MessageType w \<noteq> 3" by blast
  then show ?thesis
  proof cases
    case 3
    then obtain w1 where "t = [w1]" using p(2) by (cases t) (auto simp: word_count_by_type)
    then show ?thesis using 3 by (simp add: p(1) mt Let_def split: prod.splits)
  next
    case 4
    moreover have "drop (GetUmpWordCount w) (w # t @ rest) = rest" "drop (GetUmpWordCount w) (w # t) = []"
      by (simp_all flip: p(2))
    ultimately show ?thesis by (simp add: p(1) mt Let_def)
  qed (use p in \<open>auto simp: mt Let_def word_count_by_type split: prod.splits\<close>)
qed


section \<open>Messages\<close>

datatype Midi1Message = SysEx "u8 list" | Short u8 "u8 list"

primrec message_bytes :: "Midi1Message \<Rightarrow> u8 list" where
  "message_bytes (SysEx p) = [0xF0] @ p @ [0xF7]"
| "message_bytes (Short s ds) = s # ds"

primrec message_ok :: "Midi1Message \<Rightarrow> bool" where
  "message_ok (SysEx p) \<longleftrightarrow> (\<forall>b\<in>set p. b < 0x80)"
| "message_ok (Short s ds) \<longleftrightarrow> 0x80 \<le> s \<and> s \<notin> {0xF0, 0xF4, 0xF5, 0xF7}
     \<and> length ds = GetExpectedDataLength s \<and> (\<forall>b\<in>set ds. b < 0x80)"

definition packets_words :: "UmpPacket list \<Rightarrow> u32 list" where
  "packets_words ps = concat (map words_of ps)"

text \<open>What comes back when the packets of a parse are translated into bytes again.\<close>

definition bytes_back :: "UmpProcessor \<Rightarrow> UmpPacket list \<Rightarrow> u8 list" where
  "bytes_back r ps = concat (snd (ProcessUmpLoop r (packets_words ps)))"

definition proc_ok :: "UmpProcessor \<Rightarrow> bool" where
  "proc_ok st \<longleftrightarrow> proc_group st < 16 \<and> length (cv_buffer st) = CV_BUFFER_SIZE
     \<and> length (sysex_buffer st) = SYSEX_BUFFER_SIZE"

lemma sysex_packet_ok:
  assumes "proc_ok st" "n \<le> 6" "s < 4"
  shows "list_all (\<lambda>q. ump_packet_ok (words_of q)) (DispatchSysExPacket s n st)"
proof -
  have "s < 16" "(of_nat n :: u8) < 16"
    using assms by (auto simp: word_less_nat_alt take_bit_eq_mod unat_of_nat)
  with assms show ?thesis
    by (simp add: DispatchSysEx_words ump_packet_ok_def proc_ok_def sx_word0_sel(1) word_count_by_type)
qed

lemma back_append:
  assumes "list_all (\<lambda>q. ump_packet_ok (words_of q)) ps"
  shows "bytes_back r (ps @ qs) = bytes_back r ps @ bytes_back (fst (ProcessUmpLoop r (packets_words ps))) qs"
  using assms
proof (induction ps arbitrary: r)
  case (Cons p ps)
  then show ?case
    by (simp add: bytes_back_def packets_words_def ProcessUmpLoop_packet split: prod.splits) (metis fst_conv snd_conv)
qed (simp add: bytes_back_def packets_words_def)

lemma back_sysex:
  assumes "proc_ok st" "n \<le> 6" "s < 4"
  shows "bytes_back r (DispatchSysExPacket s n st @ qs) = sx_bytes r s (take n (sysex_buffer st))
     @ bytes_back (r\<lparr>reverse_sysex_active := (if s = 1 then True else if s = 2 then reverse_sysex_active r else False)\<rparr>) qs"
proof -
  have "s < 16" "(of_nat n :: u8) < 16"
    using assms by (auto simp: word_less_nat_alt take_bit_eq_mod unat_of_nat)
  then have mt: "ucast (drop_bit 28 (sx_word0 (proc_group st) s (of_nat n) a b) AND 0x0F) = (3 :: u8)" for a b
    using assms sx_word0_sel(1) by (simp add: MessageType_def proc_ok_def)
  have "ProcessUmpLoop r (packets_words (DispatchSysExPacket s n st)) =
    ProcessUmpType3 (sx_word0 (proc_group st) s (of_nat n) (sx_byte st n 0) (sx_byte st n 1))
        (sx_word1 (sx_byte st n 2) (sx_byte st n 3) (sx_byte st n 4) (sx_byte st n 5)) r"
    using assms(2) by (simp add: DispatchSysEx_words packets_words_def mt del: One_nat_def split: prod.splits)
  then show ?thesis
    using assms by (subst back_append [OF sysex_packet_ok [OF assms]])
      (simp add: Type3_words proc_ok_def bytes_back_def del: One_nat_def)
qed

lemma back_nil [simp]: "bytes_back r [] = []"
  by (simp add: bytes_back_def packets_words_def)

lemma ParseByte_F7:
  "in_sysex st \<Longrightarrow> ParseByte st 0xF7 =
    (st\<lparr>cv_pos := 0, sysex_pos := 0, sysex_has_started := False, in_sysex := False, running_status := 0\<rparr>,
     DispatchSysExPacket (if sysex_has_started st then 0x3 else 0x0) (sysex_pos st) (st\<lparr>cv_pos := 0\<rparr>))"
  by (simp add: ParseByte_def HandleStatus_def HandleRealTime_def HandleStatusByte_def FinalizeSysEx_def Let_def)

lemma ParseByte_sysex_data:
  assumes "in_sysex st" "b < 0x80" "sysex_pos st < SYSEX_BUFFER_SIZE"
  shows "ParseByte st b =
    (let st' = st\<lparr>sysex_buffer := (sysex_buffer st)[sysex_pos st := b], sysex_pos := sysex_pos st + 1\<rparr>
     in if sysex_pos st + 1 < SYSEX_BUFFER_SIZE then (st', [])
        else (st'\<lparr>sysex_pos := 0, sysex_has_started := True\<rparr>,
              DispatchSysExPacket (if sysex_has_started st then 0x2 else 0x1) 6 st'))"
  using assms by (auto simp: ParseByte_def HandleDataByte_def ProcessSysExData_def Let_def SYSEX_BUFFER_SIZE_def not_le)

lemma sysex_tail_back:
  assumes "proc_ok st" "in_sysex st" "sysex_pos st < SYSEX_BUFFER_SIZE" "\<forall>b\<in>set p. b < 0x80"
    "sysex_has_started st \<longrightarrow> reverse_sysex_active r"
  shows "\<exists>st' out. run ParseByte st (p @ [0xF7]) = (st', out) \<and> proc_ok st'
     \<and> list_all (\<lambda>q. ump_packet_ok (words_of q)) out
     \<and> bytes_back r out = (if sysex_has_started st then [] else [0xF0]) @ take (sysex_pos st) (sysex_buffer st) @ p @ [0xF7]"
  using assms
proof (induction p arbitrary: st r)
  case Nil
  let ?st = "st\<lparr>cv_pos := 0\<rparr>"
  have ok: "proc_ok ?st" "sysex_pos st \<le> 6" using Nil by (simp_all add: proc_ok_def SYSEX_BUFFER_SIZE_def)
  show ?case using Nil ok back_sysex [OF ok, of _ r "[]"] sysex_packet_ok [OF ok]
    by (simp add: ParseByte_F7 sx_bytes_def) (simp add: proc_ok_def)
next
  case (Cons b p)
  define st1 where "st1 = st\<lparr>sysex_buffer := (sysex_buffer st)[sysex_pos st := b], sysex_pos := sysex_pos st + 1\<rparr>"
  have ok1: "proc_ok st1" using Cons.prems(1) by (simp add: proc_ok_def st1_def)
  have tk: "take (sysex_pos st1) (sysex_buffer st1) = take (sysex_pos st) (sysex_buffer st) @ [b]"
    using Cons.prems(1,3) by (simp add: st1_def proc_ok_def take_Suc_conv_app_nth)
  show ?case
  proof (cases "sysex_pos st + 1 < SYSEX_BUFFER_SIZE")
    case True
    then show ?thesis using Cons.prems Cons.IH [of st1 r] ok1 tk
      by (auto simp: ParseByte_sysex_data Let_def st1_def [symmetric] split: prod.splits) (auto simp: st1_def)
  next
    case False
    let ?s = "(if sysex_has_started st then 0x2 else 0x1) :: u8"
    let ?st2 = "st1\<lparr>sysex_pos := 0, sysex_has_started := True\<rparr>"
    let ?r = "r\<lparr>reverse_sysex_active := True\<rparr>"
    have six: "sysex_pos st1 = 6" using False Cons.prems(3) by (simp add: st1_def SYSEX_BUFFER_SIZE_def)
    have step: "ParseByte st b = (?st2, DispatchSysExPacket ?s 6 st1)"
      using Cons.prems False by (simp add: ParseByte_sysex_data Let_def st1_def)
    obtain st' out where IH: "run ParseByte ?st2 (p @ [0xF7]) = (st', out)" "proc_ok st'"
       "list_all (\<lambda>q. ump_packet_ok (words_of q)) out" "bytes_back ?r out = p @ [0xF7]"
      using Cons.IH [of ?st2 ?r] Cons.prems ok1 by (auto simp: proc_ok_def SYSEX_BUFFER_SIZE_def st1_def)
    have "bytes_back r (DispatchSysExPacket ?s 6 st1 @ out)
        = (if sysex_has_started st then [] else [0xF0]) @ take (sysex_pos st1) (sysex_buffer st1) @ p @ [0xF7]"
      using back_sysex [OF ok1, of 6 ?s r out] Cons.prems(5) IH(4) six by (auto simp: sx_bytes_def)
    then show ?thesis using IH sysex_packet_ok [OF ok1, of 6 ?s] tk by (simp add: step)
  qed
qed

lemma system_status_cases:
  assumes "(0xF0 :: u8) \<le> s"
  shows "s \<in> {0xF0, 0xF1, 0xF2, 0xF3, 0xF4, 0xF5, 0xF6, 0xF7, 0xF8, 0xF9, 0xFA, 0xFB, 0xFC, 0xFD, 0xFE, 0xFF}"
proof -
  have "unat s < 256" using unsigned_less [of s, where ?'a = nat] by simp
  then have "unat s \<in> {240..<256}" using assms by (simp add: word_le_nat_alt)
  moreover have "[240..<256] = [240, 241, 242, 243, 244, 245, 246, 247, 248, 249, 250, 251, 252, 253, 254, 255 :: nat]"
    by (simp add: upt_rec)
  ultimately have "unat s \<in> set [240, 241, 242, 243, 244, 245, 246, 247, 248, 249, 250, 251, 252, 253, 254, 255]"
    by (metis atLeastLessThan_upt)
  then show ?thesis by (auto simp: word_unat_eq_iff)
qed

lemma Dispatch_word:
  "DispatchChannelMessage st =
     [UmpPacket_words [sys_word (if cv_buffer st ! 0 < 0xF0 then 2 else 1) (proc_group st) (cv_buffer st ! 0)
       (if 1 \<le> expected_len st then cv_buffer st ! 1 else 0) (if expected_len st = 2 then cv_buffer st ! 2 else 0)]]"
  by (simp add: DispatchChannelMessage_def sys_word_def Let_def or.assoc)

definition short_word :: "u8 \<Rightarrow> u8 \<Rightarrow> u8 list \<Rightarrow> u32" where
  "short_word g s ds = sys_word (if s < 0xF0 then 2 else 1) g s
     (if 1 \<le> length ds then ds ! 0 else 0) (if length ds = 2 then ds ! 1 else 0)"

lemma ParseByte_status:
  assumes "0x80 \<le> s" "s < 0xF8" "s \<noteq> 0xF0" "s \<noteq> 0xF7" "proc_ok st"
  shows "ParseByte st s =
    (let st' = st\<lparr>cv_pos := 1, in_sysex := False, cv_buffer := (cv_buffer st)[0 := s],
                  expected_len := GetExpectedDataLength s, running_status := (if s < 0xF0 then s else 0)\<rparr>
     in if GetExpectedDataLength s = 0 then (st'\<lparr>cv_pos := 0\<rparr>, DispatchChannelMessage st') else (st', []))"
  using assms by (simp add: ParseByte_def HandleStatus_def HandleRealTime_def HandleStatusByte_def Dispatch_word Let_def)

lemma ParseByte_data:
  assumes "b < 0x80" "\<not> in_sysex st" "0 < cv_pos st" "cv_pos st < 3"
  shows "ParseByte st b =
    (let st' = st\<lparr>cv_buffer := (cv_buffer st)[cv_pos st := b], cv_pos := cv_pos st + 1\<rparr>
     in if cv_pos st = expected_len st then (st'\<lparr>cv_pos := 0\<rparr>, DispatchChannelMessage st') else (st', []))"
  using assms by (auto simp: ParseByte_def HandleDataByte_def HandleChannelData_def CV_BUFFER_SIZE_def Let_def)

lemma ParseByte_realtime:
  "0xF8 \<le> s \<Longrightarrow> ParseByte st s = (st, [UmpPacket_words [sys_word 1 (proc_group st) s 0 0]])"
  using order_trans [of "0x80" "0xF8" s]
  by (auto simp: ParseByte_def HandleStatus_def HandleRealTime_def sys_word_def Let_def)

lemma short_parse:
  assumes ok: "proc_ok st" and m: "message_ok (Short s ds)"
  shows "\<exists>st'. run ParseByte st (s # ds) = (st', [UmpPacket_words [short_word (proc_group st) s ds]]) \<and> proc_ok st'"
proof (cases "0xF8 \<le> s")
  case True
  then have "\<not> s < 0xF0" "s \<noteq> 0xF1" "s \<noteq> 0xF2" "s \<noteq> 0xF3" by (auto simp: word_le_nat_alt word_less_nat_alt)
  then have "ds = []" using m by (simp add: GetExpectedDataLength_def)
  then show ?thesis using True ok \<open>\<not> s < 0xF0\<close> by (simp add: ParseByte_realtime short_word_def)
next
  case False
  then have s: "0x80 \<le> s" "s < 0xF8" "s \<noteq> 0xF0" "s \<noteq> 0xF7" and n: "length ds = GetExpectedDataLength s"
    using m by auto
  obtain x y z where buf: "cv_buffer st = [x, y, z]"
    using ok by (auto simp: proc_ok_def CV_BUFFER_SIZE_def numeral_eq_Suc length_Suc_conv)
  consider "ds = []" | a where "ds = [a]" | a b where "ds = [a, b]"
    using n GetExpectedDataLength_le [of s] by (cases ds rule: list.exhaust [case_product list.exhaust])
      (auto simp: length_Suc_conv le_Suc_eq numeral_eq_Suc)
  then show ?thesis
  proof cases
    case 1
    then show ?thesis using s n ok buf
      by (simp add: ParseByte_status [OF s ok] Let_def Dispatch_word short_word_def) (simp add: proc_ok_def CV_BUFFER_SIZE_def)
  next
    case (2 a)
    then show ?thesis using s n ok buf m
      by (simp add: ParseByte_status [OF s ok] ParseByte_data Let_def Dispatch_word short_word_def flip: n) (simp add: proc_ok_def CV_BUFFER_SIZE_def)
  next
    case (3 a b)
    then show ?thesis using s n ok buf m
      by (simp add: ParseByte_status [OF s ok] ParseByte_data Let_def Dispatch_word short_word_def flip: n) (simp add: proc_ok_def CV_BUFFER_SIZE_def)
  qed
qed

lemma short_back:
  assumes ok: "proc_ok st" and m: "message_ok (Short s ds)"
  shows "bytes_back r [UmpPacket_words [short_word (proc_group st) s ds]] = s # ds"
    "ump_packet_ok [short_word (proc_group st) s ds]"
proof -
  define mt :: u8 where "mt = (if s < 0xF0 then 2 else 1)"
  have mt16: "mt < 16" by (simp add: mt_def)
    have n: "length ds = GetExpectedDataLength s" using m by simp
  have g: "proc_group st < 16" using ok by (simp add: proc_ok_def)
  note sel = sys_word_sel [OF mt16 g]
  have MT: "ucast (drop_bit 28 (sys_word mt (proc_group st) x a b) AND 0x0F) = mt" for x a b
    using sel(1) by (simp add: MessageType_def)
  show "ump_packet_ok [short_word (proc_group st) s ds]"
    using sel(1) by (simp add: ump_packet_ok_def short_word_def mt_def [symmetric])
      (auto simp: mt_def word_count_by_type)
  show "bytes_back r [UmpPacket_words [short_word (proc_group st) s ds]] = s # ds"
  proof (cases "s < 0xF0")
    case True
    then have e: "GetExpectedDataLength s = (if s AND 0xF0 = 0xC0 \<or> s AND 0xF0 = 0xD0 then 1 else 2)"
      by (simp add: GetExpectedDataLength_def Let_def)
    have m2: "mt = 2" using True by (simp add: mt_def)
    show ?thesis
    proof (cases "s AND 0xF0 = 0xC0 \<or> s AND 0xF0 = 0xD0")
      case c: True
      then obtain a where "ds = [a]" using e n by (auto simp: length_Suc_conv)
      then show ?thesis using True c
        by (simp add: bytes_back_def packets_words_def short_word_def True MT [unfolded m2] ProcessUmpType2_def
            sel [unfolded m2] Let_def)
    next
      case c: False
      then obtain a b where "ds = [a, b]" using e n by (auto simp: length_Suc_conv numeral_2_eq_2)
      then show ?thesis using True c
        by (simp add: bytes_back_def packets_words_def short_word_def True MT [unfolded m2] ProcessUmpType2_def
            sel [unfolded m2] Let_def)
    qed
  next
    case False
    then have m1: "mt = 1" by (simp add: mt_def)
    have c: "s \<in> {0xF1, 0xF2, 0xF3, 0xF6, 0xF8, 0xF9, 0xFA, 0xFB, 0xFC, 0xFD, 0xFE, 0xFF}"
      using system_status_cases [of s] False m by (auto simp: not_less)
    then have e: "GetExpectedDataLength s = (if s = 0xF1 \<or> s = 0xF3 then 1 else if s = 0xF2 then 2 else 0)"
      by (auto simp: GetExpectedDataLength_def)
    consider "s = 0xF1 \<or> s = 0xF3" | "s = 0xF2" | "s \<in> {0xF6, 0xF8, 0xF9, 0xFA, 0xFB, 0xFC, 0xFD, 0xFE, 0xFF}"
      using c by auto
    then show ?thesis
    proof cases
      case 1
      then obtain a where "ds = [a]" using e n by (auto simp: length_Suc_conv)
      then show ?thesis using 1
        by (auto simp: bytes_back_def packets_words_def short_word_def False MT [unfolded m1] ProcessUmpType1_def
            sel [unfolded m1] Let_def)
    next
      case 2
      then obtain a b where "ds = [a, b]" using e n by (auto simp: length_Suc_conv numeral_2_eq_2)
      then show ?thesis using 2
        by (simp add: bytes_back_def packets_words_def short_word_def False MT [unfolded m1] ProcessUmpType1_def
            sel [unfolded m1] Let_def)
    next
      case 3
      then have "ds = []" using e n by auto
      then show ?thesis using 3
        by (auto simp: bytes_back_def packets_words_def short_word_def False MT [unfolded m1] ProcessUmpType1_def
            sel [unfolded m1] Let_def)
    qed
  qed
qed

lemma message_back:
  assumes ok: "proc_ok st" and m: "message_ok m"
  shows "\<exists>st' out. run ParseByte st (message_bytes m) = (st', out) \<and> proc_ok st'
     \<and> list_all (\<lambda>q. ump_packet_ok (words_of q)) out \<and> bytes_back r out = message_bytes m"
proof (cases m)
  case (Short s ds)
  obtain st' where "run ParseByte st (s # ds) = (st', [UmpPacket_words [short_word (proc_group st) s ds]])" "proc_ok st'"
    using short_parse ok m unfolding Short by blast
  then show ?thesis using short_back [OF ok m [unfolded Short]] by (simp add: Short)
next
  case (SysEx p)
  let ?st = "st\<lparr>cv_pos := 0, in_sysex := True, sysex_pos := 0, sysex_has_started := False, running_status := 0\<rparr>"
  have "ParseByte st 0xF0 = (?st, [])"
    by (simp add: ParseByte_def HandleStatus_def HandleRealTime_def HandleStatusByte_def)
  moreover have "proc_ok ?st" using ok by (simp add: proc_ok_def)
  then obtain st' out where "run ParseByte ?st (p @ [0xF7]) = (st', out)" "proc_ok st'"
     "list_all (\<lambda>q. ump_packet_ok (words_of q)) out" "bytes_back r out = [0xF0] @ p @ [0xF7]"
    using sysex_tail_back [of ?st p r] m by (auto simp: SysEx SYSEX_BUFFER_SIZE_def)
  ultimately show ?thesis by (simp add: SysEx)
qed

lemma messages_back:
  assumes "proc_ok st" "\<forall>m\<in>set ms. message_ok m"
  shows "\<exists>st' out. run ParseByte st (concat (map message_bytes ms)) = (st', out) \<and> proc_ok st'
     \<and> bytes_back r out = concat (map message_bytes ms)"
  using assms
proof (induction ms arbitrary: st r)
  case (Cons m ms)
  obtain st1 out where 1: "run ParseByte st (message_bytes m) = (st1, out)" "proc_ok st1"
    "list_all (\<lambda>q. ump_packet_ok (words_of q)) out" "bytes_back r out = message_bytes m"
    using message_back [of st m r] Cons.prems by auto
  obtain st2 out2 where 2: "run ParseByte st1 (concat (map message_bytes ms)) = (st2, out2)" "proc_ok st2"
    "bytes_back (fst (ProcessUmpLoop r (packets_words out))) out2 = concat (map message_bytes ms)"
    using Cons.IH [OF 1(2), of "fst (ProcessUmpLoop r (packets_words out))"] Cons.prems(2) by auto
  show ?case using 1 2 back_append [OF 1(3), of r out2] by (simp add: run_append)
qed simp

lemma ProcessUmpLoop_packets:
  assumes "\<forall>p\<in>set ps. ump_packet_ok p"
  shows "ProcessUmpLoop st (concat ps) = run ProcessUmpLoop st ps"
  using assms by (induction ps arbitrary: st) (auto simp: ProcessUmpLoop_packet split: prod.splits)

lemma ProcessUmpLoop_skips:
  assumes "ump_packet_ok p" "MessageType (hd p) \<notin> {1, 2, 3}"
  shows "ProcessUmpLoop st p = (st, [])"
proof -
  obtain w t where p: "p = w # t" "Suc (length t) = GetUmpWordCount w"
    using assms by (cases p) (auto simp: ump_packet_ok_def)
  then have "ucast (drop_bit 28 w AND 0x0F) \<notin> {1, 2, 3 :: u8}" "drop (GetUmpWordCount w) (w # t) = []"
    using assms(2) by (simp_all add: MessageType_def flip: p(2))
  then show ?thesis by (simp add: p(1) Let_def)
qed

section \<open>The invariant of the parser\<close>

definition packet_ok_for :: "u8 \<Rightarrow> UmpPacket \<Rightarrow> bool" where
  "packet_ok_for g q \<longleftrightarrow>
     (let ws = words_of q
      in ump_packet_ok ws \<and> Group (hd ws) = g \<and> MessageType (hd ws) \<in> {1, 2, 3}
         \<and> (MessageType (hd ws) \<noteq> 3 \<longrightarrow> Byte1 (hd ws) < 0x80 \<and> Byte0 (hd ws) < 0x80))"

lemma packet_ok_short:
  assumes "g < 16" "mt \<in> {1, 2}" "a < 0x80" "b < 0x80"
  shows "packet_ok_for g (UmpPacket_words [sys_word mt g s a b])"
proof -
  have "mt < 16" using assms(2) by auto
  note sel = sys_word_sel [OF this assms(1)]
  have "GetUmpWordCount (sys_word mt g s a b) = 1"
    using assms(2) word_count_by_type(1,2) [of "sys_word mt g s a b"] unfolding sel(1) by auto
  then show ?thesis using assms
    by (auto simp: packet_ok_for_def ump_packet_ok_def sel Byte1_def Byte0_def)
qed

lemma Dispatch_ok:
  assumes "proc_group st < 16" "expected_len st \<le> 2"
    "\<forall>i. 0 < i \<and> i \<le> expected_len st \<longrightarrow> cv_buffer st ! i < 0x80"
  shows "list_all (packet_ok_for (proc_group st)) (DispatchChannelMessage st)"
  unfolding Dispatch_word using assms by (auto intro!: packet_ok_short)

lemma DispatchSysEx_ok:
  assumes "proc_group st < 16" "n \<le> 6" "s < 4"
  shows "list_all (packet_ok_for (proc_group st)) (DispatchSysExPacket s n st)"
proof -
  have "s < 16" "(of_nat n :: u8) < 16"
    using assms by (auto simp: word_less_nat_alt take_bit_eq_mod unat_of_nat)
  note sel = sx_word0_sel [OF assms(1) this]
  show ?thesis
    unfolding DispatchSysEx_words [OF assms(2)]
    by (simp add: packet_ok_for_def ump_packet_ok_def sel word_count_by_type)
qed

abbreviation ok_result :: "UmpProcessor \<Rightarrow> UmpProcessor \<times> UmpPacket list \<Rightarrow> bool" where
  "ok_result st r \<equiv> proc_inv (fst r) \<and> proc_group (fst r) = proc_group st
     \<and> list_all (packet_ok_for (proc_group st)) (snd r)"

lemma HandleStatusByte_ok:
  assumes inv: "proc_inv st" and b: "0x80 \<le> b" "b < 0xF8"
  shows "ok_result st (HandleStatusByte b st)"
proof -
  consider "b = 0xF0" | "b = 0xF7" | "b \<noteq> 0xF0" "b \<noteq> 0xF7" by blast
  then show ?thesis
  proof cases
    case 1
    then show ?thesis using inv by (simp add: HandleStatusByte_def proc_inv_def SYSEX_BUFFER_SIZE_def)
  next
    case 2
    have "list_all (packet_ok_for (proc_group st))
        (DispatchSysExPacket (if sysex_has_started st then 3 else 0) (sysex_pos st) (st\<lparr>cv_pos := 0\<rparr>))"
      using DispatchSysEx_ok [of "st\<lparr>cv_pos := 0\<rparr>" "sysex_pos st"] inv by (simp add: proc_inv_def SYSEX_BUFFER_SIZE_def)
    then show ?thesis using 2 inv
      by (simp add: HandleStatusByte_def FinalizeSysEx_def proc_inv_def SYSEX_BUFFER_SIZE_def Let_def)
  next
    case 3
    let ?st = "st\<lparr>cv_pos := 1, in_sysex := False, cv_buffer := (cv_buffer st)[0 := b],
       expected_len := GetExpectedDataLength b, running_status := (if b < 0xF0 then b else 0)\<rparr>"
    have "GetExpectedDataLength b = 0 \<Longrightarrow> list_all (packet_ok_for (proc_group st)) (DispatchChannelMessage ?st)"
      using Dispatch_ok [of ?st] inv by (simp add: proc_inv_def)
    moreover have "HandleStatusByte b st = (if GetExpectedDataLength b = 0
         then (?st\<lparr>cv_pos := 0\<rparr>, DispatchChannelMessage ?st) else (?st, []))"
      using 3 by (simp add: HandleStatusByte_def Dispatch_word Let_def)
    ultimately show ?thesis using inv b
      by (auto simp: proc_inv_def CV_BUFFER_SIZE_def)
  qed
qed

lemma HandleStatus_ok:
  assumes inv: "proc_inv st" and b: "0x80 \<le> b"
  shows "ok_result st (HandleStatus b st)"
proof (cases "b < 0xF8")
  case True
  then show ?thesis using HandleStatusByte_ok [OF inv b True]
    by (simp add: HandleStatus_def HandleRealTime_def)
next
  case False
  have "packet_ok_for (proc_group st) (UmpPacket_words [sys_word 1 (proc_group st) b 0 0])"
    using inv by (intro packet_ok_short) (auto simp: proc_inv_def)
  then show ?thesis using inv False
    by (simp add: HandleStatus_def HandleRealTime_def sys_word_def Let_def)
qed

lemma HandleChannelData_ok:
  assumes inv: "proc_inv st" and b: "b < 0x80"
  shows "ok_result st (HandleChannelData b st)"
proof -
  note i = inv [unfolded proc_inv_def CV_BUFFER_SIZE_def]
  define d where "d st = (if cv_pos st = expected_len st + 1 then (st\<lparr>cv_pos := 0\<rparr>, DispatchChannelMessage st) else (st, []))"
    for st
  have d: "ok_result st (d st')"
    if "proc_group st' = proc_group st" "length (cv_buffer st') = 3" "length (sysex_buffer st') = SYSEX_BUFFER_SIZE"
      "sysex_pos st' < SYSEX_BUFFER_SIZE" "running_status st' = running_status st"
      "0 < cv_pos st'" "cv_pos st' \<le> expected_len st' + 1" "expected_len st' = GetExpectedDataLength (cv_buffer st' ! 0)"
      "0x80 \<le> cv_buffer st' ! 0" "\<forall>i. 0 < i \<and> i < cv_pos st' \<longrightarrow> cv_buffer st' ! i < 0x80" for st'
    using that i Dispatch_ok [of st'] GetExpectedDataLength_le [of "cv_buffer st' ! 0"]
    by (auto simp: d_def proc_inv_def CV_BUFFER_SIZE_def)
  have h: "HandleChannelData b st =
     (if cv_pos st = 0 \<and> running_status st \<noteq> 0 then
        d (st\<lparr>cv_buffer := (cv_buffer st)[0 := running_status st, 1 := b],
              cv_pos := 2, expected_len := GetExpectedDataLength (running_status st)\<rparr>)
      else if 0 < cv_pos st \<and> cv_pos st < CV_BUFFER_SIZE then
        d (st\<lparr>cv_buffer := (cv_buffer st)[cv_pos st := b], cv_pos := cv_pos st + 1\<rparr>)
      else (st, []))"
    by (simp only: HandleChannelData_def d_def Let_def)
  have one: "running_status st \<noteq> 0 \<Longrightarrow> 1 \<le> GetExpectedDataLength (running_status st)"
    using i by (auto simp: GetExpectedDataLength_def Let_def)
  show ?thesis
  proof (cases "cv_pos st = 0 \<and> running_status st \<noteq> 0")
    case True
    then show ?thesis unfolding h if_P [OF True]
      using i b one by (intro d) (auto simp: nth_list_update less_Suc_eq numeral_2_eq_2)
  next
    case F: False
    show ?thesis
    proof (cases "0 < cv_pos st \<and> cv_pos st < CV_BUFFER_SIZE")
      case True
      then show ?thesis unfolding h if_not_P [OF F] if_P [OF True]
        using i b by (intro d) (auto simp: nth_list_update CV_BUFFER_SIZE_def)
    next
      case False
      then show ?thesis unfolding h if_not_P [OF F] if_not_P [OF False] using inv by simp
    qed
  qed
qed

lemma ProcessSysExData_ok:
  assumes inv: "proc_inv st"
  shows "ok_result st (ProcessSysExData b st)"
proof -
  let ?st = "st\<lparr>sysex_buffer := (sysex_buffer st)[sysex_pos st := b], sysex_pos := sysex_pos st + 1\<rparr>"
  have "list_all (packet_ok_for (proc_group st))
      (DispatchSysExPacket (if sysex_has_started st then 2 else 1) SYSEX_BUFFER_SIZE ?st)"
    using DispatchSysEx_ok [of ?st SYSEX_BUFFER_SIZE] inv by (simp add: proc_inv_def SYSEX_BUFFER_SIZE_def)
  then show ?thesis using inv
    by (auto simp: ProcessSysExData_def proc_inv_def SYSEX_BUFFER_SIZE_def Let_def)
qed

lemma HandleDataByte_ok: "proc_inv st \<Longrightarrow> b < 0x80 \<Longrightarrow> ok_result st (HandleDataByte b st)"
  using HandleChannelData_ok ProcessSysExData_ok by (simp add: HandleDataByte_def)

lemma ok_result_bind:
  assumes "ok_result st r" "\<And>st'. proc_inv st' \<Longrightarrow> ok_result st' (f st')"
  shows "ok_result st (case r of (st', out) \<Rightarrow> case f st' of (st'', out') \<Rightarrow> (st'', out @ out'))"
proof -
  obtain st1 o1 where r: "r = (st1, o1)" by fastforce
  obtain st2 o2 where f: "f st1 = (st2, o2)" by fastforce
  show ?thesis using assms(1) assms(2) [of st1] by (simp add: r f)
qed

lemma ProcessBytes_ok: "proc_inv st \<Longrightarrow> ok_result st (ProcessBytes st bs)"
proof (induction bs arbitrary: st rule: length_induct)
  case (1 bs)
  have IH: "ok_result st' (ProcessBytes st' cs)" if "proc_inv st'" "length cs < length bs" for st' cs
    using 1 that by blast
  consider "bs = []" | b where "bs = [b]" | b b' rest where "bs = b # b' # rest"
    by (metis list.exhaust)
  then show ?case
  proof cases
    case (2 b)
    then show ?thesis using HandleStatus_ok HandleDataByte_ok 1 by (simp add: not_le)
  next
    case (3 b b' rest)
    note bind = ok_result_bind [where f = "\<lambda>st. ProcessBytes st rest", OF _ IH]
      ok_result_bind [where f = "\<lambda>st. ProcessBytes st (b' # rest)", OF _ IH]
    consider "0x80 \<le> b" "0x80 \<le> b'" | "0x80 \<le> b" "b' < 0x80" | "b < 0x80" by force
    then show ?thesis
    proof cases
      case a: 1
      show ?thesis unfolding 3 ProcessBytes.simps if_P [OF a(1)] if_P [OF a(2)]
        by (rule bind(1)) (use HandleStatus_ok 1 a 3 in auto)
    next
      case a: 2
      then have n: "\<not> 0x80 \<le> b'" by simp
      show ?thesis unfolding 3 ProcessBytes.simps if_P [OF a(1)] if_not_P [OF n]
        by (rule bind(2)) (use HandleStatus_ok 1 a 3 in auto)
    next
      case a: 3
      then have n: "\<not> 0x80 \<le> b" by simp
      show ?thesis unfolding 3 ProcessBytes.simps if_not_P [OF n]
        by (rule bind(2)) (use HandleDataByte_ok 1 a 3 in auto)
    qed
  qed (use 1 in simp)
qed

section \<open>Adjacent status bytes\<close>

lemma ProcessBytes_data_run:
  "\<forall>b\<in>set p. b < 0x80 \<Longrightarrow> ProcessBytes st (p @ rest) =
     (case run ParseByte st p of (st1, o1) \<Rightarrow> case ProcessBytes st1 rest of (st2, o2) \<Rightarrow> (st2, o1 @ o2))"
  by (induction p arbitrary: st) (auto simp: ProcessBytes_data ParseByte_def not_le split: prod.splits)

lemma sysex_pending:
  assumes "proc_ok st" "in_sysex st" "sysex_pos st + length p < SYSEX_BUFFER_SIZE" "\<forall>b\<in>set p. b < 0x80"
  shows "\<exists>st'. run ParseByte st p = (st', []) \<and> proc_ok st' \<and> proc_group st' = proc_group st"
  using assms
proof (induction p arbitrary: st)
  case (Cons b p)
  let ?st = "st\<lparr>sysex_buffer := (sysex_buffer st)[sysex_pos st := b], sysex_pos := sysex_pos st + 1\<rparr>"
  have "ParseByte st b = (?st, [])" using Cons.prems by (simp add: ParseByte_sysex_data)
  moreover have "proc_ok ?st" using Cons.prems(1) by (simp add: proc_ok_def)
  ultimately show ?case using Cons.IH [of ?st] Cons.prems by auto
qed simp

text \<open>
  A system exclusive message of one to five bytes that is directly followed by a short message,
  as in a plain MIDI 1.0 byte stream, is lost: the look-ahead takes its end byte for a BLE
  timestamp, and only the short message comes out.
\<close>

lemma sysex_end_skipped:
  assumes "proc_ok st" "p \<noteq> []" "length p < 6" "\<forall>b\<in>set p. b < 0x80" "message_ok (Short s ds)"
  shows "packets_words (snd (ProcessBytes st (message_bytes (SysEx p) @ message_bytes (Short s ds))))
      = [short_word (proc_group st) s ds]"
proof -
  let ?st = "st\<lparr>cv_pos := 0, in_sysex := True, sysex_pos := 0, sysex_has_started := False, running_status := 0\<rparr>"
  have 1: "HandleStatus 0xF0 st = (?st, [])"
    by (simp add: HandleStatus_def HandleRealTime_def HandleStatusByte_def)
  have ok: "proc_ok ?st" using assms(1) by (simp add: proc_ok_def)
  obtain st1 where 2: "run ParseByte ?st p = (st1, [])" "proc_ok st1" "proc_group st1 = proc_group st"
    using sysex_pending [OF ok _ _ assms(4)] assms(3) by (auto simp: SYSEX_BUFFER_SIZE_def)
  obtain st2 where 3: "run ParseByte st1 (s # ds) = (st2, [UmpPacket_words [short_word (proc_group st) s ds]])"
    using short_parse [OF 2(2) assms(5)] 2(3) by auto
  have "ProcessBytes st1 (0xF7 # s # ds) = run ParseByte st1 (s # ds)"
    using assms(5) ProcessBytes_data_run [of ds _ "[]"] by (simp add: ParseByte_def split_beta)
  moreover have "ProcessBytes st (0xF0 # p @ 0xF7 # s # ds)
      = (case ProcessBytes ?st (p @ 0xF7 # s # ds) of (st, out) \<Rightarrow> (st, out))"
    using assms(2,4) by (subst ProcessBytes_status_data) (auto simp: 1 hd_append not_le)
  ultimately show ?thesis
    using ProcessBytes_data_run [OF assms(4), of ?st "0xF7 # s # ds"] 2 3 by (simp add: packets_words_def)
qed

section \<open>Properties\<close>

text \<open>
  C3: any sequence of well-formed MIDI 1.0 messages (system exclusive of any length, channel voice,
  system common and real time), in a stream in which a status byte follows a timestamp or is followed by a data byte, parsed into packets
  from any state and translated back into bytes, gives the same message bytes, in order. In any other
  stream, as in a plain MIDI 1.0 one, the look-ahead takes a status byte for a timestamp: of a system exclusive message of
  one to five bytes that is directly followed by a short message only the short message comes out.
\<close>

theorem messages_roundtrip:
  assumes "proc_ok st" "\<forall>m\<in>set ms. message_ok m" "stream_of (concat (map message_bytes ms)) cs"
  shows "bytes_back r (snd (ProcessBytes st cs)) = concat (map message_bytes ms)
    \<and> (\<forall>p s ds. p \<noteq> [] \<and> length p < 6 \<and> (\<forall>b\<in>set p. b < 0x80) \<and> message_ok (Short s ds) \<longrightarrow>
         packets_words (snd (ProcessBytes st (message_bytes (SysEx p) @ message_bytes (Short s ds))))
           = [short_word (proc_group st) s ds])"
proof -
  obtain st' out where "run ParseByte st (concat (map message_bytes ms)) = (st', out)" "bytes_back r out = concat (map message_bytes ms)"
    using messages_back [OF assms(1,2)] by blast
  then show ?thesis using ProcessBytes_stream [OF assms(3)] sysex_end_skipped [OF assms(1)] by simp
qed

theorem messages_roundtrip_witness:
  "bytes_back new_UmpProcessor (snd (ProcessBytes new_UmpProcessor [0x85, 0xF0, 1, 2, 3, 4, 5, 6, 7, 0x85, 0xF7, 0x90, 0x3C, 0x40, 0xF8]))
     = [0xF0, 1, 2, 3, 4, 5, 6, 7, 0xF7, 0x90, 0x3C, 0x40, 0xF8]
   \<and> packets_words (snd (ProcessBytes new_UmpProcessor [0xF0, 1, 0xF7, 0x90, 0x3C, 0x40])) = [short_word 0 0x90 [0x3C, 0x40]]"
proof -
  have s: "message_ok (Short 0x90 [0x3C, 0x40])" by code_simp
  let ?ms = "[SysEx [1, 2, 3, 4, 5, 6, 7], Short 0x90 [0x3C, 0x40], Short 0xF8 []]"
  let ?cs = "[0x85, 0xF0, 1, 2, 3, 4, 5, 6, 7, 0x85, 0xF7, 0x90, 0x3C, 0x40, 0xF8] :: u8 list"
  have "stream_of (concat (map message_bytes ?ms)) [0x85, 0xF0, 1, 2, 3, 4, 5, 6, 7, 0x85, 0xF7, 0x90, 0x3C, 0x40, 0xF8]"
    by (simp, rule stream_of.stamped, simp, simp, (rule stream_of.data, (simp; fail))+, rule stream_of.stamped, simp, simp, rule stream_of.plain, simp, simp,
        (rule stream_of.data, (simp; fail))+, rule stream_of.plain, simp, simp, rule stream_of.nothing)
  moreover have "proc_ok new_UmpProcessor" by code_simp
  moreover have "message_ok m" if "m \<in> set ?ms" for m
    using that by (auto simp: GetExpectedDataLength_def Let_def)
  ultimately have T: "bytes_back new_UmpProcessor (snd (ProcessBytes new_UmpProcessor ?cs)) = concat (map message_bytes ?ms)
      \<and> (\<forall>p s ds. p \<noteq> [] \<and> length p < 6 \<and> (\<forall>b\<in>set p. b < 0x80) \<and> message_ok (Short s ds) \<longrightarrow>
         packets_words (snd (ProcessBytes new_UmpProcessor (message_bytes (SysEx p) @ message_bytes (Short s ds))))
           = [short_word (proc_group new_UmpProcessor) s ds])"
    by (intro messages_roundtrip) auto
  have "proc_group new_UmpProcessor = 0" by (simp add: new_UmpProcessor_def)
  then show ?thesis using conjunct1 [OF T] conjunct2 [OF T, rule_format, of "[1]" "0x90" "[0x3C, 0x40]"] s
    by (simp del: ProcessBytes.simps)
qed

text \<open>
  C4: a block of whole UMP packets is translated packet by packet: a message type that the
  processor does not handle is skipped as a whole and never desynchronises what follows.
\<close>

theorem process_ump_resync:
  assumes "\<forall>p\<in>set ps. ump_packet_ok p"
  shows "ProcessUmp st (Some (concat ps))
     = run (\<lambda>st p. if MessageType (hd p) \<in> {1, 2, 3} then ProcessUmp st (Some p) else (st, [])) st ps"
proof -
  have "run ProcessUmpLoop st ps
     = run (\<lambda>st p. if MessageType (hd p) \<in> {1, 2, 3} then ProcessUmp st (Some p) else (st, [])) st ps"
    using assms
  proof (induction ps arbitrary: st)
    case (Cons p ps)
    then show ?case using ProcessUmpLoop_skips [of p st] by (auto simp: ProcessUmp_def split: prod.splits)
  qed simp
  moreover have "concat ps = [] \<Longrightarrow> ps = []" using assms by (cases ps) (auto simp: ump_packet_ok_def)
  ultimately show ?thesis using ProcessUmpLoop_packets [OF assms] by (auto simp: ProcessUmp_def simp del: concat_eq_Nil_conv)
qed
theorem process_ump_resync_witness:
  "ProcessUmp new_UmpProcessor (Some (concat [[0x40903C00, 0x20904030], [0x20913C40]]))
     = run (\<lambda>st p. if MessageType (hd p) \<in> {1, 2, 3} then ProcessUmp st (Some p) else (st, []))
         new_UmpProcessor [[0x40903C00, 0x20904030], [0x20913C40]]"
  by (rule process_ump_resync) code_simp

text \<open>
  C5: whatever bytes arrive, the parser keeps its invariant (buffer positions within bounds,
  a valid running status) and every packet it emits is a whole packet of its group with a system,
  channel voice or data type, with 7 bit data in the short messages.
\<close>

theorem process_bytes_invariant:
  assumes "proc_inv st"
  shows "proc_inv (fst (ProcessBytes st bs)) \<and> proc_group (fst (ProcessBytes st bs)) = proc_group st
     \<and> list_all (packet_ok_for (proc_group st)) (snd (ProcessBytes st bs))"
  using ProcessBytes_ok [OF assms] .

theorem process_bytes_invariant_witness:
  "proc_inv (fst (ProcessBytes new_UmpProcessor [0x90, 0x3C])) \<and>
   proc_group (fst (ProcessBytes new_UmpProcessor [0x90, 0x3C])) = proc_group new_UmpProcessor
     \<and> list_all (packet_ok_for (proc_group new_UmpProcessor)) (snd (ProcessBytes new_UmpProcessor [0x90, 0x3C]))"
  by (rule process_bytes_invariant)
    (simp add: proc_inv_def new_UmpProcessor_def CV_BUFFER_SIZE_def SYSEX_BUFFER_SIZE_def)

end
