(* ===== verification/Midi_Utils.thy ===== *)
theory Midi_Utils
  imports Ump_Processor
begin

text \<open>
  \<^verbatim>\<open>frameworks/native/midiutils\<close>: packing of system exclusive bytes into UMP packets, and the
  strings that appear in logs and dumps.
\<close>

section \<open>System exclusive packing\<close>

definition MAX_PACKET_BYTES :: nat where "MAX_PACKET_BYTES = 6"

definition SYSEX7_COMPLETE :: u8 where "SYSEX7_COMPLETE = 0"
definition SYSEX7_START :: u8 where "SYSEX7_START = 1"
definition SYSEX7_CONTINUE :: u8 where "SYSEX7_CONTINUE = 2"
definition SYSEX7_END :: u8 where "SYSEX7_END = 3"

lemmas SYSEX7_defs = SYSEX7_COMPLETE_def SYSEX7_START_def SYSEX7_CONTINUE_def SYSEX7_END_def

definition GetSysexStatus :: "u32 \<Rightarrow> u32 \<Rightarrow> u8" where
  "GetSysexStatus pktIndex totalPkts =
     (if totalPkts = 1 then SYSEX7_COMPLETE
      else if pktIndex = 0 then SYSEX7_START
      else if pktIndex + 1 = totalPkts then SYSEX7_END
      else SYSEX7_CONTINUE)"

text \<open>
  The caller passes at most \<open>MAX_PACKET_BYTES\<close> bytes, the size of the local array; \<open>nbytes\<close> is
  the length of the list.
\<close>

definition PackSysEx7Ump64 :: "u8 \<Rightarrow> u8 \<Rightarrow> u8 list \<Rightarrow> u32 \<times> u32" where
  "PackSysEx7Ump64 grp status bytes =
     (let nbytes = (of_nat (length bytes) :: u8);
          b = bytes @ replicate (MAX_PACKET_BYTES - length bytes) 0;
          w0 = 0;
          w0 = w0 OR push_bit 28 ((0x3 :: u32) AND 0xF);
          w0 = w0 OR push_bit 24 (ucast grp AND 0xF);
          w0 = w0 OR push_bit 20 (ucast status AND 0xF);
          w0 = w0 OR push_bit 16 (ucast nbytes AND 0xF);
          w0 = fold (\<lambda>i w. w OR push_bit (i * 8) (ucast (b ! i))) [0..<2] w0;
          w1 = fold (\<lambda>i w. w OR push_bit ((i - 2) * 8) (ucast (b ! i))) [2..<MAX_PACKET_BYTES] 0
      in (w0, w1))"

section \<open>Strings\<close>

definition GetEncryptStr :: "string \<Rightarrow> string" where
  "GetEncryptStr src =
     (if src = [] then []
      else let strLen = length src
           in if strLen < 8 then CHR ''*'' # take (strLen - 1) (drop 1 src)
              else take 2 src @ replicate (strLen - 2 - 5) (CHR ''*'') @ take 5 (drop (strLen - 5) src))"

definition hex_digit :: "u8 \<Rightarrow> char" where
  "hex_digit n = ''0123456789ABCDEF'' ! unat n"

definition BytesToString :: "u32 \<Rightarrow> string" where
  "BytesToString value =
     concat (map (\<lambda>i. let byte = (ucast (drop_bit (i * 8) value AND 0xFF) :: u8)
                      in [hex_digit (drop_bit 4 byte), hex_digit (byte AND 0x0F)] @ (if i \<noteq> 0 then '' '' else []))
            [3, 2, 1, 0])"

text \<open>\<open>operator<<\<close> of an unsigned integer: its decimal digits.\<close>

fun decimal :: "nat \<Rightarrow> string" where
  "decimal n = (if n < 10 then [] else decimal (n div 10)) @ [''0123456789'' ! (n mod 10)]"

declare decimal.simps [simp del]

definition DumpOneEvent :: "u64 \<Rightarrow> nat \<Rightarrow> word_ptr \<Rightarrow> string" where
  "DumpOneEvent ts len d =
     (let out = ''ts: '' @ decimal (unat ts) @ '' len: '' @ decimal len @ '' data: ''
      in if len = 0 then out @ ''<empty>''
         else case d of
                None \<Rightarrow> out @ ''<null>''
              | Some p \<Rightarrow>
                  out @ concat (map (\<lambda>i. BytesToString (p i) @ (if i + 1 \<noteq> len then '' | '' else [])) [0..<len]))"

definition DumpMidiEvents :: "MidiEventInner list \<Rightarrow> string" where
  "DumpMidiEvents events =
     ''MidiEvents count='' @ decimal (length events) @ '':''
     @ concat (map (\<lambda>i. [CHR 0x0A] @ ''  ['' @ decimal i @ ''] ''
                 @ DumpOneEvent (timestamp (events ! i)) (ev_length (events ! i)) (ev_data (events ! i)))
              [0..<length events])"

section \<open>The clock\<close>

text \<open>\<open>ClockTime::GetCurNano\<close>: \<open>ret\<close> and the time are what \<open>clock_gettime\<close> gives.\<close>

definition GetCurNano :: "int \<Rightarrow> int \<times> int \<Rightarrow> int" where
  "GetCurNano ret time = (if \<not> ret \<ge> 0 then - 1 else fst time * 1000000000 + snd time)"

text \<open>Two readings compare as the times do, unless one of them failed.\<close>

lemma GetCurNano_mono:
  assumes "ret \<ge> 0" "ret' \<ge> 0" "0 \<le> n" "n < 1000000000" "0 \<le> n'" "n' < 1000000000"
  shows "GetCurNano ret (s, n) < GetCurNano ret' (s', n') \<longleftrightarrow> s < s' \<or> s = s' \<and> n < n'"
proof (cases "s = s'")
  case False
  then consider "s + 1 \<le> s'" | "s' + 1 \<le> s" by linarith
  then show ?thesis using assms by cases (simp_all add: GetCurNano_def)
qed (use assms in \<open>simp add: GetCurNano_def\<close>)

section \<open>What the packing does\<close>

lemma GetEncryptStr_length: "length (GetEncryptStr s) = length s"
  by (auto simp: GetEncryptStr_def Let_def)

definition pad6 :: "u8 list \<Rightarrow> nat \<Rightarrow> u8" where
  "pad6 bs i = (if i < length bs then bs ! i else 0)"

lemma PackSysEx7_words:
  assumes "g < 16" "s < 16" "length bs \<le> 6"
  shows "PackSysEx7Ump64 g s bs =
     (sx_word0 g s (of_nat (length bs)) (pad6 bs 1) (pad6 bs 0),
      sx_word1 (pad6 bs 5) (pad6 bs 4) (pad6 bs 3) (pad6 bs 2))"
proof -
  have un: "unat (of_nat (length bs) :: u8) = length bs" and n16: "(of_nat (length bs) :: u8) < 16"
    using assms(3) by (auto simp: word_less_nat_alt take_bit_eq_mod unat_of_nat)
  have b: "(bs @ replicate (6 - length bs) 0) ! i = pad6 bs i" if "i < 6" for i
    using that assms(3) by (auto simp: pad6_def nth_append)
  have m: "ucast x AND 0xF = (ucast x :: u32)" if "x < 16" for x :: u8
    unfolding and_masks by (rule bit_word_eqI) (use nibble_bit [OF that] in \<open>auto simp: bit_simps simp flip: not_le\<close>)
  have f: "[0..<2] = [0, 1 :: nat]" "[2..<6] = [2, 3, 4, 5 :: nat]" by (simp_all add: upt_rec numeral_eq_Suc)
  show ?thesis
    unfolding PackSysEx7Ump64_def Let_def m [OF assms(1)] m [OF assms(2)] m [OF n16]
    by (simp add: MAX_PACKET_BYTES_def f b sx_word0_def sx_word1_def
        or.assoc or.commute or.left_commute)
qed

text \<open>
  The processor reads the bytes of a packet that \<open>PackSysEx7Ump64\<close> built in another
  order than they were given: the first two are exchanged, and the last four come out reversed,
  before padding.
\<close>

lemma pack_sysex_order:
  assumes "g < 16" "length bs \<le> 6"
  shows "case PackSysEx7Ump64 g SYSEX7_COMPLETE bs of (w0, w1) \<Rightarrow>
     snd (ProcessUmpType3 w0 w1 st) = [[0xF0] @ take (length bs)
        [pad6 bs 1, pad6 bs 0, pad6 bs 5, pad6 bs 4, pad6 bs 3, pad6 bs 2] @ [0xF7]]"
proof -
  have n16: "(of_nat (length bs) :: u8) < 16" and un: "unat (of_nat (length bs) :: u8) = length bs"
    using assms(2) by (auto simp: word_less_nat_alt take_bit_eq_mod unat_of_nat)
  note sel = sx_word0_sel [OF assms(1) _ n16, of 0]
  show ?thesis using assms
    by (simp add: PackSysEx7_words SYSEX7_defs ProcessUmpType3_def sel sx_word1_sel un Let_def)
qed

end
