(* ===== verification/Futex_Tool.thy ===== *)
theory Futex_Tool
  imports Midi_Types
begin

text \<open>
  \<^verbatim>\<open>services/common/src/futex_tool.cpp\<close>: waiting on and waking a futex word in shared memory.

  The kernel, the clock and the other threads are a world of any type \<open>'w\<close>. A record of functions
  says how the world reads and stores the futex word, what the clock and the system call return,
  and how they change the world: whatever other threads do while this one sleeps happens in the
  system call, and what they do while it runs happens in a clock reading.
\<close>

definition WAIT_TRY_COUNT :: nat where "WAIT_TRY_COUNT = 50"
definition SEC_TO_NANOSEC :: int where "SEC_TO_NANOSEC = 1000000000"
definition IS_READY :: u32 where "IS_READY = 0"
definition IS_NOT_READY :: u32 where "IS_NOT_READY = 1"
definition IS_PRE_EXIT :: u32 where "IS_PRE_EXIT = 2"

lemmas futex_states = IS_READY_def IS_NOT_READY_def IS_PRE_EXIT_def

datatype FutexCode = FUTEX_SUCCESS | FUTEX_TIMEOUT | FUTEX_INVALID_PARAMS | FUTEX_OPERATION_FAILED | FUTEX_PRE_EXIT

datatype Errno = ETIMEDOUT | EAGAIN | EOTHER

record timespec =
  tv_sec :: int
  tv_nsec :: int

record 'w FutexEnv =
  futex_load :: "'w \<Rightarrow> u32"
  futex_store :: "u32 \<Rightarrow> 'w \<Rightarrow> 'w"
  get_time :: "'w \<Rightarrow> int \<times> 'w"
  wait_call :: "timespec option \<Rightarrow> 'w \<Rightarrow> int \<times> Errno \<times> 'w"
  wake_call :: "'w \<Rightarrow> int \<times> 'w"

definition TimeoutToRelativeTime :: "int \<Rightarrow> timespec" where
  "TimeoutToRelativeTime timeout =
     \<lparr>tv_sec = timeout div SEC_TO_NANOSEC, tv_nsec = timeout mod SEC_TO_NANOSEC\<rparr>"

definition compare_exchange :: "'w FutexEnv \<Rightarrow> u32 \<Rightarrow> u32 \<Rightarrow> 'w \<Rightarrow> bool \<times> u32 \<times> 'w" where
  "compare_exchange env expect new w =
     (if futex_load env w = expect then (True, expect, futex_store env new w)
      else (False, futex_load env w, w))"

text \<open>A null pointer and an empty predicate are \<open>None\<close>.\<close>

definition CheckWaitParams :: "'w FutexEnv option \<Rightarrow> ('w \<Rightarrow> bool) option \<Rightarrow> 'w \<Rightarrow> FutexCode" where
  "CheckWaitParams futexPtr pred w =
     (case futexPtr of
        None \<Rightarrow> FUTEX_INVALID_PARAMS
      | Some env \<Rightarrow>
          if pred = None then FUTEX_INVALID_PARAMS
          else
            let current = futex_load env w
            in if current \<noteq> IS_READY \<and> current \<noteq> IS_NOT_READY \<and> current \<noteq> IS_PRE_EXIT
               then FUTEX_INVALID_PARAMS else FUTEX_SUCCESS)"

definition RecalculateWaitTime ::
  "'w FutexEnv \<Rightarrow> int \<Rightarrow> int \<Rightarrow> timespec option \<Rightarrow> 'w \<Rightarrow> bool \<times> timespec option \<times> 'w" where
  "RecalculateWaitTime env timeout timeIn waitTime w =
     (if timeout \<le> 0 then (True, waitTime, w)
      else
        (case get_time env w of (now, w) \<Rightarrow>
           let cost = now - timeIn
           in if cost \<ge> timeout then (False, waitTime, w)
              else (True, Some (TimeoutToRelativeTime (timeout - cost)), w)))"

definition ExecFutexWaitSyscall :: "'w FutexEnv \<Rightarrow> timespec option \<Rightarrow> 'w \<Rightarrow> FutexCode \<times> 'w" where
  "ExecFutexWaitSyscall env waitTime w =
     (case wait_call env waitTime w of (res, sysErr, w) \<Rightarrow>
        (if res \<noteq> 0 \<and> sysErr = ETIMEDOUT then FUTEX_TIMEOUT else FUTEX_SUCCESS, w))"

text \<open>The loop, with the number of tries that are left.\<close>

primrec WaitLoop ::
  "nat \<Rightarrow> 'w FutexEnv \<Rightarrow> int \<Rightarrow> ('w \<Rightarrow> bool) \<Rightarrow> int \<Rightarrow> timespec option \<Rightarrow> 'w \<Rightarrow> FutexCode \<times> 'w" where
  "WaitLoop 0 env timeout pred timeIn waitTime w = (FUTEX_OPERATION_FAILED, w)"
| "WaitLoop (Suc tries) env timeout pred timeIn waitTime w =
     (case compare_exchange env IS_READY IS_NOT_READY w of (ok, expect, w) \<Rightarrow>
        if \<not> ok \<and> expect = IS_PRE_EXIT then (FUTEX_OPERATION_FAILED, w)
        else if pred w then (FUTEX_SUCCESS, w)
        else
          (case RecalculateWaitTime env timeout timeIn waitTime w of (go, waitTime, w) \<Rightarrow>
             if \<not> go then (FUTEX_TIMEOUT, w)
             else
               (case ExecFutexWaitSyscall env (if timeout \<le> 0 then None else waitTime) w of (sysRet, w) \<Rightarrow>
                  if sysRet = FUTEX_TIMEOUT then (FUTEX_TIMEOUT, w)
                  else if pred w then (FUTEX_SUCCESS, w)
                  else WaitLoop tries env timeout pred timeIn waitTime w)))"

definition FutexWait ::
  "'w FutexEnv option \<Rightarrow> int \<Rightarrow> ('w \<Rightarrow> bool) option \<Rightarrow> 'w \<Rightarrow> FutexCode \<times> 'w" where
  "FutexWait futexPtr timeout pred w =
     (let checkRet = CheckWaitParams futexPtr pred w
      in if checkRet \<noteq> FUTEX_SUCCESS then (checkRet, w)
         else
           (case get_time (the futexPtr) w of (timeIn, w) \<Rightarrow>
              WaitLoop WAIT_TRY_COUNT (the futexPtr) timeout (the pred) timeIn
                (if timeout > 0 then Some (TimeoutToRelativeTime timeout) else None) w))"

definition FutexWake :: "'w FutexEnv option \<Rightarrow> u32 \<Rightarrow> 'w \<Rightarrow> FutexCode \<times> 'w" where
  "FutexWake futexPtr wakeVal w =
     (case futexPtr of
        None \<Rightarrow> (FUTEX_INVALID_PARAMS, w)
      | Some env \<Rightarrow>
          let current = futex_load env w
          in if current \<noteq> IS_READY \<and> current \<noteq> IS_NOT_READY \<and> current \<noteq> IS_PRE_EXIT
             then (FUTEX_INVALID_PARAMS, w)
             else if wakeVal = IS_PRE_EXIT then
               (FUTEX_SUCCESS, snd (wake_call env (futex_store env IS_PRE_EXIT w)))
             else
               (case compare_exchange env IS_NOT_READY IS_READY w of (ok, _, w) \<Rightarrow>
                  if ok then
                    (case wake_call env w of (res, w) \<Rightarrow>
                       if res < 0 then (FUTEX_OPERATION_FAILED, w) else (FUTEX_SUCCESS, w))
                  else (FUTEX_SUCCESS, w)))"

section \<open>Waiting\<close>

text \<open>
  One round of a wait in a world \<open>w\<close>: the word is marked as not ready, the time is checked unless there is no limit, and the thread
  sleeps for what is left of its time.
\<close>

definition marked :: "'w FutexEnv \<Rightarrow> 'w \<Rightarrow> 'w" where
  "marked env w = (if futex_load env w = IS_READY then futex_store env IS_NOT_READY w else w)"

definition time_over :: "'w FutexEnv \<Rightarrow> int \<Rightarrow> int \<Rightarrow> 'w \<Rightarrow> bool" where
  "time_over env timeout timeIn w \<longleftrightarrow> 0 < timeout \<and> timeout \<le> fst (get_time env w) - timeIn"

definition clock_read :: "'w FutexEnv \<Rightarrow> int \<Rightarrow> 'w \<Rightarrow> 'w" where
  "clock_read env timeout w = (if 0 < timeout then snd (get_time env w) else w)"

definition sleeping :: "'w FutexEnv \<Rightarrow> int \<Rightarrow> int \<Rightarrow> 'w \<Rightarrow> int \<times> Errno \<times> 'w" where
  "sleeping env timeout timeIn w =
     wait_call env
       (if 0 < timeout then Some (TimeoutToRelativeTime (timeout - (fst (get_time env w) - timeIn))) else None)
       (clock_read env timeout w)"

definition slept_out :: "int \<times> Errno \<times> 'w \<Rightarrow> bool" where
  "slept_out r \<longleftrightarrow> fst r \<noteq> 0 \<and> fst (snd r) = ETIMEDOUT"

text \<open>A number of rounds that end with a wake-up after which the predicate still does not hold.\<close>

inductive woken_in_vain :: "'w FutexEnv \<Rightarrow> int \<Rightarrow> ('w \<Rightarrow> bool) \<Rightarrow> int \<Rightarrow> nat \<Rightarrow> 'w \<Rightarrow> 'w \<Rightarrow> bool"
  for env timeout pred timeIn where
  no_round: "woken_in_vain env timeout pred timeIn 0 w w"
| round: "futex_load env w \<noteq> IS_PRE_EXIT \<Longrightarrow> \<not> pred (marked env w) \<Longrightarrow> \<not> time_over env timeout timeIn (marked env w) \<Longrightarrow>
    sleeping env timeout timeIn (marked env w) = (res, err, w1) \<Longrightarrow> \<not> slept_out (res, err, w1) \<Longrightarrow> \<not> pred w1 \<Longrightarrow>
    woken_in_vain env timeout pred timeIn n w1 w2 \<Longrightarrow> woken_in_vain env timeout pred timeIn (Suc n) w w2"

text \<open>What each code says about the round that ended the wait.\<close>

definition wait_outcome :: "'w FutexEnv \<Rightarrow> int \<Rightarrow> ('w \<Rightarrow> bool) \<Rightarrow> int \<Rightarrow> 'w \<Rightarrow> bool \<Rightarrow> FutexCode \<Rightarrow> 'w \<Rightarrow> bool" where
  "wait_outcome env timeout pred timeIn w tries_left code w' \<longleftrightarrow>
     (let m = marked env w; r = sleeping env timeout timeIn m
      in case code of
           FUTEX_SUCCESS \<Rightarrow> tries_left \<and> futex_load env w \<noteq> IS_PRE_EXIT \<and> pred w'
             \<and> (w' = m \<or> \<not> pred m \<and> \<not> time_over env timeout timeIn m \<and> \<not> slept_out r \<and> w' = snd (snd r))
         | FUTEX_TIMEOUT \<Rightarrow> tries_left \<and> futex_load env w \<noteq> IS_PRE_EXIT \<and> \<not> pred m
             \<and> (if time_over env timeout timeIn m then w' = clock_read env timeout m else slept_out r \<and> w' = snd (snd r))
         | FUTEX_OPERATION_FAILED \<Rightarrow> w' = w \<and> (tries_left \<longrightarrow> futex_load env w = IS_PRE_EXIT)
         | _ \<Rightarrow> False)"

lemma WaitLoop_outcome:
  "WaitLoop tries env timeout pred timeIn t w = (code, w') \<Longrightarrow>
     \<exists>n w1. n \<le> tries \<and> woken_in_vain env timeout pred timeIn n w w1 \<and> wait_outcome env timeout pred timeIn w1 (n < tries) code w'"
proof (induction tries arbitrary: t w)
  case 0
  then show ?case by (auto simp: wait_outcome_def Let_def intro: no_round)
next
  case (Suc tries)
  let ?m = "marked env w"
  obtain ok expect where C: "compare_exchange env IS_READY IS_NOT_READY w = (ok, expect, ?m)"
    "\<not> ok \<and> expect = IS_PRE_EXIT \<longleftrightarrow> futex_load env w = IS_PRE_EXIT"
    by (cases "futex_load env w = IS_READY") (auto simp: compare_exchange_def marked_def futex_states)
  have m: "futex_load env w = IS_PRE_EXIT \<Longrightarrow> ?m = w" by (simp add: marked_def futex_states)
  obtain res err w1 where S: "sleeping env timeout timeIn ?m = (res, err, w1)" using prod_cases3 by blast
  have R: "\<exists>t'. RecalculateWaitTime env timeout timeIn t ?m = (\<not> time_over env timeout timeIn ?m, t', clock_read env timeout ?m)
     \<and> (\<not> time_over env timeout timeIn ?m \<longrightarrow>
         ExecFutexWaitSyscall env (if timeout \<le> 0 then None else t') (clock_read env timeout ?m)
           = (if slept_out (res, err, w1) then FUTEX_TIMEOUT else FUTEX_SUCCESS, w1))"
  proof (cases "0 < timeout")
    case True
    then show ?thesis using S
      by (cases "timeout \<le> fst (get_time env ?m) - timeIn")
        (simp_all add: RecalculateWaitTime_def ExecFutexWaitSyscall_def time_over_def clock_read_def sleeping_def slept_out_def
          Let_def split_beta)
  next
    case False
    then show ?thesis using S
      by (simp add: RecalculateWaitTime_def ExecFutexWaitSyscall_def time_over_def clock_read_def sleeping_def slept_out_def)
  qed
  then obtain t' where R: "RecalculateWaitTime env timeout timeIn t ?m = (\<not> time_over env timeout timeIn ?m, t', clock_read env timeout ?m)"
     "\<not> time_over env timeout timeIn ?m \<Longrightarrow>
         ExecFutexWaitSyscall env (if timeout \<le> 0 then None else t') (clock_read env timeout ?m)
           = (if slept_out (res, err, w1) then FUTEX_TIMEOUT else FUTEX_SUCCESS, w1)" by blast
  show ?case
  proof (cases "futex_load env w \<noteq> IS_PRE_EXIT \<and> \<not> pred ?m \<and> \<not> time_over env timeout timeIn ?m
      \<and> \<not> slept_out (res, err, w1) \<and> \<not> pred w1")
    case True
    then have "WaitLoop tries env timeout pred timeIn t' w1 = (code, w')" using Suc.prems C R by simp
    from Suc.IH [OF this] obtain n w2 where "n \<le> tries" "woken_in_vain env timeout pred timeIn n w1 w2"
      "wait_outcome env timeout pred timeIn w2 (n < tries) code w'" by blast
    then show ?thesis using True S by (intro exI [of _ "Suc n"] exI [of _ w2]) (auto intro: round)
  next
    case False
    then have "wait_outcome env timeout pred timeIn w True code w'"
      using Suc.prems C R S m by (auto simp: wait_outcome_def Let_def split: if_splits)
    then show ?thesis by (intro exI [of _ 0] exI [of _ w]) (auto intro: no_round)
  qed
qed

lemma TimeoutToRelativeTime_range:
  "0 \<le> tv_nsec (TimeoutToRelativeTime t) \<and> tv_nsec (TimeoutToRelativeTime t) < 1000000000
   \<and> tv_sec (TimeoutToRelativeTime t) * 1000000000 + tv_nsec (TimeoutToRelativeTime t) = t"
  by (simp add: TimeoutToRelativeTime_def SEC_TO_NANOSEC_def)

text \<open>A property of the world that every step of the other threads keeps.\<close>

definition env_keeps :: "('w \<Rightarrow> bool) \<Rightarrow> 'w FutexEnv \<Rightarrow> bool" where
  "env_keeps P env \<longleftrightarrow>
     (\<forall>w. P w \<longrightarrow> (\<forall>v. P (futex_store env v w)) \<and> P (snd (get_time env w)) \<and> (\<forall>t. P (snd (snd (wait_call env t w)))))"

lemma WaitLoop_keeps:
  assumes "env_keeps P env" "P w"
  shows "P (snd (WaitLoop n env timeout pred timeIn t w))"
  using assms(2)
proof (induction n arbitrary: t w)
  case (Suc n)
  have *: "P w \<Longrightarrow> P (futex_store env v w)" "P w \<Longrightarrow> P (snd (get_time env w))" "P w \<Longrightarrow> P (snd (snd (wait_call env t w)))" for v w t
    using assms(1) by (simp_all add: env_keeps_def)
  obtain ok ex w1 where C: "compare_exchange env IS_READY IS_NOT_READY w = (ok, ex, w1)" using prod_cases3 by blast
  have 1: "P w1" using C Suc.prems *(1) by (auto simp: compare_exchange_def split: if_splits)
  obtain go t1 w2 where R: "RecalculateWaitTime env timeout timeIn t w1 = (go, t1, w2)" using prod_cases3 by blast
  have 2: "P w2" using R 1 *(2) [OF 1] by (auto simp: RecalculateWaitTime_def Let_def split: if_splits prod.splits)
  obtain ret w3 where E: "ExecFutexWaitSyscall env (if timeout \<le> 0 then None else t1) w2 = (ret, w3)" by fastforce
  have 3: "P w3" using E *(3) [OF 2] by (auto simp: ExecFutexWaitSyscall_def split: prod.splits) (metis snd_conv)
  show ?case using 1 2 3 Suc.IH by (simp add: C R E)
qed simp

lemma FutexWait_keeps:
  assumes "env_keeps P env" "P w"
  shows "P (snd (FutexWait (Some env) timeout pred w))"
proof -
  have "P (snd (get_time env w))" using assms by (simp add: env_keeps_def)
  then show ?thesis using assms WaitLoop_keeps [OF assms(1)] by (simp add: FutexWait_def Let_def split_beta)
qed

text \<open>
  C7: what each code of a wait means. Invalid parameters (a missing pointer or predicate, a futex word with an unknown value) are
  reported without any effect, and only then. Otherwise the wait goes through at most 50 rounds that end with a
  wake-up for nothing, and in the round after them: success means that the predicate holds at the moment of the return, when the word
  has been marked or right after the wake-up; a timeout, that it did not hold and that the time is over
  by the clock or that the system call has said so, never so by the clock for a wait without a limit; a failure,
  that the word announces the exit of the peer, before the predicate is evaluated, or that the 50 rounds are used up.
\<close>

theorem futex_wait_sound:
  "case FutexWait p timeout pred w of (code, w') \<Rightarrow>
     if CheckWaitParams p pred w \<noteq> FUTEX_SUCCESS then code = FUTEX_INVALID_PARAMS \<and> w' = w
     else (case get_time (the p) w of (timeIn, w0) \<Rightarrow>
       \<exists>n w1. n \<le> WAIT_TRY_COUNT \<and> woken_in_vain (the p) timeout (the pred) timeIn n w0 w1
         \<and> wait_outcome (the p) timeout (the pred) timeIn w1 (n < WAIT_TRY_COUNT) code w')"
proof -
  obtain timeIn w0 where g: "get_time (the p) w = (timeIn, w0)" by fastforce
  obtain code w' where r: "FutexWait p timeout pred w = (code, w')" by fastforce
  have c: "CheckWaitParams p pred w \<in> {FUTEX_SUCCESS, FUTEX_INVALID_PARAMS}"
    by (auto simp: CheckWaitParams_def Let_def split: option.splits)
  show ?thesis
  proof (cases "CheckWaitParams p pred w = FUTEX_SUCCESS")
    case True
    then have "WaitLoop WAIT_TRY_COUNT (the p) timeout (the pred) timeIn
        (if timeout > 0 then Some (TimeoutToRelativeTime timeout) else None) w0 = (code, w')"
      using r g by (simp only: FutexWait_def Let_def prod.case if_False simp_thms)
    from WaitLoop_outcome [OF this] show ?thesis using True g r by simp
  next
    case False
    then show ?thesis using r c by (auto simp: FutexWait_def Let_def)
  qed
qed

text \<open>A world whose clock shows how long the thread has slept, ten nanoseconds at a time.\<close>

definition clock_env :: "(u32 \<times> int) FutexEnv" where
  "clock_env = \<lparr>futex_load = fst, futex_store = (\<lambda>v (_, c). (v, c)), get_time = (\<lambda>w. (snd w, w)),
               wait_call = (\<lambda>_ (v, c). (0, EAGAIN, (v, c + 10))), wake_call = (\<lambda>w. (0, w))\<rparr>"

lemma clock_env_simps [simp]:
  "futex_load clock_env = fst" "futex_store clock_env v w = (v, snd w)" "get_time clock_env w = (snd w, w)"
  "wait_call clock_env t w = (0, EAGAIN, (fst w, snd w + 10))"
  by (simp_all add: clock_env_def split_beta)

lemma clock_waits:
  "FutexWait (Some clock_env) 25 (Some (\<lambda>_. False)) (IS_READY, 0) = (FUTEX_TIMEOUT, (IS_NOT_READY, 30))"
  "FutexWait (Some clock_env) 25 (Some (\<lambda>w. 10 \<le> snd w)) (IS_READY, 0) = (FUTEX_SUCCESS, (IS_NOT_READY, 10))"
  "FutexWait (Some clock_env) 25 (Some (\<lambda>_. True)) (IS_PRE_EXIT, 0) = (FUTEX_OPERATION_FAILED, (IS_PRE_EXIT, 0))"
  by (simp_all add: FutexWait_def CheckWaitParams_def futex_states WAIT_TRY_COUNT_def numeral_eq_Suc compare_exchange_def
      RecalculateWaitTime_def ExecFutexWaitSyscall_def Let_def)

theorem futex_wait_sound_witness:
  "(\<exists>n w1. n < WAIT_TRY_COUNT \<and> woken_in_vain clock_env 25 (\<lambda>_. False) 0 n (IS_READY, 0) w1 \<and> time_over clock_env 25 0 (marked clock_env w1))
   \<and> (\<exists>n w1. n < WAIT_TRY_COUNT \<and> woken_in_vain clock_env 25 (\<lambda>w. 10 \<le> snd w) 0 n (IS_READY, 0) w1 \<and> fst w1 \<noteq> IS_PRE_EXIT)
   \<and> (\<exists>n w1. n \<le> WAIT_TRY_COUNT \<and> woken_in_vain clock_env 25 (\<lambda>_. True) 0 n (IS_PRE_EXIT, 0) w1 \<and> w1 = (IS_PRE_EXIT, 0))"
proof -
  have c: "CheckWaitParams (Some clock_env) (Some q) (v, c) = FUTEX_SUCCESS" if "v = IS_READY \<or> v = IS_PRE_EXIT" for q v c
    using that by (auto simp: CheckWaitParams_def futex_states)
  note T = futex_wait_sound [where p = "Some clock_env" and timeout = 25]
  note simps = clock_waits c wait_outcome_def Let_def slept_out_def sleeping_def
  show ?thesis
  proof (intro conjI)
    show "\<exists>n w1. n < WAIT_TRY_COUNT \<and> woken_in_vain clock_env 25 (\<lambda>_. False) 0 n (IS_READY, 0) w1
        \<and> time_over clock_env 25 0 (marked clock_env w1)"
      using T [where pred = "Some (\<lambda>_. False)" and w = "(IS_READY, 0)"] by (auto simp: simps order_less_le split: if_splits)
    show "\<exists>n w1. n < WAIT_TRY_COUNT \<and> woken_in_vain clock_env 25 (\<lambda>w. 10 \<le> snd w) 0 n (IS_READY, 0) w1 \<and> fst w1 \<noteq> IS_PRE_EXIT"
      using T [where pred = "Some (\<lambda>w. 10 \<le> snd w)" and w = "(IS_READY, 0)"] by (simp add: simps) blast
    show "\<exists>n w1. n \<le> WAIT_TRY_COUNT \<and> woken_in_vain clock_env 25 (\<lambda>_. True) 0 n (IS_PRE_EXIT, 0) w1 \<and> w1 = (IS_PRE_EXIT, 0)"
      using T [where pred = "Some (\<lambda>_. True)" and w = "(IS_PRE_EXIT, 0)"] by (simp add: simps)
  qed
qed

end
