(* ===== verification/Shared_Ring.thy ===== *)
theory Shared_Ring
  imports Futex_Tool
begin

text \<open>
  \<^verbatim>\<open>services/common/src/midi_shared_ring.cpp\<close>: the ring of events in memory that the client and
  the service share.

  Positions, capacity and sizes are 32 bit words, as in the code. The data area is a map from byte
  offsets to the 32 bit word that starts there; the code accesses it at multiples of four only.
  Each operation is the sequential code, run to its end: the two sides are interleaved by running their
  operations one after the other. The waking of the peer is the value of the futex word and
  the counter behind the notification descriptor.
\<close>

section \<open>Layout\<close>

definition MAX_MMAP_BUFFER_SIZE :: u32 where "MAX_MMAP_BUFFER_SIZE = 0x2000"

text \<open>\<open>sizeof(ControlHeader)\<close>, \<open>sizeof\<close> and \<open>alignof\<close> of \<open>ShmMidiEventHeader\<close>.\<close>

definition SIZEOF_CONTROL :: u32 where [ring_defs]: "SIZEOF_CONTROL = 64"
definition SIZEOF_HEADER :: nat where [ring_defs]: "SIZEOF_HEADER = 24"
definition ALIGNOF_HEADER :: nat where [ring_defs]: "ALIGNOF_HEADER = 8"
definition SIZEOF_WORD :: nat where [ring_defs]: "SIZEOF_WORD = 4"

definition SHM_EVENT_FLAG_NONE :: u32 where [ring_defs]: "SHM_EVENT_FLAG_NONE = 0"
definition SHM_EVENT_FLAG_WRAP :: u32 where [ring_defs]: "SHM_EVENT_FLAG_WRAP = 1"

record ShmMidiEventHeader =
  h_timestamp :: u64
  h_length :: u32
  h_flags :: u32
  h_sequence :: u32

definition zero_header :: ShmMidiEventHeader where
  "zero_header = \<lparr>h_timestamp = 0, h_length = 0, h_flags = 0, h_sequence = 0\<rparr>"

record MidiSharedRing =
  capacity :: u32
  readPosition :: u32
  writePosition :: u32
  futexObj :: u32
  flushFlag :: u32
  ring_mem :: "nat \<Rightarrow> u32"
  notifyFd :: "nat option"

record PeekedEvent =
  localHeader :: ShmMidiEventHeader
  payloadPtr :: "nat option"
  beginOffset :: u32
  endOffset :: u32
  sequence :: u32

definition empty_PeekedEvent :: PeekedEvent where
  "empty_PeekedEvent =
     \<lparr>localHeader = zero_header, payloadPtr = None, beginOffset = 0, endOffset = 0, sequence = 0\<rparr>"

section \<open>Sizes\<close>

definition AlignUpToHeader :: "nat \<Rightarrow> nat" where
  "AlignUpToHeader value =
     (let remainder = value mod ALIGNOF_HEADER
      in if remainder = 0 then value else value + (ALIGNOF_HEADER - remainder))"

definition GetEventRecordSize :: "nat \<Rightarrow> u32 option" where
  "GetEventRecordSize wordCount =
     (let maxSize = 2 ^ 64 - 1
      in if wordCount > (maxSize - SIZEOF_HEADER - (ALIGNOF_HEADER - 1)) div SIZEOF_WORD then None
         else
           let alignedSize = AlignUpToHeader (SIZEOF_HEADER + wordCount * SIZEOF_WORD)
           in if alignedSize > 2 ^ 32 - 1 then None else Some (of_nat alignedSize))"

definition RingUsed :: "u32 \<Rightarrow> u32 \<Rightarrow> u32 \<Rightarrow> u32" where
  "RingUsed r w cap = (if w \<ge> r then w - r else cap - (r - w))"

definition RingFree :: "u32 \<Rightarrow> u32 \<Rightarrow> u32 \<Rightarrow> u32" where
  "RingFree r w cap = (let used = RingUsed r w cap in (cap - 1) - used)"

definition IsValidOffset :: "u32 \<Rightarrow> u32 \<Rightarrow> bool" where
  "IsValidOffset off cap \<longleftrightarrow> off < cap"

section \<open>Memory\<close>

definition store_words :: "nat \<Rightarrow> u32 list \<Rightarrow> (nat \<Rightarrow> u32) \<Rightarrow> nat \<Rightarrow> u32" where
  "store_words off ws mem i =
     (if off \<le> i \<and> i < off + 4 * length ws \<and> (i - off) mod 4 = 0 then ws ! ((i - off) div 4) else mem i)"

definition load_words :: "(nat \<Rightarrow> u32) \<Rightarrow> nat \<Rightarrow> nat \<Rightarrow> u32 list" where
  "load_words mem off n = map (\<lambda>i. mem (off + 4 * i)) [0..<n]"

text \<open>The 64 bit timestamp at offset 0 lies in two words, the low one first.\<close>

definition load_timestamp :: "(nat \<Rightarrow> u32) \<Rightarrow> nat \<Rightarrow> u64" where
  "load_timestamp mem off = push_bit 32 (ucast (mem (off + 4))) OR ucast (mem off)"

definition load_sequence :: "(nat \<Rightarrow> u32) \<Rightarrow> nat \<Rightarrow> u32" where
  "load_sequence mem off = mem (off + 16)"

definition store_sequence :: "nat \<Rightarrow> u32 \<Rightarrow> (nat \<Rightarrow> u32) \<Rightarrow> nat \<Rightarrow> u32" where
  "store_sequence off s mem = mem(off + 16 := s)"

definition store_fields :: "nat \<Rightarrow> u64 \<Rightarrow> u32 \<Rightarrow> u32 \<Rightarrow> (nat \<Rightarrow> u32) \<Rightarrow> nat \<Rightarrow> u32" where
  "store_fields off ts len flags mem =
     mem(off := ucast ts, off + 4 := ucast (drop_bit 32 ts), off + 8 := len, off + 12 := flags)"

section \<open>Creation\<close>

definition OH_INVALID_FD :: int where "OH_INVALID_FD = -1"
definition MINFD :: int where "MINFD = 2"

definition totalMemorySize :: "u32 \<Rightarrow> u32" where
  "totalMemorySize ringCapacityBytes = SIZEOF_CONTROL + ringCapacityBytes"

text \<open>
  \<open>MidiSharedMemory\<close>. The operating system is a parameter: \<open>map_memory fd size\<close> is the
  contents of the mapping, or \<open>None\<close> when a descriptor cannot be created or mapped.
\<close>

definition MidiSharedMemory_Init :: "(int \<Rightarrow> nat \<Rightarrow> (nat \<Rightarrow> u32) option) \<Rightarrow> int \<Rightarrow> u32 \<Rightarrow> (nat \<Rightarrow> u32) option" where
  "MidiSharedMemory_Init map_memory fd sz =
     (if \<not> (sz > 0 \<and> sz < MAX_MMAP_BUFFER_SIZE) then None else map_memory fd (unat sz))"

definition MidiSharedMemory_CreateFromRemote ::
  "(int \<Rightarrow> nat \<Rightarrow> (nat \<Rightarrow> u32) option) \<Rightarrow> int \<Rightarrow> u32 \<Rightarrow> (nat \<Rightarrow> u32) option" where
  "MidiSharedMemory_CreateFromRemote map_memory fd sz =
     (if fd > MINFD then MidiSharedMemory_Init map_memory fd sz else None)"

text \<open>The control header in the mapping keeps the futex word that it finds there.\<close>

definition Init ::
  "(int \<Rightarrow> nat \<Rightarrow> (nat \<Rightarrow> u32) option) \<Rightarrow> int \<Rightarrow> u32 \<Rightarrow> nat option \<Rightarrow> int \<times> MidiSharedRing option" where
  "Init map_memory dataFd cap notify =
     (if \<not> (cap \<le> MAX_MMAP_BUFFER_SIZE - SIZEOF_CONTROL) then (OH_MIDI_STATUS_GENERIC_INVALID_ARGUMENT, None)
      else if \<not> (totalMemorySize cap \<le> MAX_MMAP_BUFFER_SIZE) then (OH_MIDI_STATUS_GENERIC_INVALID_ARGUMENT, None)
      else
        (case (if dataFd = OH_INVALID_FD then MidiSharedMemory_Init map_memory dataFd (totalMemorySize cap)
               else MidiSharedMemory_CreateFromRemote map_memory dataFd (totalMemorySize cap)) of
           None \<Rightarrow> (OH_MIDI_STATUS_SYSTEM_ERROR, None)
         | Some base \<Rightarrow>
             (OH_MIDI_STATUS_OK,
              Some \<lparr>capacity = cap, readPosition = 0, writePosition = 0, futexObj = base 12, flushFlag = 0,
                    ring_mem = (\<lambda>off. base (off + 64)), notifyFd = notify\<rparr>)))"

definition CreateFromLocal ::
  "(int \<Rightarrow> nat \<Rightarrow> (nat \<Rightarrow> u32) option) \<Rightarrow> u32 \<Rightarrow> nat option \<Rightarrow> MidiSharedRing option" where
  "CreateFromLocal map_memory ringCapacityBytes notify = snd (Init map_memory OH_INVALID_FD ringCapacityBytes notify)"

definition CreateFromRemote ::
  "(int \<Rightarrow> nat \<Rightarrow> (nat \<Rightarrow> u32) option) \<Rightarrow> u32 \<Rightarrow> int \<Rightarrow> MidiSharedRing option" where
  "CreateFromRemote map_memory ringCapacityBytes dataFd =
     (if dataFd > MINFD then snd (Init map_memory dataFd ringCapacityBytes None) else None)"

text \<open>The values in the order in which \<open>Unmarshalling\<close> reads them from an untrusted parcel.\<close>

record RingParcel =
  p_ringSize :: u32
  p_dataFd :: int
  p_hasNotifyFd :: bool
  p_eventFd :: int

text \<open>
  \<open>dataFd\<close> and \<open>eventFd\<close> are the descriptors of the ring; passing a descriptor through a parcel is the work of the IPC layer.
  \<open>mapping_of\<close> is what lies in the memory that the descriptor of a ring leads to.
\<close>

definition Marshalling :: "int \<Rightarrow> int \<Rightarrow> MidiSharedRing \<Rightarrow> RingParcel" where
  "Marshalling dataFd eventFd ring =
     \<lparr>p_ringSize = capacity ring, p_dataFd = dataFd, p_hasNotifyFd = (notifyFd ring \<noteq> None), p_eventFd = eventFd\<rparr>"

definition mapping_of :: "MidiSharedRing \<Rightarrow> nat \<Rightarrow> u32" where
  "mapping_of ring off =
     (if off = 0 then readPosition ring else if off = 4 then writePosition ring else if off = 8 then capacity ring
      else if off = 12 then futexObj ring else if off = 20 then flushFlag ring
      else if off \<ge> 64 then ring_mem ring (off - 64) else 0)"

definition Unmarshalling :: "(int \<Rightarrow> nat \<Rightarrow> (nat \<Rightarrow> u32) option) \<Rightarrow> RingParcel \<Rightarrow> MidiSharedRing option" where
  "Unmarshalling map_memory parcel =
     (let ringSize = p_ringSize parcel
      in if \<not> (ringSize > 0 \<and> ringSize \<le> MAX_MMAP_BUFFER_SIZE - SIZEOF_CONTROL) then None
         else if \<not> p_dataFd parcel > MINFD then None
         else if p_hasNotifyFd parcel \<and> p_eventFd parcel \<le> MINFD then None
         else snd (Init map_memory (p_dataFd parcel) ringSize (if p_hasNotifyFd parcel then Some 0 else None)))"

definition IsEmpty :: "MidiSharedRing \<Rightarrow> bool" where
  "IsEmpty ring \<longleftrightarrow> readPosition ring = writePosition ring"

section \<open>Waking\<close>

text \<open>The ring as the world of the futex word; the system call that wakes changes nothing in it.\<close>

definition ring_futex :: "MidiSharedRing FutexEnv" where
  "ring_futex =
     \<lparr>futex_load = futexObj, futex_store = (\<lambda>v ring. ring\<lparr>futexObj := v\<rparr>), get_time = (\<lambda>ring. (0, ring)),
      wait_call = (\<lambda>_ ring. (0, EAGAIN, ring)), wake_call = (\<lambda>ring. (0, ring))\<rparr>"

definition WakeFutex :: "u32 \<Rightarrow> MidiSharedRing \<Rightarrow> MidiSharedRing" where
  "WakeFutex wakeVal ring = snd (FutexWake (Some ring_futex) wakeVal ring)"

definition NotifyConsumer :: "u32 \<Rightarrow> MidiSharedRing \<Rightarrow> MidiSharedRing" where
  "NotifyConsumer wakeVal ring = WakeFutex wakeVal ring"

definition NotifyWrittenEvents :: "MidiSharedRing \<Rightarrow> MidiSharedRing" where
  "NotifyWrittenEvents ring =
     (let ring = NotifyConsumer IS_READY ring in ring\<lparr>notifyFd := map_option Suc (notifyFd ring)\<rparr>)"

text \<open>The predicate on which a writer waits for space.\<close>

definition SpaceAvailable :: "u32 \<Rightarrow> MidiSharedRing \<Rightarrow> bool" where
  "SpaceAvailable neededBytes ring \<longleftrightarrow>
     RingFree (readPosition ring) (writePosition ring) (capacity ring) \<ge> neededBytes"

definition WaitForSpace ::
  "MidiSharedRing FutexEnv \<Rightarrow> int \<Rightarrow> u32 \<Rightarrow> MidiSharedRing \<Rightarrow> FutexCode \<times> MidiSharedRing" where
  "WaitForSpace env timeoutInNs neededBytes ring =
     (if neededBytes > 0 then FutexWait (Some env) timeoutInNs (Some (SpaceAvailable neededBytes)) ring
      else (FUTEX_INVALID_PARAMS, ring))"

section \<open>Write side\<close>

definition ValidateWriteArgs :: "MidiEventInner list option \<Rightarrow> nat \<Rightarrow> MidiSharedRing \<Rightarrow> MidiStatusCode" where
  "ValidateWriteArgs events eventCount ring =
     (if eventCount = 0 then OK
      else if events = None then INVALID_ARGUMENT
      else if unat (capacity ring) < SIZEOF_HEADER + 1 then SHM_BROKEN
      else OK)"

definition ValidateOneEvent :: "MidiEventInner \<Rightarrow> MidiSharedRing \<Rightarrow> bool" where
  "ValidateOneEvent event ring =
     (if ev_data event = None then False
      else
        (case GetEventRecordSize (ev_length event) of
           None \<Rightarrow> False
         | Some recordSize \<Rightarrow> recordSize \<le> capacity ring - 1))"

definition even_sequence :: "u32 \<Rightarrow> u32" where
  "even_sequence s = (if s AND 1 \<noteq> 0 then s + 1 else s)"

definition UpdateWriteIndexIfNeed :: "u32 \<Rightarrow> u32 \<Rightarrow> MidiSharedRing \<Rightarrow> u32 \<times> MidiSharedRing" where
  "UpdateWriteIndexIfNeed writeIndex totalBytes ring =
     (let tail = capacity ring - writeIndex
      in if tail \<ge> totalBytes then (writeIndex, ring)
         else
           let ring =
             (if unat tail \<ge> SIZEOF_HEADER then
                let off = unat writeIndex;
                    s = even_sequence (load_sequence (ring_mem ring) off);
                    mem = store_sequence off (s + 1) (ring_mem ring);
                    mem = store_fields off 0 0 SHM_EVENT_FLAG_WRAP mem;
                    mem = store_sequence off (s + 2) mem
                in ring\<lparr>ring_mem := mem\<rparr>
              else ring)
           in (0, ring\<lparr>writePosition := 0\<rparr>))"

definition WriteEvent :: "u32 \<Rightarrow> MidiEventInner \<Rightarrow> MidiSharedRing \<Rightarrow> bool \<times> MidiSharedRing" where
  "WriteEvent writeIndex event ring =
     (if writeIndex \<ge> capacity ring then (False, ring)
      else
        let off = unat writeIndex;
            s = even_sequence (load_sequence (ring_mem ring) off);
            mem = store_sequence off (s + 1) (ring_mem ring);
            mem = store_fields off (timestamp event) (of_nat (ev_length event)) SHM_EVENT_FLAG_NONE mem;
            payloadBytes = ev_length event * SIZEOF_WORD;
            mem = (if payloadBytes > 0
                   then store_words (off + SIZEOF_HEADER) (read_words (the (ev_data event)) (ev_length event)) mem
                   else mem);
            mem = store_sequence off (s + 2) mem
        in (True, ring\<lparr>ring_mem := mem\<rparr>))"

text \<open>\<open>writeIndex\<close> is an in-out parameter: it is returned with the status.\<close>

definition TryWriteOneEvent ::
  "MidiEventInner \<Rightarrow> u32 \<Rightarrow> u32 \<Rightarrow> u32 \<Rightarrow> MidiSharedRing \<Rightarrow> MidiStatusCode \<times> u32 \<times> MidiSharedRing" where
  "TryWriteOneEvent event totalBytes readIndex writeIndex ring =
     (if \<not> writeIndex < capacity ring then (SHM_BROKEN, writeIndex, ring)
      else
        let freeSize = RingFree readIndex writeIndex (capacity ring)
        in if \<not> freeSize \<ge> totalBytes then (WOULD_BLOCK, writeIndex, ring)
           else
             (case UpdateWriteIndexIfNeed writeIndex totalBytes ring of (writeIndex, ring) \<Rightarrow>
                let writeSize = (if writeIndex < readIndex then readIndex - writeIndex - 1
                                 else capacity ring - writeIndex)
                in if \<not> writeSize \<ge> totalBytes then (WOULD_BLOCK, writeIndex, ring)
                   else
                     (case WriteEvent writeIndex event ring of (ok, ring) \<Rightarrow>
                        if \<not> ok then (SHM_BROKEN, writeIndex, ring)
                        else
                          let writeIndex = writeIndex + totalBytes;
                              writeIndex = (if writeIndex = capacity ring then 0 else writeIndex)
                          in (OK, writeIndex, ring\<lparr>writePosition := writeIndex\<rparr>))))"

text \<open>The loop over the events, counting the written ones.\<close>

primrec WriteLoop :: "MidiEventInner list \<Rightarrow> nat \<Rightarrow> u32 \<Rightarrow> u32 \<Rightarrow> MidiSharedRing \<Rightarrow> nat \<times> MidiSharedRing" where
  "WriteLoop [] localWritten readIndex writeIndex ring = (localWritten, ring)"
| "WriteLoop (event # events) localWritten readIndex writeIndex ring =
     (if \<not> ValidateOneEvent event ring then (localWritten, ring)
      else
        (case GetEventRecordSize (ev_length event) of
           None \<Rightarrow> (localWritten, ring)
         | Some needed \<Rightarrow>
             (case TryWriteOneEvent event needed readIndex writeIndex ring of (ret, writeIndex, ring) \<Rightarrow>
                if ret \<noteq> OK then (localWritten, ring)
                else
                  let localWritten = localWritten + 1;
                      readIndex = readPosition ring
                  in if \<not> IsValidOffset readIndex (capacity ring) then (localWritten, ring)
                     else WriteLoop events localWritten readIndex writeIndex ring)))"

definition TryWriteEvents ::
  "MidiEventInner list option \<Rightarrow> nat \<Rightarrow> bool \<Rightarrow> MidiSharedRing \<Rightarrow> MidiStatusCode \<times> nat \<times> MidiSharedRing" where
  "TryWriteEvents events eventCount notify ring =
     (let status = ValidateWriteArgs events eventCount ring
      in if status \<noteq> OK then (status, 0, ring)
         else
           let readIndex = readPosition ring; writeIndex = writePosition ring
           in if \<not> IsValidOffset readIndex (capacity ring) \<or> \<not> IsValidOffset writeIndex (capacity ring)
              then (SHM_BROKEN, 0, ring)
              else
                (case WriteLoop (take eventCount (case events of None \<Rightarrow> [] | Some es \<Rightarrow> es)) 0 readIndex writeIndex ring of
                   (localWritten, ring) \<Rightarrow>
                     if localWritten = 0 then (if eventCount = 0 then OK else WOULD_BLOCK, 0, ring)
                     else
                       let ring = (if notify then NotifyWrittenEvents ring else ring)
                       in (if localWritten = eventCount then OK else WOULD_BLOCK, localWritten, ring)))"

definition TryWriteEvent :: "MidiEventInner \<Rightarrow> bool \<Rightarrow> MidiSharedRing \<Rightarrow> MidiStatusCode \<times> MidiSharedRing" where
  "TryWriteEvent event notify ring =
     (case TryWriteEvents (Some [event]) 1 notify ring of (status, _, ring) \<Rightarrow> (status, ring))"

section \<open>Read side\<close>

definition ReadHeaderSafely :: "(nat \<Rightarrow> u32) \<Rightarrow> nat \<Rightarrow> (ShmMidiEventHeader \<times> u32) option" where
  "ReadHeaderSafely mem off =
     (let seq1 = load_sequence mem off
      in if seq1 = 0 then None
         else if seq1 AND 1 \<noteq> 0 then None
         else
           let outHeader = \<lparr>h_timestamp = load_timestamp mem off, h_length = mem (off + 8),
                            h_flags = mem (off + 12), h_sequence = seq1\<rparr>;
               seq2 = load_sequence mem off
           in if seq1 \<noteq> seq2 then None else Some (outHeader, seq1))"

definition UpdateReadIndexIfNeed :: "u32 \<Rightarrow> u32 \<Rightarrow> MidiSharedRing \<Rightarrow> MidiStatusCode \<times> u32" where
  "UpdateReadIndexIfNeed readIndex writeIndex ring =
     (if \<not> IsValidOffset readIndex (capacity ring) \<or> \<not> IsValidOffset writeIndex (capacity ring)
      then (SHM_BROKEN, readIndex)
      else if readIndex = writeIndex then (WOULD_BLOCK, readIndex)
      else
        let tail = capacity ring - readIndex
        in if unat tail < SIZEOF_HEADER then
             (if \<not> 0 \<noteq> writeIndex then (WOULD_BLOCK, 0) else (OK, 0))
           else (OK, readIndex))"

definition HandleWrapIfNeeded :: "ShmMidiEventHeader \<Rightarrow> u32 \<Rightarrow> MidiSharedRing \<Rightarrow> MidiStatusCode \<times> u32 \<times> MidiSharedRing" where
  "HandleWrapIfNeeded header readIndex ring =
     (if h_flags header AND SHM_EVENT_FLAG_WRAP = 0 then (WOULD_BLOCK, readIndex, ring)
      else if h_length header \<noteq> 0 then (SHM_BROKEN, readIndex, ring)
      else (OK, 0, ring\<lparr>readPosition := 0\<rparr>))"

definition BuildPeekedEvent :: "ShmMidiEventHeader \<Rightarrow> u32 \<Rightarrow> PeekedEvent \<Rightarrow> MidiSharedRing \<Rightarrow> MidiStatusCode \<times> PeekedEvent" where
  "BuildPeekedEvent header readIndex outEvent ring =
     (case GetEventRecordSize (unat (h_length header)) of
        None \<Rightarrow> (SHM_BROKEN, outEvent)
      | Some needed \<Rightarrow>
          if needed > capacity ring - 1 then (SHM_BROKEN, outEvent)
          else if readIndex + needed > capacity ring then (SHM_BROKEN, outEvent)
          else
            let g_end = readIndex + needed;
                g_end = (if g_end = capacity ring then 0 else g_end)
            in (OK, outEvent\<lparr>payloadPtr := Some (unat readIndex + SIZEOF_HEADER), beginOffset := readIndex,
                             endOffset := g_end\<rparr>))"

primrec PeekLoop :: "nat \<Rightarrow> PeekedEvent \<Rightarrow> MidiSharedRing \<Rightarrow> MidiStatusCode \<times> PeekedEvent \<times> MidiSharedRing" where
  "PeekLoop 0 outEvent ring = (WOULD_BLOCK, outEvent, ring)"
| "PeekLoop (Suc retryCount) outEvent ring =
     (case UpdateReadIndexIfNeed (readPosition ring) (writePosition ring) ring of (ret, readIndex) \<Rightarrow>
        if ret \<noteq> OK then (ret, outEvent, ring)
        else
          (case ReadHeaderSafely (ring_mem ring) (unat readIndex) of
             None \<Rightarrow> PeekLoop retryCount outEvent ring
           | Some (hdr, s) \<Rightarrow>
               (case HandleWrapIfNeeded hdr readIndex ring of (ret, readIndex, ring) \<Rightarrow>
                  if ret = OK then PeekLoop retryCount outEvent ring
                  else if ret = SHM_BROKEN then (ret, outEvent, ring)
                  else
                    let outEvent = outEvent\<lparr>localHeader := hdr, sequence := s\<rparr>
                    in if readIndex = writePosition ring then PeekLoop retryCount outEvent ring
                       else (case BuildPeekedEvent hdr readIndex outEvent ring of
                               (ret, outEvent) \<Rightarrow> (ret, outEvent, ring)))))"

definition PeekNext :: "MidiSharedRing \<Rightarrow> MidiStatusCode \<times> PeekedEvent \<times> MidiSharedRing" where
  "PeekNext ring =
     (if \<not> unat (capacity ring) \<ge> SIZEOF_HEADER + 1 then (SHM_BROKEN, empty_PeekedEvent, ring)
      else PeekLoop 3 empty_PeekedEvent ring)"

definition CommitRead :: "PeekedEvent \<Rightarrow> MidiSharedRing \<Rightarrow> bool \<times> MidiSharedRing" where
  "CommitRead ev ring =
     (if load_sequence (ring_mem ring) (unat (beginOffset ev)) \<noteq> sequence ev then (False, ring)
      else
        let e = endOffset ev; e = (if e \<ge> capacity ring then 0 else e)
        in (True, WakeFutex IS_READY (ring\<lparr>readPosition := e\<rparr>)))"

definition CopyOut :: "PeekedEvent \<Rightarrow> MidiSharedRing \<Rightarrow> MidiEvent" where
  "CopyOut ev ring =
     (let wordCount = unat (h_length (localHeader ev))
      in \<lparr>me_timestamp = h_timestamp (localHeader ev),
          me_words = (if wordCount * SIZEOF_WORD > 0
                      then load_words (ring_mem ring) (the (payloadPtr ev)) wordCount else [])\<rparr>)"

text \<open>
  The loop of \<open>DrainToBatch\<close> goes on until the ring is empty (or \<open>maxEvents\<close> events are out), which no
  bound in the code limits, so it takes fuel; \<open>None\<close> is the case that it is used up.
\<close>

primrec DrainLoop :: "nat \<Rightarrow> nat \<Rightarrow> nat \<Rightarrow> MidiEvent list \<Rightarrow> MidiSharedRing \<Rightarrow> (MidiEvent list \<times> MidiSharedRing) option" where
  "DrainLoop 0 maxEvents n outEvents ring = None"
| "DrainLoop (Suc fuel) maxEvents n outEvents ring =
     (if \<not> (maxEvents = 0 \<or> n < maxEvents) then Some (outEvents, ring)
      else
        (case PeekNext ring of (status, peekedEvent, ring) \<Rightarrow>
           if status \<noteq> OK then Some (outEvents, ring)
           else
             let copiedEvent = CopyOut peekedEvent ring
             in (case CommitRead peekedEvent ring of (ok, ring) \<Rightarrow>
                   if ok then DrainLoop fuel maxEvents (n + 1) (outEvents @ [copiedEvent]) ring
                   else DrainLoop fuel maxEvents n outEvents ring)))"

definition DrainToBatch :: "nat \<Rightarrow> nat \<Rightarrow> MidiSharedRing \<Rightarrow> (MidiEvent list \<times> MidiSharedRing) option" where
  "DrainToBatch fuel maxEvents ring = DrainLoop fuel maxEvents 0 [] ring"

text \<open>
  With nobody else holding the flag the exchange succeeds at once; otherwise \<open>Flush\<close> gives up at
  the deadline.
\<close>

definition Flush :: "MidiSharedRing \<Rightarrow> MidiSharedRing" where
  "Flush ring =
     (if flushFlag ring \<noteq> 0 then ring
      else ring\<lparr>readPosition := 0, writePosition := 0,
                ring_mem := (\<lambda>off. if off < unat (capacity ring) then 0 else ring_mem ring off),
                flushFlag := 0\<rparr>)"

end
