(* ===== verification/Ring_Records.thy ===== *)
theory Ring_Records
  imports Shared_Ring
begin

text \<open>
  The abstraction of the shared ring: records in memory, contiguous segments of records, and the
  queue of events that the memory between the two positions stands for; with the lemma that writing
  one event appends to this queue.
\<close>


section \<open>Records in memory\<close>

definition record_size :: "nat \<Rightarrow> nat" where
  "record_size n = AlignUpToHeader (SIZEOF_HEADER + n * SIZEOF_WORD)"

lemma record_size_bounds: "24 + 4 * n \<le> record_size n" "record_size n < 32 + 4 * n" "8 dvd record_size n"
proof -
  have "value \<le> AlignUpToHeader value \<and> AlignUpToHeader value < value + 8 \<and> 8 dvd AlignUpToHeader value" for "value" :: nat
    by (auto simp: AlignUpToHeader_def ring_defs Let_def) presburger+
  from this [of "24 + n * 4"] show "24 + 4 * n \<le> record_size n" "record_size n < 32 + 4 * n" "8 dvd record_size n"
    by (auto simp: record_size_def ring_defs)
qed

lemma record_size_pos [simp]: "0 < record_size n"
  using record_size_bounds(1) [of n] by simp

lemma GetEventRecordSize_Some:
  "GetEventRecordSize n = Some k \<Longrightarrow> unat k = record_size n"
  by (auto simp: GetEventRecordSize_def record_size_def Let_def unat_of_nat take_bit_eq_mod split: if_splits)

lemma GetEventRecordSize_small:
  "n < 2 ^ 29 \<Longrightarrow> GetEventRecordSize n = Some (of_nat (record_size n))"
  using record_size_bounds(2) [of n]
  by (auto simp: GetEventRecordSize_def record_size_def ring_defs Let_def)

definition is_record :: "(nat \<Rightarrow> u32) \<Rightarrow> nat \<Rightarrow> MidiEvent \<Rightarrow> bool" where
  "is_record m a e \<longleftrightarrow>
     load_timestamp m a = me_timestamp e \<and> unat (m (a + 8)) = length (me_words e) \<and> m (a + 12) = SHM_EVENT_FLAG_NONE
     \<and> load_sequence m a AND 1 = 0 \<and> load_words m (a + SIZEOF_HEADER) (length (me_words e)) = me_words e"

definition is_wrap :: "(nat \<Rightarrow> u32) \<Rightarrow> nat \<Rightarrow> bool" where
  "is_wrap m a \<longleftrightarrow> m (a + 8) = 0 \<and> m (a + 12) = SHM_EVENT_FLAG_WRAP \<and> load_sequence m a AND 1 = 0"

definition event_size :: "MidiEvent \<Rightarrow> nat" where
  "event_size e = record_size (length (me_words e))"

primrec segment :: "(nat \<Rightarrow> u32) \<Rightarrow> nat \<Rightarrow> nat \<Rightarrow> MidiEvent list \<Rightarrow> bool" where
  "segment m a b [] \<longleftrightarrow> a = b"
| "segment m a b (e # es) \<longleftrightarrow> is_record m a e \<and> segment m (a + event_size e) b es"

definition agree :: "nat \<Rightarrow> nat \<Rightarrow> (nat \<Rightarrow> u32) \<Rightarrow> (nat \<Rightarrow> u32) \<Rightarrow> bool" where
  "agree a b m m' \<longleftrightarrow> (\<forall>i. a \<le> i \<and> i < b \<longrightarrow> m i = m' i)"

lemma agree_sub: "agree a b m m' \<Longrightarrow> a \<le> a' \<Longrightarrow> b' \<le> b \<Longrightarrow> agree a' b' m m'"
  by (auto simp: agree_def)

lemma event_size_bounds: "24 + 4 * length (me_words e) \<le> event_size e" "0 < event_size e" "8 dvd event_size e"
  using record_size_bounds by (simp_all add: event_size_def)

lemma is_record_agree: "agree a (a + event_size e) m m' \<Longrightarrow> is_record m a e = is_record m' a e"
proof -
  assume a: "agree a (a + event_size e) m m'"
  have s: "24 + 4 * length (me_words e) \<le> event_size e" by (rule event_size_bounds)
  have "load_words m (a + 24) (length (me_words e)) = load_words m' (a + 24) (length (me_words e))"
    using a s by (auto simp: load_words_def agree_def)
  moreover have "m a = m' a" "m (a + 4) = m' (a + 4)" "m (a + 8) = m' (a + 8)" "m (a + 12) = m' (a + 12)"
    "m (a + 16) = m' (a + 16)"
    using a s by (auto simp: agree_def)
  ultimately show ?thesis by (simp add: is_record_def load_timestamp_def load_sequence_def ring_defs)
qed

lemma segment_le: "segment m a b es \<Longrightarrow> a \<le> b"
  by (induction es arbitrary: a) (auto dest: add_leD1)

lemma segment_agree: "agree a b m m' \<Longrightarrow> segment m a b es = segment m' a b es"
proof (induction es arbitrary: a)
  case (Cons e es)
  show ?case
  proof (cases "a + event_size e \<le> b")
    case True
    have "agree a (a + event_size e) m m'" "agree (a + event_size e) b m m'"
      using Cons.prems True by (auto elim: agree_sub)
    then show ?thesis using Cons.IH [of "a + event_size e"] is_record_agree [of a e m m'] by simp
  qed (auto dest: segment_le)
qed simp

lemma segment_append:
  "segment m a b es \<Longrightarrow> is_record m b e \<Longrightarrow> segment m a (b + event_size e) (es @ [e])"
  by (induction es arbitrary: a) auto

lemma segment_dvd: "segment m a b es \<Longrightarrow> 8 dvd a \<Longrightarrow> 8 dvd b"
  by (induction es arbitrary: a) (auto simp: event_size_bounds)

section \<open>What the writer stores\<close>

lemma even_sequence_even: "even_sequence s AND 1 = 0"
  by (auto simp: even_sequence_def and_one_eq mod_2_eq_odd)

lemma even_sequence_plus: "(even_sequence s + 2) AND 1 = 0"
  using even_sequence_even [of s] by (simp add: and_one_eq mod_2_eq_odd)

lemma timestamp_words:
  "load_timestamp (store_fields off ts l f m) off = ts"
proof -
  have "push_bit 32 (ucast (ucast (drop_bit 32 ts) :: u32)) OR ucast (ucast ts :: u32) = ts" for ts :: u64
  proof (rule bit_word_eqI)
    fix n assume "n < LENGTH(64)"
    then show "bit (push_bit 32 (ucast (ucast (drop_bit 32 ts) :: u32)) OR ucast (ucast ts :: u32) :: u64) n = bit ts n"
      by (cases "n < 32") (auto simp: bit_simps)
  qed
  then show ?thesis by (simp add: load_timestamp_def store_fields_def)
qed


definition event_of :: "MidiEventInner \<Rightarrow> MidiEvent" where
  "event_of ev = \<lparr>me_timestamp = timestamp ev, me_words = read_words (the (ev_data ev)) (ev_length ev)\<rparr>"

lemma WriteEvent_memory:
  assumes "writeIndex < capacity ring" "ev_length event < 2 ^ 32"
  shows "\<exists>mem. WriteEvent writeIndex event ring = (True, ring\<lparr>ring_mem := mem\<rparr>)
     \<and> is_record mem (unat writeIndex) (event_of event)
     \<and> load_sequence mem (unat writeIndex) = even_sequence (load_sequence (ring_mem ring) (unat writeIndex)) + 2
     \<and> (\<forall>i. i < unat writeIndex \<or> unat writeIndex + event_size (event_of event) \<le> i \<longrightarrow> mem i = ring_mem ring i)"
proof -
  define off where "off = unat writeIndex"
  define s where "s = even_sequence (load_sequence (ring_mem ring) off)"
  define ws where "ws = read_words (the (ev_data event)) (ev_length event)"
  define m1 where "m1 = store_fields off (timestamp event) (of_nat (ev_length event)) SHM_EVENT_FLAG_NONE
     (store_sequence off (s + 1) (ring_mem ring))"
  define m2 where "m2 = store_words (off + 24) ws m1"
  define m3 where "m3 = store_sequence off (s + 2) m2"
  have m2': "(if ev_length event * SIZEOF_WORD > 0 then store_words (off + SIZEOF_HEADER) ws m1 else m1) = m2"
    by (auto simp: m2_def ring_defs ws_def store_words_def fun_eq_iff)
  have w: "WriteEvent writeIndex event ring = (True, ring\<lparr>ring_mem := m3\<rparr>)"
    using assms(1) unfolding WriteEvent_def Let_def off_def [symmetric] s_def [symmetric] ws_def [symmetric]
        m1_def [symmetric] m2' m3_def by (simp add: not_le)
  have low: "m3 i = (store_fields off (timestamp event) (of_nat (ev_length event)) SHM_EVENT_FLAG_NONE
     (store_sequence off (s + 2) (ring_mem ring))) i" if "i < off + 24" for i
    using that by (auto simp: m3_def m2_def m1_def store_words_def store_sequence_def store_fields_def)
  have ts: "load_timestamp m3 off = timestamp event"
    using timestamp_words [of off "timestamp event"] low [of off] low [of "off + 4"] by (simp add: load_timestamp_def)
  have "load_words m3 (off + 24) (ev_length event) = ws"
    by (rule nth_equalityI) (auto simp: load_words_def m3_def m2_def store_words_def store_sequence_def ws_def)
  then have rec: "is_record m3 off (event_of event)"
    using ts low [of "off + 8"] low [of "off + 12"] low [of "off + 16"] assms(2) even_sequence_plus
    by (simp add: is_record_def event_of_def store_fields_def store_sequence_def load_sequence_def ring_defs s_def
        ws_def [symmetric] unat_of_nat take_bit_eq_mod) (simp add: ws_def)
  have "m3 i = ring_mem ring i" if "i < off \<or> off + event_size (event_of event) \<le> i" for i
    using that event_size_bounds(1) [of "event_of event"]
    by (auto simp: m3_def m2_def m1_def store_words_def store_sequence_def store_fields_def ws_def event_of_def)
  then show ?thesis using w rec low [of "off + 16"]
    by (auto simp: off_def [symmetric] s_def load_sequence_def store_fields_def store_sequence_def)
qed

lemma wrap_memory:
  fixes off :: nat
  defines "s mem \<equiv> even_sequence (load_sequence mem off)"
  defines "mem' mem \<equiv> store_sequence off (s mem + 2) (store_fields off 0 0 SHM_EVENT_FLAG_WRAP (store_sequence off (s mem + 1) mem))"
  shows "is_wrap (mem' mem) off" "i < off \<or> off + 24 \<le> i \<Longrightarrow> mem' mem i = mem i"
  using even_sequence_plus
  by (auto simp: mem'_def s_def is_wrap_def store_sequence_def store_fields_def load_sequence_def)

section \<open>The queue in the ring\<close>

definition ring_queue :: "MidiSharedRing \<Rightarrow> MidiEvent list \<Rightarrow> bool" where
  "ring_queue ring es \<longleftrightarrow>
     (let cap = unat (capacity ring); r = unat (readPosition ring); w = unat (writePosition ring);
          m = ring_mem ring
      in 24 < cap \<and> cap \<le> 8128 \<and> r < cap \<and> w < cap \<and> 8 dvd r \<and> 8 dvd w
         \<and> (r \<le> w \<and> segment m r w es
            \<or> w < r \<and> (\<exists>p es1 es2. es = es1 @ es2 \<and> segment m r p es1 \<and> segment m 0 w es2
                 \<and> p \<le> cap \<and> (cap - p < 24 \<or> is_wrap m p))))"

lemma unat_RingFree:
  assumes "r < cap" "w < cap"
  shows "unat (RingFree r w cap) =
    (if r \<le> w then unat cap - 1 - (unat w - unat r) else unat r - unat w - 1)"
proof -
  have a: "unat r < unat cap" "unat w < unat cap" using assms by (simp_all add: word_less_nat_alt)
  have "1 \<le> cap" using a by (simp add: word_le_nat_alt)
  from unat_sub [OF this] have 1: "unat (cap - 1) = unat cap - 1" by simp
  show ?thesis
  proof (cases "r \<le> w")
    case True
    have 2: "unat (w - r) = unat w - unat r" using True by (rule unat_sub)
    have "w - r \<le> cap - 1" unfolding word_le_nat_alt 1 2 using a by linarith
    then show ?thesis using True by (simp add: RingFree_def RingUsed_def unat_sub 1 2)
  next
    case False
    then have rw: "w \<le> r" by simp
    have 2: "unat (r - w) = unat r - unat w" using rw by (rule unat_sub)
    have 3: "unat (cap - (r - w)) = unat cap - (unat r - unat w)"
      using a by (subst unat_sub) (auto simp: word_le_nat_alt 2)
    have "cap - (r - w) \<le> cap - 1" unfolding word_le_nat_alt 1 3
      using a False by (simp add: word_le_nat_alt)
    then show ?thesis using False a by (auto simp: RingFree_def RingUsed_def unat_sub 1 3 word_le_nat_alt)
  qed
qed

text \<open>The room that the code has checked before it writes.\<close>

definition has_room :: "MidiSharedRing \<Rightarrow> nat \<Rightarrow> bool" where
  "has_room ring k \<longleftrightarrow>
     (let cap = unat (capacity ring); r = unat (readPosition ring); w = unat (writePosition ring)
      in if w < r then w + k < r else w + k \<le> cap \<and> (r = 0 \<longrightarrow> w + k < cap))"

lemma is_wrap_agree: "agree a (a + 24) m m' \<Longrightarrow> is_wrap m a = is_wrap m' a"
  by (simp add: agree_def is_wrap_def load_sequence_def)

lemma WriteEvent_queue:
  assumes q: "ring_queue ring es" and k: "GetEventRecordSize (ev_length event) = Some needed"
    and room: "has_room ring (unat needed)"
  shows "\<exists>ring1. WriteEvent (writePosition ring) event ring = (True, ring1)
     \<and> readPosition ring1 = readPosition ring \<and> capacity ring1 = capacity ring
     \<and> ring_queue (ring1\<lparr>writePosition := (let w = writePosition ring + needed in if w = capacity ring then 0 else w)\<rparr>)
          (es @ [event_of event])"
proof -
  define cap where "cap = unat (capacity ring)"
  define r where "r = unat (readPosition ring)"
  define w where "w = unat (writePosition ring)"
  define m where "m = ring_mem ring"
  define k where "k = unat needed"
  let ?e = "event_of event"
  note n = cap_def r_def w_def m_def k_def
  have I: "24 < cap" "cap \<le> 8128" "r < cap" "w < cap" "8 dvd r" "8 dvd w"
    "r \<le> w \<and> segment m r w es \<or> w < r \<and> (\<exists>p es1 es2. es = es1 @ es2 \<and> segment m r p es1 \<and> segment m 0 w es2
                 \<and> p \<le> cap \<and> (cap - p < 24 \<or> is_wrap m p))"
    using q by (simp_all add: ring_queue_def Let_def n)
  have R: "if w < r then w + k < r else w + k \<le> cap \<and> (r = 0 \<longrightarrow> w + k < cap)"
    using room by (simp add: has_room_def Let_def n)
  have ks: "event_size ?e = k"
    using GetEventRecordSize_Some [OF k] by (simp add: event_size_def event_of_def k_def)
  have wk: "w + k \<le> cap" using R I by (auto split: if_splits)
  have lt: "writePosition ring < capacity ring" using I by (simp add: word_less_nat_alt n)
  have el: "ev_length event < 2 ^ 32"
    using event_size_bounds(1) [of ?e] wk I ks by (simp add: event_of_def)
  obtain mem where W: "WriteEvent (writePosition ring) event ring = (True, ring\<lparr>ring_mem := mem\<rparr>)"
    and rec: "is_record mem w ?e" and frame: "\<forall>i. i < w \<or> w + k \<le> i \<longrightarrow> mem i = m i"
    using WriteEvent_memory [OF lt el] by (auto simp: n(1-4) ks)
  have ag: "agree a b m mem" if "b \<le> w \<or> w + k \<le> a" for a b
    using that frame by (auto simp: agree_def)
  have u: "unat (writePosition ring + needed) = w + k"
    using wk I by (simp add: unat_word_ariths n)
  have w': "unat (let w = writePosition ring + needed in if w = capacity ring then 0 else w) = (if w + k = cap then 0 else w + k)"
    using u by (auto simp: Let_def n word_unat_eq_iff)
  have d: "8 dvd w + k" using I(6) event_size_bounds(3) [of ?e] ks by simp
  have new: "(let w' = (if w + k = cap then 0 else w + k) in
      r \<le> w' \<and> segment mem r w' (es @ [?e]) \<or> w' < r \<and> (\<exists>p es1 es2. es @ [?e] = es1 @ es2 \<and> segment mem r p es1
         \<and> segment mem 0 w' es2 \<and> p \<le> cap \<and> (cap - p < 24 \<or> is_wrap mem p)))"
  proof (cases "w < r")
    case True
    then obtain p es1 es2 where P: "es = es1 @ es2" "segment m r p es1" "segment m 0 w es2" "p \<le> cap"
       "cap - p < 24 \<or> is_wrap m p" using I(7) by auto
    have "r \<le> p" using P(2) by (rule segment_le)
    then have "segment mem r p es1" "segment mem 0 w es2" "is_wrap m p = is_wrap mem p"
      using P R True segment_agree [OF ag] is_wrap_agree [OF ag] by auto
    moreover from this have "segment mem 0 (w + k) (es2 @ [?e])"
      using segment_append [OF _ rec] ks by simp
    ultimately have "w + k < r \<and> es @ [?e] = es1 @ (es2 @ [?e]) \<and> segment mem r p es1
         \<and> segment mem 0 (w + k) (es2 @ [?e]) \<and> p \<le> cap \<and> (cap - p < 24 \<or> is_wrap mem p)"
      using P R True by simp
    then show ?thesis using I(3) by (simp add: Let_def) blast
  next
    case False
    then have "segment mem r w es" using I(7) segment_agree [OF ag] by auto
    then have S: "segment mem r (w + k) (es @ [?e])" using segment_append [OF _ rec] ks by simp
    show ?thesis
    proof (cases "w + k = cap")
      case True
      then have "0 < r" using R False by auto
      moreover have "\<exists>p es1 es2. es @ [?e] = es1 @ es2 \<and> segment mem r p es1 \<and> segment mem 0 0 es2
          \<and> p \<le> cap \<and> (cap - p < 24 \<or> is_wrap mem p)"
        by (intro exI [of _ cap] exI [of _ "es @ [?e]"] exI [of _ "[]"]) (use S True in simp)
      ultimately show ?thesis using True by (simp add: Let_def)
    next
      case F: False
      then show ?thesis using S False by (simp add: Let_def)
    qed
  qed
  have "ring_queue ((ring\<lparr>ring_mem := mem\<rparr>)\<lparr>writePosition := (let w = writePosition ring + needed in if w = capacity ring then 0 else w)\<rparr>) (es @ [?e])"
    using new I wk d unfolding ring_queue_def
    by (simp add: Let_def w' [unfolded Let_def] cap_def [symmetric] r_def [symmetric] w_def [symmetric] split del: if_split) auto
  then show ?thesis using W by simp
qed

lemma UpdateWriteIndex_queue:
  assumes q: "ring_queue ring es"
    and free: "needed \<le> RingFree (readPosition ring) (writePosition ring) (capacity ring)"
  shows "case UpdateWriteIndexIfNeed (writePosition ring) needed ring of (w', ring') \<Rightarrow>
     w' = writePosition ring' \<and> readPosition ring' = readPosition ring \<and> capacity ring' = capacity ring
     \<and> ring_queue ring' es
     \<and> (needed \<le> (if w' < readPosition ring then readPosition ring - w' - 1 else capacity ring - w')
         \<longrightarrow> has_room ring' (unat needed))"
proof -
  define cap where "cap = unat (capacity ring)"
  define r where "r = unat (readPosition ring)"
  define w where "w = unat (writePosition ring)"
  define m where "m = ring_mem ring"
  define k where "k = unat needed"
  note n = cap_def r_def w_def m_def k_def
  have I: "24 < cap" "cap \<le> 8128" "r < cap" "w < cap" "8 dvd r" "8 dvd w"
    "r \<le> w \<and> segment m r w es \<or> w < r \<and> (\<exists>p es1 es2. es = es1 @ es2 \<and> segment m r p es1 \<and> segment m 0 w es2
                 \<and> p \<le> cap \<and> (cap - p < 24 \<or> is_wrap m p))"
    using q by (simp_all add: ring_queue_def Let_def n)
  have lt: "readPosition ring < capacity ring" "writePosition ring < capacity ring"
    using I by (simp_all add: word_less_nat_alt n)
  have F: "k \<le> (if r \<le> w then cap - 1 - (w - r) else r - w - 1)"
    using free unfolding word_le_nat_alt unat_RingFree [OF lt, unfolded word_le_nat_alt] n .
  have tail: "unat (capacity ring - writePosition ring) = cap - w"
    using lt by (subst unat_sub) (auto simp: n)
  show ?thesis
  proof (cases "needed \<le> capacity ring - writePosition ring")
    case True
    then have T: "k \<le> cap - w" using tail by (simp add: word_le_nat_alt n)
    have "has_room ring k"
      using F T I(4) unfolding has_room_def Let_def n(1,2,3) [symmetric] by auto
    then show ?thesis using True q by (simp add: UpdateWriteIndexIfNeed_def Let_def k_def)
  next
    case False
    then have T: "cap - w < k" using tail by (simp add: word_le_nat_alt n)
    have rw: "r \<le> w" "0 < r" using F T I by (auto split: if_splits)
    define mem where "mem = (if 24 \<le> cap - w then store_sequence w (even_sequence (load_sequence m w) + 2)
       (store_fields w 0 0 SHM_EVENT_FLAG_WRAP (store_sequence w (even_sequence (load_sequence m w) + 1) m)) else m)"
    have U: "UpdateWriteIndexIfNeed (writePosition ring) needed ring = (0, ring\<lparr>ring_mem := mem, writePosition := 0\<rparr>)"
      using False by (simp add: UpdateWriteIndexIfNeed_def Let_def tail mem_def SIZEOF_HEADER_def w_def [symmetric] m_def [symmetric])
    have "segment m r w es" using I(7) rw by auto
    moreover have "agree r w m mem" using wrap_memory(2) [where mem = m and off = w] by (auto simp: agree_def mem_def)
    ultimately have "segment mem r w es" using segment_agree by blast
    moreover have "cap - w < 24 \<or> is_wrap mem w" using wrap_memory(1) [where mem = m and off = w] by (auto simp: mem_def)
    ultimately have "\<exists>p es1 es2. es = es1 @ es2 \<and> segment mem r p es1 \<and> segment mem 0 0 es2
         \<and> p \<le> cap \<and> (cap - p < 24 \<or> is_wrap mem p)"
      using I(4) by (intro exI [of _ w] exI [of _ es] exI [of _ "[]"]) simp
    then have Q: "ring_queue (ring\<lparr>ring_mem := mem, writePosition := 0\<rparr>) es"
      using I rw unfolding ring_queue_def by (simp add: Let_def cap_def [symmetric] r_def [symmetric])
    have r0: "0 < readPosition ring" using rw by (simp add: r_def word_less_nat_alt)
    then have "unat (readPosition ring - 1) = r - 1"
      using unat_sub [of 1 "readPosition ring"] by (simp add: n word_le_nat_alt word_less_nat_alt)
    then have "needed \<le> readPosition ring - 1 \<Longrightarrow> k < r" using rw by (auto simp: word_le_nat_alt n)
    then show ?thesis using Q r0 rw unfolding U
      by (simp add: has_room_def Let_def r_def [symmetric] k_def [symmetric])
  qed
qed

lemma TryWriteOneEvent_queue:
  assumes q: "ring_queue ring es" and k: "GetEventRecordSize (ev_length event) = Some needed"
  shows "case TryWriteOneEvent event needed (readPosition ring) (writePosition ring) ring of (status, w', ring') \<Rightarrow>
     w' = writePosition ring' \<and> readPosition ring' = readPosition ring \<and> capacity ring' = capacity ring
     \<and> (status = OK \<and> ring_queue ring' (es @ [event_of event]) \<or> status = WOULD_BLOCK \<and> ring_queue ring' es)"
proof -
  have lt: "writePosition ring < capacity ring"
    using q by (simp add: ring_queue_def Let_def word_less_nat_alt)
  show ?thesis
  proof (cases "needed \<le> RingFree (readPosition ring) (writePosition ring) (capacity ring)")
    case True
    obtain w1 ring1 where U: "UpdateWriteIndexIfNeed (writePosition ring) needed ring = (w1, ring1)" by fastforce
    note U1 = UpdateWriteIndex_queue [OF q True, unfolded U prod.case]
    let ?size = "if w1 < readPosition ring then readPosition ring - w1 - 1 else capacity ring - w1"
    show ?thesis
    proof (cases "needed \<le> ?size")
      case size: True
      then have room: "has_room ring1 (unat needed)" using U1 by blast
      obtain ring2 where W: "WriteEvent w1 event ring1 = (True, ring2)" "readPosition ring2 = readPosition ring1"
        "capacity ring2 = capacity ring1"
        "ring_queue (ring2\<lparr>writePosition := (let w = w1 + needed in if w = capacity ring1 then 0 else w)\<rparr>) (es @ [event_of event])"
        using WriteEvent_queue [OF _ k room, of es] U1 by auto
      have c: "capacity ring1 = capacity ring" "readPosition ring1 = readPosition ring" using U1 by simp_all
      define w2 where "w2 = (let w = w1 + needed in if w = capacity ring1 then 0 else w)"
      have "TryWriteOneEvent event needed (readPosition ring) (writePosition ring) ring = (OK, w2, ring2\<lparr>writePosition := w2\<rparr>)"
        using lt True size
        by (cases "w1 < readPosition ring") (simp_all add: TryWriteOneEvent_def U W(1,3) c w2_def Let_def)
      then show ?thesis using W(2,3) W(4) [folded w2_def] c by simp
    next
      case False
      moreover have "capacity ring1 = capacity ring" using U1 by simp
      ultimately have "TryWriteOneEvent event needed (readPosition ring) (writePosition ring) ring = (WOULD_BLOCK, w1, ring1)"
        using lt True by (cases "w1 < readPosition ring") (simp_all add: TryWriteOneEvent_def U Let_def)
      then show ?thesis using U1 by simp
    qed
  next
    case False
    then show ?thesis using lt q by (simp add: TryWriteOneEvent_def Let_def)
  qed
qed
end
