(* ===== verification/Ring_Fifo.thy ===== *)
theory Ring_Fifo
  imports Ring_Records
begin

text \<open>
  The shared ring is a FIFO queue: batches are written as prefixes, reading pops the front, and an
  empty queue makes the reader wait.
\<close>


section \<open>Waking changes no position\<close>

lemma WakeFutex_frame: "\<exists>v. WakeFutex wakeVal ring = ring\<lparr>futexObj := v\<rparr>"
proof -
  have "\<exists>v. ring = ring\<lparr>futexObj := v\<rparr>" by (rule exI [of _ "futexObj ring"]) simp
  then show ?thesis
    by (auto simp: WakeFutex_def FutexWake_def ring_futex_def compare_exchange_def Let_def split: prod.splits)
qed

lemma WakeFutex_simps [simp]:
  "capacity (WakeFutex v ring) = capacity ring" "readPosition (WakeFutex v ring) = readPosition ring"
  "writePosition (WakeFutex v ring) = writePosition ring" "ring_mem (WakeFutex v ring) = ring_mem ring"
  "flushFlag (WakeFutex v ring) = flushFlag ring" "notifyFd (WakeFutex v ring) = notifyFd ring"
  using WakeFutex_frame [of v ring] by auto

lemma NotifyWrittenEvents_simps [simp]:
  "capacity (NotifyWrittenEvents ring) = capacity ring" "readPosition (NotifyWrittenEvents ring) = readPosition ring"
  "writePosition (NotifyWrittenEvents ring) = writePosition ring" "ring_mem (NotifyWrittenEvents ring) = ring_mem ring"
  by (simp_all add: NotifyWrittenEvents_def NotifyConsumer_def Let_def)

lemma ring_queue_cong:
  "capacity ring' = capacity ring \<Longrightarrow> readPosition ring' = readPosition ring \<Longrightarrow>
   writePosition ring' = writePosition ring \<Longrightarrow> ring_mem ring' = ring_mem ring \<Longrightarrow>
   ring_queue ring' es = ring_queue ring es"
  by (simp add: ring_queue_def)

section \<open>Writing a batch\<close>

lemma WriteLoop_queue:
  "ring_queue ring es \<Longrightarrow> readIndex = readPosition ring \<Longrightarrow> writeIndex = writePosition ring \<Longrightarrow>
   case WriteLoop events n readIndex writeIndex ring of (n', ring') \<Rightarrow>
     n \<le> n' \<and> n' \<le> n + length events \<and> ring_queue ring' (es @ map event_of (take (n' - n) events))"
proof (induction events arbitrary: es n readIndex writeIndex ring)
  case (Cons event events)
  show ?case
  proof (cases "ValidateOneEvent event ring")
    case True
    then obtain needed where k: "GetEventRecordSize (ev_length event) = Some needed"
      by (auto simp: ValidateOneEvent_def split: if_splits option.splits)
    obtain ret w1 ring1 where T: "TryWriteOneEvent event needed (readPosition ring) (writePosition ring) ring = (ret, w1, ring1)"
      using prod_cases3 by blast
    note Q = TryWriteOneEvent_queue [OF Cons.prems(1) k, unfolded T prod.case]
    show ?thesis
    proof (cases "ret = OK")
      case ok: True
      then have Q1: "ring_queue ring1 (es @ [event_of event])" "w1 = writePosition ring1" using Q by auto
      have "readPosition ring1 < capacity ring1"
        using Q1(1) by (simp add: ring_queue_def Let_def word_less_nat_alt)
      then have E: "WriteLoop (event # events) n readIndex writeIndex ring
          = WriteLoop events (n + 1) (readPosition ring1) w1 ring1"
        using True Cons.prems(2,3) ok by (simp add: k T IsValidOffset_def)
      obtain n' ring' where R: "WriteLoop events (n + 1) (readPosition ring1) w1 ring1 = (n', ring')" by fastforce
      have "n + 1 \<le> n'" "n' \<le> n + 1 + length events"
        "ring_queue ring' ((es @ [event_of event]) @ map event_of (take (n' - (n + 1)) events))"
        using Cons.IH [OF Q1(1) refl Q1(2), of "n + 1"] R by auto
      moreover from this have "n' - n = Suc (n' - (n + 1))" by simp
      then have "take (n' - n) (event # events) = event # take (n' - (n + 1)) events" by simp
      ultimately show ?thesis unfolding E R by simp
    next
      case False
      then have "ring_queue ring1 es" using Q by auto
      then show ?thesis using True False Cons.prems by (simp add: k T)
    qed
  qed (use Cons.prems in simp)
qed simp

lemma TryWriteEvents_queue:
  assumes q: "ring_queue ring es" and c: "eventCount \<le> length events"
  shows "case TryWriteEvents (Some events) eventCount notify ring of (status, n, ring') \<Rightarrow>
     n \<le> eventCount \<and> ring_queue ring' (es @ map event_of (take n events))
     \<and> status = (if n = eventCount then OK else WOULD_BLOCK)"
proof -
  have lt: "readPosition ring < capacity ring" "writePosition ring < capacity ring" "24 < unat (capacity ring)"
    using q by (simp_all add: ring_queue_def Let_def word_less_nat_alt)
  have v: "ValidateWriteArgs (Some events) eventCount ring = OK"
    using lt(3) by (simp add: ValidateWriteArgs_def SIZEOF_HEADER_def)
  obtain n ring1 where L: "WriteLoop (take eventCount events) 0 (readPosition ring) (writePosition ring) ring = (n, ring1)"
    by fastforce
  note W = WriteLoop_queue [OF q refl refl, where events = "take eventCount events" and n = 0, unfolded L prod.case]
  have "n \<le> eventCount" using W c by (auto simp: min_def split: if_splits)
  then have n: "n \<le> eventCount" "ring_queue ring1 (es @ map event_of (take n events))"
    using W by (auto simp: min_absorb1)
  let ?ring = "if n = 0 \<or> \<not> notify then ring1 else NotifyWrittenEvents ring1"
  have "TryWriteEvents (Some events) eventCount notify ring = (if n = eventCount then OK else WOULD_BLOCK, n, ?ring)"
    using lt(1,2) by (simp add: TryWriteEvents_def v IsValidOffset_def L)
  moreover have "ring_queue ?ring (es @ map event_of (take n events))"
    using n(2) ring_queue_cong [of "NotifyWrittenEvents ring1" ring1] by simp
  ultimately show ?thesis using n(1) by simp
qed

section \<open>Reading\<close>

text \<open>The header that the reader finds has been published: its sequence number is not 0.\<close>

definition published :: "MidiSharedRing \<Rightarrow> bool" where
  "published ring \<longleftrightarrow>
     load_sequence (ring_mem ring) (unat (readPosition ring)) \<noteq> 0 \<and> load_sequence (ring_mem ring) 0 \<noteq> 0"

definition header_at :: "(nat \<Rightarrow> u32) \<Rightarrow> nat \<Rightarrow> ShmMidiEventHeader" where
  "header_at m a = \<lparr>h_timestamp = load_timestamp m a, h_length = m (a + 8), h_flags = m (a + 12),
                    h_sequence = load_sequence m a\<rparr>"

lemma ReadHeaderSafely_at:
  "load_sequence m a \<noteq> 0 \<Longrightarrow> load_sequence m a AND 1 = 0 \<Longrightarrow>
    ReadHeaderSafely m a = Some (header_at m a, load_sequence m a)"
  by (simp add: ReadHeaderSafely_def header_at_def Let_def)

text \<open>What a read and its commit do together.\<close>

definition ring_pop :: "MidiSharedRing \<Rightarrow> (MidiEvent \<times> MidiSharedRing) option" where
  "ring_pop ring =
     (case PeekNext ring of (status, ev, ring1) \<Rightarrow>
        if status \<noteq> OK then None
        else (case CommitRead ev ring1 of (ok, ring2) \<Rightarrow> if ok then Some (CopyOut ev ring1, ring2) else None))"

lemma PeekLoop_record:
  assumes U: "UpdateReadIndexIfNeed (readPosition ring) (writePosition ring) ring = (OK, a)"
    and rec: "is_record (ring_mem ring) (unat a) e" and s: "load_sequence (ring_mem ring) (unat a) \<noteq> 0"
    and fit: "unat a + event_size e \<le> unat (capacity ring)" "event_size e < unat (capacity ring)"
    and cap: "unat (capacity ring) \<le> 8128" and ne: "a \<noteq> writePosition ring"
  shows "\<exists>ev. PeekLoop (Suc n) out ring = (OK, ev, ring) \<and> CopyOut ev ring = e \<and> beginOffset ev = a
     \<and> sequence ev = load_sequence (ring_mem ring) (unat a)
     \<and> unat (endOffset ev) = (if unat a + event_size e = unat (capacity ring) then 0 else unat a + event_size e)"
proof -
  let ?m = "ring_mem ring"
  let ?n = "length (me_words e)"
  note R = rec [unfolded is_record_def]
  have len: "unat (h_length (header_at ?m (unat a))) = ?n" using R by (simp add: header_at_def)
  have "?n < 2 ^ 29" using event_size_bounds(1) [of e] fit cap by simp
  note K = GetEventRecordSize_small [OF this]
  have k: "unat (of_nat (record_size ?n) :: u32) = event_size e"
    using fit cap by (simp add: event_size_def unat_of_nat take_bit_eq_mod)
  have c1: "unat (capacity ring - 1) = unat (capacity ring) - 1"
    using unat_sub [of 1 "capacity ring"] fit by (simp add: word_le_nat_alt)
  have ua: "unat (a + of_nat (record_size ?n)) = unat a + event_size e"
    using fit cap k by (simp add: unat_word_ariths)
  have "\<not> of_nat (record_size ?n) > capacity ring - 1" "\<not> a + of_nat (record_size ?n) > capacity ring"
    using fit by (simp_all add: word_less_nat_alt k c1 ua del: unat_of_nat)
  then have B: "BuildPeekedEvent (header_at ?m (unat a)) a out' ring
      = (OK, out'\<lparr>payloadPtr := Some (unat a + SIZEOF_HEADER), beginOffset := a,
          endOffset := (let g = a + of_nat (record_size ?n) in if g = capacity ring then 0 else g)\<rparr>)" for out'
    by (simp add: BuildPeekedEvent_def len K Let_def)
  have H: "HandleWrapIfNeeded (header_at ?m (unat a)) a ring = (WOULD_BLOCK, a, ring)"
    using R by (simp add: HandleWrapIfNeeded_def header_at_def ring_defs)
  have "PeekLoop (Suc n) out ring = (case BuildPeekedEvent (header_at ?m (unat a)) a
       (out\<lparr>localHeader := header_at ?m (unat a), sequence := load_sequence ?m (unat a)\<rparr>) ring of (ret, ev) \<Rightarrow> (ret, ev, ring))"
    using R ne by (simp add: U ReadHeaderSafely_at [OF s] H Let_def)
  then show ?thesis unfolding B using R ua
    by (auto simp: CopyOut_def len header_at_def ring_defs load_words_def Let_def word_unat_eq_iff)
qed

lemma UpdateReadIndex_cases:
  assumes "ring_queue ring es"
  shows "UpdateReadIndexIfNeed (readPosition ring) (writePosition ring) ring =
    (if readPosition ring = writePosition ring then (WOULD_BLOCK, readPosition ring)
     else if unat (capacity ring) - unat (readPosition ring) < 24
     then (if writePosition ring = 0 then WOULD_BLOCK else OK, 0) else (OK, readPosition ring))"
proof -
  have lt: "readPosition ring < capacity ring" "writePosition ring < capacity ring"
    using assms by (simp_all add: ring_queue_def Let_def word_less_nat_alt)
  have "unat (capacity ring - readPosition ring) = unat (capacity ring) - unat (readPosition ring)"
    using lt by (intro unat_sub) simp
  then show ?thesis using lt
    by (auto simp: UpdateReadIndexIfNeed_def IsValidOffset_def SIZEOF_HEADER_def Let_def)
qed

text \<open>Committing the record at the front of a contiguous segment.\<close>

lemma Peek_commit:
  assumes U: "UpdateReadIndexIfNeed (readPosition ring) (writePosition ring) ring = (OK, a)"
    and rec: "is_record (ring_mem ring) (unat a) e" and s: "load_sequence (ring_mem ring) (unat a) \<noteq> 0"
    and fit: "unat a + event_size e \<le> unat (capacity ring)" "event_size e < unat (capacity ring)"
    and cap: "unat (capacity ring) \<le> 8128" and ne: "a \<noteq> writePosition ring"
  shows "\<exists>ev ring'. PeekLoop (Suc n) out ring = (OK, ev, ring) \<and> CopyOut ev ring = e
     \<and> CommitRead ev ring = (True, ring') \<and> capacity ring' = capacity ring \<and> writePosition ring' = writePosition ring
     \<and> ring_mem ring' = ring_mem ring
     \<and> unat (readPosition ring') = (if unat a + event_size e = unat (capacity ring) then 0 else unat a + event_size e)"
proof -
  obtain ev where ev: "PeekLoop (Suc n) out ring = (OK, ev, ring)" "CopyOut ev ring = e" "beginOffset ev = a"
     "sequence ev = load_sequence (ring_mem ring) (unat a)"
     "unat (endOffset ev) = (if unat a + event_size e = unat (capacity ring) then 0 else unat a + event_size e)"
    using PeekLoop_record [OF assms] by blast
  have "endOffset ev < capacity ring" using ev(5) fit by (auto simp: word_less_nat_alt split: if_splits)
  then show ?thesis using ev by (simp add: CommitRead_def not_le [symmetric])
qed

lemma pop_linear:
  assumes q: "ring_queue ring (e # es)" and rw: "readPosition ring \<le> writePosition ring" and p: "published ring"
  shows "\<exists>ev ring'. PeekLoop (Suc n) out ring = (OK, ev, ring) \<and> CopyOut ev ring = e
     \<and> CommitRead ev ring = (True, ring') \<and> ring_queue ring' es"
proof -
  define cap where "cap = unat (capacity ring)"
  define r where "r = unat (readPosition ring)"
  define w where "w = unat (writePosition ring)"
  note n = cap_def r_def w_def
  have I: "24 < cap" "cap \<le> 8128" "r < cap" "w < cap" "8 dvd r" "8 dvd w"
    "segment (ring_mem ring) r w (e # es)"
    using q rw by (auto simp: ring_queue_def Let_def n word_le_nat_alt)
  have S: "is_record (ring_mem ring) r e" "segment (ring_mem ring) (r + event_size e) w es" using I(7) by auto
  have le: "r + event_size e \<le> w" using S(2) by (rule segment_le)
  have sz: "24 \<le> event_size e" using event_size_bounds(1) [of e] by simp
  have ne: "readPosition ring \<noteq> writePosition ring" using le sz by (auto simp: n)
  have U: "UpdateReadIndexIfNeed (readPosition ring) (writePosition ring) ring = (OK, readPosition ring)"
  proof -
    have "\<not> cap - r < 24" using le sz I(4) by linarith
    then show ?thesis using UpdateReadIndex_cases [OF q] ne by (simp add: n)
  qed
  obtain ev ring' where P: "PeekLoop (Suc n) out ring = (OK, ev, ring)" "CopyOut ev ring = e"
     "CommitRead ev ring = (True, ring')" "capacity ring' = capacity ring" "writePosition ring' = writePosition ring"
     "ring_mem ring' = ring_mem ring" "unat (readPosition ring') = r + event_size e"
    using Peek_commit [OF U, of e n out] S(1) p ne le I by (auto simp: published_def n)
  have "8 dvd r + event_size e" using I event_size_bounds(3) by simp
  then have "ring_queue ring' es"
    using I S le P unfolding ring_queue_def by (simp add: Let_def n)
  then show ?thesis using P by blast
qed

lemma PeekNext_loop:
  "ring_queue ring es \<Longrightarrow> PeekNext ring = PeekLoop 3 empty_PeekedEvent ring"
  by (simp add: PeekNext_def ring_queue_def SIZEOF_HEADER_def Let_def)

text \<open>A wrap marker at the read position sends the reader to the start.\<close>

lemma PeekLoop_wrap:
  assumes q: "ring_queue ring es" and w: "is_wrap (ring_mem ring) (unat (readPosition ring))"
    and s: "load_sequence (ring_mem ring) (unat (readPosition ring)) \<noteq> 0"
    and ne: "readPosition ring \<noteq> writePosition ring" and t: "24 \<le> unat (capacity ring) - unat (readPosition ring)"
  shows "PeekLoop (Suc n) out ring = PeekLoop n out (ring\<lparr>readPosition := 0\<rparr>)"
proof -
  have U: "UpdateReadIndexIfNeed (readPosition ring) (writePosition ring) ring = (OK, readPosition ring)"
    using UpdateReadIndex_cases [OF q] ne t by simp
  show ?thesis
    using w by (simp add: U ReadHeaderSafely_at [OF s] is_wrap_def HandleWrapIfNeeded_def header_at_def ring_defs)
qed

lemma wrapped_cases:
  assumes "ring_queue ring es" "writePosition ring < readPosition ring"
  obtains p es1 es2 where "es = es1 @ es2" "segment (ring_mem ring) (unat (readPosition ring)) p es1"
    "segment (ring_mem ring) 0 (unat (writePosition ring)) es2" "p \<le> unat (capacity ring)"
    "unat (capacity ring) - p < 24 \<or> is_wrap (ring_mem ring) p"
  using assms by (auto simp: ring_queue_def Let_def word_less_nat_alt)

lemma ring_queue_restart:
  assumes q: "ring_queue ring es0" and S: "segment (ring_mem ring) 0 (unat (writePosition ring)) es"
  shows "ring_queue (ring\<lparr>readPosition := 0\<rparr>) es"
  using assms by (auto simp: ring_queue_def Let_def)

lemma PeekNext_pop:
  assumes q: "ring_queue ring (e # es)" and p: "published ring"
  shows "\<exists>ev ring1 ring'. PeekNext ring = (OK, ev, ring1) \<and> CopyOut ev ring1 = e
     \<and> CommitRead ev ring1 = (True, ring') \<and> ring_queue ring' es \<and> ring_queue ring1 (e # es)"
proof (cases "readPosition ring \<le> writePosition ring")
  case True
  then show ?thesis using pop_linear [OF q True p, of 2 empty_PeekedEvent] PeekNext_loop [OF q] q
    by (simp add: numeral_eq_Suc del: PeekLoop.simps) blast
next
  case False
  then have wr: "writePosition ring < readPosition ring" by simp
  obtain p' es1 es2 where W: "e # es = es1 @ es2" "segment (ring_mem ring) (unat (readPosition ring)) p' es1"
    "segment (ring_mem ring) 0 (unat (writePosition ring)) es2" "p' \<le> unat (capacity ring)"
    "unat (capacity ring) - p' < 24 \<or> is_wrap (ring_mem ring) p'"
    using wrapped_cases [OF q wr] by metis
  have I: "24 < unat (capacity ring)" "unat (capacity ring) \<le> 8128" "readPosition ring < capacity ring"
     "8 dvd unat (readPosition ring)" "8 dvd unat (writePosition ring)" "writePosition ring < capacity ring"
    using q by (simp_all add: ring_queue_def Let_def word_less_nat_alt)
  have ne: "readPosition ring \<noteq> writePosition ring" using wr by auto
  note nat = word_less_nat_alt word_le_nat_alt
  show ?thesis
  proof (cases es1)
    case (Cons e1 es1')
    then have e1: "e1 = e" "es = es1' @ es2" using W(1) by auto
    have S: "is_record (ring_mem ring) (unat (readPosition ring)) e"
      "segment (ring_mem ring) (unat (readPosition ring) + event_size e) p' es1'"
      using W(2) Cons e1 by auto
    have le: "unat (readPosition ring) + event_size e \<le> p'" using S(2) by (rule segment_le)
    have sz: "24 \<le> event_size e" using event_size_bounds(1) [of e] by simp
    have "\<not> unat (capacity ring) - unat (readPosition ring) < 24" using le sz W(4) by linarith
    then have U: "UpdateReadIndexIfNeed (readPosition ring) (writePosition ring) ring = (OK, readPosition ring)"
      using UpdateReadIndex_cases [OF q] wr by auto
    have fit: "unat (readPosition ring) + event_size e \<le> unat (capacity ring)" "event_size e < unat (capacity ring)"
      using le W(4) wr by (auto simp: nat)
    obtain ev ring' where P: "PeekLoop 3 empty_PeekedEvent ring = (OK, ev, ring)" "CopyOut ev ring = e"
      "CommitRead ev ring = (True, ring')" "capacity ring' = capacity ring" "writePosition ring' = writePosition ring"
      "ring_mem ring' = ring_mem ring"
      "unat (readPosition ring') = (if unat (readPosition ring) + event_size e = unat (capacity ring) then 0
          else unat (readPosition ring) + event_size e)"
      using Peek_commit [OF U S(1) _ fit I(2) ne, of 2 empty_PeekedEvent] p
      by (auto simp: published_def numeral_eq_Suc simp del: PeekLoop.simps)
    have d: "8 dvd unat (readPosition ring) + event_size e" using I event_size_bounds(3) by simp
    have "ring_queue ring' es"
    proof (cases "unat (readPosition ring) + event_size e = unat (capacity ring)")
      case True
      have "es1' = []"
      proof (cases es1')
        case (Cons x l)
        then have "unat (capacity ring) + event_size x \<le> p'" using S(2) True by (auto dest: segment_le)
        then show ?thesis using W(4) event_size_bounds(2) [of x] by linarith
      qed
      then show ?thesis using True P W(3) e1 I d unfolding ring_queue_def by (simp add: Let_def nat)
    next
      case F: False
      then have "unat (readPosition ring) + event_size e < unat (capacity ring)" using fit by simp
      moreover have "unat (writePosition ring) < unat (readPosition ring) + event_size e" using wr by (simp add: nat)
      ultimately show ?thesis using F P W(3-5) S(2) e1 I d unfolding ring_queue_def by (auto simp: Let_def nat)
    qed
    then show ?thesis using P PeekNext_loop [OF q] q by simp
  next
    case Nil
    then have N: "p' = unat (readPosition ring)" "es2 = e # es" using W by auto
    have S: "is_record (ring_mem ring) 0 e" "segment (ring_mem ring) (event_size e) (unat (writePosition ring)) es"
      using W(3) N(2) by auto
    have le: "event_size e \<le> unat (writePosition ring)" using S(2) by (rule segment_le)
    have sz: "24 \<le> event_size e" using event_size_bounds(1) [of e] by simp
    have w0: "writePosition ring \<noteq> 0" using le sz by auto
    show ?thesis
    proof (cases "unat (capacity ring) - unat (readPosition ring) < 24")
      case True
      then have U: "UpdateReadIndexIfNeed (readPosition ring) (writePosition ring) ring = (OK, 0)"
        using UpdateReadIndex_cases [OF q] ne w0 by simp
      have fit: "unat (0 :: u32) + event_size e \<le> unat (capacity ring)" "event_size e < unat (capacity ring)"
        using le I(6) by (auto simp: nat)
      obtain ev ring' where P: "PeekLoop 3 empty_PeekedEvent ring = (OK, ev, ring)" "CopyOut ev ring = e"
        "CommitRead ev ring = (True, ring')" "capacity ring' = capacity ring" "writePosition ring' = writePosition ring"
        "ring_mem ring' = ring_mem ring" "unat (readPosition ring') = event_size e"
        using Peek_commit [OF U _ _ fit I(2), of 2 empty_PeekedEvent] S(1) p w0 fit(2)
        by (auto simp: published_def numeral_eq_Suc simp del: PeekLoop.simps)
      have "ring_queue ring' es"
        using P S(2) le fit(2) I event_size_bounds(3) [of e] unfolding ring_queue_def by (simp add: Let_def nat)
      then show ?thesis using P PeekNext_loop [OF q] q by simp
    next
      case False
      then have "is_wrap (ring_mem ring) (unat (readPosition ring))" using W(5) N(1) by simp
      then have L: "PeekLoop 3 empty_PeekedEvent ring = PeekLoop 2 empty_PeekedEvent (ring\<lparr>readPosition := 0\<rparr>)"
        using PeekLoop_wrap [OF q _ _ ne, of 2] p False by (simp add: published_def numeral_eq_Suc del: PeekLoop.simps)
      have q0: "ring_queue (ring\<lparr>readPosition := 0\<rparr>) (e # es)"
        using ring_queue_restart [OF q] W(3) N(2) by simp
      show ?thesis using pop_linear [OF q0, of 1 empty_PeekedEvent] p PeekNext_loop [OF q] L q0
        by (simp add: published_def numeral_eq_Suc del: PeekLoop.simps) blast
    qed
  qed
qed

text \<open>An empty queue makes the reader wait, and reading leaves it empty.\<close>

lemma PeekLoop_same_position:
  assumes "ring_queue ring es" "readPosition ring = writePosition ring"
  shows "PeekLoop n out ring = (WOULD_BLOCK, out, ring)"
  using UpdateReadIndex_cases [OF assms(1)] assms(2) by (cases n) simp_all

lemma PeekNext_empty:
  assumes q: "ring_queue ring []"
  shows "\<exists>ev ring'. PeekNext ring = (WOULD_BLOCK, ev, ring') \<and> ring_queue ring' []"
proof (cases "readPosition ring = writePosition ring")
  case True
  then show ?thesis using PeekLoop_same_position [OF q] PeekNext_loop [OF q] q by simp
next
  case ne: False
  have "\<not> readPosition ring \<le> writePosition ring"
  proof
    assume "readPosition ring \<le> writePosition ring"
    then have "unat (readPosition ring) = unat (writePosition ring)"
      using q by (auto simp: ring_queue_def Let_def word_le_nat_alt)
    then show False using ne by (simp add: word_unat_eq_iff)
  qed
  then have "writePosition ring < readPosition ring" by simp
  then obtain p' where W: "p' = unat (readPosition ring)" "unat (writePosition ring) = 0"
    "unat (capacity ring) - p' < 24 \<or> is_wrap (ring_mem ring) p'"
    using wrapped_cases [OF q] by (metis append_is_Nil_conv segment.simps(1))
  have w0: "writePosition ring = 0" using W(2) by (simp add: unat_eq_0)
  show ?thesis
  proof (cases "unat (capacity ring) - unat (readPosition ring) < 24")
    case True
    then have "PeekLoop n out ring = (WOULD_BLOCK, out, ring)" for n out
      using UpdateReadIndex_cases [OF q] ne w0 by (cases n) simp_all
    then show ?thesis using PeekNext_loop [OF q] q by simp
  next
    case False
    then have wrap: "is_wrap (ring_mem ring) (unat (readPosition ring))" using W by simp
    have q0: "ring_queue (ring\<lparr>readPosition := 0\<rparr>) []"
      using ring_queue_restart [OF q] w0 by simp
    show ?thesis
    proof (cases "load_sequence (ring_mem ring) (unat (readPosition ring)) = 0")
      case True
      then have "PeekLoop n out ring = (WOULD_BLOCK, out, ring)" for n out
        using UpdateReadIndex_cases [OF q] ne w0 False
        by (induction n) (simp_all add: ReadHeaderSafely_def)
      then show ?thesis using PeekNext_loop [OF q] q by simp
    next
      case s: False
      have "PeekLoop 3 empty_PeekedEvent ring = PeekLoop 2 empty_PeekedEvent (ring\<lparr>readPosition := 0\<rparr>)"
        using PeekLoop_wrap [OF q wrap s ne, of 2] False by (simp add: numeral_eq_Suc del: PeekLoop.simps)
      then show ?thesis using PeekNext_loop [OF q] q0 PeekLoop_same_position [OF q0] w0 by simp
    qed
  qed
qed
end
