(* ===== verification/Ring_Queue.thy ===== *)
theory Ring_Queue
  imports Ring_Fifo
begin

text \<open>
  The interface of an event queue as a locale, with the FIFO property of any trace of its operations, and
  its interpretation on the shared ring; what holds on arbitrary memory; and the properties of the
  ring.
\<close>

section \<open>The capacity never changes\<close>

lemma WriteEvent_capacity: "capacity (snd (WriteEvent w event ring)) = capacity ring"
  by (simp add: WriteEvent_def Let_def)

lemma UpdateWriteIndex_capacity: "capacity (snd (UpdateWriteIndexIfNeed w n ring)) = capacity ring"
  by (simp add: UpdateWriteIndexIfNeed_def Let_def)

lemma TryWriteOneEvent_capacity: "capacity (snd (snd (TryWriteOneEvent event n r w ring))) = capacity ring"
proof -
  obtain w1 ring1 where U: "UpdateWriteIndexIfNeed w n ring = (w1, ring1)" by fastforce
  obtain ok ring2 where W: "WriteEvent w1 event ring1 = (ok, ring2)" by fastforce
  show ?thesis using UpdateWriteIndex_capacity [of w n ring] WriteEvent_capacity [of w1 event ring1]
    by (simp add: TryWriteOneEvent_def U W Let_def)
qed

lemma WriteLoop_capacity: "capacity (snd (WriteLoop events n r w ring)) = capacity ring"
proof (induction events arbitrary: n r w ring)
  case (Cons event events)
  show ?case
  proof (cases "GetEventRecordSize (ev_length event)")
    case (Some k)
    obtain ret w1 ring1 where T: "TryWriteOneEvent event k r w ring = (ret, w1, ring1)" using prod_cases3 by blast
    show ?thesis using Some TryWriteOneEvent_capacity [of event k r w ring] Cons.IH [of "n + 1" "readPosition ring1" w1 ring1]
      by (simp add: T Let_def)
  qed simp
qed simp

lemma TryWriteEvents_capacity [simp]: "capacity (snd (snd (TryWriteEvents events n notify ring))) = capacity ring"
proof -
  obtain k ring1 where L: "WriteLoop (take n (case events of None \<Rightarrow> [] | Some es \<Rightarrow> es)) 0
      (readPosition ring) (writePosition ring) ring = (k, ring1)" by fastforce
  show ?thesis using WriteLoop_capacity [of "take n (case events of None \<Rightarrow> [] | Some es \<Rightarrow> es)" 0 "readPosition ring" "writePosition ring" ring]
    by (simp add: TryWriteEvents_def L Let_def)
qed

lemma TryWriteEvent_capacity [simp]: "capacity (snd (TryWriteEvent event notify ring)) = capacity ring"
  by (simp add: TryWriteEvent_def split_beta)

lemma PeekLoop_capacity: "capacity (snd (snd (PeekLoop n out ring))) = capacity ring"
proof (induction n arbitrary: out ring)
  case (Suc n)
  obtain ret a where U: "UpdateReadIndexIfNeed (readPosition ring) (writePosition ring) ring = (ret, a)" by fastforce
  show ?case
  proof (cases "ReadHeaderSafely (ring_mem ring) (unat a)")
    case None
    then show ?thesis using Suc by (simp add: U)
  next
    case (Some hs)
    obtain hdr s where hs: "hs = (hdr, s)" by fastforce
    obtain ret2 a2 ring2 where H: "HandleWrapIfNeeded hdr a ring = (ret2, a2, ring2)" using prod_cases3 by blast
    have "capacity ring2 = capacity ring" using H by (auto simp: HandleWrapIfNeeded_def split: if_splits)
    then show ?thesis using Some H Suc by (simp add: U hs Let_def split_beta)
  qed
qed simp

lemma PeekNext_capacity [simp]: "capacity (snd (snd (PeekNext ring))) = capacity ring"
  by (simp add: PeekNext_def PeekLoop_capacity)

lemma CommitRead_capacity [simp]: "capacity (snd (CommitRead ev ring)) = capacity ring"
  by (simp add: CommitRead_def Let_def)

section \<open>The interface of a queue of events\<close>

text \<open>
  What a user of the ring may rely on: an accepted value is appended, a refused one changes
  nothing, and a read takes the first value. \<open>live\<close> is the condition under which the first value can
  be read at all.
\<close>

datatype 'a action = Put 'a | Get

text \<open>
  Running a list of actions: what each of them observed, and the final state. \<open>fifo\<close> is the specification: a list of
  values, at whose end a stored value goes, from whose front a read takes, and which alone makes a
  read come back with nothing when it is empty; it is \<open>None\<close> for observations that no such list explains.
\<close>

datatype 'e observation = Stored 'e | Refused | Taken 'e | Nothing

primrec queue_trace ::
  "('a \<Rightarrow> 's \<Rightarrow> bool \<times> 's) \<Rightarrow> ('s \<Rightarrow> 'e option \<times> 's) \<Rightarrow> ('a \<Rightarrow> 'e) \<Rightarrow> 'a action list \<Rightarrow> 's \<Rightarrow> 'e observation list \<times> 's" where
  "queue_trace put get val [] s = ([], s)"
| "queue_trace put get val (x # xs) s =
     (case x of
        Put a \<Rightarrow> (case put a s of (ok, s') \<Rightarrow>
                   case queue_trace put get val xs s' of (obs, s'') \<Rightarrow> ((if ok then Stored (val a) else Refused) # obs, s''))
      | Get \<Rightarrow> (case get s of (r, s') \<Rightarrow>
                  case queue_trace put get val xs s' of (obs, s'') \<Rightarrow>
                    ((case r of None \<Rightarrow> Nothing | Some e \<Rightarrow> Taken e) # obs, s'')))"

primrec fifo :: "'e observation list \<Rightarrow> 'e list \<Rightarrow> 'e list option" where
  "fifo [] es = Some es"
| "fifo (x # xs) es =
     (case x of
        Stored e \<Rightarrow> fifo xs (es @ [e])
      | Refused \<Rightarrow> fifo xs es
      | Taken e \<Rightarrow> (if es \<noteq> [] \<and> hd es = e then fifo xs (tl es) else None)
      | Nothing \<Rightarrow> (if es = [] then fifo xs es else None))"

text \<open>
  The condition under which a run is considered: a read that comes when the queue, \<open>es\<close>, is not empty finds its value readable. A
  read of an empty queue is under no condition.
\<close>

primrec queue_lives ::
  "('a \<Rightarrow> 's \<Rightarrow> bool \<times> 's) \<Rightarrow> ('s \<Rightarrow> 'e option \<times> 's) \<Rightarrow> ('a \<Rightarrow> 'e) \<Rightarrow> ('s \<Rightarrow> bool) \<Rightarrow> 'a action list \<Rightarrow> 'e list \<Rightarrow> 's \<Rightarrow> bool" where
  "queue_lives put get val live [] es s \<longleftrightarrow> True"
| "queue_lives put get val live (x # xs) es s \<longleftrightarrow>
     (case x of
        Put a \<Rightarrow> queue_lives put get val live xs (if fst (put a s) then es @ [val a] else es) (snd (put a s))
      | Get \<Rightarrow> (es \<noteq> [] \<longrightarrow> live s) \<and> queue_lives put get val live xs (tl es) (snd (get s)))"

text \<open>
  \<open>room\<close> is the condition, read off the state alone, under which a value is accepted.
\<close>

locale event_queue =
  fixes holds :: "'s \<Rightarrow> 'e list \<Rightarrow> bool"
    and put :: "'a \<Rightarrow> 's \<Rightarrow> bool \<times> 's"
    and get :: "'s \<Rightarrow> 'e option \<times> 's"
    and val :: "'a \<Rightarrow> 'e"
    and live :: "'s \<Rightarrow> bool"
    and room :: "'a \<Rightarrow> 's \<Rightarrow> bool"
  assumes put_accepted: "holds s es \<Longrightarrow> put x s = (True, s') \<Longrightarrow> holds s' (es @ [val x])"
    and put_refused: "holds s es \<Longrightarrow> put x s = (False, s') \<Longrightarrow> holds s' es"
    and put_room: "holds s es \<Longrightarrow> fst (put x s) \<longleftrightarrow> room x s"
    and get_empty: "holds s [] \<Longrightarrow> fst (get s) = None \<and> holds (snd (get s)) []"
    and get_first: "holds s (e # es) \<Longrightarrow> live s \<Longrightarrow> fst (get s) = Some e \<and> holds (snd (get s)) es"
begin

lemma trace_fifo:
  "holds s es \<Longrightarrow> queue_lives put get val live xs es s \<Longrightarrow> queue_trace put get val xs s = (obs, s') \<Longrightarrow>
    \<exists>rest. fifo obs es = Some rest \<and> holds s' rest"
proof (induction xs arbitrary: s es obs)
  case (Cons x xs)
  show ?case
  proof (cases x)
    case (Put a)
    obtain ok s1 where p: "put a s = (ok, s1)" by fastforce
    obtain obs1 where t: "queue_trace put get val xs s1 = (obs1, s')" "obs = (if ok then Stored (val a) else Refused) # obs1"
      using Cons.prems(3) Put p by (auto split: prod.splits)
    have h: "holds s1 (if ok then es @ [val a] else es)"
      using put_accepted [OF Cons.prems(1)] put_refused [OF Cons.prems(1)] p by (cases ok) auto
    show ?thesis using Cons.IH [OF h _ t(1)] Cons.prems(2) Put p t(2) by auto
  next
    case Get
    obtain r s1 where g: "get s = (r, s1)" by fastforce
    obtain obs1 where t: "queue_trace put get val xs s1 = (obs1, s')" "obs = (case r of None \<Rightarrow> Nothing | Some e \<Rightarrow> Taken e) # obs1"
      using Cons.prems(3) Get g by (auto split: prod.splits)
    have l: "es \<noteq> [] \<Longrightarrow> live s" "queue_lives put get val live xs (tl es) s1" using Cons.prems(2) Get g by auto
    show ?thesis
    proof (cases es)
      case Nil
      then have n: "r = None" "holds s1 []" using get_empty [of s] Cons.prems(1) g by auto
      then show ?thesis using Cons.IH [OF n(2) _ t(1)] l(2) t(2) Nil by auto
    next
      case (Cons e es')
      then have n: "r = Some e" "holds s1 es'" using get_first [of s e es'] Cons.prems(1) l g by auto
      then show ?thesis using Cons.IH [OF n(2) _ t(1)] l(2) t(2) Cons by auto
    qed
  qed
qed simp

text \<open>Every refusal of a run is for want of room, and every acceptance for room.\<close>

lemma trace_room:
  "holds s es \<Longrightarrow> queue_lives put get val live xs es s \<Longrightarrow> queue_trace put get val xs s = (obs, s') \<Longrightarrow>
    fst (put x s') \<longleftrightarrow> room x s'"
  using trace_fifo put_room by blast

end

section \<open>The ring as a queue\<close>

definition ring_put :: "MidiEventInner \<Rightarrow> MidiSharedRing \<Rightarrow> bool \<times> MidiSharedRing" where
  "ring_put event ring = (case TryWriteEvent event True ring of (status, ring') \<Rightarrow> (status = OK, ring'))"

definition ring_get :: "MidiSharedRing \<Rightarrow> MidiEvent option \<times> MidiSharedRing" where
  "ring_get ring =
     (case PeekNext ring of (status, ev, ring1) \<Rightarrow>
        if status \<noteq> OK then (None, ring1)
        else (case CommitRead ev ring1 of (ok, ring2) \<Rightarrow> (if ok then Some (CopyOut ev ring1) else None, ring2)))"

lemma TryWriteEvent_queue:
  assumes "ring_queue ring es"
  shows "case TryWriteEvent event notify ring of (status, ring') \<Rightarrow>
     status = OK \<and> ring_queue ring' (es @ [event_of event]) \<or> status = WOULD_BLOCK \<and> ring_queue ring' es"
proof -
  obtain status n ring' where T: "TryWriteEvents (Some [event]) 1 notify ring = (status, n, ring')"
    using prod_cases3 by blast
  then show ?thesis using TryWriteEvents_queue [OF assms, of 1 "[event]" notify]
    by (cases n) (auto simp: TryWriteEvent_def)
qed

text \<open>
  The room for a record of an event: it fits behind the write position or, when that lies behind the read position, before the read
  position, and never fills the ring.
\<close>

definition ring_room :: "MidiEventInner \<Rightarrow> MidiSharedRing \<Rightarrow> bool" where
  "ring_room event ring \<longleftrightarrow> ev_data event \<noteq> None \<and>
     (let cap = unat (capacity ring); r = unat (readPosition ring); w = unat (writePosition ring);
          k = record_size (ev_length event)
      in k < cap \<and> (if w < r then w + k < r else w + k \<le> cap \<and> (r = 0 \<longrightarrow> w + k < cap) \<or> k < r))"

lemma UpdateWriteIndexIfNeed_simp:
  assumes "w < capacity ring"
  shows "\<exists>mem. UpdateWriteIndexIfNeed w needed ring =
     (if unat needed \<le> unat (capacity ring) - unat w then (w, ring) else (0, ring\<lparr>ring_mem := mem, writePosition := 0\<rparr>))"
proof -
  have "unat (capacity ring - w) = unat (capacity ring) - unat w" using assms by (intro unat_sub) simp
  then show ?thesis
    by (auto simp: UpdateWriteIndexIfNeed_def Let_def word_le_nat_alt) (metis MidiSharedRing.surjective MidiSharedRing.update_convs)+
qed

lemma TryWriteOneEvent_room:
  assumes q: "ring_queue ring es" and n: "unat needed < unat (capacity ring)" "0 < unat needed"
  shows "fst (TryWriteOneEvent event needed (readPosition ring) (writePosition ring) ring) = OK \<longleftrightarrow>
     (let cap = unat (capacity ring); r = unat (readPosition ring); w = unat (writePosition ring); k = unat needed
      in if w < r then w + k < r else w + k \<le> cap \<and> (r = 0 \<longrightarrow> w + k < cap) \<or> k < r)"
proof -
  have lt: "readPosition ring < capacity ring" "writePosition ring < capacity ring"
    using q by (simp_all add: ring_queue_def Let_def word_less_nat_alt)
  then have lt': "unat (readPosition ring) < unat (capacity ring)" "unat (writePosition ring) < unat (capacity ring)"
    by (simp_all add: word_less_nat_alt)
  obtain mem where U: "UpdateWriteIndexIfNeed (writePosition ring) needed ring =
     (if unat needed \<le> unat (capacity ring) - unat (writePosition ring) then (writePosition ring, ring)
      else (0, ring\<lparr>ring_mem := mem, writePosition := 0\<rparr>))"
    using UpdateWriteIndexIfNeed_simp [OF lt(2)] by blast
  have W: "fst (WriteEvent w event ring1)" if "w < capacity ring1" for w ring1
    using that by (simp add: WriteEvent_def Let_def not_le)
  have pos: "0 < capacity ring" using lt(1) order_le_less_trans word_zero_le by blast
  have sz: "unat (readPosition ring - w - 1) = unat (readPosition ring) - unat w - 1" if "w < readPosition ring" for w
  proof -
    have "unat (readPosition ring - w) = unat (readPosition ring) - unat w" using that by (intro unat_sub) simp
    then show ?thesis using that unat_sub [of 1 "readPosition ring - w"] by (simp add: word_le_nat_alt word_less_nat_alt)
  qed
  have sz2: "unat (capacity ring - w) = unat (capacity ring) - unat w" if "w < capacity ring" for w
    using that by (intro unat_sub) simp
  note free = unat_RingFree [OF lt]
  show ?thesis
    using lt lt' W pos n sz sz2
    by (auto simp: TryWriteOneEvent_def U Let_def split_beta word_le_nat_alt free word_less_nat_alt split: if_splits)
qed

lemma ring_put_room:
  assumes q: "ring_queue ring es"
  shows "fst (ring_put event ring) \<longleftrightarrow> ring_room event ring"
proof -
  have c: "24 < unat (capacity ring)" "unat (capacity ring) \<le> 8128" "readPosition ring < capacity ring"
    "writePosition ring < capacity ring"
    using q by (simp_all add: ring_queue_def Let_def word_less_nat_alt)
  have c1: "unat (capacity ring - 1) = unat (capacity ring) - 1" using c(1) unat_sub [of 1 "capacity ring"] by (simp add: word_le_nat_alt)
  have v: "ValidateOneEvent event ring \<longleftrightarrow> ev_data event \<noteq> None \<and> record_size (ev_length event) < unat (capacity ring)"
  proof (cases "ev_length event < 2 ^ 29")
    case True
    note K = GetEventRecordSize_small [OF True]
    show ?thesis using c(1) GetEventRecordSize_Some [OF K] by (auto simp: ValidateOneEvent_def K word_le_nat_alt c1)
  next
    case False
    then have "\<not> record_size (ev_length event) < unat (capacity ring)" using record_size_bounds(1) [of "ev_length event"] c(2) by simp
    then show ?thesis using GetEventRecordSize_Some [of "ev_length event"] c(1)
      by (auto simp: ValidateOneEvent_def word_le_nat_alt c1 split: option.splits)
  qed
  have "fst (ring_put event ring) \<longleftrightarrow> fst (WriteLoop [event] 0 (readPosition ring) (writePosition ring) ring) = 1"
    using c by (auto simp: ring_put_def TryWriteEvent_def TryWriteEvents_def ValidateWriteArgs_def SIZEOF_HEADER_def
        IsValidOffset_def Let_def split: prod.splits simp del: WriteLoop.simps)
  also have "\<dots> \<longleftrightarrow> ring_room event ring"
  proof (cases "ValidateOneEvent event ring")
    case True
    then obtain needed where k: "GetEventRecordSize (ev_length event) = Some needed"
      by (auto simp: ValidateOneEvent_def split: if_splits option.splits)
    note u = GetEventRecordSize_Some [OF k]
    have n: "unat needed < unat (capacity ring)" "0 < unat needed" using v True u by simp_all
    show ?thesis using TryWriteOneEvent_room [OF q n, of event] v True u
      by (auto simp: k ring_room_def Let_def split: prod.splits)
  next
    case False
    then show ?thesis using v by (auto simp: ring_room_def Let_def)
  qed
  finally show ?thesis .
qed

interpretation ring: event_queue ring_queue ring_put ring_get event_of published ring_room
proof unfold_locales
  fix s es x s'
  assume q: "ring_queue s es"
  note W = TryWriteEvent_queue [OF this, of x True]
  show "ring_put x s = (True, s') \<Longrightarrow> ring_queue s' (es @ [event_of x])"
    "ring_put x s = (False, s') \<Longrightarrow> ring_queue s' es"
    using W by (auto simp: ring_put_def split: prod.splits)
  show "fst (ring_put x s) \<longleftrightarrow> ring_room x s" using q by (rule ring_put_room)
next
  fix s assume "ring_queue s []"
  then show "fst (ring_get s) = None \<and> ring_queue (snd (ring_get s)) []"
    using PeekNext_empty by (fastforce simp: ring_get_def)
next
  fix s e es assume "ring_queue s (e # es)" "published s"
  then show "fst (ring_get s) = Some e \<and> ring_queue (snd (ring_get s)) es"
    using PeekNext_pop by (fastforce simp: ring_get_def)
qed

section \<open>Draining\<close>

text \<open>Every record that the drain meets is published.\<close>

primrec all_published :: "nat \<Rightarrow> MidiSharedRing \<Rightarrow> bool" where
  "all_published 0 ring \<longleftrightarrow> True"
| "all_published (Suc n) ring \<longleftrightarrow> published ring \<and> all_published n (snd (ring_get ring))"

lemma DrainLoop_all:
  assumes "ring_queue ring es" "all_published (length es) ring" "length es < fuel"
  shows "\<exists>ring'. DrainLoop fuel 0 n out ring = Some (out @ es, ring') \<and> ring_queue ring' []"
  using assms
proof (induction es arbitrary: fuel n out ring)
  case Nil
  then obtain f where "fuel = Suc f" by (cases fuel) auto
  then show ?case using PeekNext_empty [OF Nil.prems(1)] by auto
next
  case (Cons e es)
  then obtain f where f: "fuel = Suc f" "length es < f" by (cases fuel) auto
  have p: "published ring" "all_published (length es) (snd (ring_get ring))" using Cons.prems(2) by simp_all
  obtain ev ring1 ring2 where P: "PeekNext ring = (OK, ev, ring1)" "CopyOut ev ring1 = e"
    "CommitRead ev ring1 = (True, ring2)" "ring_queue ring2 es"
    using PeekNext_pop [OF Cons.prems(1) p(1)] by blast
  then have "snd (ring_get ring) = ring2" by (simp add: ring_get_def)
  then show ?case using Cons.IH [OF P(4) _ f(2), of "n + 1" "out @ [e]"] p(2) P f(1) by simp
qed


section \<open>Safety on arbitrary memory\<close>

text \<open>
  The peer can store anything into the shared memory at any time. The following facts assume nothing about
  positions or contents.
\<close>

lemma BuildPeekedEvent_safe:
  assumes "BuildPeekedEvent hdr a out ring = (OK, ev)" "a < capacity ring" "unat (capacity ring) \<le> 8128"
  shows "beginOffset ev = a \<and> (\<exists>p. payloadPtr ev = Some p \<and> p = unat a + 24
     \<and> p + 4 * unat (h_length hdr) \<le> unat (capacity ring))
     \<and> endOffset ev < capacity ring \<and> localHeader ev = localHeader out"
proof -
  obtain needed where k: "GetEventRecordSize (unat (h_length hdr)) = Some needed"
    using assms(1) by (auto simp: BuildPeekedEvent_def split: option.splits)
  have c: "needed \<le> capacity ring - 1" "a + needed \<le> capacity ring"
    and ev: "ev = out\<lparr>payloadPtr := Some (unat a + SIZEOF_HEADER), beginOffset := a,
       endOffset := (let g = a + needed in if g = capacity ring then 0 else g)\<rparr>"
    using assms(1) by (auto simp: BuildPeekedEvent_def k Let_def split: if_splits)
  have a: "unat a < unat (capacity ring)" using assms(2) by (simp add: word_less_nat_alt)
  have "unat (capacity ring - 1) = unat (capacity ring) - 1"
    using unat_sub [of 1 "capacity ring"] a by (simp add: word_le_nat_alt)
  then have n: "unat needed \<le> unat (capacity ring) - 1" using c(1) by (simp add: word_le_nat_alt)
  have "unat (a + needed) = unat a + unat needed"
    using a n assms(3) by (simp add: unat_word_ariths)
  then have "unat a + unat needed \<le> unat (capacity ring)" using c(2) by (simp add: word_le_nat_alt)
  moreover have "24 + 4 * unat (h_length hdr) \<le> unat needed"
    using GetEventRecordSize_Some [OF k] record_size_bounds(1) by simp
  moreover have "(if a + needed = capacity ring then 0 else a + needed) < capacity ring"
    using c(2) order_le_less_trans [OF word_zero_le assms(2)] by (auto simp: order_le_less)
  ultimately show ?thesis by (auto simp: ev Let_def ring_defs)
qed

lemma PeekLoop_safe:
  assumes "PeekLoop n out ring = (OK, ev, ring')" "unat (capacity ring) \<le> 8128"
  shows "capacity ring' = capacity ring \<and> ring_mem ring' = ring_mem ring
     \<and> unat (beginOffset ev) + 24 \<le> unat (capacity ring)
     \<and> (\<exists>p. payloadPtr ev = Some p \<and> 24 \<le> p \<and> p + 4 * unat (h_length (localHeader ev)) \<le> unat (capacity ring))
     \<and> endOffset ev < capacity ring"
  using assms
proof (induction n arbitrary: out ring)
  case (Suc n)
  obtain ret a where U: "UpdateReadIndexIfNeed (readPosition ring) (writePosition ring) ring = (ret, a)" by fastforce
  have ret: "ret = OK" using Suc.prems U by (auto split: if_splits)
  have a: "a < capacity ring"
    using U ret by (auto simp: UpdateReadIndexIfNeed_def IsValidOffset_def Let_def split: if_splits)
      (metis gr_zeroI le_zero_eq word_gt_0 not_le word_zero_le)
  show ?case
  proof (cases "ReadHeaderSafely (ring_mem ring) (unat a)")
    case None
    then show ?thesis using Suc.IH [of out ring] Suc.prems U ret by simp
  next
    case (Some hs)
    obtain hdr s where hs: "hs = (hdr, s)" by fastforce
    obtain ret2 a2 ring2 where H: "HandleWrapIfNeeded hdr a ring = (ret2, a2, ring2)" using prod_cases3 by blast
    have f: "capacity ring2 = capacity ring" "ring_mem ring2 = ring_mem ring"
      "ret2 \<noteq> OK \<Longrightarrow> a2 = a"
      using H by (auto simp: HandleWrapIfNeeded_def split: if_splits)
    show ?thesis
    proof (cases "ret2 = OK")
      case True
      then show ?thesis using Suc.IH [of out ring2] Suc.prems U ret Some hs H f by simp
    next
      case F: False
      then have ret2: "ret2 = WOULD_BLOCK" using Suc.prems U ret Some hs H
        by (auto simp: HandleWrapIfNeeded_def split: if_splits)
      let ?out = "out\<lparr>localHeader := hdr, sequence := s\<rparr>"
      show ?thesis
      proof (cases "a = writePosition ring2")
        case True
        then show ?thesis using Suc.IH [of ?out ring2] Suc.prems U ret Some hs H f ret2 F by simp
      next
        case False
        then have B: "BuildPeekedEvent hdr a ?out ring2 = (OK, ev)" "ring' = ring2"
          using Suc.prems U ret Some hs H f ret2 F by (auto simp: Let_def split: prod.splits)
        note S = BuildPeekedEvent_safe [OF B(1)]
        then show ?thesis using a f Suc.prems(2) B(2) by auto
      qed
    qed
  qed
qed simp


lemma store_sequence_outside: "i \<noteq> off + 16 \<Longrightarrow> store_sequence off v m i = m i"
  by (simp add: store_sequence_def)

lemma store_fields_outside: "i < off \<or> off + 16 \<le> i \<Longrightarrow> store_fields off t l f m i = m i"
  by (auto simp: store_fields_def)

lemma UpdateWriteIndex_safe:
  assumes "UpdateWriteIndexIfNeed w needed ring = (w', ring')" "w < capacity ring" "unat (capacity ring) \<le> i"
  shows "ring_mem ring' i = ring_mem ring i \<and> capacity ring' = capacity ring \<and> readPosition ring' = readPosition ring
    \<and> w' < capacity ring"
proof -
  have le: "w \<le> capacity ring" using assms(2) by simp
  note t = unat_sub [OF le]
  have "0 < capacity ring" using order_le_less_trans [OF word_zero_le assms(2)] .
  moreover have "24 \<le> unat (capacity ring) - unat w \<Longrightarrow> unat w + 24 \<le> i"
    using assms(3) by linarith
  ultimately show ?thesis using assms(1,2)
    by (auto simp: UpdateWriteIndexIfNeed_def Let_def t SIZEOF_HEADER_def store_sequence_outside store_fields_outside
        split: if_splits)
qed

lemma TryWriteOneEvent_safe:
  assumes T: "TryWriteOneEvent event needed r w ring = (status, w', ring')"
    and k: "GetEventRecordSize (ev_length event) = Some needed"
    and cap: "unat (capacity ring) \<le> 8128" and r: "r < capacity ring" and i: "unat (capacity ring) \<le> i"
  shows "ring_mem ring' i = ring_mem ring i \<and> capacity ring' = capacity ring \<and> readPosition ring' = readPosition ring"
proof (cases "w < capacity ring \<and> needed \<le> RingFree r w (capacity ring)")
  case True
  obtain w1 ring1 where U: "UpdateWriteIndexIfNeed w needed ring = (w1, ring1)" by fastforce
  note S = UpdateWriteIndex_safe [OF U _ i]
  have S1: "ring_mem ring1 i = ring_mem ring i" "capacity ring1 = capacity ring" "readPosition ring1 = readPosition ring"
    "w1 < capacity ring" using S True by auto
  let ?size = "if w1 < r then r - w1 - 1 else capacity ring - w1"
  show ?thesis
  proof (cases "needed \<le> ?size")
    case fits: True
    have "unat w1 + unat needed \<le> unat (capacity ring)"
    proof (cases "w1 < r")
      case True
      then have "1 \<le> r - w1" "w1 \<le> r"
        using unat_sub [of w1 r] by (simp_all add: word_le_nat_alt word_less_nat_alt)
      then have "unat (r - w1 - 1) = unat r - unat w1 - 1" using unat_sub [of 1 "r - w1"] unat_sub [of w1 r] by simp
      then have "unat needed \<le> unat r - unat w1 - 1" using fits True by (simp add: word_le_nat_alt)
      then show ?thesis using True r by (simp add: word_less_nat_alt)
    next
      case False
      have "unat (capacity ring - w1) = unat (capacity ring) - unat w1" using S1(4) by (intro unat_sub) simp
      then show ?thesis using fits False S1(4) by (simp add: word_le_nat_alt word_less_nat_alt)
    qed
    moreover have e: "event_size (event_of event) = unat needed"
      using GetEventRecordSize_Some [OF k] by (simp add: event_size_def event_of_def)
    moreover from calculation have "ev_length event < 2 ^ 32"
      using event_size_bounds(1) [of "event_of event"] cap by (simp add: event_of_def)
    moreover have "w1 < capacity ring1" using S1 by simp
    ultimately obtain mem where W: "WriteEvent w1 event ring1 = (True, ring1\<lparr>ring_mem := mem\<rparr>)" "mem i = ring_mem ring1 i"
      using WriteEvent_memory [of w1 ring1 event] i by (metis order_trans)
    then show ?thesis using T True fits S1
      by (cases "w1 < r") (auto simp: TryWriteOneEvent_def U Let_def)
  next
    case False
    then show ?thesis using T True S1 by (cases "w1 < r") (auto simp: TryWriteOneEvent_def U Let_def)
  qed
next
  case False
  then show ?thesis using T by (auto simp: TryWriteOneEvent_def Let_def split: if_splits)
qed

lemma WriteLoop_safe:
  "WriteLoop events n r w ring = (n', ring') \<Longrightarrow> unat (capacity ring) \<le> 8128 \<Longrightarrow> r < capacity ring \<Longrightarrow>
   unat (capacity ring) \<le> i \<Longrightarrow> ring_mem ring' i = ring_mem ring i"
proof (induction events arbitrary: n r w ring)
  case (Cons event events)
  show ?case
  proof (cases "ValidateOneEvent event ring")
    case True
    then obtain needed where k: "GetEventRecordSize (ev_length event) = Some needed"
      by (auto simp: ValidateOneEvent_def split: if_splits option.splits)
    obtain ret w1 ring1 where T: "TryWriteOneEvent event needed r w ring = (ret, w1, ring1)" using prod_cases3 by blast
    note S = TryWriteOneEvent_safe [OF T k Cons.prems(2,3,4)]
    show ?thesis
    proof (cases "ret = OK \<and> readPosition ring1 < capacity ring1")
      case ok: True
      then have "WriteLoop events (n + 1) (readPosition ring1) w1 ring1 = (n', ring')"
        using Cons.prems(1) True by (simp add: k T IsValidOffset_def)
      from Cons.IH [OF this] S ok Cons.prems show ?thesis by simp
    next
      case False
      then show ?thesis using Cons.prems(1) True S by (auto simp: k T IsValidOffset_def Let_def split: if_splits)
    qed
  qed (use Cons.prems in simp)
qed simp

lemma TryWriteEvents_safe:
  assumes "unat (capacity ring) \<le> 8128" "unat (capacity ring) \<le> i"
  shows "ring_mem (snd (snd (TryWriteEvents events eventCount notify ring))) i = ring_mem ring i"
proof -
  obtain n ring1 where L: "WriteLoop (take eventCount (case events of None \<Rightarrow> [] | Some es \<Rightarrow> es)) 0
      (readPosition ring) (writePosition ring) ring = (n, ring1)" by fastforce
  show ?thesis
  proof (cases "readPosition ring < capacity ring")
    case True
    then have "ring_mem ring1 i = ring_mem ring i" using WriteLoop_safe [OF L assms(1) _ assms(2)] by simp
    then show ?thesis by (auto simp: TryWriteEvents_def Let_def L)
  next
    case False
    then show ?thesis by (simp add: TryWriteEvents_def Let_def IsValidOffset_def)
  qed
qed

section \<open>How many events fit\<close>

lemma segment_length: "segment m a b es \<Longrightarrow> a + 24 * length es \<le> b"
proof (induction es arbitrary: a)
  case (Cons e es)
  then show ?case using event_size_bounds(1) [of e] by fastforce
qed simp

lemma ring_queue_length: "ring_queue ring es \<Longrightarrow> 24 * length es \<le> unat (capacity ring)"
proof (cases "readPosition ring \<le> writePosition ring")
  case False
  assume q: "ring_queue ring es"
  have wr: "writePosition ring < readPosition ring" using False by simp
  obtain p es1 es2 where "es = es1 @ es2" "segment (ring_mem ring) (unat (readPosition ring)) p es1"
    "segment (ring_mem ring) 0 (unat (writePosition ring)) es2" "p \<le> unat (capacity ring)"
    using wrapped_cases [OF q wr] by metis
  then show ?thesis using wr segment_length [of "ring_mem ring" _ _ es1] segment_length [of "ring_mem ring" _ _ es2]
    by (fastforce simp: word_less_nat_alt)
qed (auto simp: ring_queue_def Let_def word_le_nat_alt dest: segment_length)

section \<open>A reader that never gets on\<close>

lemma PeekLoop_unpublished:
  assumes "UpdateReadIndexIfNeed (readPosition ring) (writePosition ring) ring = (OK, a)"
    "load_sequence (ring_mem ring) (unat a) = 0"
  shows "PeekLoop n out ring = (WOULD_BLOCK, out, ring)"
  using assms by (induction n) (simp_all add: ReadHeaderSafely_def)

lemma UpdateReadIndex_direct:
  assumes "r < capacity ring" "w < capacity ring" "r \<noteq> w" "unat r + 24 \<le> unat (capacity ring)"
  shows "UpdateReadIndexIfNeed r w ring = (OK, r)"
proof -
  have "unat (capacity ring - r) = unat (capacity ring) - unat r" using assms(1) by (intro unat_sub) simp
  then show ?thesis using assms by (auto simp: UpdateReadIndexIfNeed_def IsValidOffset_def SIZEOF_HEADER_def Let_def)
qed

lemma TryWriteOneEvent_direct:
  assumes "TryWriteOneEvent event needed r w ring = (OK, w', ring')" "needed \<le> capacity ring - w"
    "ev_length event < 2 ^ 32"
  shows "w < capacity ring \<and> (\<exists>mem. ring' = ring\<lparr>ring_mem := mem, writePosition := w'\<rparr>
     \<and> load_sequence mem (unat w) = even_sequence (load_sequence (ring_mem ring) (unat w)) + 2
     \<and> (\<forall>i. i < unat w \<longrightarrow> mem i = ring_mem ring i))
     \<and> w' = (if w + needed = capacity ring then 0 else w + needed)"
proof -
  have w: "w < capacity ring" using assms(1) by (auto simp: TryWriteOneEvent_def split: if_splits)
  obtain mem where W: "WriteEvent w event ring = (True, ring\<lparr>ring_mem := mem\<rparr>)"
    "load_sequence mem (unat w) = even_sequence (load_sequence (ring_mem ring) (unat w)) + 2"
    "\<forall>i. i < unat w \<or> unat w + event_size (event_of event) \<le> i \<longrightarrow> mem i = ring_mem ring i"
    using WriteEvent_memory [OF w assms(3)] by blast
  have U: "UpdateWriteIndexIfNeed w needed ring = (w, ring)"
    using assms(2) by (simp add: UpdateWriteIndexIfNeed_def)
  show ?thesis using assms(1) w W by (auto simp: TryWriteOneEvent_def U Let_def split: if_splits)
qed

text \<open>A stale word in the sequence field of a slot that makes the next even sequence number 0.\<close>

definition stale_sequence :: "u32 \<Rightarrow> bool" where
  "stale_sequence s \<longleftrightarrow> s = 0xFFFFFFFD \<or> s = 0xFFFFFFFE"

lemma stale_sequence_wraps: "stale_sequence s \<Longrightarrow> even_sequence s + 2 = 0"
  by (auto simp: stale_sequence_def even_sequence_def)

section \<open>Concrete rings\<close>

definition demo_ring :: MidiSharedRing where
  "demo_ring = \<lparr>capacity = 1024, readPosition = 0, writePosition = 0, futexObj = 0, flushFlag = 0,
                ring_mem = (\<lambda>_. 0), notifyFd = Some 0\<rparr>"

definition demo_event :: MidiEventInner where
  "demo_event = \<lparr>timestamp = 7, ev_length = 1, ev_data = Some (ptr_to [0x20903C40] (\<lambda>_. 0))\<rparr>"

lemma demo_ring_queue: "ring_queue demo_ring []"
  by (simp add: ring_queue_def demo_ring_def)

lemma demo_simps:
  "capacity demo_ring = 1024" "readPosition demo_ring = 0" "writePosition demo_ring = 0" "ring_mem demo_ring = (\<lambda>_. 0)"
  "ev_length demo_event = Suc 0" "ev_data demo_event \<noteq> None"
  by (simp_all add: demo_ring_def demo_event_def)

lemma demo_size: "GetEventRecordSize (Suc 0) = Some 32"
  by (simp add: GetEventRecordSize_def AlignUpToHeader_def ring_defs)

lemma demo_write:
  "\<exists>s'. ring_put demo_event demo_ring = (True, s') \<and> readPosition s' = 0 \<and> load_sequence (ring_mem s') 0 = 2"
proof -
  obtain mem where W: "WriteEvent 0 demo_event demo_ring = (True, demo_ring\<lparr>ring_mem := mem\<rparr>)"
    "load_sequence mem 0 = 2"
    using WriteEvent_memory [of 0 demo_ring demo_event]
    by (auto simp: demo_simps load_sequence_def even_sequence_def)
  have T: "TryWriteOneEvent demo_event 32 0 0 demo_ring = (OK, 32, demo_ring\<lparr>ring_mem := mem, writePosition := 32\<rparr>)"
    by (simp add: TryWriteOneEvent_def UpdateWriteIndexIfNeed_def RingFree_def RingUsed_def demo_simps W)
  have "WriteLoop [demo_event] 0 0 0 demo_ring = (1, demo_ring\<lparr>ring_mem := mem, writePosition := 32\<rparr>)"
    by (simp add: ValidateOneEvent_def demo_simps demo_size T IsValidOffset_def)
  then show ?thesis using W(2)
    by (simp add: ring_put_def TryWriteEvent_def TryWriteEvents_def ValidateWriteArgs_def demo_simps
        IsValidOffset_def SIZEOF_HEADER_def del: WriteLoop.simps)
qed

lemma demo_published: "published (snd (ring_put demo_event demo_ring))"
  using demo_write by (auto simp: published_def)

section \<open>Properties\<close>

text \<open>
  C8: any interleaving of writes and reads on a ring is a FIFO queue: a write appends its event or is refused and changes
  nothing; a read takes the oldest event, and comes back with nothing only when the ring is empty, polls of an empty
  ring included. A write is accepted exactly when its record fits (\<open>ring_room\<close>), in
  whatever state the run has led to. Nothing is lost, duplicated or reordered, as long as the record
  at the front of a non-empty ring has been published when it is read (C10 is the exception).
\<close>

theorem ring_fifo:
  assumes "ring_queue s es" "queue_lives ring_put ring_get event_of published acts es s"
    "queue_trace ring_put ring_get event_of acts s = (obs, s')"
  shows "(\<exists>rest. fifo obs es = Some rest \<and> ring_queue s' rest) \<and> (\<forall>event. fst (ring_put event s') \<longleftrightarrow> ring_room event s')"
  using ring.trace_fifo [OF assms] ring.trace_room [OF assms] by blast

theorem ring_fifo_witness:
  "case queue_trace ring_put ring_get event_of [Get, Put demo_event, Get, Get] demo_ring of (obs, s') \<Rightarrow>
     (\<exists>rest. fifo obs [] = Some rest \<and> ring_queue s' rest) \<and> (\<forall>event. fst (ring_put event s') \<longleftrightarrow> ring_room event s')"
proof -
  obtain obs s' where t: "queue_trace ring_put ring_get event_of [Get, Put demo_event, Get, Get] demo_ring = (obs, s')"
    using prod.exhaust by blast
  have "ring_get demo_ring = (None, demo_ring)"
    by (simp add: ring_get_def PeekNext_def demo_simps numeral_eq_Suc UpdateReadIndexIfNeed_def IsValidOffset_def SIZEOF_HEADER_def)
  moreover obtain s1 where "ring_put demo_event demo_ring = (True, s1)" "published s1"
    using demo_write demo_published by auto
  ultimately have "queue_lives ring_put ring_get event_of published [Get, Put demo_event, Get, Get] [] demo_ring" by simp
  from ring_fifo [OF demo_ring_queue this t] show ?thesis unfolding t prod.case .
qed

text \<open>
  A batch write stores a prefix of the batch, behind what the ring holds; it reports success
  exactly when that is the whole batch, and otherwise that it would block.
\<close>

lemma write_batch_prefix:
  assumes "ring_queue s es" "eventCount \<le> length events"
  shows "case TryWriteEvents (Some events) eventCount notify s of (status, n, s') \<Rightarrow>
     n \<le> eventCount \<and> ring_queue s' (es @ map event_of (take n events))
     \<and> status = (if n = eventCount then OK else WOULD_BLOCK)"
  using assms by (rule TryWriteEvents_queue)

lemma peek_bounds:
  assumes "unat (capacity s) \<le> 8128" "PeekNext s = (OK, ev, s')"
  shows "unat (beginOffset ev) + 24 \<le> unat (capacity s) \<and> endOffset ev < capacity s
     \<and> (\<exists>p. payloadPtr ev = Some p \<and> 24 \<le> p \<and> p + 4 * unat (h_length (localHeader ev)) \<le> unat (capacity s))"
proof -
  have "PeekLoop 3 empty_PeekedEvent s = (OK, ev, s')"
    using assms(2) by (simp add: PeekNext_def split: if_splits)
  from PeekLoop_safe [OF this assms(1)] show ?thesis by blast
qed

text \<open>
  C9: whatever the peer has stored in the shared memory, positions included, the accesses stay inside the data area: for a successful peek
  the header and the payload it reports lie within the capacity, and so does the position that a commit stores; and a write
  changes no memory outside.
\<close>

theorem ring_bounds:
  assumes "unat (capacity s) \<le> 8128"
  shows "(PeekNext s = (OK, ev, s') \<longrightarrow>
       unat (beginOffset ev) + 24 \<le> unat (capacity s) \<and> endOffset ev < capacity s
       \<and> (\<exists>p. payloadPtr ev = Some p \<and> 24 \<le> p \<and> p + 4 * unat (h_length (localHeader ev)) \<le> unat (capacity s)))
     \<and> (\<forall>i\<ge>unat (capacity s). ring_mem (snd (snd (TryWriteEvents events eventCount notify s))) i = ring_mem s i)"
  using peek_bounds [OF assms] TryWriteEvents_safe [OF assms] by blast

theorem ring_bounds_witness:
  "(\<exists>ev s'. PeekNext (snd (ring_put demo_event demo_ring)) = (OK, ev, s')
       \<and> unat (beginOffset ev) + 24 \<le> unat (capacity (snd (ring_put demo_event demo_ring))))
   \<and> ring_mem (snd (snd (TryWriteEvents (Some [demo_event]) 1 True (demo_ring\<lparr>writePosition := 1020\<rparr>)))) 1024
     = ring_mem (demo_ring\<lparr>writePosition := 1020\<rparr>) 1024"
proof
  obtain s1 where s1: "ring_put demo_event demo_ring = (True, s1)" using demo_write by blast
  have q: "ring_queue s1 [event_of demo_event]" using ring.put_accepted [OF demo_ring_queue s1] by simp
  then have c: "unat (capacity s1) \<le> 8128" by (simp add: ring_queue_def Let_def)
  obtain ev s' where "PeekNext s1 = (OK, ev, s')" using PeekNext_pop [OF q] demo_published s1 by auto
  with ring_bounds [OF c] show "\<exists>ev s'. PeekNext (snd (ring_put demo_event demo_ring)) = (OK, ev, s')
       \<and> unat (beginOffset ev) + 24 \<le> unat (capacity (snd (ring_put demo_event demo_ring)))" by (simp add: s1)
  show "ring_mem (snd (snd (TryWriteEvents (Some [demo_event]) 1 True (demo_ring\<lparr>writePosition := 1020\<rparr>)))) 1024
     = ring_mem (demo_ring\<lparr>writePosition := 1020\<rparr>) 1024"
    using ring_bounds [of "demo_ring\<lparr>writePosition := 1020\<rparr>"] by (simp add: demo_ring_def del: TryWriteEvents_def)
qed

text \<open>
  A drain without a limit on a ring returns exactly the events that it holds, in order, and leaves it
  empty. A ring holds at most 338 events, so fuel for 400 rounds is enough.
\<close>

lemma drain_all:
  assumes "ring_queue s es" "all_published (length es) s"
  shows "\<exists>s'. DrainToBatch 400 0 s = Some (es, s') \<and> ring_queue s' []"
proof -
  have "unat (capacity s) \<le> 8128" using assms(1) by (simp add: ring_queue_def Let_def)
  then have "length es < 400" using ring_queue_length [OF assms(1)] by simp
  from DrainLoop_all [OF assms this, of 0 "[]"] show ?thesis by (simp add: DrainToBatch_def)
qed

text \<open>
  C10: an event that is written into a slot whose stale memory happens to hold 0xFFFFFFFD or 0xFFFFFFFE where the
  sequence number lies is accepted, but its sequence number wraps to 0, the mark of a slot that was never
  published: the reader, which stands on this slot, is told to wait, with the ring unchanged, so
  it never gets past it.
\<close>

theorem stale_sequence_blocks_reader:
  assumes "TryWriteOneEvent event needed (readPosition s) (writePosition s) s = (OK, w', s')"
    "readPosition s = writePosition s" "needed \<le> capacity s - writePosition s" "ev_length event < 2 ^ 32"
    "stale_sequence (load_sequence (ring_mem s) (unat (writePosition s)))"
    "unat (writePosition s) + 24 < unat (capacity s)" "w' \<noteq> writePosition s" "w' < capacity s"
  shows "PeekNext s' = (WOULD_BLOCK, empty_PeekedEvent, s') \<and> \<not> IsEmpty s'"
proof -
  obtain mem where s': "s' = s\<lparr>ring_mem := mem, writePosition := w'\<rparr>"
    and z: "load_sequence mem (unat (writePosition s)) = 0" and c: "writePosition s < capacity s"
    using TryWriteOneEvent_direct [OF assms(1,3,4)] stale_sequence_wraps [OF assms(5)] by auto
  have U: "UpdateReadIndexIfNeed (readPosition s') (writePosition s') s' = (OK, writePosition s)"
    using UpdateReadIndex_direct [of "writePosition s" s' w'] c assms(2,6,7,8) by (simp add: s')
  have "PeekLoop 3 empty_PeekedEvent s' = (WOULD_BLOCK, empty_PeekedEvent, s')"
    by (rule PeekLoop_unpublished [OF U]) (simp add: s' z)
  then show ?thesis using assms(2,6,7) by (simp add: PeekNext_def IsEmpty_def SIZEOF_HEADER_def s')
qed

definition stale_ring :: MidiSharedRing where
  "stale_ring = demo_ring\<lparr>ring_mem := (\<lambda>_. 0xFFFFFFFE)\<rparr>"

theorem stale_sequence_blocks_reader_witness:
  "\<exists>s'. TryWriteOneEvent demo_event 32 0 0 stale_ring = (OK, 32, s')
     \<and> PeekNext s' = (WOULD_BLOCK, empty_PeekedEvent, s') \<and> \<not> IsEmpty s'"
proof -
  have sel: "capacity stale_ring = 1024" "readPosition stale_ring = 0" "writePosition stale_ring = 0"
    "load_sequence (ring_mem stale_ring) 0 = 0xFFFFFFFE"
    by (simp_all add: stale_ring_def demo_simps load_sequence_def)
  obtain mem where "WriteEvent 0 demo_event stale_ring = (True, stale_ring\<lparr>ring_mem := mem\<rparr>)"
    using WriteEvent_memory [of 0 stale_ring demo_event] by (auto simp: sel demo_simps)
  then have T: "TryWriteOneEvent demo_event 32 0 0 stale_ring = (OK, 32, stale_ring\<lparr>ring_mem := mem, writePosition := 32\<rparr>)"
    by (simp add: TryWriteOneEvent_def UpdateWriteIndexIfNeed_def RingFree_def RingUsed_def sel)
  have "PeekNext (stale_ring\<lparr>ring_mem := mem, writePosition := 32\<rparr>)
      = (WOULD_BLOCK, empty_PeekedEvent, stale_ring\<lparr>ring_mem := mem, writePosition := 32\<rparr>)
    \<and> \<not> IsEmpty (stale_ring\<lparr>ring_mem := mem, writePosition := 32\<rparr>)"
    by (rule stale_sequence_blocks_reader [where s = stale_ring and event = demo_event and needed = 32 and w' = 32]) (simp_all add: sel T demo_simps stale_sequence_def)
  then show ?thesis using T by blast
qed

text \<open>
  A flush between the moment a writer loads the positions and the moment it stores the event, which nothing in
  the code excludes, since writers never look at the flag, leaves a ring that is not empty but whose reader
  is told to wait, with the ring unchanged: the read position is 0, and the memory there has been cleared.
\<close>

lemma flush_during_write_blocks_reader:
  assumes "flushFlag s = 0"
    "TryWriteOneEvent event needed (readPosition s) (writePosition s) (Flush s) = (OK, w', s')"
    "needed \<le> capacity s - writePosition s" "ev_length event < 2 ^ 32"
    "24 \<le> unat (writePosition s)" "w' \<noteq> 0" "w' < capacity s"
  shows "PeekNext s' = (WOULD_BLOCK, empty_PeekedEvent, s') \<and> \<not> IsEmpty s'"
proof -
  have F: "capacity (Flush s) = capacity s" "readPosition (Flush s) = 0" "flushFlag (Flush s) = 0"
    using assms(1) by (simp_all add: Flush_def)
  obtain mem where s': "s' = (Flush s)\<lparr>ring_mem := mem, writePosition := w'\<rparr>"
    and low: "\<forall>i. i < unat (writePosition s) \<longrightarrow> mem i = ring_mem (Flush s) i" and c: "writePosition s < capacity s"
    using TryWriteOneEvent_direct [OF assms(2)] assms(3,4) F by auto
  have cap: "24 < unat (capacity s)" using c assms(5) by (simp add: word_less_nat_alt)
  then have z: "load_sequence mem 0 = 0"
    using low assms(1,5) by (simp add: load_sequence_def Flush_def)
  have U: "UpdateReadIndexIfNeed (readPosition s') (writePosition s') s' = (OK, 0)"
    using UpdateReadIndex_direct [of 0 s' w'] cap assms(6,7) by (simp add: s' F word_less_nat_alt)
  have "PeekLoop 3 empty_PeekedEvent s' = (WOULD_BLOCK, empty_PeekedEvent, s')"
    by (rule PeekLoop_unpublished [OF U]) (simp add: s' z)
  then show ?thesis using cap assms(6) by (simp add: PeekNext_def IsEmpty_def SIZEOF_HEADER_def s' F)
qed

text \<open>
  A ring that the other side rebuilds from its parcel, over the same memory, is the ring as it was created: the same
  data and capacity, and both positions 0, also when something has been written in between.
\<close>

lemma marshalling_rebuilds:
  assumes "0 < capacity ring" "64 + unat (capacity ring) < 8192" "2 < dataFd" "2 < eventFd"
    "map_memory dataFd (64 + unat (capacity ring)) = Some (mapping_of ring)"
  shows "Unmarshalling map_memory (Marshalling dataFd eventFd ring)
     = Some (ring\<lparr>readPosition := 0, writePosition := 0, flushFlag := 0, notifyFd := map_option (\<lambda>_. 0) (notifyFd ring)\<rparr>)"
proof -
  have t: "unat (totalMemorySize (capacity ring)) = 64 + unat (capacity ring)"
    using assms(2) by (simp add: totalMemorySize_def SIZEOF_CONTROL_def unat_word_ariths)
  then have T: "0 < totalMemorySize (capacity ring)" "totalMemorySize (capacity ring) < MAX_MMAP_BUFFER_SIZE"
    "capacity ring \<le> MAX_MMAP_BUFFER_SIZE - SIZEOF_CONTROL"
    using assms(2) by (simp_all add: word_less_nat_alt word_le_nat_alt MAX_MMAP_BUFFER_SIZE_def SIZEOF_CONTROL_def)
  have "snd (Init map_memory dataFd (capacity ring) n)
      = Some (ring\<lparr>readPosition := 0, writePosition := 0, flushFlag := 0, notifyFd := n\<rparr>)" for n
    using T assms(3,5) t by (simp add: Init_def MidiSharedMemory_CreateFromRemote_def MidiSharedMemory_Init_def MINFD_def
        OH_INVALID_FD_def mapping_of_def)
  then show ?thesis using T(3) assms(1,3,4)
    by (cases "notifyFd ring") (simp_all add: Unmarshalling_def Marshalling_def MINFD_def)
qed

text \<open>
  A ring that is rebuilt from an untrusted parcel has exactly the declared capacity, the size of its mapping has not
  wrapped around 32 bits and is below the limit, both positions are 0, and unless the capacity is too
  small for a header it is an empty queue.
\<close>

lemma unmarshalling_safe:
  assumes "Unmarshalling map_memory parcel = Some s"
  shows "capacity s = p_ringSize parcel \<and> 0 < capacity s
     \<and> unat (totalMemorySize (capacity s)) = 64 + unat (capacity s) \<and> 64 + unat (capacity s) < 8192
     \<and> IsEmpty s \<and> (24 < unat (capacity s) \<longrightarrow> ring_queue s [])"
proof -
  let ?c = "p_ringSize parcel"
  have c: "0 < ?c" "?c \<le> MAX_MMAP_BUFFER_SIZE - SIZEOF_CONTROL" "MINFD < p_dataFd parcel"
    and i: "snd (Init map_memory (p_dataFd parcel) ?c (if p_hasNotifyFd parcel then Some 0 else None)) = Some s"
    using assms by (simp_all add: Unmarshalling_def Let_def split: if_splits)
  have u: "unat ?c \<le> 8128" using c(2) by (simp add: MAX_MMAP_BUFFER_SIZE_def SIZEOF_CONTROL_def word_le_nat_alt)
  then have t: "unat (totalMemorySize ?c) = 64 + unat ?c"
    by (simp add: totalMemorySize_def SIZEOF_CONTROL_def unat_word_ariths)
  have "totalMemorySize ?c < MAX_MMAP_BUFFER_SIZE" and s: "capacity s = ?c" "readPosition s = 0" "writePosition s = 0"
    using i c(3) by (auto simp: Init_def MidiSharedMemory_CreateFromRemote_def MidiSharedMemory_Init_def
        MINFD_def OH_INVALID_FD_def split: if_splits option.splits)
  then have "unat (totalMemorySize ?c) < 8192" by (simp add: word_less_nat_alt MAX_MMAP_BUFFER_SIZE_def)
  then show ?thesis using c(1) s t u
    by (simp add: IsEmpty_def ring_queue_def Let_def)
qed

end
