(* ===== verification/Client_Ports.thy ===== *)
theory Client_Ports
  imports Midi_Utils Ring_Queue
begin

text \<open>
  The ports of \<^verbatim>\<open>frameworks/native/midi/src/midi_client.cpp\<close> on the side of the application: an output port
  writes events into the ring that it shares with the service, an input port has a thread that waits for
  events in its ring and hands them to the callback of the application.

  What other threads and the service do to a ring in the meantime is part of the environment of an operation. The
  receiver thread is the operation \<open>ReceiverThreadLoop\<close>; the field \<open>ip_thread\<close> says whether it can be joined.
\<close>

section \<open>Protocols\<close>

datatype ProtocolDirection = MIDI_NONE | MIDI_1_0_TO_MIDI_2_0 | MIDI_2_0_TO_MIDI_1_0

text \<open>The application may pass any number as a protocol.\<close>

definition OH_MIDI_PROTOCOL_1_0 :: int where "OH_MIDI_PROTOCOL_1_0 = 1"
definition OH_MIDI_PROTOCOL_2_0 :: int where "OH_MIDI_PROTOCOL_2_0 = 2"

lemmas protocol_defs = OH_MIDI_PROTOCOL_1_0_def OH_MIDI_PROTOCOL_2_0_def

definition GetCoverterDirection :: "int \<Rightarrow> int \<Rightarrow> ProtocolDirection" where
  "GetCoverterDirection targetProtocol sourceProtocol =
     (if targetProtocol = sourceProtocol then MIDI_NONE
      else if targetProtocol = OH_MIDI_PROTOCOL_1_0 then MIDI_2_0_TO_MIDI_1_0 else MIDI_1_0_TO_MIDI_2_0)"

definition GetStatusCode :: "MidiStatusCode \<Rightarrow> int" where
  "GetStatusCode code =
     (case code of OK \<Rightarrow> OH_MIDI_STATUS_OK | WOULD_BLOCK \<Rightarrow> OH_MIDI_STATUS_WOULD_BLOCK | _ \<Rightarrow> OH_MIDI_STATUS_SYSTEM_ERROR)"

section \<open>Output ports\<close>

definition MAX_EVENTS_NUMS :: u32 where "MAX_EVENTS_NUMS = 1000"
definition PORT_GROUP_RANGE :: u32 where "PORT_GROUP_RANGE = 16"
definition MAX_SYSEX_BYTE_SIZE :: u32 where "MAX_SYSEX_BYTE_SIZE = 65535"
definition SYSEX7_WORD_COUNT :: nat where "SYSEX7_WORD_COUNT = 2"
definition WAIT_SLICE_NS :: int where "WAIT_SLICE_NS = 2000000"
definition MAX_TIMEOUT_NS :: int where "MAX_TIMEOUT_NS = 2000 * 1000000"

record MidiOutputPort =
  op_ring :: "MidiSharedRing option"
  op_direction :: ProtocolDirection

definition new_MidiOutputPort :: "ProtocolDirection \<Rightarrow> MidiOutputPort" where
  "new_MidiOutputPort dir = \<lparr>op_ring = None, op_direction = dir\<rparr>"

text \<open>
  One round of the loop of \<open>Send\<close>. A converted event keeps its length and points to the new words; \<open>heap i\<close> is the
  memory behind the block that holds those of the event with index \<open>i\<close>.
\<close>

definition ConvertForSend :: "(nat \<Rightarrow> nat \<Rightarrow> u32) \<Rightarrow> ProtocolDirection \<Rightarrow> nat \<Rightarrow> MidiEventInner \<Rightarrow> MidiEventInner" where
  "ConvertForSend heap dir i event =
     (if dir = MIDI_2_0_TO_MIDI_1_0 then
        (case ConvertMidi2ToMidi1 (map_option (\<lambda>p. read_words p (ev_length event)) (ev_data event)) [] of
           (ok, out) \<Rightarrow> if \<not> ok then event else event\<lparr>ev_data := Some (ptr_to out (heap i))\<rparr>)
      else event)"

text \<open>
  \<open>Send\<close> returns the status and what is stored through the pointer \<open>eventsWritten\<close>, if anything is. The outer \<open>None\<close> is the
  use of a ring that does not exist, which the code does not check.
\<close>

definition Send ::
  "(nat \<Rightarrow> nat \<Rightarrow> u32) \<Rightarrow> MidiEventInner list option \<Rightarrow> u32 \<Rightarrow> bool \<Rightarrow> MidiOutputPort
     \<Rightarrow> (int \<times> nat option \<times> MidiOutputPort) option" where
  "Send heap events eventCount eventsWritten port =
     (case events of
        None \<Rightarrow> Some (OH_MIDI_STATUS_GENERIC_INVALID_ARGUMENT, None, port)
      | Some es \<Rightarrow>
          if \<not> eventsWritten then Some (OH_MIDI_STATUS_GENERIC_INVALID_ARGUMENT, None, port)
          else if \<not> (eventCount > 0 \<and> eventCount \<le> MAX_EVENTS_NUMS)
          then Some (OH_MIDI_STATUS_GENERIC_INVALID_ARGUMENT, None, port)
          else
            let innerEvents = map (\<lambda>i. ConvertForSend heap (op_direction port) i (es ! i)) [0..<unat eventCount]
            in (case op_ring port of
                  None \<Rightarrow> None
                | Some ring \<Rightarrow>
                    (case TryWriteEvents (Some innerEvents) (unat eventCount) True ring of (ret, written, ring) \<Rightarrow>
                       Some (GetStatusCode ret, Some written, port\<lparr>op_ring := Some ring\<rparr>))))"

text \<open>A pointer to bytes, as a pointer to words: what it leads to, by index.\<close>

type_synonym byte_ptr = "(nat \<Rightarrow> u8) option"

definition PrepareSysExPackets :: "u8 \<Rightarrow> (nat \<Rightarrow> u8) \<Rightarrow> u32 \<Rightarrow> u32 \<Rightarrow> MidiEventInner list" where
  "PrepareSysExPackets grp bytes byteSize totalPkts =
     map (\<lambda>i. let offset = of_nat i * of_nat MAX_PACKET_BYTES;
                  remain = byteSize - offset;
                  nbytes = min (of_nat MAX_PACKET_BYTES) remain;
                  status = GetSysexStatus (of_nat i) totalPkts
              in (case PackSysEx7Ump64 grp status (map (\<lambda>k. bytes (unat offset + k)) [0..<unat nbytes]) of (w0, w1) \<Rightarrow>
                    \<lparr>timestamp = 0, ev_length = SYSEX7_WORD_COUNT, ev_data = Some (ptr_to [w0, w1] (\<lambda>_. 0))\<rparr>))
       [0..<unat totalPkts]"

text \<open>
  The environment of \<open>SendSysExPackets\<close> by round: the steady clock at the start of the round, what the service
  has done to the ring before the write, and the futex while the round waits for space.
\<close>

record SendEnv =
  clock_at :: "nat \<Rightarrow> int"
  peer_at :: "nat \<Rightarrow> MidiSharedRing \<Rightarrow> MidiSharedRing"
  futex_at :: "nat \<Rightarrow> MidiSharedRing FutexEnv"

definition SYSEX7_RECORD :: u32 where
  "SYSEX7_RECORD = of_nat (SIZEOF_HEADER + SYSEX7_WORD_COUNT * SIZEOF_WORD)"

text \<open>The result also has the number of packets that were written; \<open>None\<close> is the case that the fuel is used up.\<close>

primrec SendLoop ::
  "nat \<Rightarrow> SendEnv \<Rightarrow> nat \<Rightarrow> int \<Rightarrow> MidiEventInner list \<Rightarrow> nat \<Rightarrow> nat \<Rightarrow> MidiSharedRing \<Rightarrow> (int \<times> nat \<times> MidiSharedRing) option" where
  "SendLoop 0 env round start innerEvents pktCount writtenInBatch ring = None"
| "SendLoop (Suc fuel) env round start innerEvents pktCount writtenInBatch ring =
     (if \<not> writtenInBatch < pktCount then Some (OH_MIDI_STATUS_OK, writtenInBatch, ring)
      else if clock_at env round - start > MAX_TIMEOUT_NS then Some (OH_MIDI_STATUS_TIMEOUT, writtenInBatch, ring)
      else
        (case TryWriteEvents (Some (drop writtenInBatch innerEvents)) (pktCount - writtenInBatch) True (peer_at env round ring) of
           (ret, writtenThis, ring) \<Rightarrow>
             let writtenInBatch = writtenInBatch + writtenThis
             in if writtenInBatch = pktCount then Some (OH_MIDI_STATUS_OK, writtenInBatch, ring)
                else if ret \<noteq> WOULD_BLOCK then Some (GetStatusCode ret, writtenInBatch, ring)
                else if writtenThis = 0 then
                  (case WaitForSpace (futex_at env round) WAIT_SLICE_NS SYSEX7_RECORD ring of (wret, ring) \<Rightarrow>
                     if wret \<noteq> FUTEX_TIMEOUT \<and> wret \<noteq> FUTEX_SUCCESS
                     then Some (OH_MIDI_STATUS_SYSTEM_ERROR, writtenInBatch, ring)
                     else SendLoop fuel env (round + 1) start innerEvents pktCount writtenInBatch ring)
                else SendLoop fuel env (round + 1) start innerEvents pktCount writtenInBatch ring))"

definition SendSysExPackets ::
  "nat \<Rightarrow> SendEnv \<Rightarrow> MidiEventInner list \<Rightarrow> u32 \<Rightarrow> int \<Rightarrow> MidiSharedRing \<Rightarrow> (int \<times> nat \<times> MidiSharedRing) option" where
  "SendSysExPackets fuel env innerEvents pktCount start ring =
     SendLoop fuel env 0 start innerEvents (unat pktCount) 0 ring"

definition SendSysEx ::
  "nat \<Rightarrow> SendEnv \<Rightarrow> int \<Rightarrow> u32 \<Rightarrow> byte_ptr \<Rightarrow> u32 \<Rightarrow> MidiOutputPort \<Rightarrow> (int \<times> nat \<times> MidiOutputPort) option" where
  "SendSysEx fuel env start portIndex bytes byteSize port =
     (case bytes of
        None \<Rightarrow> Some (OH_MIDI_STATUS_GENERIC_INVALID_ARGUMENT, 0, port)
      | Some b \<Rightarrow>
          if \<not> byteSize > 0 then Some (OH_MIDI_STATUS_GENERIC_INVALID_ARGUMENT, 0, port)
          else if \<not> byteSize \<le> MAX_SYSEX_BYTE_SIZE then Some (OH_MIDI_STATUS_GENERIC_INVALID_ARGUMENT, 0, port)
          else
            (case op_ring port of
               None \<Rightarrow> Some (OH_MIDI_STATUS_GENERIC_INVALID_ARGUMENT, 0, port)
             | Some ring \<Rightarrow>
                 if \<not> portIndex < PORT_GROUP_RANGE then Some (OH_MIDI_STATUS_INVALID_PORT, 0, port)
                 else
                   let grp = ucast (portIndex AND 0x0F);
                       totalPkts = (byteSize + (of_nat MAX_PACKET_BYTES - 1)) div of_nat MAX_PACKET_BYTES
                   in if totalPkts = 0 then Some (OH_MIDI_STATUS_OK, 0, port)
                      else
                        map_option (\<lambda>(ret, n, ring). (ret, n, port\<lparr>op_ring := Some ring\<rparr>))
                          (SendSysExPackets fuel env (PrepareSysExPackets grp b byteSize totalPkts) totalPkts start ring)))"

section \<open>Input ports\<close>

record MidiInputPort =
  ip_running :: bool
  ip_callback :: bool
  ip_ring :: "MidiSharedRing option"
  ip_thread :: bool
  ip_direction :: ProtocolDirection

definition new_MidiInputPort :: "bool \<Rightarrow> ProtocolDirection \<Rightarrow> MidiInputPort" where
  "new_MidiInputPort callback dir =
     \<lparr>ip_running = False, ip_callback = callback, ip_ring = None, ip_thread = False, ip_direction = dir\<rparr>"

definition StartReceiverThread :: "MidiInputPort \<Rightarrow> bool \<times> MidiInputPort" where
  "StartReceiverThread port =
     (if ip_running port then (False, port)
      else if \<not> (ip_ring port \<noteq> None \<and> ip_callback port) then (False, port)
      else (True, port\<lparr>ip_running := True, ip_thread := True\<rparr>))"

text \<open>
  \<open>self\<close> says that the calling thread is the receiver itself, inside the application's callback: the join of the thread
  with itself raises, nothing catches that, and the process ends, which is \<open>None\<close>. Called from another thread, the
  receiver ends before the join returns.
\<close>

definition StopReceiverThread :: "bool \<Rightarrow> MidiInputPort \<Rightarrow> (bool \<times> MidiInputPort) option" where
  "StopReceiverThread self port =
     (if \<not> ip_running port then Some (True, port)
      else
        let port = port\<lparr>ip_running := False, ip_ring := map_option (WakeFutex IS_PRE_EXIT) (ip_ring port)\<rparr>
        in if ip_thread port then (if self then None else Some (True, port\<lparr>ip_thread := False\<rparr>))
           else Some (True, port))"

text \<open>
  The predicate of the waiting thread. \<open>PeekNext\<close> may step over the mark of a wrap-around; the drain that
  follows does the same, so that the predicate leaves the ring as it is.
\<close>

definition ShouldWakeForReadOrExit :: "MidiInputPort \<Rightarrow> bool" where
  "ShouldWakeForReadOrExit port =
     (if \<not> ip_running port then True
      else (case ip_ring port of None \<Rightarrow> True | Some ring \<Rightarrow> fst (PeekNext ring) = OK))"

text \<open>The events for the callback: the packets of an event, converted where that succeeds.\<close>

definition ConvertPacket :: "ProtocolDirection \<Rightarrow> u32 list \<Rightarrow> u32 list" where
  "ConvertPacket dir packet =
     (if dir = MIDI_NONE then packet
      else
        (case (if dir = MIDI_1_0_TO_MIDI_2_0 then ConvertMidi1ToMidi2 (Some packet) []
               else ConvertMidi2ToMidi1 (Some packet) []) of
           (convertRet, out) \<Rightarrow> if \<not> convertRet then packet else out))"

definition ReceivedEvents :: "ProtocolDirection \<Rightarrow> MidiEvent \<Rightarrow> MidiEvent list" where
  "ReceivedEvents dir event =
     map (\<lambda>p. \<lparr>me_timestamp = me_timestamp event, me_words = ConvertPacket dir (packet_words (me_words event) p)\<rparr>)
       (SplitUmpPackets (Some (me_words event)))"

text \<open>The result has the arguments of the calls of the callback: none or one.\<close>

definition DrainRingAndDispatch :: "nat \<Rightarrow> MidiInputPort \<Rightarrow> (MidiEvent list list \<times> MidiInputPort) option" where
  "DrainRingAndDispatch fuel port =
     (case ip_ring port of
        None \<Rightarrow> Some ([], port)
      | Some ring \<Rightarrow>
          if \<not> ip_callback port then Some ([], port)
          else
            (case DrainToBatch fuel 0 ring of
               None \<Rightarrow> None
             | Some (midiEvents, ring) \<Rightarrow>
                 let port = port\<lparr>ip_ring := Some ring\<rparr>
                 in if midiEvents = [] then Some ([], port)
                    else
                      let callbackEvents = concat (map (ReceivedEvents (ip_direction port)) midiEvents)
                      in if callbackEvents = [] then Some ([], port) else Some ([callbackEvents], port)))"

text \<open>
  The loop of the thread; \<open>env n\<close> is the world during the wait of round \<open>n\<close>, in which the other threads change the
  port and the service the ring.
\<close>

primrec ReceiverLoop ::
  "nat \<Rightarrow> nat \<Rightarrow> (nat \<Rightarrow> MidiInputPort FutexEnv) \<Rightarrow> nat \<Rightarrow> MidiInputPort \<Rightarrow> (MidiEvent list list \<times> MidiInputPort) option" where
  "ReceiverLoop 0 drainFuel env round port = None"
| "ReceiverLoop (Suc fuel) drainFuel env round port =
     (if \<not> ip_running port then Some ([], port)
      else
        (case FutexWait (Some (env round)) (-1) (Some ShouldWakeForReadOrExit) port of (_, port) \<Rightarrow>
           if \<not> ip_running port then Some ([], port)
           else
             (case DrainRingAndDispatch drainFuel port of
                None \<Rightarrow> None
              | Some (calls, port) \<Rightarrow>
                  map_option (\<lambda>(rest, port). (calls @ rest, port)) (ReceiverLoop fuel drainFuel env (round + 1) port))))"

definition ReceiverThreadLoop ::
  "nat \<Rightarrow> nat \<Rightarrow> (nat \<Rightarrow> MidiInputPort FutexEnv) \<Rightarrow> MidiInputPort \<Rightarrow> (MidiEvent list list \<times> MidiInputPort) option" where
  "ReceiverThreadLoop fuel drainFuel env port =
     (if ip_ring port = None then Some ([], port\<lparr>ip_running := False\<rparr>)
      else ReceiverLoop fuel drainFuel env 0 port)"

end
