(* ===== verification/Client_Library.thy ===== *)
theory Client_Library
  imports Client_Ports
begin

text \<open>
  The client library: \<^verbatim>\<open>frameworks/native/midi/src/midi_service_client.cpp\<close>, the devices and the client
  of \<^verbatim>\<open>midi_client.cpp\<close>, and the C functions of \<^verbatim>\<open>frameworks/native/ohmidi/OHMidi.cpp\<close>.

  The service is the proxy \<open>IpcMidiInServer\<close>, a record of its calls on a state \<open>'s\<close>. A handle that the application holds is
  the address of a device object, a \<open>nat\<close> here; the address of a new object is chosen by the allocator and an argument. The client owns the
  objects of its devices, so that a handle that is not in its list is dangling, and using it has no defined result:
  the functions on handles return \<open>None\<close> then, as for a null pointer that the code follows. The calls of the application's callbacks are outputs.
\<close>

section \<open>The proxy of the service\<close>

record 's IpcMidiInServer =
  ipc_GetDevices :: "'s \<Rightarrow> int \<times> MidiDeviceInfo list \<times> 's"
  ipc_GetDevicePorts :: "int \<Rightarrow> 's \<Rightarrow> int \<times> MidiPortInfo list"
  ipc_OpenDevice :: "int \<Rightarrow> 's \<Rightarrow> int \<times> MidiDeviceInfo \<times> 's"
  ipc_OpenBleDevice :: "string \<Rightarrow> nat \<Rightarrow> 's \<Rightarrow> int \<times> 's"
  ipc_CloseDevice :: "int \<Rightarrow> 's \<Rightarrow> int \<times> 's"
  ipc_OpenInputPort :: "int \<Rightarrow> u32 \<Rightarrow> 's \<Rightarrow> int \<times> MidiSharedRing option \<times> 's"
  ipc_OpenOutputPort :: "int \<Rightarrow> u32 \<Rightarrow> 's \<Rightarrow> int \<times> MidiSharedRing option \<times> 's"
  ipc_FlushOutputPort :: "int \<Rightarrow> u32 \<Rightarrow> 's \<Rightarrow> int \<times> 's"
  ipc_CloseInputPort :: "int \<Rightarrow> u32 \<Rightarrow> 's \<Rightarrow> int \<times> 's"
  ipc_CloseOutputPort :: "int \<Rightarrow> u32 \<Rightarrow> 's \<Rightarrow> int \<times> 's"
  ipc_DestroyMidiClient :: "'s \<Rightarrow> int \<times> 's"

text \<open>
  What the library relies on and does not check: when the service reports that a port is open, it hands over the ring.
\<close>

locale midi_service =
  fixes ipc :: "'s IpcMidiInServer"
  assumes input_ring: "ipc_OpenInputPort ipc d p s = (OH_MIDI_STATUS_OK, buffer, s') \<Longrightarrow> buffer \<noteq> None"
    and output_ring: "ipc_OpenOutputPort ipc d p s = (OH_MIDI_STATUS_OK, buffer, s') \<Longrightarrow> buffer \<noteq> None"

definition GetMidiStatusCode :: "int \<Rightarrow> int" where
  "GetMidiStatusCode ret =
     (if ret = OH_MIDI_STATUS_OK \<or> (ret \<ge> OH_MIDI_STATUS_GENERIC_INVALID_ARGUMENT \<and> ret < OH_MIDI_STATUS_SYSTEM_ERROR)
      then ret else OH_MIDI_STATUS_GENERIC_IPC_FAILURE)"

text \<open>The proxy is \<open>None\<close> before \<open>Init\<close> and after the client was destroyed.\<close>

record 's MidiServiceClient =
  msc_ipc :: "'s IpcMidiInServer option"
  msc_callback :: bool
  msc_deathRecipient :: bool

definition new_MidiServiceClient :: "'s MidiServiceClient" where
  "new_MidiServiceClient = \<lparr>msc_ipc = None, msc_callback = False, msc_deathRecipient = False\<rparr>"

text \<open>What the system ability manager answers: whether it, the remote object and its interface are there.\<close>

record SamgrCalls =
  has_samgr :: bool
  has_object :: bool
  has_interface :: bool

text \<open>
  \<open>create\<close> is the call \<open>CreateMidiInServer\<close> of the service: its status, the identifier and the proxy of the client, if
  they were returned.
\<close>

definition MidiServiceClient_Init ::
  "SamgrCalls \<Rightarrow> ('s \<Rightarrow> int \<times> u32 option \<times> 's IpcMidiInServer option \<times> 's) \<Rightarrow> 's MidiServiceClient \<Rightarrow> 's
     \<Rightarrow> int \<times> u32 option \<times> 's MidiServiceClient \<times> 's" where
  "MidiServiceClient_Init calls create sc s =
     (if \<not> has_samgr calls \<or> \<not> has_object calls \<or> \<not> has_interface calls then (OH_MIDI_STATUS_GENERIC_IPC_FAILURE, None, sc, s)
      else
        (case create s of (ret, clientId, ipcProxy, s) \<Rightarrow>
           if ret \<noteq> OH_MIDI_STATUS_OK then (ret, clientId, sc, s)
           else
             let sc = sc\<lparr>msc_ipc := ipcProxy\<rparr>
             in if ipcProxy = None then (OH_MIDI_STATUS_GENERIC_IPC_FAILURE, clientId, sc, s)
                else (OH_MIDI_STATUS_OK, clientId, sc\<lparr>msc_callback := True, msc_deathRecipient := True\<rparr>, s)))"

definition MidiServiceClient_GetDevices :: "'s MidiServiceClient \<Rightarrow> 's \<Rightarrow> int \<times> MidiDeviceInfo list \<times> 's" where
  "MidiServiceClient_GetDevices sc s =
     (case msc_ipc sc of
        None \<Rightarrow> (OH_MIDI_STATUS_GENERIC_IPC_FAILURE, [], s)
      | Some ipc \<Rightarrow> (case ipc_GetDevices ipc s of (ret, infos, s) \<Rightarrow> (GetMidiStatusCode ret, infos, s)))"

definition MidiServiceClient_GetDevicePorts :: "'s MidiServiceClient \<Rightarrow> int \<Rightarrow> 's \<Rightarrow> int \<times> MidiPortInfo list" where
  "MidiServiceClient_GetDevicePorts sc d s =
     (case msc_ipc sc of
        None \<Rightarrow> (OH_MIDI_STATUS_GENERIC_IPC_FAILURE, [])
      | Some ipc \<Rightarrow> (case ipc_GetDevicePorts ipc d s of (ret, infos) \<Rightarrow> (GetMidiStatusCode ret, infos)))"

definition MidiServiceClient_OpenDevice :: "'s MidiServiceClient \<Rightarrow> int \<Rightarrow> 's \<Rightarrow> int \<times> MidiDeviceInfo \<times> 's" where
  "MidiServiceClient_OpenDevice sc d s =
     (case msc_ipc sc of
        None \<Rightarrow> (OH_MIDI_STATUS_GENERIC_IPC_FAILURE, default_MidiDeviceInfo, s)
      | Some ipc \<Rightarrow> (case ipc_OpenDevice ipc d s of (ret, devInfo, s) \<Rightarrow> (GetMidiStatusCode ret, devInfo, s)))"

definition MidiServiceClient_OpenBleDevice :: "'s MidiServiceClient \<Rightarrow> string \<Rightarrow> nat \<Rightarrow> 's \<Rightarrow> int \<times> 's" where
  "MidiServiceClient_OpenBleDevice sc addr callback s =
     (case msc_ipc sc of
        None \<Rightarrow> (OH_MIDI_STATUS_GENERIC_IPC_FAILURE, s)
      | Some ipc \<Rightarrow> (case ipc_OpenBleDevice ipc addr callback s of (ret, s) \<Rightarrow> (GetMidiStatusCode ret, s)))"

definition MidiServiceClient_CloseDevice :: "'s MidiServiceClient \<Rightarrow> int \<Rightarrow> 's \<Rightarrow> int \<times> 's" where
  "MidiServiceClient_CloseDevice sc d s =
     (case msc_ipc sc of
        None \<Rightarrow> (OH_MIDI_STATUS_GENERIC_IPC_FAILURE, s)
      | Some ipc \<Rightarrow> (case ipc_CloseDevice ipc d s of (ret, s) \<Rightarrow> (GetMidiStatusCode ret, s)))"

definition MidiServiceClient_OpenInputPort ::
  "'s MidiServiceClient \<Rightarrow> int \<Rightarrow> u32 \<Rightarrow> 's \<Rightarrow> int \<times> MidiSharedRing option \<times> 's" where
  "MidiServiceClient_OpenInputPort sc d p s =
     (case msc_ipc sc of
        None \<Rightarrow> (OH_MIDI_STATUS_GENERIC_IPC_FAILURE, None, s)
      | Some ipc \<Rightarrow> (case ipc_OpenInputPort ipc d p s of (ret, buffer, s) \<Rightarrow> (GetMidiStatusCode ret, buffer, s)))"

definition MidiServiceClient_OpenOutputPort ::
  "'s MidiServiceClient \<Rightarrow> int \<Rightarrow> u32 \<Rightarrow> 's \<Rightarrow> int \<times> MidiSharedRing option \<times> 's" where
  "MidiServiceClient_OpenOutputPort sc d p s =
     (case msc_ipc sc of
        None \<Rightarrow> (OH_MIDI_STATUS_GENERIC_IPC_FAILURE, None, s)
      | Some ipc \<Rightarrow> (case ipc_OpenOutputPort ipc d p s of (ret, buffer, s) \<Rightarrow> (GetMidiStatusCode ret, buffer, s)))"

definition MidiServiceClient_FlushOutputPort :: "'s MidiServiceClient \<Rightarrow> int \<Rightarrow> u32 \<Rightarrow> 's \<Rightarrow> int \<times> 's" where
  "MidiServiceClient_FlushOutputPort sc d p s =
     (case msc_ipc sc of
        None \<Rightarrow> (OH_MIDI_STATUS_GENERIC_IPC_FAILURE, s)
      | Some ipc \<Rightarrow> (case ipc_FlushOutputPort ipc d p s of (ret, s) \<Rightarrow> (GetMidiStatusCode ret, s)))"

definition MidiServiceClient_CloseInputPort :: "'s MidiServiceClient \<Rightarrow> int \<Rightarrow> u32 \<Rightarrow> 's \<Rightarrow> int \<times> 's" where
  "MidiServiceClient_CloseInputPort sc d p s =
     (case msc_ipc sc of
        None \<Rightarrow> (OH_MIDI_STATUS_GENERIC_IPC_FAILURE, s)
      | Some ipc \<Rightarrow> (case ipc_CloseInputPort ipc d p s of (ret, s) \<Rightarrow> (GetMidiStatusCode ret, s)))"

definition MidiServiceClient_CloseOutputPort :: "'s MidiServiceClient \<Rightarrow> int \<Rightarrow> u32 \<Rightarrow> 's \<Rightarrow> int \<times> 's" where
  "MidiServiceClient_CloseOutputPort sc d p s =
     (case msc_ipc sc of
        None \<Rightarrow> (OH_MIDI_STATUS_GENERIC_IPC_FAILURE, s)
      | Some ipc \<Rightarrow> (case ipc_CloseOutputPort ipc d p s of (ret, s) \<Rightarrow> (GetMidiStatusCode ret, s)))"

definition MidiServiceClient_DestroyMidiClient :: "SamgrCalls \<Rightarrow> 's MidiServiceClient \<Rightarrow> 's \<Rightarrow> int \<times> 's MidiServiceClient \<times> 's" where
  "MidiServiceClient_DestroyMidiClient calls sc s =
     (case msc_ipc sc of
        None \<Rightarrow> (OH_MIDI_STATUS_GENERIC_IPC_FAILURE, sc, s)
      | Some ipc \<Rightarrow>
          if \<not> has_samgr calls \<or> \<not> has_object calls then (OH_MIDI_STATUS_GENERIC_IPC_FAILURE, sc, s)
          else
            (case ipc_DestroyMidiClient ipc s of (ret, s) \<Rightarrow>
               (GetMidiStatusCode ret, sc\<lparr>msc_ipc := None, msc_callback := False, msc_deathRecipient := False\<rparr>, s)))"

section \<open>Information for the application\<close>

record OH_MIDIDeviceInformation =
  odi_midiDeviceId :: int
  odi_deviceType :: int
  odi_nativeProtocol :: int
  odi_deviceName :: string
  odi_vendorId :: u64
  odi_productId :: u64
  odi_deviceAddress :: string

record OH_MIDIPortInformation =
  opi_portIndex :: u32
  opi_deviceId :: int
  opi_direction :: int
  opi_name :: string

text \<open>
  The field of a C string of \<open>room\<close> bytes after \<open>strncpy_s\<close>, which copies up to the end of the text and
  fails, leaving an empty text, when there is no room for the end mark.
\<close>

definition copy_text :: "nat \<Rightarrow> string \<Rightarrow> string" where
  "copy_text room src = (let t = takeWhile (\<lambda>c. c \<noteq> CHR 0x00) src in if length t < room then t else [])"

definition type_number :: "DeviceType \<Rightarrow> int" where
  "type_number t = (case t of DEVICE_TYPE_USB \<Rightarrow> 0 | DEVICE_TYPE_BLE \<Rightarrow> 1)"

definition protocol_number :: "TransportProtocol \<Rightarrow> int" where
  "protocol_number p = (case p of PROTOCOL_1_0 \<Rightarrow> 1 | PROTOCOL_2_0 \<Rightarrow> 2)"

definition direction_number :: "PortDirection \<Rightarrow> int" where
  "direction_number d = (case d of PORT_DIRECTION_INPUT \<Rightarrow> 0 | PORT_DIRECTION_OUTPUT \<Rightarrow> 1)"

definition ConvertToDeviceInformation :: "MidiDeviceInfo \<Rightarrow> OH_MIDIDeviceInformation" where
  "ConvertToDeviceInformation devInfo =
     \<lparr>odi_midiDeviceId = deviceId devInfo, odi_deviceType = type_number (deviceType devInfo),
      odi_nativeProtocol = protocol_number (transportProtocol devInfo), odi_deviceName = copy_text 256 (deviceName devInfo),
      odi_vendorId = vendorId devInfo, odi_productId = productId devInfo, odi_deviceAddress = copy_text 64 (address devInfo)\<rparr>"

definition ConvertToPortInformation :: "MidiPortInfo \<Rightarrow> int \<Rightarrow> OH_MIDIPortInformation" where
  "ConvertToPortInformation portInfo d =
     \<lparr>opi_portIndex = of_int (portId portInfo), opi_deviceId = d, opi_direction = direction_number (direction portInfo),
      opi_name = copy_text 64 (port_name portInfo)\<rparr>"

section \<open>Devices\<close>

text \<open>
  An entry of a port map is \<open>None\<close> when the device is gone: the application has not closed the port yet. The client outlives
  its devices, so that the weak pointer to its \<open>MidiServiceClient\<close> always leads to it, and is an argument.
\<close>

record MidiDevicePrivate =
  dp_deviceId :: int
  dp_inputPortsMap :: "(u32 \<times> MidiInputPort option) list"
  dp_outputPortsMap :: "(u32 \<times> MidiOutputPort option) list"
  dp_isValid :: bool
  dp_info :: OH_MIDIDeviceInformation

definition new_MidiDevicePrivate :: "OH_MIDIDeviceInformation \<Rightarrow> MidiDevicePrivate" where
  "new_MidiDevicePrivate devInfo =
     \<lparr>dp_deviceId = odi_midiDeviceId devInfo, dp_inputPortsMap = [], dp_outputPortsMap = [], dp_isValid = True, dp_info = devInfo\<rparr>"

record OH_MIDIPortDescriptor =
  pd_portIndex :: u32
  pd_protocol :: int

definition Device_CloseDevice :: "'s MidiServiceClient \<Rightarrow> MidiDevicePrivate \<Rightarrow> 's \<Rightarrow> int \<times> 's" where
  "Device_CloseDevice sc dev s =
     (if \<not> dp_isValid dev then (OH_MIDI_STATUS_OK, s) else MidiServiceClient_CloseDevice sc (dp_deviceId dev) s)"

definition Device_OpenInputPort ::
  "'s MidiServiceClient \<Rightarrow> OH_MIDIPortDescriptor \<Rightarrow> bool \<Rightarrow> MidiDevicePrivate \<Rightarrow> 's \<Rightarrow> int \<times> MidiDevicePrivate \<times> 's" where
  "Device_OpenInputPort sc descriptor callback dev s =
     (if has_key (dp_inputPortsMap dev) (pd_portIndex descriptor) then (OH_MIDI_STATUS_PORT_ALREADY_OPEN, dev, s)
      else
        let dir = GetCoverterDirection (pd_protocol descriptor) (odi_nativeProtocol (dp_info dev));
            inputPort = new_MidiInputPort callback dir
        in (case MidiServiceClient_OpenInputPort sc (dp_deviceId dev) (pd_portIndex descriptor) s of (ret, buffer, s) \<Rightarrow>
              if ret \<noteq> OH_MIDI_STATUS_OK then (ret, dev, s)
              else
                (case StartReceiverThread (inputPort\<lparr>ip_ring := buffer\<rparr>) of (started, inputPort) \<Rightarrow>
                   if \<not> started
                   then (OH_MIDI_STATUS_SYSTEM_ERROR, dev,
                         snd (MidiServiceClient_CloseInputPort sc (dp_deviceId dev) (pd_portIndex descriptor) s))
                   else
                     (OH_MIDI_STATUS_OK,
                      dev\<lparr>dp_inputPortsMap := AList.update (pd_portIndex descriptor) (Some inputPort) (dp_inputPortsMap dev)\<rparr>, s))))"

definition Device_OpenOutputPort ::
  "'s MidiServiceClient \<Rightarrow> OH_MIDIPortDescriptor \<Rightarrow> MidiDevicePrivate \<Rightarrow> 's \<Rightarrow> int \<times> MidiDevicePrivate \<times> 's" where
  "Device_OpenOutputPort sc descriptor dev s =
     (if has_key (dp_outputPortsMap dev) (pd_portIndex descriptor) then (OH_MIDI_STATUS_PORT_ALREADY_OPEN, dev, s)
      else
        let dir = GetCoverterDirection (odi_nativeProtocol (dp_info dev)) (pd_protocol descriptor);
            outputPort = new_MidiOutputPort dir
        in (case MidiServiceClient_OpenOutputPort sc (dp_deviceId dev) (pd_portIndex descriptor) s of (ret, buffer, s) \<Rightarrow>
              if ret \<noteq> OH_MIDI_STATUS_OK then (ret, dev, s)
              else
                (OH_MIDI_STATUS_OK,
                 dev\<lparr>dp_outputPortsMap := AList.update (pd_portIndex descriptor) (Some (outputPort\<lparr>op_ring := buffer\<rparr>)) (dp_outputPortsMap dev)\<rparr>, s)))"

definition Device_Send ::
  "(nat \<Rightarrow> nat \<Rightarrow> u32) \<Rightarrow> u32 \<Rightarrow> MidiEventInner list option \<Rightarrow> u32 \<Rightarrow> bool \<Rightarrow> MidiDevicePrivate
     \<Rightarrow> (int \<times> nat option \<times> MidiDevicePrivate) option" where
  "Device_Send heap portIndex events eventCount eventsWritten dev =
     (case find_key (dp_outputPortsMap dev) portIndex of
        None \<Rightarrow> Some (OH_MIDI_STATUS_INVALID_PORT, None, dev)
      | Some entry \<Rightarrow>
          if \<not> dp_isValid dev then Some (OH_MIDI_STATUS_GENERIC_IPC_FAILURE, None, dev)
          else
            (case entry of
               None \<Rightarrow> None
             | Some outputPort \<Rightarrow>
                 map_option (\<lambda>(ret, written, port). (ret, written, dev\<lparr>dp_outputPortsMap := AList.update portIndex (Some port) (dp_outputPortsMap dev)\<rparr>))
                   (Send heap events eventCount eventsWritten outputPort)))"

definition Device_SendSysEx ::
  "nat \<Rightarrow> SendEnv \<Rightarrow> int \<Rightarrow> u32 \<Rightarrow> byte_ptr \<Rightarrow> u32 \<Rightarrow> MidiDevicePrivate \<Rightarrow> (int \<times> MidiDevicePrivate) option" where
  "Device_SendSysEx fuel env start portIndex bytes byteSize dev =
     (case find_key (dp_outputPortsMap dev) portIndex of
        None \<Rightarrow> Some (OH_MIDI_STATUS_INVALID_PORT, dev)
      | Some entry \<Rightarrow>
          if \<not> dp_isValid dev then Some (OH_MIDI_STATUS_GENERIC_IPC_FAILURE, dev)
          else
            (case entry of
               None \<Rightarrow> None
             | Some outputPort \<Rightarrow>
                 map_option (\<lambda>(ret, n, port). (ret, dev\<lparr>dp_outputPortsMap := AList.update portIndex (Some port) (dp_outputPortsMap dev)\<rparr>))
                   (SendSysEx fuel env start portIndex bytes byteSize outputPort)))"

definition Device_FlushOutputPort :: "'s MidiServiceClient \<Rightarrow> u32 \<Rightarrow> MidiDevicePrivate \<Rightarrow> 's \<Rightarrow> int \<times> 's" where
  "Device_FlushOutputPort sc portIndex dev s =
     (if \<not> has_key (dp_outputPortsMap dev) portIndex then (OH_MIDI_STATUS_INVALID_PORT, s)
      else MidiServiceClient_FlushOutputPort sc (dp_deviceId dev) portIndex s)"

text \<open>
  Erasing an input port runs its destructor, which stops the thread; nothing refers to the port afterwards. \<open>caller\<close> is the
  input port of this device in whose callback the call is made, if it is made in one.
\<close>

definition Device_CloseInputPort ::
  "'s MidiServiceClient \<Rightarrow> u32 option \<Rightarrow> u32 \<Rightarrow> MidiDevicePrivate \<Rightarrow> 's \<Rightarrow> (int \<times> MidiDevicePrivate \<times> 's) option" where
  "Device_CloseInputPort sc caller portIndex dev s =
     (case find_key (dp_inputPortsMap dev) portIndex of
        None \<Rightarrow> Some (OH_MIDI_STATUS_INVALID_PORT, dev, s)
      | Some entry \<Rightarrow>
          let dev = dev\<lparr>dp_inputPortsMap := AList.delete portIndex (dp_inputPortsMap dev)\<rparr>
          in (case entry of
                None \<Rightarrow> Some (OH_MIDI_STATUS_OK, dev, s)
              | Some port \<Rightarrow>
                  (case StopReceiverThread (caller = Some portIndex) port of
                     None \<Rightarrow> None
                   | Some _ \<Rightarrow>
                       if \<not> dp_isValid dev then Some (OH_MIDI_STATUS_OK, dev, s)
                       else (case MidiServiceClient_CloseInputPort sc (dp_deviceId dev) portIndex s of (ret, s) \<Rightarrow> Some (ret, dev, s)))))"

definition Device_CloseOutputPort ::
  "'s MidiServiceClient \<Rightarrow> u32 \<Rightarrow> MidiDevicePrivate \<Rightarrow> 's \<Rightarrow> int \<times> MidiDevicePrivate \<times> 's" where
  "Device_CloseOutputPort sc portIndex dev s =
     (case find_key (dp_outputPortsMap dev) portIndex of
        None \<Rightarrow> (OH_MIDI_STATUS_INVALID_PORT, dev, s)
      | Some entry \<Rightarrow>
          let dev = dev\<lparr>dp_outputPortsMap := AList.delete portIndex (dp_outputPortsMap dev)\<rparr>
          in (case entry of
                None \<Rightarrow> (OH_MIDI_STATUS_OK, dev, s)
              | Some port \<Rightarrow>
                  if \<not> dp_isValid dev then (OH_MIDI_STATUS_OK, dev, s)
                  else (case MidiServiceClient_CloseOutputPort sc (dp_deviceId dev) portIndex s of (ret, s) \<Rightarrow> (ret, dev, s))))"

definition CloseAllPorts :: "u32 option \<Rightarrow> MidiDevicePrivate \<Rightarrow> MidiDevicePrivate option" where
  "CloseAllPorts caller dev =
     (if list_all (\<lambda>(p, entry). case entry of None \<Rightarrow> True | Some port \<Rightarrow> StopReceiverThread (caller = Some p) port \<noteq> None) (dp_inputPortsMap dev)
      then Some (dev\<lparr>dp_inputPortsMap := [], dp_outputPortsMap := []\<rparr>)
      else None)"

text \<open>
  \<open>TombstoneAllPorts\<close> runs on the thread of the service's call, which is no receiver.
\<close>

definition TombstoneAllPorts :: "MidiDevicePrivate \<Rightarrow> MidiDevicePrivate" where
  "TombstoneAllPorts dev =
     dev\<lparr>dp_inputPortsMap := map (\<lambda>(p, _). (p, None)) (dp_inputPortsMap dev),
         dp_outputPortsMap := map (\<lambda>(p, _). (p, None)) (dp_outputPortsMap dev)\<rparr>"

definition SetInValid :: "MidiDevicePrivate \<Rightarrow> MidiDevicePrivate" where
  "SetInValid dev = dev\<lparr>dp_isValid := False\<rparr>"

section \<open>The client\<close>

text \<open>The calls of the application's callbacks; the last one belongs to an open of a Bluetooth device.\<close>

datatype AppCall =
    OnDeviceChange int OH_MIDIDeviceInformation
  | OnError int
  | OnDeviceOpened bool "nat option" OH_MIDIDeviceInformation

record 's MidiClientPrivate =
  cp_service :: "'s MidiServiceClient"
  cp_clientId :: u32
  cp_onDeviceChange :: bool
  cp_onError :: bool
  cp_destroyed :: bool
  cp_deviceHandlers :: "(nat \<times> MidiDevicePrivate) list"

definition new_MidiClientPrivate :: "'s MidiClientPrivate" where
  "new_MidiClientPrivate =
     \<lparr>cp_service = new_MidiServiceClient, cp_clientId = 0, cp_onDeviceChange = False, cp_onError = False, cp_destroyed = False, cp_deviceHandlers = []\<rparr>"

definition Client_Init ::
  "SamgrCalls \<Rightarrow> ('s \<Rightarrow> int \<times> u32 option \<times> 's IpcMidiInServer option \<times> 's) \<Rightarrow> bool \<times> bool \<Rightarrow> 's MidiClientPrivate \<Rightarrow> 's
     \<Rightarrow> int \<times> 's MidiClientPrivate \<times> 's" where
  "Client_Init calls create callbacks cp s =
     (let cp = cp\<lparr>cp_onDeviceChange := fst callbacks, cp_onError := snd callbacks\<rparr>
      in (case MidiServiceClient_Init calls create (cp_service cp) s of (ret, clientId, sc, s) \<Rightarrow>
            (ret, cp\<lparr>cp_service := sc, cp_clientId := (case clientId of None \<Rightarrow> cp_clientId cp | Some c \<Rightarrow> c)\<rparr>, s)))"

definition CreateMidiClient ::
  "SamgrCalls \<Rightarrow> ('s \<Rightarrow> int \<times> u32 option \<times> 's IpcMidiInServer option \<times> 's) \<Rightarrow> bool \<times> bool \<Rightarrow> 's
     \<Rightarrow> int \<times> 's MidiClientPrivate option \<times> 's" where
  "CreateMidiClient calls create callbacks s =
     (case Client_Init calls create callbacks new_MidiClientPrivate s of (ret, cp, s) \<Rightarrow>
        if ret \<noteq> OH_MIDI_STATUS_OK then (ret, None, s) else (OH_MIDI_STATUS_OK, Some cp, s))"

text \<open>
  The list functions: \<open>infos\<close> says whether there is an array to fill, \<open>n\<close> is the value of the counter on entry. The result is the
  status, what is written to the array, and the value of the counter on return.
\<close>

definition Client_GetDevices ::
  "bool \<Rightarrow> nat \<Rightarrow> 's MidiClientPrivate \<Rightarrow> 's \<Rightarrow> int \<times> OH_MIDIDeviceInformation list \<times> nat \<times> 's" where
  "Client_GetDevices infos n cp s =
     (case MidiServiceClient_GetDevices (cp_service cp) s of (ret, deviceInfos, s) \<Rightarrow>
        if ret \<noteq> OH_MIDI_STATUS_OK then (ret, [], n, s)
        else if \<not> infos then (OH_MIDI_STATUS_OK, [], length deviceInfos, s)
        else
          let actualCount = min n (length deviceInfos)
          in if actualCount = 0 then (OH_MIDI_STATUS_OK, [], actualCount, s)
             else (OH_MIDI_STATUS_OK, map ConvertToDeviceInformation (take actualCount deviceInfos), actualCount, s))"

definition Client_GetDevicePorts :: "int \<Rightarrow> bool \<Rightarrow> nat \<Rightarrow> 's MidiClientPrivate \<Rightarrow> 's \<Rightarrow> int \<times> OH_MIDIPortInformation list \<times> nat" where
  "Client_GetDevicePorts d infos n cp s =
     (case MidiServiceClient_GetDevicePorts (cp_service cp) d s of (ret, ports) \<Rightarrow>
        if ret \<noteq> OH_MIDI_STATUS_OK then (ret, [], n)
        else if \<not> infos then (OH_MIDI_STATUS_OK, [], length ports)
        else
          let actualCount = min n (length ports)
          in if actualCount = 0 then (OH_MIDI_STATUS_OK, [], actualCount)
             else (OH_MIDI_STATUS_OK, map (\<lambda>p. ConvertToPortInformation p d) (take actualCount ports), actualCount))"

definition AddDeviceHandler :: "nat \<Rightarrow> MidiDevicePrivate \<Rightarrow> 's MidiClientPrivate \<Rightarrow> 's MidiClientPrivate" where
  "AddDeviceHandler h dev cp = cp\<lparr>cp_deviceHandlers := cp_deviceHandlers cp @ [(h, dev)]\<rparr>"

definition RemoveDeviceHandler :: "nat \<Rightarrow> 's MidiClientPrivate \<Rightarrow> 's MidiClientPrivate" where
  "RemoveDeviceHandler h cp = cp\<lparr>cp_deviceHandlers := filter (\<lambda>p. fst p \<noteq> h) (cp_deviceHandlers cp)\<rparr>"

definition IsDeviceOpened :: "int \<Rightarrow> 's MidiClientPrivate \<Rightarrow> bool" where
  "IsDeviceOpened d cp = list_ex (\<lambda>p. dp_deviceId (snd p) = d) (cp_deviceHandlers cp)"

definition Client_OpenDevice ::
  "nat \<Rightarrow> int \<Rightarrow> 's MidiClientPrivate \<Rightarrow> 's \<Rightarrow> int \<times> nat option \<times> 's MidiClientPrivate \<times> 's" where
  "Client_OpenDevice h d cp s =
     (case MidiServiceClient_OpenDevice (cp_service cp) d s of (ret, devInfo, s) \<Rightarrow>
        if ret \<noteq> OH_MIDI_STATUS_OK then (ret, None, cp, s)
        else (OH_MIDI_STATUS_OK, Some h, AddDeviceHandler h (new_MidiDevicePrivate (ConvertToDeviceInformation devInfo)) cp, s))"

definition Client_OpenBleDevice :: "string \<Rightarrow> nat \<Rightarrow> 's MidiClientPrivate \<Rightarrow> 's \<Rightarrow> int \<times> 's" where
  "Client_OpenBleDevice addr callback cp s = MidiServiceClient_OpenBleDevice (cp_service cp) addr callback s"

text \<open>The device and the input port in whose callback a call is made, if it is made in one; seen from one device.\<close>

type_synonym Thread = "(nat \<times> u32) option"

definition port_thread :: "Thread \<Rightarrow> nat \<Rightarrow> u32 option" where
  "port_thread caller h = (case caller of None \<Rightarrow> None | Some (h', p) \<Rightarrow> if h' = h then Some p else None)"

definition CloseAndRemoveDevice ::
  "Thread \<Rightarrow> nat \<Rightarrow> 's MidiClientPrivate \<Rightarrow> 's \<Rightarrow> (int \<times> 's MidiClientPrivate \<times> 's) option" where
  "CloseAndRemoveDevice caller h cp s =
     (case find_key (cp_deviceHandlers cp) h of
        None \<Rightarrow> Some (OH_MIDI_STATUS_INVALID_DEVICE_HANDLE, cp, s)
      | Some dev \<Rightarrow>
          let cp = cp\<lparr>cp_deviceHandlers := AList.delete h (cp_deviceHandlers cp)\<rparr>
          in (case CloseAllPorts (port_thread caller h) dev of
                None \<Rightarrow> None
              | Some dev \<Rightarrow> (case Device_CloseDevice (cp_service cp) dev s of (ret, s) \<Rightarrow> Some (ret, cp, s))))"

definition Client_DestroyMidiClient :: "SamgrCalls \<Rightarrow> 's MidiClientPrivate \<Rightarrow> 's \<Rightarrow> int \<times> 's MidiClientPrivate \<times> 's" where
  "Client_DestroyMidiClient calls cp s =
     (let cp = cp\<lparr>cp_destroyed := True\<rparr>
      in (case MidiServiceClient_DestroyMidiClient calls (cp_service cp) s of (ret, sc, s) \<Rightarrow> (ret, cp\<lparr>cp_service := sc\<rparr>, s)))"

definition MarkDeviceInValid :: "'s MidiClientPrivate \<Rightarrow> 's MidiClientPrivate" where
  "MarkDeviceInValid cp = cp\<lparr>cp_deviceHandlers := map (\<lambda>(h, dev). (h, SetInValid dev)) (cp_deviceHandlers cp)\<rparr>"

primrec first_device :: "int \<Rightarrow> (MidiDevicePrivate \<Rightarrow> MidiDevicePrivate) \<Rightarrow> (nat \<times> MidiDevicePrivate) list \<Rightarrow> (nat \<times> MidiDevicePrivate) list" where
  "first_device d f [] = []"
| "first_device d f (p # ps) = (if dp_deviceId (snd p) = d then (fst p, f (snd p)) # ps else p # first_device d f ps)"

definition HandleDeviceDisconnect :: "int \<Rightarrow> 's MidiClientPrivate \<Rightarrow> 's MidiClientPrivate" where
  "HandleDeviceDisconnect d cp =
     cp\<lparr>cp_deviceHandlers := first_device d (\<lambda>dev. TombstoneAllPorts (SetInValid dev)) (cp_deviceHandlers cp)\<rparr>"

section \<open>Calls from the service\<close>

definition change_number :: "DeviceChangeType \<Rightarrow> int" where
  "change_number c = (case c of ADD \<Rightarrow> 0 | REMOVED \<Rightarrow> 1)"

definition OH_MIDI_DEVICE_CHANGE_ACTION_DISCONNECTED :: int where
  "OH_MIDI_DEVICE_CHANGE_ACTION_DISCONNECTED = 1"

definition Client_NotifyDeviceChange :: "int \<Rightarrow> MidiDeviceInfo \<Rightarrow> 's MidiClientPrivate \<Rightarrow> int \<times> AppCall list \<times> 's MidiClientPrivate" where
  "Client_NotifyDeviceChange change devInfo cp =
     (if cp_destroyed cp then (0, [], cp)
      else if \<not> cp_onDeviceChange cp then (OH_MIDI_STATUS_SYSTEM_ERROR, [], cp)
      else
        let cp = (if change = OH_MIDI_DEVICE_CHANGE_ACTION_DISCONNECTED then HandleDeviceDisconnect (deviceId devInfo) cp else cp)
        in (0, [OnDeviceChange change (ConvertToDeviceInformation devInfo)], cp))"

definition Client_NotifyError :: "int \<Rightarrow> 's MidiClientPrivate \<Rightarrow> int \<times> AppCall list \<times> 's MidiClientPrivate" where
  "Client_NotifyError code cp =
     (if cp_destroyed cp then (0, [], cp)
      else if \<not> cp_onError cp then (OH_MIDI_STATUS_SYSTEM_ERROR, [], cp)
      else (0, [OnError code], MarkDeviceInValid cp))"

text \<open>\<open>callback\<close>: the application gave a callback for this open; \<open>h\<close>: the address of the new device.\<close>

definition NotifyDeviceOpened ::
  "nat \<Rightarrow> bool \<Rightarrow> bool \<Rightarrow> MidiDeviceInfo \<Rightarrow> 's MidiClientPrivate \<Rightarrow> int \<times> AppCall list \<times> 's MidiClientPrivate" where
  "NotifyDeviceOpened h callback isOpened devInfo cp =
     (if \<not> callback then (OH_MIDI_STATUS_SYSTEM_ERROR, [], cp)
      else if cp_destroyed cp then (0, [], cp)
      else
        let inf = ConvertToDeviceInformation devInfo
        in if \<not> isOpened then (0, [OnDeviceOpened isOpened None inf], cp)
           else (0, [OnDeviceOpened isOpened (Some h) inf], AddDeviceHandler h (new_MidiDevicePrivate inf) cp))"

end
