(* ===== verification/Client_Api.thy ===== *)
theory Client_Api
  imports Client_Library
begin

text \<open>
  The C functions of \<^verbatim>\<open>frameworks/native/ohmidi/OHMidi.cpp\<close> on one client, and everything that can happen to that
  client: the application's calls, and the service's calls on its callbacks, in which other threads may run
  between the steps that the code does under separate locks.

  A pointer is \<open>None\<close> when it is null. Functions on a device return \<open>None\<close> for a dangling handle. The functions that end a
  receiver thread have the port as an argument in whose callback they are called, if they are called in one, and return \<open>None\<close>
  as well when that ends the process.
\<close>

section \<open>The functions of the client\<close>

definition OH_MIDIClient_Create ::
  "SamgrCalls \<Rightarrow> ('s \<Rightarrow> int \<times> u32 option \<times> 's IpcMidiInServer option \<times> 's) \<Rightarrow> bool \<Rightarrow> bool \<times> bool \<Rightarrow> 's
     \<Rightarrow> int \<times> 's MidiClientPrivate option \<times> 's" where
  "OH_MIDIClient_Create calls create out callbacks s =
     (if \<not> out then (OH_MIDI_STATUS_GENERIC_INVALID_ARGUMENT, None, s)
      else
        (case CreateMidiClient calls create callbacks s of (ret, cp, s) \<Rightarrow>
           if ret \<noteq> OH_MIDI_STATUS_OK then (ret, None, s) else (OH_MIDI_STATUS_OK, cp, s)))"

text \<open>
  The client is deleted whatever the service answers; its destructor closes all ports. \<open>None\<close> is the end of the process.
\<close>

definition OH_MIDIClient_Destroy ::
  "Thread \<Rightarrow> SamgrCalls \<Rightarrow> 's MidiClientPrivate option \<Rightarrow> 's \<Rightarrow> (int \<times> 's MidiClientPrivate option \<times> 's) option" where
  "OH_MIDIClient_Destroy caller calls client s =
     (case client of
        None \<Rightarrow> Some (OH_MIDI_STATUS_INVALID_CLIENT, None, s)
      | Some cp \<Rightarrow>
          (case Client_DestroyMidiClient calls cp s of (ret, cp, s) \<Rightarrow>
             if list_all (\<lambda>(h, dev). CloseAllPorts (port_thread caller h) dev \<noteq> None) (cp_deviceHandlers cp) then Some (ret, None, s) else None))"

text \<open>The counter is written only when the service answered: \<open>n\<close> is what was in it before.\<close>

definition OH_MIDIClient_GetDeviceCount :: "nat option \<Rightarrow> 's MidiClientPrivate option \<Rightarrow> 's \<Rightarrow> int \<times> nat option \<times> 's" where
  "OH_MIDIClient_GetDeviceCount count client s =
     (case client of
        None \<Rightarrow> (OH_MIDI_STATUS_INVALID_CLIENT, count, s)
      | Some cp \<Rightarrow>
          (case count of
             None \<Rightarrow> (OH_MIDI_STATUS_GENERIC_INVALID_ARGUMENT, None, s)
           | Some n \<Rightarrow> (case Client_GetDevices False n cp s of (_, _, n, s) \<Rightarrow> (OH_MIDI_STATUS_OK, Some n, s))))"

definition OH_MIDIClient_GetDeviceInfos ::
  "bool \<Rightarrow> nat \<Rightarrow> bool \<Rightarrow> 's MidiClientPrivate option \<Rightarrow> 's \<Rightarrow> int \<times> OH_MIDIDeviceInformation list \<times> nat option \<times> 's" where
  "OH_MIDIClient_GetDeviceInfos infos room actual client s =
     (case client of
        None \<Rightarrow> (OH_MIDI_STATUS_INVALID_CLIENT, [], None, s)
      | Some cp \<Rightarrow>
          if \<not> (actual \<and> infos) then (OH_MIDI_STATUS_GENERIC_INVALID_ARGUMENT, [], None, s)
          else (case Client_GetDevices infos room cp s of (ret, written, numDevices, s) \<Rightarrow> (ret, written, Some numDevices, s)))"

definition OH_MIDIClient_OpenDevice ::
  "nat \<Rightarrow> int \<Rightarrow> bool \<Rightarrow> 's MidiClientPrivate option \<Rightarrow> 's \<Rightarrow> int \<times> nat option \<times> 's MidiClientPrivate option \<times> 's" where
  "OH_MIDIClient_OpenDevice h d out client s =
     (case client of
        None \<Rightarrow> (OH_MIDI_STATUS_INVALID_CLIENT, None, client, s)
      | Some cp \<Rightarrow>
          if \<not> out then (OH_MIDI_STATUS_GENERIC_INVALID_ARGUMENT, None, client, s)
          else (case Client_OpenDevice h d cp s of (ret, dev, cp, s) \<Rightarrow> (ret, dev, Some cp, s)))"

definition OH_MIDIClient_OpenBLEDevice :: "string option \<Rightarrow> nat option \<Rightarrow> 's MidiClientPrivate option \<Rightarrow> 's \<Rightarrow> int \<times> 's" where
  "OH_MIDIClient_OpenBLEDevice deviceAddr callback client s =
     (case client of
        None \<Rightarrow> (OH_MIDI_STATUS_INVALID_CLIENT, s)
      | Some cp \<Rightarrow>
          (case (deviceAddr, callback) of
             (Some addr, Some cb) \<Rightarrow> Client_OpenBleDevice addr cb cp s
           | _ \<Rightarrow> (OH_MIDI_STATUS_GENERIC_INVALID_ARGUMENT, s)))"

definition OH_MIDIClient_CloseDevice ::
  "Thread \<Rightarrow> nat option \<Rightarrow> 's MidiClientPrivate option \<Rightarrow> 's \<Rightarrow> (int \<times> 's MidiClientPrivate option \<times> 's) option" where
  "OH_MIDIClient_CloseDevice caller dev client s =
     (case client of
        None \<Rightarrow> Some (OH_MIDI_STATUS_INVALID_CLIENT, None, s)
      | Some cp \<Rightarrow>
          (case dev of
             None \<Rightarrow> Some (OH_MIDI_STATUS_INVALID_DEVICE_HANDLE, client, s)
           | Some h \<Rightarrow> map_option (\<lambda>(ret, cp, s). (ret, Some cp, s)) (CloseAndRemoveDevice caller h cp s)))"

definition OH_MIDIClient_GetPortCount :: "int \<Rightarrow> nat option \<Rightarrow> 's MidiClientPrivate option \<Rightarrow> 's \<Rightarrow> int \<times> nat option" where
  "OH_MIDIClient_GetPortCount d count client s =
     (case client of
        None \<Rightarrow> (OH_MIDI_STATUS_INVALID_CLIENT, count)
      | Some cp \<Rightarrow>
          (case count of
             None \<Rightarrow> (OH_MIDI_STATUS_GENERIC_INVALID_ARGUMENT, None)
           | Some n \<Rightarrow> (case Client_GetDevicePorts d False n cp s of (ret, _, n) \<Rightarrow> (ret, Some n))))"

definition OH_MIDIClient_GetPortInfos ::
  "int \<Rightarrow> bool \<Rightarrow> nat \<Rightarrow> bool \<Rightarrow> 's MidiClientPrivate option \<Rightarrow> 's \<Rightarrow> int \<times> OH_MIDIPortInformation list \<times> nat option" where
  "OH_MIDIClient_GetPortInfos d infos room actual client s =
     (case client of
        None \<Rightarrow> (OH_MIDI_STATUS_INVALID_CLIENT, [], None)
      | Some cp \<Rightarrow>
          if \<not> (actual \<and> infos) then (OH_MIDI_STATUS_GENERIC_INVALID_ARGUMENT, [], None)
          else (case Client_GetDevicePorts d infos room cp s of (ret, written, numPorts) \<Rightarrow> (ret, written, Some numPorts)))"

section \<open>The functions of a device\<close>

text \<open>A call on the object behind a handle, which puts the changed object back into the list of the client.\<close>

definition on_device ::
  "nat option \<Rightarrow> (MidiDevicePrivate \<Rightarrow> (int \<times> 'r \<times> MidiDevicePrivate \<times> 's) option) \<Rightarrow> 'r \<Rightarrow> 's MidiClientPrivate \<Rightarrow> 's
     \<Rightarrow> (int \<times> 'r \<times> 's MidiClientPrivate \<times> 's) option" where
  "on_device device call nothing cp s =
     (case device of
        None \<Rightarrow> Some (OH_MIDI_STATUS_INVALID_DEVICE_HANDLE, nothing, cp, s)
      | Some h \<Rightarrow>
          (case find_key (cp_deviceHandlers cp) h of
             None \<Rightarrow> None
           | Some dev \<Rightarrow>
               map_option (\<lambda>(ret, r, dev, s). (ret, r, cp\<lparr>cp_deviceHandlers := AList.update h dev (cp_deviceHandlers cp)\<rparr>, s)) (call dev)))"

definition OH_MIDIDevice_OpenInputPort ::
  "nat option \<Rightarrow> OH_MIDIPortDescriptor \<Rightarrow> bool \<Rightarrow> 's MidiClientPrivate \<Rightarrow> 's \<Rightarrow> (int \<times> unit \<times> 's MidiClientPrivate \<times> 's) option" where
  "OH_MIDIDevice_OpenInputPort device descriptor callback cp s =
     on_device device (\<lambda>dev.
       if \<not> callback then Some (OH_MIDI_STATUS_GENERIC_INVALID_ARGUMENT, (), dev, s)
       else (case Device_OpenInputPort (cp_service cp) descriptor callback dev s of (ret, dev, s) \<Rightarrow> Some (ret, (), dev, s))) () cp s"

definition OH_MIDIDevice_OpenOutputPort ::
  "nat option \<Rightarrow> OH_MIDIPortDescriptor \<Rightarrow> 's MidiClientPrivate \<Rightarrow> 's \<Rightarrow> (int \<times> unit \<times> 's MidiClientPrivate \<times> 's) option" where
  "OH_MIDIDevice_OpenOutputPort device descriptor cp s =
     on_device device (\<lambda>dev.
       case Device_OpenOutputPort (cp_service cp) descriptor dev s of (ret, dev, s) \<Rightarrow> Some (ret, (), dev, s)) () cp s"

definition OH_MIDIDevice_CloseInputPort ::
  "Thread \<Rightarrow> nat option \<Rightarrow> u32 \<Rightarrow> 's MidiClientPrivate \<Rightarrow> 's \<Rightarrow> (int \<times> unit \<times> 's MidiClientPrivate \<times> 's) option" where
  "OH_MIDIDevice_CloseInputPort caller device portIndex cp s =
     on_device device (\<lambda>dev.
       map_option (\<lambda>(ret, dev, s). (ret, (), dev, s))
         (Device_CloseInputPort (cp_service cp) (Option.bind device (port_thread caller)) portIndex dev s)) () cp s"

definition OH_MIDIDevice_CloseOutputPort ::
  "nat option \<Rightarrow> u32 \<Rightarrow> 's MidiClientPrivate \<Rightarrow> 's \<Rightarrow> (int \<times> unit \<times> 's MidiClientPrivate \<times> 's) option" where
  "OH_MIDIDevice_CloseOutputPort device portIndex cp s =
     on_device device (\<lambda>dev.
       case Device_CloseOutputPort (cp_service cp) portIndex dev s of (ret, dev, s) \<Rightarrow> Some (ret, (), dev, s)) () cp s"

definition OH_MIDIDevice_Send ::
  "(nat \<Rightarrow> nat \<Rightarrow> u32) \<Rightarrow> nat option \<Rightarrow> u32 \<Rightarrow> MidiEventInner list option \<Rightarrow> u32 \<Rightarrow> bool \<Rightarrow> 's MidiClientPrivate \<Rightarrow> 's
     \<Rightarrow> (int \<times> nat option \<times> 's MidiClientPrivate \<times> 's) option" where
  "OH_MIDIDevice_Send heap device portIndex events eventCount eventsWritten cp s =
     on_device device (\<lambda>dev.
       map_option (\<lambda>(ret, written, dev). (ret, written, dev, s)) (Device_Send heap portIndex events eventCount eventsWritten dev)) None cp s"

definition OH_MIDIDevice_SendSysEx ::
  "nat \<Rightarrow> SendEnv \<Rightarrow> int \<Rightarrow> nat option \<Rightarrow> u32 \<Rightarrow> byte_ptr \<Rightarrow> u32 \<Rightarrow> 's MidiClientPrivate \<Rightarrow> 's
     \<Rightarrow> (int \<times> unit \<times> 's MidiClientPrivate \<times> 's) option" where
  "OH_MIDIDevice_SendSysEx fuel env start device portIndex bytes byteSize cp s =
     on_device device (\<lambda>dev.
       if bytes = None then Some (OH_MIDI_STATUS_GENERIC_INVALID_ARGUMENT, (), dev, s)
       else map_option (\<lambda>(ret, dev). (ret, (), dev, s)) (Device_SendSysEx fuel env start portIndex bytes byteSize dev)) () cp s"

definition OH_MIDIDevice_FlushOutputPort ::
  "nat option \<Rightarrow> u32 \<Rightarrow> 's MidiClientPrivate \<Rightarrow> 's \<Rightarrow> (int \<times> unit \<times> 's MidiClientPrivate \<times> 's) option" where
  "OH_MIDIDevice_FlushOutputPort device portIndex cp s =
     on_device device (\<lambda>dev.
       case Device_FlushOutputPort (cp_service cp) portIndex dev s of (ret, s) \<Rightarrow> Some (ret, (), dev, s)) () cp s"

section \<open>What can happen to a client\<close>

text \<open>
  The steps of one client. The state of the service is whatever it is at each call: it changes by itself between the calls.
  \<open>tombstone_input\<close> and \<open>tombstone_output\<close> are the two halves of \<open>TombstoneAllPorts\<close>, between which other threads may run, as
  they may between them and the step that makes the device invalid.
\<close>

definition tombstone_input :: "MidiDevicePrivate \<Rightarrow> MidiDevicePrivate" where
  "tombstone_input dev = dev\<lparr>dp_inputPortsMap := map (\<lambda>(p, _). (p, None)) (dp_inputPortsMap dev)\<rparr>"

definition tombstone_output :: "MidiDevicePrivate \<Rightarrow> MidiDevicePrivate" where
  "tombstone_output dev = dev\<lparr>dp_outputPortsMap := map (\<lambda>(p, _). (p, None)) (dp_outputPortsMap dev)\<rparr>"

definition update_device :: "nat \<Rightarrow> (MidiDevicePrivate \<Rightarrow> MidiDevicePrivate) \<Rightarrow> 's MidiClientPrivate \<Rightarrow> 's MidiClientPrivate" where
  "update_device h f cp = cp\<lparr>cp_deviceHandlers := map (\<lambda>(k, dev). (k, if k = h then f dev else dev)) (cp_deviceHandlers cp)\<rparr>"

text \<open>What the service and the receiver threads do to the rings of the ports of a device.\<close>

definition with_rings ::
  "(u32 \<Rightarrow> MidiSharedRing \<Rightarrow> MidiSharedRing) \<Rightarrow> (u32 \<Rightarrow> MidiSharedRing \<Rightarrow> MidiSharedRing) \<Rightarrow> MidiDevicePrivate \<Rightarrow> MidiDevicePrivate" where
  "with_rings f g dev =
     dev\<lparr>dp_inputPortsMap := map (\<lambda>(p, e). (p, map_option (\<lambda>port. port\<lparr>ip_ring := map_option (f p) (ip_ring port)\<rparr>) e)) (dp_inputPortsMap dev),
         dp_outputPortsMap := map (\<lambda>(p, e). (p, map_option (\<lambda>port. port\<lparr>op_ring := map_option (g p) (op_ring port)\<rparr>) e)) (dp_outputPortsMap dev)\<rparr>"

text \<open>The allocator returns no address of a live object.\<close>

definition free_handle :: "nat \<Rightarrow> 's MidiClientPrivate \<Rightarrow> bool" where
  "free_handle h cp \<longleftrightarrow> \<not> has_key (cp_deviceHandlers cp) h"

inductive client_step :: "'s MidiClientPrivate \<Rightarrow> 's MidiClientPrivate \<Rightarrow> bool" where
  open_device: "free_handle h cp \<Longrightarrow> OH_MIDIClient_OpenDevice h d out (Some cp) s = (ret, dev, Some cp', s') \<Longrightarrow> client_step cp cp'"
| close_device: "OH_MIDIClient_CloseDevice caller dev (Some cp) s = Some (ret, Some cp', s') \<Longrightarrow> client_step cp cp'"
| open_input: "OH_MIDIDevice_OpenInputPort dev descriptor callback cp s = Some (ret, r, cp', s') \<Longrightarrow> client_step cp cp'"
| open_output: "OH_MIDIDevice_OpenOutputPort dev descriptor cp s = Some (ret, r, cp', s') \<Longrightarrow> client_step cp cp'"
| close_input: "OH_MIDIDevice_CloseInputPort caller dev p cp s = Some (ret, r, cp', s') \<Longrightarrow> client_step cp cp'"
| close_output: "OH_MIDIDevice_CloseOutputPort dev p cp s = Some (ret, r, cp', s') \<Longrightarrow> client_step cp cp'"
| send_events: "OH_MIDIDevice_Send heap dev p events n written cp s = Some (ret, r', cp', s') \<Longrightarrow> client_step cp cp'"
| send_sysex: "OH_MIDIDevice_SendSysEx fuel env start dev p bytes n cp s = Some (ret, r, cp', s') \<Longrightarrow> client_step cp cp'"
| device_changed: "Client_NotifyDeviceChange change devInfo cp = (ret, calls, cp') \<Longrightarrow> client_step cp cp'"
| service_error: "Client_NotifyError code cp = (ret, calls, cp') \<Longrightarrow> client_step cp cp'"
| ble_opened: "free_handle h cp \<Longrightarrow> NotifyDeviceOpened h callback opened devInfo cp = (ret, calls, cp') \<Longrightarrow> client_step cp cp'"
| flush: "OH_MIDIDevice_FlushOutputPort dev p cp s = Some (ret, r, cp', s') \<Longrightarrow> client_step cp cp'"
| destroying: "Client_DestroyMidiClient calls cp s = (ret, cp', s') \<Longrightarrow> client_step cp cp'"
| rings: "client_step cp (update_device h (with_rings f g) cp)"
| invalid: "client_step cp (update_device h SetInValid cp)"
| tombstones: "find_key (cp_deviceHandlers cp) h = Some dev \<Longrightarrow> \<not> dp_isValid dev \<Longrightarrow> f \<in> {tombstone_input, tombstone_output} \<Longrightarrow>
     client_step cp (update_device h f cp)"

text \<open>A client that \<open>OH_MIDIClient_Create\<close> returned, with a proxy that keeps to its interface, and all steps from there on.\<close>

inductive client_reachable :: "'s MidiClientPrivate \<Rightarrow> bool" where
  created: "OH_MIDIClient_Create calls create out callbacks s = (OH_MIDI_STATUS_OK, Some cp, s') \<Longrightarrow>
     (\<And>ipc. msc_ipc (cp_service cp) = Some ipc \<Longrightarrow> midi_service ipc) \<Longrightarrow> client_reachable cp"
| step: "client_reachable cp \<Longrightarrow> client_step cp cp' \<Longrightarrow> client_reachable cp'"

end
