(* ===== verification/Client_Ports_Properties.thy ===== *)
theory Client_Ports_Properties
  imports Client_Ports "HOL-Library.Sublist"
begin

text \<open>
  What the ports on the side of the application promise: what a sent event and a system exclusive message become in the
  ring while the service takes events out of it, and what the callback gets. The relation \<open>queue_after\<close> says
  that a ring holds the rest of a list of events, whose first part has been taken.
\<close>

section \<open>Sending a system exclusive message\<close>

text \<open>The service only takes events out of the ring, from the front.\<close>

definition queue_after :: "u32 \<Rightarrow> MidiEvent list \<Rightarrow> MidiSharedRing \<Rightarrow> bool" where
  "queue_after cap es ring \<longleftrightarrow> capacity ring = cap \<and> (\<exists>q. ring_queue ring q \<and> suffix q es)"

definition only_takes :: "SendEnv \<Rightarrow> bool" where
  "only_takes env \<longleftrightarrow>
     (\<forall>n cap es. (\<forall>ring. queue_after cap es ring \<longrightarrow> queue_after cap es (peer_at env n ring)) \<and> env_keeps (queue_after cap es) (futex_at env n))"

text \<open>Room for one packet of a message, and a service that makes it before every write to a ring of the capacity \<open>cap\<close>.\<close>

definition packet_room :: "MidiSharedRing \<Rightarrow> bool" where
  "packet_room ring \<longleftrightarrow> ring_room \<lparr>timestamp = 0, ev_length = SYSEX7_WORD_COUNT, ev_data = Some (ptr_to [0, 0] (\<lambda>_. 0))\<rparr> ring"

definition makes_room :: "SendEnv \<Rightarrow> u32 \<Rightarrow> bool" where
  "makes_room env cap \<longleftrightarrow> (\<forall>n ring es. ring_queue ring es \<and> capacity ring = cap \<longrightarrow> packet_room (peer_at env n ring))"

definition is_packet :: "MidiEventInner \<Rightarrow> bool" where
  "is_packet event \<longleftrightarrow> ev_length event = SYSEX7_WORD_COUNT \<and> ev_data event \<noteq> None"

lemma queue_after_write:
  assumes "queue_after cap es ring" "n \<le> length events" "TryWriteEvents (Some events) n notify ring = (status, k, ring')"
  shows "k \<le> n \<and> queue_after cap (es @ map event_of (take k events)) ring' \<and> status = (if k = n then OK else WOULD_BLOCK)"
proof -
  obtain q where q: "ring_queue ring q" "suffix q es" "capacity ring = cap" using assms(1) by (auto simp: queue_after_def)
  show ?thesis using TryWriteEvents_queue [OF q(1) assms(2), of notify] q(2,3) TryWriteEvents_capacity [of "Some events" n notify ring]
    by (auto simp: assms(3) queue_after_def simp del: TryWriteEvents_capacity)
qed

text \<open>A wait for space can fail, in another way than by time.\<close>

definition wait_fails :: "SendEnv \<Rightarrow> bool" where
  "wait_fails env \<longleftrightarrow> (\<exists>k ring. fst (WaitForSpace (futex_at env k) WAIT_SLICE_NS SYSEX7_RECORD ring) \<notin> {FUTEX_TIMEOUT, FUTEX_SUCCESS})"

lemma SendLoop_result:
  assumes "only_takes env" "queue_after cap (es @ map event_of (take w events)) ring" "w \<le> length events"
    "SendLoop fuel env round start events (length events) w ring = Some (ret, n, ring')"
  shows "n \<le> length events \<and> queue_after cap (es @ map event_of (take n events)) ring'
     \<and> (ret = OH_MIDI_STATUS_OK \<longleftrightarrow> n = length events)
     \<and> ret \<in> {OH_MIDI_STATUS_OK, OH_MIDI_STATUS_TIMEOUT, OH_MIDI_STATUS_SYSTEM_ERROR}
     \<and> (ret = OH_MIDI_STATUS_TIMEOUT \<longrightarrow> (\<exists>k. clock_at env k - start > MAX_TIMEOUT_NS))
     \<and> (ret = OH_MIDI_STATUS_SYSTEM_ERROR \<longrightarrow> wait_fails env)"
  using assms(2-4)
proof (induction fuel arbitrary: round w ring)
  case (Suc fuel)
  show ?case
  proof (cases "w < length events \<and> \<not> clock_at env round - start > MAX_TIMEOUT_NS")
    case True
    obtain st m ring1 where T: "TryWriteEvents (Some (drop w events)) (length events - w) True (peer_at env round ring) = (st, m, ring1)"
      using prod_cases3 by blast
    have "queue_after cap (es @ map event_of (take w events)) (peer_at env round ring)"
      using assms(1) Suc.prems(1) by (simp add: only_takes_def)
    note W = queue_after_write [OF this _ T]
    have t: "take w events @ take m (drop w events) = take (w + m) events" by (simp add: take_add)
    have 1: "m \<le> length events - w" "queue_after cap (es @ map event_of (take (w + m) events)) ring1"
      "st = (if w + m = length events then OK else WOULD_BLOCK)"
      using W Suc.prems(2) by (auto simp: t [symmetric])
    obtain wret ring2 where F: "WaitForSpace (futex_at env round) WAIT_SLICE_NS SYSEX7_RECORD ring1 = (wret, ring2)" by fastforce
    let ?P = "queue_after cap (es @ map event_of (take (w + m) events))"
    have "env_keeps ?P (futex_at env round)" using assms(1) by (simp add: only_takes_def)
    then have "?P (snd (WaitForSpace (futex_at env round) WAIT_SLICE_NS SYSEX7_RECORD ring1))"
      using FutexWait_keeps [of ?P "futex_at env round" ring1] 1(2) by (simp add: WaitForSpace_def)
    then have 2: "?P ring2" using F by simp
    consider "w + m = length events" | "w + m < length events" "m \<noteq> 0"
      | "w + m < length events" "m = 0" "wret \<in> {FUTEX_TIMEOUT, FUTEX_SUCCESS}"
      | "w + m < length events" "m = 0" "wret \<notin> {FUTEX_TIMEOUT, FUTEX_SUCCESS}"
      using 1(1) Suc.prems(2) by linarith
    then show ?thesis
    proof cases
      case 1: 1
      then show ?thesis using Suc.prems(3) True 1(1) \<open>queue_after cap (es @ map event_of (take (w + m) events)) ring1\<close>
        by (auto simp: T Let_def status_defs)
    next
      case 2
      then have "SendLoop fuel env (round + 1) start events (length events) (w + m) ring1 = Some (ret, n, ring')"
        using Suc.prems(3) True 1(3) by (simp add: T Let_def)
      then show ?thesis using Suc.IH 1(2) 2 by (meson less_imp_le)
    next
      case 3
      then have "SendLoop fuel env (round + 1) start events (length events) (w + m) ring2 = Some (ret, n, ring')"
        using Suc.prems(3) True 1(3) by (auto simp: T F Let_def)
      then show ?thesis using Suc.IH 2 3 by (meson less_imp_le)
    next
      case 4
      have "wait_fails env" unfolding wait_fails_def using 4(3) F by (intro exI [of _ round] exI [of _ ring1]) simp
      then show ?thesis using 4 Suc.prems(3) True 1(3) 2 by (auto simp: T F Let_def status_defs)
    qed
  next
    case False
    then show ?thesis using Suc.prems by (auto simp: status_defs split: if_splits)
  qed
qed simp

lemma WriteLoop_le: "n \<le> fst (WriteLoop events n r w ring)"
proof (induction events arbitrary: n r w ring)
  case (Cons event events)
  have "n \<le> fst (WriteLoop events (n + 1) r' w' ring')" for r' w' ring' using Cons [of "n + 1"] by (meson add_leD1)
  then show ?case by (auto simp: Let_def split: option.split prod.split)
qed simp

text \<open>With room for one packet at least one of the packets is written.\<close>

lemma packet_written:
  assumes "ring_queue ring es" "packet_room ring" "is_packet event" "0 < n"
    "TryWriteEvents (Some (event # events)) n True ring = (status, k, ring')"
  shows "k \<noteq> 0"
proof -
  obtain n' where n: "n = Suc n'" using assms(4) by (cases n) simp_all
  have "ring_room event ring" using assms(2,3) by (simp add: packet_room_def ring_room_def is_packet_def)
  then have "fst (ring_put event ring)" using ring.put_room [OF assms(1)] by simp
  then obtain ring1 where O: "TryWriteEvent event True ring = (OK, ring1)" by (auto simp: ring_put_def split: prod.splits)
  have c: "ValidateWriteArgs (Some (event # events)) n ring = ValidateWriteArgs (Some [event]) 1 ring"
    using n by (simp add: ValidateWriteArgs_def)
  have W: "fst (WriteLoop [event] 0 (readPosition ring) (writePosition ring) ring) \<noteq> 0"
    "ValidateWriteArgs (Some [event]) 1 ring = OK" "IsValidOffset (readPosition ring) (capacity ring)" "IsValidOffset (writePosition ring) (capacity ring)"
    using O by (auto simp: TryWriteEvent_def TryWriteEvents_def Let_def split: prod.splits if_splits simp del: WriteLoop.simps)
  obtain m ring2 where E: "WriteLoop (event # take n' events) 0 (readPosition ring) (writePosition ring) ring = (m, ring2)" by fastforce
  have "0 < fst (WriteLoop es (Suc 0) r w ring2)" for es r w ring2 using WriteLoop_le [of "Suc 0"] by (meson Suc_le_lessD)
  then have "fst (WriteLoop (event # take n' events) 0 (readPosition ring) (writePosition ring) ring) \<noteq> 0"
    using W(1) by (auto simp: Let_def split: option.splits prod.splits if_splits)
  then have m: "m \<noteq> 0" unfolding E by simp
  have "ValidateWriteArgs (Some (event # events)) n ring = OK" using c W(2) by simp
  moreover have "take n (event # events) = event # take n' events" by (simp add: n)
  ultimately have "k = m" using assms(5) W(3,4) m E
    by (simp add: TryWriteEvents_def Let_def del: WriteLoop.simps take_Suc_Cons)
  then show ?thesis using m by simp
qed

text \<open>So a service that makes room, and a clock that is not too fast, let all packets pass.\<close>

lemma SendLoop_succeeds:
  assumes "only_takes env" "makes_room env cap" "list_all is_packet events"
    "queue_after cap (es @ map event_of (take w events)) ring" "w \<le> length events"
    "\<forall>k<round + (length events - w). clock_at env k - start \<le> MAX_TIMEOUT_NS"
    "SendLoop fuel env round start events (length events) w ring = Some (ret, n, ring')"
  shows "ret = OH_MIDI_STATUS_OK"
  using assms(4-7)
proof (induction fuel arbitrary: round w ring)
  case (Suc fuel)
  show ?case
  proof (cases "w < length events")
    case True
    then have t: "\<not> clock_at env round - start > MAX_TIMEOUT_NS" using Suc.prems(3) by (simp add: not_less)
    obtain st m ring1 where T: "TryWriteEvents (Some (drop w events)) (length events - w) True (peer_at env round ring) = (st, m, ring1)"
      using prod_cases3 by blast
    have q: "queue_after cap (es @ map event_of (take w events)) (peer_at env round ring)"
      using assms(1) Suc.prems(1) by (simp add: only_takes_def)
    note W = queue_after_write [OF q _ T]
    have tk: "take w events @ take m (drop w events) = take (w + m) events" by (simp add: take_add)
    then have 1: "m \<le> length events - w" "queue_after cap (es @ map event_of (take (w + m) events)) ring1"
      "st = (if w + m = length events then OK else WOULD_BLOCK)"
      using W Suc.prems(2) by (auto simp: tk [symmetric])
    have room: "packet_room (peer_at env round ring)"
      using assms(2) Suc.prems(1) unfolding makes_room_def queue_after_def by blast
    obtain e rest where d: "drop w events = e # rest" "is_packet e"
      using True assms(3) by (metis Cons_nth_drop_Suc list_all_length)
    have "m \<noteq> 0" using packet_written [of "peer_at env round ring" _ e "length events - w" rest] room d True T q
      unfolding queue_after_def by fastforce
    then show ?thesis
      using Suc.prems(3,4) True t 1 Suc.IH [OF 1(2), of "round + 1"] by (auto simp: T Let_def split: if_splits)
  qed (use Suc.prems in simp)
qed simp

lemma SendLoop_ends:
  assumes "clock_at env late - start > MAX_TIMEOUT_NS" "round \<le> late" "late - round < fuel"
  shows "SendLoop fuel env round start events n w ring \<noteq> None"
  using assms(2,3)
proof (induction fuel arbitrary: round w ring)
  case (Suc fuel)
  show ?case
  proof (cases "round = late")
    case False
    then have "SendLoop fuel env (round + 1) start events n w' ring' \<noteq> None" for w' ring'
      using Suc.prems Suc.IH [of "round + 1"] by simp
    then show ?thesis by (auto simp: Let_def split_beta)
  qed (use assms(1) in simp)
qed simp

section \<open>The packets of a system exclusive message\<close>

definition sysex_chunk :: "u8 list \<Rightarrow> nat \<Rightarrow> u8 list" where
  "sysex_chunk bs i = take 6 (drop (6 * i) bs)"

definition sysex_count :: "nat \<Rightarrow> nat" where
  "sysex_count n = (n + 5) div 6"

definition sysex_status :: "nat \<Rightarrow> nat \<Rightarrow> u8" where
  "sysex_status n i = (if n = 1 then 0 else if i = 0 then 1 else if i + 1 = n then 3 else 2)"

definition sysex_words :: "u8 \<Rightarrow> u8 \<Rightarrow> u8 list \<Rightarrow> u32 list" where
  "sysex_words g s c = [sx_word0 g s (of_nat (length c)) (pad6 c 1) (pad6 c 0),
     sx_word1 (pad6 c 5) (pad6 c 4) (pad6 c 3) (pad6 c 2)]"

definition sysex_events :: "u8 \<Rightarrow> u8 list \<Rightarrow> MidiEvent list" where
  "sysex_events g bs = (let n = sysex_count (length bs)
     in map (\<lambda>i. \<lparr>me_timestamp = 0, me_words = sysex_words g (sysex_status n i) (sysex_chunk bs i)\<rparr>) [0..<n])"

lemma sysex_chunk_length: "length (sysex_chunk bs i) \<le> 6"
  by (simp add: sysex_chunk_def)

lemma sysex_status_less: "sysex_status n i < 4"
  by (simp add: sysex_status_def)

lemma sysex_chunks: "concat (map (sysex_chunk bs) [0..<n]) = take (6 * n) bs"
proof (induction n)
  case (Suc n)
  have "take (6 * Suc n) bs = take (6 * n) bs @ take 6 (drop (6 * n) bs)"
    using take_add [of "6 * n" 6 bs] by (simp add: add.commute)
  moreover have "sysex_chunk bs n = take 6 (drop (6 * n) bs)" by (simp add: sysex_chunk_def)
  ultimately show ?case by (simp add: Suc)
qed simp

lemma sysex_chunks_all: "concat (map (sysex_chunk bs) [0..<sysex_count (length bs)]) = bs"
  unfolding sysex_chunks sysex_count_def by (rule take_all) linarith

lemma read_two: "read_words (ptr_to [a, b] r) 2 = [a, b]"
  by (simp add: read_words_def ptr_to_def numeral_2_eq_2)

lemma sysex_packet:
  assumes "unat byteSize \<le> 65535" "i < sysex_count (unat byteSize)" "g < 16"
  shows "event_of (PrepareSysExPackets g b byteSize (of_nat (sysex_count (unat byteSize))) ! i)
    = sysex_events g (map b [0..<unat byteSize]) ! i"
proof -
  define n where "n = sysex_count (unat byteSize)"
  have nb: "n \<le> 10923" "6 * i < unat byteSize" "i < n" using assms(1,2) by (simp_all add: n_def sysex_count_def)
  have un: "unat (of_nat n :: u32) = n" using nb by (simp add: unat_of_nat)
  have off: "unat (of_nat i * of_nat MAX_PACKET_BYTES :: u32) = 6 * i"
    using nb by (simp add: MAX_PACKET_BYTES_def unat_word_ariths unat_of_nat)
  then have "of_nat i * of_nat MAX_PACKET_BYTES \<le> byteSize" using nb(2) by (simp add: word_le_nat_alt)
  then have rem: "unat (byteSize - of_nat i * of_nat MAX_PACKET_BYTES) = unat byteSize - 6 * i"
    using off by (simp add: unat_sub)
  have min: "unat (min (of_nat MAX_PACKET_BYTES) (byteSize - of_nat i * of_nat MAX_PACKET_BYTES)) = min 6 (unat byteSize - 6 * i)"
    using rem by (simp add: min_def word_le_nat_alt MAX_PACKET_BYTES_def)
  have st: "GetSysexStatus (of_nat i) (of_nat n) = sysex_status n i"
  proof -
    have "(of_nat n = (1 :: u32)) = (n = 1)" "(of_nat i = (0 :: u32)) = (i = 0)" "(of_nat i + 1 = (of_nat n :: u32)) = (i + 1 = n)"
      using nb by (simp_all add: word_unat_eq_iff unat_of_nat unat_word_ariths)
    then show ?thesis by (simp add: GetSysexStatus_def sysex_status_def SYSEX7_defs)
  qed
  have ch: "map (\<lambda>k. b (6 * i + k)) [0..<min 6 (unat byteSize - 6 * i)] = sysex_chunk (map b [0..<unat byteSize]) i"
    by (rule nth_equalityI) (auto simp: sysex_chunk_def)
  have s16: "sysex_status n i < 16" using sysex_status_less [of n i] by (simp add: word_less_nat_alt)
  show ?thesis
    unfolding PrepareSysExPackets_def sysex_events_def Let_def
    using nb(3) sysex_chunk_length
    by (simp add: un n_def [symmetric] off min ch st PackSysEx7_words [OF assms(3) s16] event_of_def sysex_words_def SYSEX7_WORD_COUNT_def read_two)
qed

lemma sysex_packets:
  assumes "unat byteSize \<le> 65535" "g < 16"
  shows "map event_of (PrepareSysExPackets g b byteSize (of_nat (sysex_count (unat byteSize))))
    = sysex_events g (map b [0..<unat byteSize])"
proof (rule nth_equalityI)
  have "unat (of_nat (sysex_count (unat byteSize)) :: u32) = sysex_count (unat byteSize)"
    using assms(1) by (simp add: sysex_count_def unat_of_nat)
  then show l: "length (map event_of (PrepareSysExPackets g b byteSize (of_nat (sysex_count (unat byteSize)))))
    = length (sysex_events g (map b [0..<unat byteSize]))"
    by (simp add: PrepareSysExPackets_def sysex_events_def Let_def)
  fix i
  assume "i < length (map event_of (PrepareSysExPackets g b byteSize (of_nat (sysex_count (unat byteSize)))))"
  then show "map event_of (PrepareSysExPackets g b byteSize (of_nat (sysex_count (unat byteSize)))) ! i
    = sysex_events g (map b [0..<unat byteSize]) ! i"
    using sysex_packet [OF assms(1) _ assms(2)] l by (simp add: sysex_events_def Let_def)
qed

section \<open>What a device makes of them\<close>

definition scrambled :: "u8 list \<Rightarrow> u8 list" where
  "scrambled c = take (length c) [pad6 c 1, pad6 c 0, pad6 c 5, pad6 c 4, pad6 c 3, pad6 c 2]"

lemma scrambled_shapes:
  "scrambled [x0, x1, x2, x3, x4, x5] = [x1, x0, x5, x4, x3, x2]" "scrambled [x0, x1, x2, x3, x4] = [x1, x0, 0, x4, x3]"
  "scrambled [x0, x1, x2, x3] = [x1, x0, 0, 0]" "scrambled [x0, x1, x2] = [x1, x0, 0]"
  "scrambled [x0, x1] = [x1, x0]" "scrambled [x0] = [0]"
  by (simp_all add: scrambled_def pad6_def)

lemma Type3_sysex:
  assumes "g < 16" "s < 4" "length c \<le> 6"
  shows "ProcessUmpLoop st (sysex_words g s c @ rest) =
    (case ProcessUmpLoop (st\<lparr>reverse_sysex_active := (if s = 1 then True else if s = 2 then reverse_sysex_active st else False)\<rparr>) rest of
       (st', out) \<Rightarrow> (st', (if sx_bytes st s (scrambled c) = [] then [] else [sx_bytes st s (scrambled c)]) @ out))"
proof -
  have s16: "s < 16" and n16: "(of_nat (length c) :: u8) < 16" and un: "unat (of_nat (length c) :: u8) = length c"
    using assms by (auto simp: word_less_nat_alt take_bit_eq_mod unat_of_nat)
  have s': "s = 0 \<or> s = 1 \<or> s = 2 \<or> s = 3" using assms(2) by (auto simp: word_less_nat_alt word_unat_eq_iff)
  note sel = sx_word0_sel [OF assms(1) s16 n16]
  have mt: "ucast (drop_bit 28 (sx_word0 g s (of_nat (length c)) a b) AND 0x0F) = (3 :: u8)" for a b
    using sel(1) by (simp add: MessageType_def)
  have "ProcessUmpType3 (sx_word0 g s (of_nat (length c)) (pad6 c 1) (pad6 c 0)) (sx_word1 (pad6 c 5) (pad6 c 4) (pad6 c 3) (pad6 c 2)) st =
     (st\<lparr>reverse_sysex_active := (if s = 1 then True else if s = 2 then reverse_sysex_active st else False)\<rparr>,
      if sx_bytes st s (scrambled c) = [] then [] else [sx_bytes st s (scrambled c)])"
    using s' by (auto simp: ProcessUmpType3_def Let_def sel(3-6) sx_word1_sel un sx_bytes_def scrambled_def simp del: One_nat_def)
  then show ?thesis by (simp add: sysex_words_def mt)
qed

lemma sysex_tail:
  assumes "g < 16" "reverse_sysex_active st" "0 < i" "i < n"
  shows "concat (snd (ProcessUmpLoop st (concat (map (\<lambda>j. sysex_words g (sysex_status n j) (sysex_chunk bs j)) [i..<n]))))
    = concat (map (\<lambda>j. scrambled (sysex_chunk bs j)) [i..<n]) @ [0xF7]"
  using assms(2-4)
proof (induction "n - i" arbitrary: i st)
  case (Suc k)
  have u: "[i..<n] = i # [Suc i..<n]" using Suc.prems(3) by (simp add: upt_rec)
  note T = Type3_sysex [OF assms(1) sysex_status_less sysex_chunk_length, of st n i bs i]
  show ?case
  proof (cases "Suc i = n")
    case True
    then have "sysex_status n i = 3" using Suc.prems(2) by (simp add: sysex_status_def)
    then show ?thesis using True Type3_sysex [OF assms(1) _ sysex_chunk_length, of 3 st bs i "[]"]
      by (simp add: u sx_bytes_def)
  next
    case False
    then have s: "sysex_status n i = 2" using Suc.prems(2,3) by (simp add: sysex_status_def)
    have "st\<lparr>reverse_sysex_active := True\<rparr> = st" using Suc.prems(1) by simp
    then show ?thesis using s False Suc.hyps Suc.prems Suc.hyps(1) [of "Suc i" st]
      by (simp add: u Type3_sysex [OF assms(1) _ sysex_chunk_length] sx_bytes_def split_beta)
  qed
qed simp

lemma sysex_received:
  assumes "g < 16" "bs \<noteq> []"
  shows "concat (snd (ProcessUmpLoop st (concat (map me_words (sysex_events g bs)))))
    = [0xF0] @ concat (map (\<lambda>i. scrambled (sysex_chunk bs i)) [0..<sysex_count (length bs)]) @ [0xF7]"
proof -
  define n where "n = sysex_count (length bs)"
  have n: "0 < n" using assms(2) by (cases bs) (simp_all add: n_def sysex_count_def)
  have m: "map me_words (sysex_events g bs) = map (\<lambda>j. sysex_words g (sysex_status n j) (sysex_chunk bs j)) [0..<n]"
    by (simp add: sysex_events_def n_def Let_def)
  have u: "[0..<n] = 0 # [1..<n]" using n by (simp add: upt_rec)
  show ?thesis
  proof (cases "n = 1")
    case True
    then show ?thesis unfolding m n_def [symmetric]
      using Type3_sysex [OF assms(1) _ sysex_chunk_length, of 0 st bs 0 "[]"] by (simp add: sysex_status_def sx_bytes_def)
  next
    case False
    then have s: "sysex_status n 0 = 1" by (simp add: sysex_status_def)
    have t: "concat (snd (ProcessUmpLoop (st\<lparr>reverse_sysex_active := True\<rparr>)
        (concat (map (\<lambda>j. sysex_words g (sysex_status n j) (sysex_chunk bs j)) [1..<n]))))
      = concat (map (\<lambda>j. scrambled (sysex_chunk bs j)) [1..<n]) @ [0xF7]"
      using False n by (intro sysex_tail [OF assms(1)]) simp_all
    show ?thesis unfolding m n_def [symmetric] u
      using t by (simp add: s Type3_sysex [OF assms(1) _ sysex_chunk_length] sx_bytes_def split_beta)
  qed
qed

section \<open>Sending events\<close>

text \<open>
  The words of a sent event: a MIDI 2.0 channel voice message on a port to a MIDI 1.0 device becomes the one word of
  the converted message followed by the first word behind its block; all others stay as they are.
\<close>

definition midi2_voice :: "u32 list \<Rightarrow> bool" where
  "midi2_voice ws \<longleftrightarrow> length ws = 2 \<and> MessageType (ws ! 0) = 4 \<and> fst (ConvertMidi2ToMidi1 (Some ws) [])"

definition sent_words :: "(nat \<Rightarrow> u32) \<Rightarrow> ProtocolDirection \<Rightarrow> u32 list \<Rightarrow> u32 list" where
  "sent_words behind dir ws =
     (if dir = MIDI_2_0_TO_MIDI_1_0 \<and> midi2_voice ws then [hd (snd (ConvertMidi2ToMidi1 (Some ws) [])), behind 0] else ws)"

definition sent_event :: "(nat \<Rightarrow> nat \<Rightarrow> u32) \<Rightarrow> ProtocolDirection \<Rightarrow> MidiEvent list \<Rightarrow> nat \<Rightarrow> MidiEvent" where
  "sent_event heap dir es i = \<lparr>me_timestamp = me_timestamp (es ! i), me_words = sent_words (heap i) dir (me_words (es ! i))\<rparr>"

lemma Convert2to1_words:
  assumes "ConvertMidi2ToMidi1 (Some ws) [] = (True, out)"
  shows "if midi2_voice ws then \<exists>w. out = [w] else out = ws"
proof -
  have ne: "ws \<noteq> []" using assms by (auto simp: ConvertMidi2ToMidi1_def ConvertOne_def)
  consider "MessageType (ws ! 0) = 1 \<or> MessageType (ws ! 0) = 3" | "MessageType (ws ! 0) = 4"
    using assms ne by (auto simp: ConvertMidi2ToMidi1_def ConvertOne_def Let_def split: if_splits)
  then show ?thesis
  proof cases
    case 1
    then show ?thesis using assms ne
      by (cases ws) (auto simp: midi2_voice_def ConvertMidi2ToMidi1_def ConvertOne_def Let_def split: if_splits)
  next
    case 2
    then have C: "ConvertMidi2ChannelVoiceToMidi1 ws [] = (True, out)" "length ws = 2"
      using assms ne by (auto simp: ConvertMidi2ToMidi1_def ConvertOne_def ConvertMidi2ChannelVoiceToMidi1_def Let_def split: if_splits)
    then obtain sn d1 w1 m where "ConvertMidi2ChannelVoiceToMidi1Inner sn d1 w1 m [] = (True, out)"
      by (auto simp: ConvertMidi2ChannelVoiceToMidi1_def Let_def)
    then have "\<exists>w. out = [w]" using Convert2to1_shape [of sn d1 w1 m "[]"] by auto
    then show ?thesis using 2 C(2) assms by (simp add: midi2_voice_def)
  qed
qed

lemma ConvertForSend_event:
  assumes "ev_data event = Some p"
  shows "event_of (ConvertForSend heap dir i event)
    = \<lparr>me_timestamp = timestamp event, me_words = sent_words (heap i) dir (read_words p (ev_length event))\<rparr>"
proof (cases "dir = MIDI_2_0_TO_MIDI_1_0")
  case True
  let ?ws = "read_words p (ev_length event)"
  obtain ok out where C: "ConvertMidi2ToMidi1 (Some ?ws) [] = (ok, out)" by fastforce
  show ?thesis
  proof (cases ok)
    case ok: True
    note W = Convert2to1_words [of ?ws out]
    show ?thesis
    proof (cases "midi2_voice ?ws")
      case m: True
      obtain w where w: "out = [w]" using W C ok m by auto
      have "ev_length event = 2" using m by (simp add: midi2_voice_def)
      then show ?thesis using m C ok w assms True
        by (simp add: ConvertForSend_def event_of_def sent_words_def read_words_def ptr_to_def numeral_2_eq_2)
    next
      case m: False
      then have "out = ?ws" using W C ok by auto
      then show ?thesis using m C ok assms True
        by (simp add: ConvertForSend_def event_of_def sent_words_def) (metis length_read_words read_words_ptr_to_all)
    qed
  next
    case False
    then have "\<not> midi2_voice ?ws" using C by (simp add: midi2_voice_def)
    then show ?thesis using C False assms True by (simp add: ConvertForSend_def event_of_def sent_words_def)
  qed
qed (use assms in \<open>simp add: ConvertForSend_def event_of_def sent_words_def\<close>)

section \<open>Receiving events\<close>

definition received_events :: "ProtocolDirection \<Rightarrow> MidiEvent \<Rightarrow> MidiEvent list" where
  "received_events dir e = map (\<lambda>p. \<lparr>me_timestamp = me_timestamp e, me_words = ConvertPacket dir p\<rparr>) (ump_packets (me_words e))"

lemma ReceivedEvents_packets: "ReceivedEvents dir e = received_events dir e"
  using arg_cong [OF SplitUmpPackets_packets [of "me_words e"], of "map (\<lambda>p. \<lparr>me_timestamp = me_timestamp e, me_words = ConvertPacket dir p\<rparr>)"]
  by (simp add: ReceivedEvents_def received_events_def comp_def)

lemma ring_queue_fits: "ring_queue ring es \<Longrightarrow> length es < 400"
  using ring_queue_length [of ring es] by (simp add: ring_queue_def Let_def)

lemma ConvertPacket_ok:
  assumes "ump_packet_ok p"
  shows "ump_packet_ok (ConvertPacket dir p)"
proof -
  have "ump_packet_ok out" if "ConvertOne d (Some p) [] = (True, out)" for d out
    using ConvertOne_packet [OF assms, where dir = d and out = "[]"] that by simp
  then show ?thesis using assms
    by (auto simp: ConvertPacket_def ConvertMidi1ToMidi2_def ConvertMidi2ToMidi1_def split: prod.splits)
qed

lemma received_whole: "list_all (\<lambda>e. ump_packet_ok (me_words e)) (received_events dir e)"
  using ump_packets_ok by (auto simp: received_events_def list_all_iff intro!: ConvertPacket_ok)

lemma SendSysEx_ends:
  assumes "clock_at env late - start > MAX_TIMEOUT_NS"
  shows "SendSysEx (late + 1) env start portIndex bytes byteSize port \<noteq> None"
proof -
  have "SendLoop (Suc late) env 0 start events n w ring \<noteq> None" for events n w ring
    by (rule SendLoop_ends [OF assms]) simp_all
  then show ?thesis
    by (simp add: SendSysEx_def SendSysExPackets_def Let_def del: SendLoop.simps not_None_eq split: option.split)
qed

lemma PrepareSysEx_packets:
  assumes "unat byteSize \<le> 65535"
  shows "length (PrepareSysExPackets g b byteSize (of_nat (sysex_count (unat byteSize)))) = sysex_count (unat byteSize)
    \<and> list_all is_packet (PrepareSysExPackets g b byteSize (of_nat (sysex_count (unat byteSize))))"
proof -
  have "unat (of_nat (sysex_count (unat byteSize)) :: u32) = sysex_count (unat byteSize)"
    using assms by (simp add: unat_of_nat sysex_count_def)
  then show ?thesis by (auto simp: PrepareSysExPackets_def list_all_iff is_packet_def Let_def split: prod.split)
qed

lemma SendSysEx_loop:
  assumes "0 < byteSize" "byteSize \<le> 65535" "portIndex < 16" "op_ring port = Some ring"
  shows "SendSysEx fuel env start portIndex (Some b) byteSize port
    = map_option (\<lambda>(ret, n, ring). (ret, n, port\<lparr>op_ring := Some ring\<rparr>))
       (SendLoop fuel env 0 start (PrepareSysExPackets (ucast portIndex) b byteSize (of_nat (sysex_count (unat byteSize))))
          (sysex_count (unat byteSize)) 0 ring)"
proof -
  let ?n = "sysex_count (unat byteSize)"
  have sz: "unat byteSize \<le> 65535" "0 < unat byteSize" using assms(1,2) by (simp_all add: word_le_nat_alt word_less_nat_alt)
  have total: "(byteSize + (of_nat MAX_PACKET_BYTES - 1)) div of_nat MAX_PACKET_BYTES = of_nat ?n"
    using sz by (simp add: word_unat_eq_iff MAX_PACKET_BYTES_def sysex_count_def unat_div unat_word_ariths unat_of_nat)
  have n: "unat (of_nat ?n :: u32) = ?n" "0 < ?n" using sz by (simp_all add: unat_of_nat sysex_count_def)
  have grp: "ucast (portIndex AND 0x0F) = (ucast portIndex :: u8)"
    using less_mask_eq [of portIndex 4] assms(3) by (simp add: and_0xF take_bit_eq_mask)
  have "(of_nat ?n :: u32) \<noteq> 0" using n by (metis less_irrefl unat_0)
  then show ?thesis
    using assms by (simp add: SendSysEx_def MAX_SYSEX_BYTE_SIZE_def PORT_GROUP_RANGE_def SendSysExPackets_def Let_def total grp n(1) not_le)
qed

section \<open>Concrete ports\<close>

lemma demo_env_keeps: "env_keeps (queue_after cap es) ring_futex"
proof -
  have "ring_queue (ring\<lparr>futexObj := v\<rparr>) q = ring_queue ring q" for ring :: MidiSharedRing and v q by (rule ring_queue_cong) simp_all
  then show ?thesis by (simp add: env_keeps_def ring_futex_def queue_after_def)
qed

text \<open>A service that takes everything out of the ring before each round, and a round every microsecond.\<close>

definition demo_send_env :: SendEnv where
  "demo_send_env = \<lparr>clock_at = (\<lambda>n. int n * 1000), peer_at = (\<lambda>_ ring. ring\<lparr>readPosition := writePosition ring\<rparr>),
     futex_at = (\<lambda>_. ring_futex)\<rparr>"

lemma taken_all: "ring_queue ring es \<Longrightarrow> ring_queue (ring\<lparr>readPosition := writePosition ring\<rparr>) []"
  by (simp add: ring_queue_def Let_def)

lemma demo_only_takes: "only_takes demo_send_env"
  by (auto simp: only_takes_def demo_send_env_def demo_env_keeps queue_after_def intro: taken_all exI [of _ "[]"])

lemma demo_makes_room: "makes_room demo_send_env 1024"
proof -
  have "packet_room (ring\<lparr>readPosition := writePosition ring\<rparr>)" if "capacity ring = 1024" for ring
    using that by (auto simp: packet_room_def ring_room_def Let_def SYSEX7_WORD_COUNT_def record_size_def
        AlignUpToHeader_def ring_defs)
  then show ?thesis by (simp add: makes_room_def demo_send_env_def)
qed

definition demo_output :: MidiOutputPort where
  "demo_output = \<lparr>op_ring = Some demo_ring, op_direction = MIDI_2_0_TO_MIDI_1_0\<rparr>"

lemma demo_output_ring: "op_ring demo_output = Some demo_ring"
  by (simp add: demo_output_def)

definition demo_voice :: MidiEventInner where
  "demo_voice = \<lparr>timestamp = 7, ev_length = 2, ev_data = Some (ptr_to [0x40913C00, 0x80000000] (\<lambda>_. 0))\<rparr>"

section \<open>Properties\<close>

text \<open>
  C27: an output port accepts a prefix of the events of a call, behind what its ring holds, and reports success
  exactly when that is all of them. On a port that converts to MIDI 1.0 an event of one MIDI 2.0 channel voice message is stored
  with its old length of two words: the converted word, and whatever lies in memory behind it.
\<close>

theorem send_events:
  assumes "op_ring port = Some ring" "ring_queue ring es" "0 < eventCount" "eventCount \<le> 1000"
    "unat eventCount \<le> length events" "\<forall>e\<in>set events. ev_data e \<noteq> None"
  shows "\<exists>n ring'. Send heap (Some events) eventCount True port =
       Some (if n = unat eventCount then OH_MIDI_STATUS_OK else OH_MIDI_STATUS_WOULD_BLOCK, Some n, port\<lparr>op_ring := Some ring'\<rparr>)
     \<and> n \<le> unat eventCount
     \<and> ring_queue ring' (es @ map (sent_event heap (op_direction port) (map event_of events)) [0..<n])"
proof -
  let ?inner = "map (\<lambda>i. ConvertForSend heap (op_direction port) i (events ! i)) [0..<unat eventCount]"
  obtain status n ring' where T: "TryWriteEvents (Some ?inner) (unat eventCount) True ring = (status, n, ring')"
    using prod_cases3 by blast
  have W: "n \<le> unat eventCount" "ring_queue ring' (es @ map event_of (take n ?inner))"
    "status = (if n = unat eventCount then OK else WOULD_BLOCK)"
    using TryWriteEvents_queue [OF assms(2), of "unat eventCount" ?inner True] by (simp_all add: T)
  have "map event_of (take n ?inner) = map (sent_event heap (op_direction port) (map event_of events)) [0..<n]"
  proof (rule nth_equalityI)
    fix i assume "i < length (map event_of (take n ?inner))"
    then have i: "i < n" "i < unat eventCount" "i < length events" using W(1) assms(5) by auto
    then obtain p where "ev_data (events ! i) = Some p" using assms(6) by fastforce
    with ConvertForSend_event [OF this] i show "map event_of (take n ?inner) ! i
      = map (sent_event heap (op_direction port) (map event_of events)) [0..<n] ! i"
      by (simp add: sent_event_def event_of_def)
  qed (use W(1) in simp)
  then show ?thesis using assms(1,3,4) W
    by (auto simp: Send_def MAX_EVENTS_NUMS_def Let_def T GetStatusCode_def)
qed

theorem send_events_witness:
  "\<exists>n ring'. Send (\<lambda>_ _. 0xDEADBEEF) (Some [demo_voice]) 1 True demo_output =
       Some (if n = 1 then OH_MIDI_STATUS_OK else OH_MIDI_STATUS_WOULD_BLOCK, Some n, demo_output\<lparr>op_ring := Some ring'\<rparr>)
     \<and> ring_queue ring' (take n [\<lparr>me_timestamp = 7, me_words = [0x20913C40, 0xDEADBEEF]\<rparr>])"
proof -
  have r: "read_words (ptr_to [0x40913C00, 0x80000000] (\<lambda>_. 0)) 2 = [0x40913C00, 0x80000000 :: u32]"
    by (rule read_two)
  have s: "sent_words (\<lambda>_. 0xDEADBEEF) MIDI_2_0_TO_MIDI_1_0 [0x40913C00, 0x80000000] = [0x20913C40, 0xDEADBEEF]"
    by code_simp
  have *: "sent_event (\<lambda>_ _. 0xDEADBEEF) MIDI_2_0_TO_MIDI_1_0 (map event_of [demo_voice]) 0
    = \<lparr>me_timestamp = 7, me_words = [0x20913C40, 0xDEADBEEF]\<rparr>"
    by (simp add: sent_event_def event_of_def demo_voice_def r s)
  obtain n ring' where "Send (\<lambda>_ _. 0xDEADBEEF) (Some [demo_voice]) 1 True demo_output =
       Some (if n = 1 then OH_MIDI_STATUS_OK else OH_MIDI_STATUS_WOULD_BLOCK, Some n, demo_output\<lparr>op_ring := Some ring'\<rparr>)"
    "n \<le> 1" "ring_queue ring' (map (sent_event (\<lambda>_ _. 0xDEADBEEF) MIDI_2_0_TO_MIDI_1_0 (map event_of [demo_voice])) [0..<n])"
    using send_events [of demo_output demo_ring "[]" 1 "[demo_voice]" "\<lambda>_ _. 0xDEADBEEF"] demo_ring_queue
    by (auto simp: demo_output_def demo_voice_def)
  moreover from this(2) have "n = 0 \<or> n = 1" by linarith
  ultimately show ?thesis using * by auto
qed



text \<open>
  C29: the packets that a system exclusive message of any length is sent as do not carry the message: the decoder of the service
  makes one message of them, of the same length, but of other bytes. In a packet of six bytes the first two are exchanged and the last four
  reversed. The last packet can be shorter: two bytes are exchanged; of one, three, four or five bytes only the first two,
  exchanged, and of five the last two, exchanged, can arrive, the other bytes are lost, and padding zeros stand in their place: a
  single byte is lost as well.
\<close>

theorem sysex_scrambled:
  assumes "0 < byteSize" "byteSize \<le> 65535" "g < 16"
  shows "concat (snd (ProcessUmp st (Some (concat (map (\<lambda>e. me_words (event_of e))
       (PrepareSysExPackets g b byteSize (of_nat (sysex_count (unat byteSize)))))))))
    = [0xF0] @ concat (map (\<lambda>i. scrambled (sysex_chunk (map b [0..<unat byteSize]) i)) [0..<sysex_count (unat byteSize)]) @ [0xF7]
    \<and> scrambled [x0, x1, x2, x3, x4, x5] = [x1, x0, x5, x4, x3, x2] \<and> scrambled [x0, x1, x2, x3, x4] = [x1, x0, 0, x4, x3]
    \<and> scrambled [x0, x1, x2, x3] = [x1, x0, 0, 0] \<and> scrambled [x0, x1, x2] = [x1, x0, 0]
    \<and> scrambled [x0, x1] = [x1, x0] \<and> scrambled [x0] = [0]"
proof -
  let ?bs = "map b [0..<unat byteSize]"
  have sz: "unat byteSize \<le> 65535" "0 < unat byteSize" using assms(1,2) by (simp_all add: word_le_nat_alt word_less_nat_alt)
  have w: "map (\<lambda>e. me_words (event_of e)) (PrepareSysExPackets g b byteSize (of_nat (sysex_count (unat byteSize))))
    = map me_words (sysex_events g ?bs)"
    using arg_cong [OF sysex_packets [OF sz(1) assms(3)], of "map me_words"] by (simp add: comp_def)
  have "sysex_events g ?bs \<noteq> []" using sz(2) by (simp add: sysex_events_def sysex_count_def Let_def)
  then have "concat (map me_words (sysex_events g ?bs)) \<noteq> []" by (auto simp: sysex_events_def sysex_words_def Let_def)
  then show ?thesis unfolding w using sysex_received [OF assms(3), of ?bs st] sz(2) scrambled_shapes by (simp add: ProcessUmp_def)
qed

text \<open>Nine bytes arrive as nine bytes, one of them a zero that nobody sent.\<close>

theorem sysex_scrambled_witness:
  "concat (snd (ProcessUmp new_UmpProcessor (Some (concat (map (\<lambda>e. me_words (event_of e))
       (PrepareSysExPackets 0 (\<lambda>i. of_nat i + 1) 9 (of_nat (sysex_count (unat (9 :: u32))))))))))
    = [0xF0, 2, 1, 6, 5, 4, 3, 8, 7, 0, 0xF7]"
proof -
  have "concat (map (\<lambda>i. scrambled (sysex_chunk (map (\<lambda>i. of_nat i + 1) [0..<unat (9 :: u32)]) i)) [0..<sysex_count (unat (9 :: u32))])
    = [2, 1, 6, 5, 4, 3, 8, 7, 0]" by code_simp
  with sysex_scrambled [of 9 0 new_UmpProcessor "\<lambda>i. of_nat i + 1"] show ?thesis by simp
qed

text \<open>
  C30: what the receiver thread hands to the application when it finds events in its ring: one call with all their packets,
  each whole, in order, with the timestamp of its event and converted where that is possible; the ring is empty
  afterwards, and there is no call when there is no whole packet.
\<close>

theorem receive_dispatch:
  assumes "ip_ring port = Some ring" "ip_callback port" "ring_queue ring es" "all_published (length es) ring"
  shows "\<exists>ring'. DrainRingAndDispatch 400 port =
       (let received = concat (map (received_events (ip_direction port)) es)
        in Some (if received = [] then [] else [received], port\<lparr>ip_ring := Some ring'\<rparr>))
     \<and> ring_queue ring' []
     \<and> list_all (\<lambda>e. ump_packet_ok (me_words e)) (concat (map (received_events (ip_direction port)) es))"
proof -
  obtain ring' where D: "DrainToBatch 400 0 ring = Some (es, ring')" "ring_queue ring' []"
    using DrainLoop_all [OF assms(3,4) ring_queue_fits [OF assms(3)], of 0 "[]"] by (auto simp: DrainToBatch_def)
  have "list_all (\<lambda>e. ump_packet_ok (me_words e)) (concat (map (received_events (ip_direction port)) es))"
    using received_whole [of "ip_direction port"] by (auto simp: list_all_iff)
  moreover have "ReceivedEvents dir = received_events dir" for dir by (rule ext) (rule ReceivedEvents_packets)
  ultimately show ?thesis using assms(1,2) D
    by (intro exI [of _ ring']) (simp add: DrainRingAndDispatch_def Let_def)
qed

definition demo_input :: "MidiSharedRing \<Rightarrow> MidiInputPort" where
  "demo_input ring = \<lparr>ip_running = True, ip_callback = True, ip_ring = Some ring, ip_thread = True, ip_direction = MIDI_1_0_TO_MIDI_2_0\<rparr>"

theorem receive_dispatch_witness:
  "\<exists>port'. DrainRingAndDispatch 400 (demo_input (snd (ring_put demo_event demo_ring)))
     = Some ([[\<lparr>me_timestamp = 7, me_words = [0x40903C00, 0x80000000]\<rparr>]], port')"
proof -
  let ?ring = "snd (ring_put demo_event demo_ring)"
  have "fst (ring_put demo_event demo_ring)" using demo_write by auto
  then have "ring_put demo_event demo_ring = (True, ?ring)" by (simp add: prod_eq_iff)
  from ring.put_accepted [OF demo_ring_queue this] have q: "ring_queue ?ring [event_of demo_event]" by simp
  have p: "ip_ring (demo_input ?ring) = Some ?ring" "ip_callback (demo_input ?ring)" "ip_direction (demo_input ?ring) = MIDI_1_0_TO_MIDI_2_0"
    by (simp_all add: demo_input_def)
  have e: "event_of demo_event = \<lparr>me_timestamp = 7, me_words = [0x20903C40]\<rparr>" by code_simp
  have "received_events MIDI_1_0_TO_MIDI_2_0 \<lparr>me_timestamp = 7, me_words = [0x20903C40]\<rparr>
    = [\<lparr>me_timestamp = 7, me_words = [0x40903C00, 0x80000000]\<rparr>]" by code_simp
  then show ?thesis
    using receive_dispatch [OF p(1,2) q] demo_published by (auto simp: e p(3) Let_def)
qed

end
