(* ===== verification/Client_Invariant.thy ===== *)
theory Client_Invariant
  imports Client_Api Client_Ports_Properties
begin

text \<open>
  The invariant of a client: what holds of its devices and ports after every call of the application and every
  notification of the service, and with it that no call on a live handle follows a null pointer.
\<close>

section \<open>The invariant of a client\<close>

lemma set_update_subset: "set (AList.update k v m) \<subseteq> insert (k, v) (set m)"
  by (induction m) auto

lemma set_delete_subset: "set (AList.delete k m) \<subseteq> set m"
  by (induction m) auto

text \<open>
  The thread of every input port runs, on a ring and with a callback; every output port has a ring; and an entry without a
  port means that the device is gone.
\<close>

definition input_ok :: "bool \<Rightarrow> MidiInputPort option \<Rightarrow> bool" where
  "input_ok valid e \<longleftrightarrow> (case e of None \<Rightarrow> \<not> valid | Some port \<Rightarrow> ip_running port \<and> ip_thread port \<and> ip_callback port \<and> ip_ring port \<noteq> None)"

definition output_ok :: "bool \<Rightarrow> MidiOutputPort option \<Rightarrow> bool" where
  "output_ok valid e \<longleftrightarrow> (case e of None \<Rightarrow> \<not> valid | Some port \<Rightarrow> op_ring port \<noteq> None)"

definition dev_ok :: "MidiDevicePrivate \<Rightarrow> bool" where
  "dev_ok dev \<longleftrightarrow> distinct (keys_of (dp_inputPortsMap dev)) \<and> distinct (keys_of (dp_outputPortsMap dev))
     \<and> (\<forall>e\<in>snd ` set (dp_inputPortsMap dev). input_ok (dp_isValid dev) e)
     \<and> (\<forall>e\<in>snd ` set (dp_outputPortsMap dev). output_ok (dp_isValid dev) e)"

definition client_ok :: "'s MidiClientPrivate \<Rightarrow> bool" where
  "client_ok cp \<longleftrightarrow> distinct (keys_of (cp_deviceHandlers cp)) \<and> (\<forall>dev\<in>snd ` set (cp_deviceHandlers cp). dev_ok dev)
     \<and> (\<forall>ipc. msc_ipc (cp_service cp) = Some ipc \<longrightarrow> midi_service ipc)"

lemma dev_ok_new [simp]: "dev_ok (new_MidiDevicePrivate i)"
  by (simp add: dev_ok_def new_MidiDevicePrivate_def)

lemma dev_ok_input:
  assumes "dev_ok dev" "input_ok (dp_isValid dev) e"
  shows "dev_ok (dev\<lparr>dp_inputPortsMap := AList.update p e (dp_inputPortsMap dev)\<rparr>)"
  using assms set_update_subset [of p e "dp_inputPortsMap dev"] by (fastforce simp: dev_ok_def distinct_update)

lemma dev_ok_output:
  assumes "dev_ok dev" "output_ok (dp_isValid dev) e"
  shows "dev_ok (dev\<lparr>dp_outputPortsMap := AList.update p e (dp_outputPortsMap dev)\<rparr>)"
  using assms set_update_subset [of p e "dp_outputPortsMap dev"] by (fastforce simp: dev_ok_def distinct_update)

lemma dev_ok_close_input: "dev_ok dev \<Longrightarrow> dev_ok (dev\<lparr>dp_inputPortsMap := AList.delete p (dp_inputPortsMap dev)\<rparr>)"
  using set_delete_subset [of p "dp_inputPortsMap dev"] by (auto simp: dev_ok_def distinct_delete)

lemma dev_ok_close_output: "dev_ok dev \<Longrightarrow> dev_ok (dev\<lparr>dp_outputPortsMap := AList.delete p (dp_outputPortsMap dev)\<rparr>)"
  using set_delete_subset [of p "dp_outputPortsMap dev"] by (auto simp: dev_ok_def distinct_delete)

lemma dev_ok_SetInValid [simp]: "dev_ok dev \<Longrightarrow> dev_ok (SetInValid dev)"
  by (auto simp: dev_ok_def SetInValid_def input_ok_def output_ok_def split: option.splits)

lemma dev_ok_rings [simp]: "dev_ok dev \<Longrightarrow> dev_ok (with_rings f g dev)"
  by (fastforce simp: dev_ok_def with_rings_def input_ok_def output_ok_def comp_def split_beta split: option.splits)

lemma dev_ok_tombstones:
  "dev_ok dev \<Longrightarrow> \<not> dp_isValid dev \<Longrightarrow> dev_ok (tombstone_input dev)"
  "dev_ok dev \<Longrightarrow> \<not> dp_isValid dev \<Longrightarrow> dev_ok (tombstone_output dev)"
  by (auto simp: dev_ok_def tombstone_input_def tombstone_output_def input_ok_def output_ok_def comp_def split_beta)

lemma TombstoneAllPorts_halves: "TombstoneAllPorts dev = tombstone_output (tombstone_input dev)"
  by (simp add: TombstoneAllPorts_def tombstone_input_def tombstone_output_def)

lemma dev_ok_gone: "dev_ok dev \<Longrightarrow> dev_ok (TombstoneAllPorts (SetInValid dev))"
  unfolding TombstoneAllPorts_halves
  by (intro dev_ok_tombstones dev_ok_SetInValid) (simp_all add: tombstone_input_def SetInValid_def)

section \<open>Every step keeps it\<close>

lemma Device_OpenInputPort_ok:
  assumes "dev_ok dev" "Device_OpenInputPort sc descriptor callback dev s = (ret, dev', s')"
  shows "dev_ok dev'"
proof -
  let ?port = "\<lambda>buffer. (new_MidiInputPort callback (GetCoverterDirection (pd_protocol descriptor) (odi_nativeProtocol (dp_info dev))))\<lparr>ip_ring := buffer\<rparr>"
  obtain r buffer s1 where I: "MidiServiceClient_OpenInputPort sc (dp_deviceId dev) (pd_portIndex descriptor) s = (r, buffer, s1)"
    using prod_cases3 by blast
  obtain started port where S: "StartReceiverThread (?port buffer) = (started, port)" by fastforce
  have "input_ok (dp_isValid dev) (Some port)" if started
    using S that by (auto simp: StartReceiverThread_def new_MidiInputPort_def input_ok_def split: if_splits)
  then show ?thesis using assms dev_ok_input [OF assms(1)]
    by (cases started) (auto simp: Device_OpenInputPort_def I S Let_def split: if_splits)
qed

lemma GetMidiStatusCode_ok: "GetMidiStatusCode r = OH_MIDI_STATUS_OK \<Longrightarrow> r = OH_MIDI_STATUS_OK"
  by (simp add: GetMidiStatusCode_def status_defs split: if_splits)

context midi_service
begin

lemma opened_output:
  "msc_ipc sc = Some ipc \<Longrightarrow> MidiServiceClient_OpenOutputPort sc d p s = (OH_MIDI_STATUS_OK, buffer, s') \<Longrightarrow> buffer \<noteq> None"
  using output_ring by (auto simp: MidiServiceClient_OpenOutputPort_def dest!: GetMidiStatusCode_ok split: prod.splits)

lemma opened_input:
  "msc_ipc sc = Some ipc \<Longrightarrow> MidiServiceClient_OpenInputPort sc d p s = (OH_MIDI_STATUS_OK, buffer, s') \<Longrightarrow> buffer \<noteq> None"
  using input_ring by (auto simp: MidiServiceClient_OpenInputPort_def dest!: GetMidiStatusCode_ok split: prod.splits)

end

lemma MidiServiceClient_connected:
  "MidiServiceClient_OpenOutputPort sc d p s = (OH_MIDI_STATUS_OK, buffer, s') \<Longrightarrow> msc_ipc sc \<noteq> None"
  by (cases "msc_ipc sc") (simp_all add: MidiServiceClient_OpenOutputPort_def status_defs)

lemma Device_OpenOutputPort_ok:
  assumes "dev_ok dev" "\<And>ipc. msc_ipc sc = Some ipc \<Longrightarrow> midi_service ipc" "Device_OpenOutputPort sc descriptor dev s = (ret, dev', s')"
  shows "dev_ok dev'"
proof -
  obtain r buffer s1 where I: "MidiServiceClient_OpenOutputPort sc (dp_deviceId dev) (pd_portIndex descriptor) s = (r, buffer, s1)"
    using prod_cases3 by blast
  have "buffer \<noteq> None" if r: "r = OH_MIDI_STATUS_OK"
  proof -
    note O = I [unfolded r]
    obtain ipc where ipc: "msc_ipc sc = Some ipc" using MidiServiceClient_connected [OF O] by blast
    show ?thesis by (rule midi_service.opened_output [OF assms(2) [OF ipc] ipc O])
  qed
  then have "r = OH_MIDI_STATUS_OK \<Longrightarrow> output_ok (dp_isValid dev) (Some ((new_MidiOutputPort d)\<lparr>op_ring := buffer\<rparr>))" for d
    by (simp add: output_ok_def)
  then show ?thesis using assms(1,3) dev_ok_output [OF assms(1)]
    by (auto simp: Device_OpenOutputPort_def I Let_def split: if_splits)
qed

lemma Device_ClosePort_ok:
  "dev_ok dev \<Longrightarrow> Device_CloseInputPort sc caller p dev s = Some (ret, dev', s') \<Longrightarrow> dev_ok dev'"
  "dev_ok dev \<Longrightarrow> Device_CloseOutputPort sc p dev s = (ret, dev', s') \<Longrightarrow> dev_ok dev'"
  using dev_ok_close_input [of dev p] dev_ok_close_output [of dev p]
  by (auto simp: Device_CloseInputPort_def Device_CloseOutputPort_def Let_def split: option.splits if_splits prod.splits)

lemma output_entry_ok:
  assumes "dev_ok dev" "find_key (dp_outputPortsMap dev) p = Some e"
  shows "output_ok (dp_isValid dev) e"
  using assms map_of_SomeD [OF assms(2)] by (force simp: dev_ok_def)

lemma input_entry_ok:
  assumes "dev_ok dev" "find_key (dp_inputPortsMap dev) p = Some e"
  shows "input_ok (dp_isValid dev) e"
  using assms map_of_SomeD [OF assms(2)] by (force simp: dev_ok_def)

lemma Send_ring: "Send heap events n written port = Some (ret, w, port') \<Longrightarrow> op_ring port \<noteq> None \<Longrightarrow> op_ring port' \<noteq> None"
  by (auto simp: Send_def Let_def split: option.splits if_splits prod.splits)

lemma SendSysEx_ring: "SendSysEx fuel env start p bytes n port = Some (ret, w, port') \<Longrightarrow> op_ring port \<noteq> None \<Longrightarrow> op_ring port' \<noteq> None"
  by (auto simp: SendSysEx_def Let_def split: option.splits if_splits prod.splits)

lemma Device_Send_ok:
  assumes "dev_ok dev" "Device_Send heap p events n written dev = Some (ret, w, dev')"
  shows "dev_ok dev'"
  using assms output_entry_ok [OF assms(1), of p] dev_ok_output [OF assms(1)]
  by (auto simp: Device_Send_def output_ok_def dest: Send_ring split: option.splits if_splits)

lemma Device_SendSysEx_ok:
  assumes "dev_ok dev" "Device_SendSysEx fuel env start p bytes n dev = Some (ret, dev')"
  shows "dev_ok dev'"
  using assms output_entry_ok [OF assms(1), of p] dev_ok_output [OF assms(1)]
  by (auto simp: Device_SendSysEx_def output_ok_def dest: SendSysEx_ring split: option.splits if_splits)

lemma client_ok_update:
  assumes "client_ok cp" "find_key (cp_deviceHandlers cp) h \<noteq> None" "dev_ok dev"
  shows "client_ok (cp\<lparr>cp_deviceHandlers := AList.update h dev (cp_deviceHandlers cp)\<rparr>)"
  using assms set_update_subset [of h dev "cp_deviceHandlers cp"] by (fastforce simp: client_ok_def distinct_update)

lemma client_dev_ok:
  assumes "client_ok cp" "find_key (cp_deviceHandlers cp) h = Some dev"
  shows "dev_ok dev"
  using assms map_of_SomeD [OF assms(2)] by (force simp: client_ok_def)

lemma on_device_ok:
  assumes "client_ok cp" "on_device device call nothing cp s = Some (ret, r, cp', s')"
    "\<And>dev ret r dev' s'. dev_ok dev \<Longrightarrow> call dev = Some (ret, r, dev', s') \<Longrightarrow> dev_ok dev'"
  shows "client_ok cp'"
proof (cases device)
  case None
  then show ?thesis using assms(1,2) by (simp add: on_device_def)
next
  case (Some h)
  then obtain dev where h: "device = Some h" "find_key (cp_deviceHandlers cp) h = Some dev"
    using assms(2) by (auto simp: on_device_def split: option.splits)
  then obtain dev' where c: "call dev = Some (ret, r, dev', s')" "cp' = cp\<lparr>cp_deviceHandlers := AList.update h dev' (cp_deviceHandlers cp)\<rparr>"
    using assms(2) by (auto simp: on_device_def)
  have "dev_ok dev'" by (rule assms(3) [OF client_dev_ok [OF assms(1) h(2)] c(1)])
  then show ?thesis unfolding c(2) using h(2) by (intro client_ok_update [OF assms(1)]) simp_all
qed

lemma client_ok_add:
  "client_ok cp \<Longrightarrow> free_handle h cp \<Longrightarrow> dev_ok dev \<Longrightarrow> client_ok (AddDeviceHandler h dev cp)"
  by (auto simp: client_ok_def AddDeviceHandler_def free_handle_def map_of_eq_None_iff)

lemma client_ok_update_device:
  assumes "client_ok cp" "\<And>dev. find_key (cp_deviceHandlers cp) h = Some dev \<Longrightarrow> dev_ok dev \<Longrightarrow> dev_ok (f dev)"
  shows "client_ok (update_device h f cp)"
proof -
  have "dev_ok (if k = h then f dev else dev)" if "(k, dev) \<in> set (cp_deviceHandlers cp)" for k dev
    using assms that map_of_eq_Some_iff [of "cp_deviceHandlers cp" k dev] by (force simp: client_ok_def)
  then show ?thesis using assms(1) by (auto simp: client_ok_def update_device_def comp_def split_beta)
qed

lemma first_device_ok:
  assumes "\<forall>dev\<in>snd ` set ps. dev_ok dev" "\<And>dev. dev_ok dev \<Longrightarrow> dev_ok (f dev)"
  shows "keys_of (first_device d f ps) = keys_of ps \<and> (\<forall>dev\<in>snd ` set (first_device d f ps). dev_ok dev)"
  using assms by (induction ps) auto

lemma HandleDeviceDisconnect_ok:
  assumes "client_ok cp"
  shows "client_ok (HandleDeviceDisconnect d cp)"
proof -
  have "\<forall>dev\<in>snd ` set (cp_deviceHandlers cp). dev_ok dev" using assms by (simp add: client_ok_def)
  note F = first_device_ok [OF this dev_ok_gone, where d = d]
  show ?thesis using assms unfolding client_ok_def HandleDeviceDisconnect_def by (simp add: F)
qed

lemma MarkDeviceInValid_ok: "client_ok cp \<Longrightarrow> client_ok (MarkDeviceInValid cp)"
  by (auto simp: client_ok_def MarkDeviceInValid_def comp_def split_beta)

lemma CloseAndRemoveDevice_ok: "client_ok cp \<Longrightarrow> CloseAndRemoveDevice caller h cp s = Some (ret, cp', s') \<Longrightarrow> client_ok cp'"
  using set_delete_subset [of h "cp_deviceHandlers cp"]
  by (auto simp: CloseAndRemoveDevice_def client_ok_def distinct_delete Let_def split: option.splits prod.splits)

lemma Client_OpenDevice_ok:
  assumes "client_ok cp" "free_handle h cp" "Client_OpenDevice h d cp s = (ret, r, cp', s')"
  shows "client_ok cp'"
  using assms client_ok_add [OF assms(1,2) dev_ok_new]
  by (auto simp: Client_OpenDevice_def split: prod.splits if_splits)

lemma client_service: "client_ok cp \<Longrightarrow> msc_ipc (cp_service cp) = Some ipc \<Longrightarrow> midi_service ipc"
  by (simp add: client_ok_def)

lemma Client_DestroyMidiClient_ok: "client_ok cp \<Longrightarrow> Client_DestroyMidiClient calls cp s = (ret, cp', s') \<Longrightarrow> client_ok cp'"
  by (auto simp: client_ok_def Client_DestroyMidiClient_def MidiServiceClient_DestroyMidiClient_def Let_def split: option.splits if_splits prod.splits)

inductive_cases client_stepE: "client_step cp cp'"

lemmas device_calls = OH_MIDIDevice_OpenInputPort_def OH_MIDIDevice_OpenOutputPort_def OH_MIDIDevice_CloseInputPort_def
  OH_MIDIDevice_CloseOutputPort_def OH_MIDIDevice_Send_def OH_MIDIDevice_SendSysEx_def OH_MIDIDevice_FlushOutputPort_def

lemma client_step_ok:
  assumes "client_step cp cp'" "client_ok cp"
  shows "client_ok cp'"
  using assms
proof (induction rule: client_step.induct)
  case (open_device h cp d out s ret dev cp' s')
  then show ?case using Client_OpenDevice_ok [OF open_device.prems open_device.hyps(1)]
    by (auto simp: OH_MIDIClient_OpenDevice_def split: if_splits prod.splits)
next
  case (close_device caller dev cp s ret cp' s')
  then show ?case using CloseAndRemoveDevice_ok [OF close_device.prems]
    by (auto simp: OH_MIDIClient_CloseDevice_def split: option.splits prod.splits)
next
  case (open_input dev descriptor callback cp s ret r cp' s')
  show ?case using open_input.hyps unfolding device_calls
    by (rule on_device_ok [OF open_input.prems])
      (auto split: if_splits prod.splits intro: Device_OpenInputPort_ok)
next
  case (open_output dev descriptor cp s ret r cp' s')
  show ?case using open_output.hyps unfolding device_calls
    by (rule on_device_ok [OF open_output.prems])
      (auto split: prod.splits intro: Device_OpenOutputPort_ok client_service [OF open_output.prems])
next
  case (close_input caller dev p cp s ret r cp' s')
  show ?case using close_input.hyps unfolding device_calls
    by (rule on_device_ok [OF close_input.prems]) (auto split: prod.splits intro: Device_ClosePort_ok)
next
  case (close_output dev p cp s ret r cp' s')
  show ?case using close_output.hyps unfolding device_calls
    by (rule on_device_ok [OF close_output.prems]) (auto split: prod.splits intro: Device_ClosePort_ok)
next
  case (send_events heap dev p events n written cp s ret r' cp' s')
  show ?case using send_events.hyps unfolding device_calls
    by (rule on_device_ok [OF send_events.prems]) (auto intro: Device_Send_ok)
next
  case (send_sysex fuel env start dev p bytes n cp s ret r cp' s')
  show ?case using send_sysex.hyps unfolding device_calls
    by (rule on_device_ok [OF send_sysex.prems]) (auto split: if_splits intro: Device_SendSysEx_ok)
next
  case (device_changed change devInfo cp ret calls cp')
  then show ?case using HandleDeviceDisconnect_ok
    by (auto simp: Client_NotifyDeviceChange_def Let_def split: if_splits)
next
  case (service_error code cp ret calls cp')
  then show ?case using MarkDeviceInValid_ok by (auto simp: Client_NotifyError_def split: if_splits)
next
  case (ble_opened h cp callback opened devInfo ret calls cp')
  then show ?case using client_ok_add [OF ble_opened.prems ble_opened.hyps(1) dev_ok_new]
    by (auto simp: NotifyDeviceOpened_def Let_def split: if_splits)
next
  case (flush dev p cp s ret r cp' s')
  show ?case using flush.hyps unfolding device_calls
    by (rule on_device_ok [OF flush.prems]) (auto split: prod.splits)
next
  case (destroying calls cp s ret cp' s')
  show ?case by (rule Client_DestroyMidiClient_ok [OF destroying.prems destroying.hyps])
next
  case (rings cp h f g)
  then show ?case by (intro client_ok_update_device dev_ok_rings)
next
  case (invalid cp h)
  then show ?case by (intro client_ok_update_device dev_ok_SetInValid)
next
  case (tombstones cp h dev f)
  then show ?case by (intro client_ok_update_device) (auto intro: dev_ok_tombstones)
qed

lemma client_reachable_ok: "client_reachable cp \<Longrightarrow> client_ok cp"
proof (induction rule: client_reachable.induct)
  case (created calls create out callbacks s cp s')
  have "cp_deviceHandlers cp = []"
    using created.hyps(1)
    by (auto simp: OH_MIDIClient_Create_def CreateMidiClient_def Client_Init_def new_MidiClientPrivate_def Let_def split: if_splits prod.splits)
  then show ?case using created.hyps(2) by (simp add: client_ok_def)
qed (rule client_step_ok)

section \<open>No undefined behaviour\<close>

lemma Send_defined: "op_ring port \<noteq> None \<Longrightarrow> Send heap events n written port \<noteq> None"
  by (auto simp: Send_def Let_def split: option.splits prod.splits)

lemma Device_Send_defined:
  assumes "dev_ok dev"
  shows "Device_Send heap p events n written dev \<noteq> None"
  using output_entry_ok [OF assms, of p] Send_defined
  by (auto simp: Device_Send_def output_ok_def split: option.splits)

lemma Device_SendSysEx_defined:
  assumes "dev_ok dev" "clock_at env late - start > MAX_TIMEOUT_NS"
  shows "Device_SendSysEx (late + 1) env start p bytes n dev \<noteq> None"
  using output_entry_ok [OF assms(1), of p] SendSysEx_ends [OF assms(2)]
  by (auto simp: Device_SendSysEx_def output_ok_def split: option.splits) 

lemma on_device_defined:
  assumes "client_ok cp" "find_key (cp_deviceHandlers cp) h \<noteq> None" "\<And>dev. dev_ok dev \<Longrightarrow> call dev \<noteq> None"
  shows "on_device (Some h) call nothing cp s \<noteq> None"
proof -
  obtain dev where dev: "find_key (cp_deviceHandlers cp) h = Some dev" using assms(2) by blast
  show ?thesis using assms(3) [OF client_dev_ok [OF assms(1) dev]] by (auto simp: on_device_def dev)
qed

end
