(* ===== verification/Client_Connection.thy ===== *)
theory Client_Connection
  imports Ring_Queue "HOL-Library.Multiset"
begin

text \<open>
  \<^verbatim>\<open>services/server/src/midi_client_connection.cpp\<close>: what the service keeps for one client of one
  port: the shared ring and the queue of events that are due later.
\<close>

section \<open>Pending events\<close>

text \<open>
  A point in time is the signed number of nanoseconds that the clock type holds. The standard
  leaves the order of elements with equal priority in a \<open>std::priority_queue\<close> open; the
  model keeps the queue as a list ordered by due time, and what is proved of it goes through the
  interface below, which says nothing about that order.
\<close>

record PendingEvent =
  due :: int
  pe_data :: "u32 list"
  pe_timestamp :: u64

primrec pq_push :: "PendingEvent \<Rightarrow> PendingEvent list \<Rightarrow> PendingEvent list" where
  "pq_push e [] = [e]"
| "pq_push e (x # xs) = (if due e < due x then e # x # xs else x # pq_push e xs)"

definition pq_top :: "PendingEvent list \<Rightarrow> PendingEvent" where
  "pq_top q = hd q"

definition pq_pop :: "PendingEvent list \<Rightarrow> PendingEvent list" where
  "pq_pop q = tl q"

definition pq_ok :: "PendingEvent list \<Rightarrow> bool" where
  "pq_ok q \<longleftrightarrow> sorted (map due q)"

text \<open>The interface of a priority queue of timed values.\<close>

locale timed_queue =
  fixes ok :: "'q \<Rightarrow> bool" and content :: "'q \<Rightarrow> 'e multiset" and key :: "'e \<Rightarrow> int"
    and q_empty :: "'q" and push :: "'e \<Rightarrow> 'q \<Rightarrow> 'q" and top :: "'q \<Rightarrow> 'e" and pop :: "'q \<Rightarrow> 'q"
  assumes empty_ok: "ok q_empty" "content q_empty = {#}"
    and push_ok: "ok q \<Longrightarrow> ok (push e q)" "ok q \<Longrightarrow> content (push e q) = add_mset e (content q)"
    and top_min: "ok q \<Longrightarrow> content q \<noteq> {#} \<Longrightarrow> top q \<in># content q \<and> (\<forall>e\<in>#content q. key (top q) \<le> key e)"
    and pop_ok: "ok q \<Longrightarrow> content q \<noteq> {#} \<Longrightarrow> ok (pop q)"
      "ok q \<Longrightarrow> content q \<noteq> {#} \<Longrightarrow> content (pop q) = content q - {#top q#}"
begin

lemma content_top_pop:
  "ok q \<Longrightarrow> content q \<noteq> {#} \<Longrightarrow> content q = add_mset (top q) (content (pop q))"
  using top_min pop_ok(2) by (metis insert_DiffM)

lemma top_le_next:
  assumes "ok q" "content q \<noteq> {#}" "content (pop q) \<noteq> {#}"
  shows "key (top q) \<le> key (top (pop q))"
  using assms top_min [OF assms(1,2)] top_min [OF pop_ok(1) [OF assms(1,2)] assms(3)] pop_ok(2) [OF assms(1,2)]
  by (metis in_diffD)

lemma pushes_ok: "ok q \<Longrightarrow> ok (fold push es q) \<and> content (fold push es q) = content q + mset es"
  by (induction es arbitrary: q) (simp_all add: push_ok)

end

lemma set_pq_push: "set (pq_push e q) = insert e (set q)"
  by (induction q) auto

lemma mset_pq_push: "mset (pq_push e q) = add_mset e (mset q)"
  by (induction q) auto

lemma pq_push_ok: "pq_ok q \<Longrightarrow> pq_ok (pq_push e q)"
  by (induction q) (auto simp: pq_ok_def set_pq_push)

interpretation pq: timed_queue pq_ok mset due "[]" pq_push pq_top pq_pop
proof unfold_locales
  fix q e
  show "pq_ok ([] :: PendingEvent list)" "mset ([] :: PendingEvent list) = {#}" by (simp_all add: pq_ok_def)
  show "pq_ok q \<Longrightarrow> pq_ok (pq_push e q)" by (rule pq_push_ok)
  show "mset (pq_push e q) = add_mset e (mset q)" by (rule mset_pq_push)
  show "pq_ok q \<Longrightarrow> mset q \<noteq> {#} \<Longrightarrow> pq_top q \<in># mset q \<and> (\<forall>e\<in>#mset q. due (pq_top q) \<le> due e)"
    by (cases q) (auto simp: pq_ok_def pq_top_def)
  show "pq_ok q \<Longrightarrow> mset q \<noteq> {#} \<Longrightarrow> pq_ok (pq_pop q)"
    by (cases q) (auto simp: pq_ok_def pq_pop_def)
  show "mset q \<noteq> {#} \<Longrightarrow> mset (pq_pop q) = mset q - {#pq_top q#}"
    by (cases q) (auto simp: pq_pop_def pq_top_def)
qed

section \<open>The connection\<close>

definition DEFAULT_RING_BUFFER_SIZE :: u32 where
  "DEFAULT_RING_BUFFER_SIZE = 2048"

record ClientConnectionInServer =
  conn_clientId :: u32
  conn_deviceHandle :: int
  conn_portIndex :: u32
  sharedRing :: "MidiSharedRing option"
  maxPending :: nat
  pending :: "PendingEvent list"

definition new_ClientConnection :: "u32 \<Rightarrow> int \<Rightarrow> u32 \<Rightarrow> ClientConnectionInServer" where
  "new_ClientConnection cid handle portIndex =
     \<lparr>conn_clientId = cid, conn_deviceHandle = handle, conn_portIndex = portIndex,
      sharedRing = None, maxPending = 1024, pending = []\<rparr>"

text \<open>
  \<open>map_memory\<close> is the operating system, as for \<open>CreateFromLocal\<close>. A negative descriptor means
  that the ring has no notification descriptor; the counter behind a fresh one is 0.
\<close>

definition CreateRingBuffer ::
  "(int \<Rightarrow> nat \<Rightarrow> (nat \<Rightarrow> u32) option) \<Rightarrow> int \<Rightarrow> ClientConnectionInServer \<Rightarrow> int \<times> ClientConnectionInServer" where
  "CreateRingBuffer map_memory fd conn =
     (case CreateFromLocal map_memory DEFAULT_RING_BUFFER_SIZE (if fd \<ge> 0 then Some 0 else None) of
        None \<Rightarrow> (OH_MIDI_STATUS_SYSTEM_ERROR, conn\<lparr>sharedRing := None\<rparr>)
      | Some ring \<Rightarrow>
          (OH_MIDI_STATUS_OK,
           conn\<lparr>sharedRing := Some (ring\<lparr>ring_mem := (\<lambda>off. if off < unat (capacity ring) then 0 else ring_mem ring off)\<rparr>)\<rparr>))"

definition TrySendToClient :: "MidiEventInner \<Rightarrow> ClientConnectionInServer \<Rightarrow> int \<times> ClientConnectionInServer" where
  "TrySendToClient event conn =
     (case TryWriteEvent event True (the (sharedRing conn)) of (status, ring) \<Rightarrow>
        (if status = OK then OH_MIDI_STATUS_OK else OH_MIDI_STATUS_SYSTEM_ERROR, conn\<lparr>sharedRing := Some ring\<rparr>))"

definition IsPendingFull :: "ClientConnectionInServer \<Rightarrow> bool" where
  "IsPendingFull conn \<longleftrightarrow> length (pending conn) \<ge> maxPending conn"

definition HasPending :: "ClientConnectionInServer \<Rightarrow> bool" where
  "HasPending conn \<longleftrightarrow> pending conn \<noteq> []"

definition EnqueueNonRealtime :: "u32 list \<Rightarrow> int \<Rightarrow> u64 \<Rightarrow> ClientConnectionInServer \<Rightarrow> bool \<times> ClientConnectionInServer" where
  "EnqueueNonRealtime payloadWords dueTime ts conn =
     (if IsPendingFull conn then (False, conn)
      else (True, conn\<lparr>pending := pq_push \<lparr>due = dueTime, pe_data = payloadWords, pe_timestamp = ts\<rparr> (pending conn)\<rparr>))"

definition PeekPendingTop :: "ClientConnectionInServer \<Rightarrow> PendingEvent option" where
  "PeekPendingTop conn = (if pending conn = [] then None else Some (pq_top (pending conn)))"

definition PopPendingTop :: "ClientConnectionInServer \<Rightarrow> (PendingEvent \<times> ClientConnectionInServer) option" where
  "PopPendingTop conn =
     (if pending conn = [] then None
      else Some (pq_top (pending conn), conn\<lparr>pending := pq_pop (pending conn)\<rparr>))"

definition Conn_Flush :: "ClientConnectionInServer \<Rightarrow> ClientConnectionInServer" where
  "Conn_Flush conn = conn\<lparr>pending := [], sharedRing := map_option Flush (sharedRing conn)\<rparr>"

section \<open>Invariant\<close>

definition conn_inv :: "ClientConnectionInServer \<Rightarrow> MidiEvent list \<Rightarrow> bool" where
  "conn_inv conn es \<longleftrightarrow>
     pq_ok (pending conn) \<and> length (pending conn) \<le> maxPending conn
     \<and> (\<exists>ring. sharedRing conn = Some ring \<and> ring_queue ring es \<and> capacity ring = DEFAULT_RING_BUFFER_SIZE)"

lemma CreateFromLocal_queue:
  assumes "CreateFromLocal map_memory cap n = Some ring" "24 < unat cap"
  shows "ring_queue ring [] \<and> capacity ring = cap \<and> readPosition ring = 0 \<and> writePosition ring = 0"
proof -
  have "cap \<le> MAX_MMAP_BUFFER_SIZE - SIZEOF_CONTROL" "capacity ring = cap" "readPosition ring = 0" "writePosition ring = 0"
    using assms(1) by (auto simp: CreateFromLocal_def Init_def split: if_splits option.splits)
  then show ?thesis using assms(2)
    by (simp add: ring_queue_def Let_def MAX_MMAP_BUFFER_SIZE_def SIZEOF_CONTROL_def word_le_nat_alt)
qed

lemma CreateRingBuffer_inv:
  assumes "CreateRingBuffer map_memory fd (new_ClientConnection c h p) = (OH_MIDI_STATUS_OK, conn)"
  shows "conn_inv conn []"
proof -
  obtain ring where r: "CreateFromLocal map_memory DEFAULT_RING_BUFFER_SIZE (if fd \<ge> 0 then Some 0 else None) = Some ring"
    and conn: "conn = (new_ClientConnection c h p)\<lparr>sharedRing := Some (ring\<lparr>ring_mem := (\<lambda>off. if off < unat (capacity ring) then 0 else ring_mem ring off)\<rparr>)\<rparr>"
    using assms by (auto simp: CreateRingBuffer_def status_defs split: option.splits)
  note q = CreateFromLocal_queue [OF r]
  then show ?thesis
    by (simp add: conn conn_inv_def new_ClientConnection_def pq_ok_def DEFAULT_RING_BUFFER_SIZE_def ring_queue_def Let_def)
qed

lemma EnqueueNonRealtime_pending:
  assumes "EnqueueNonRealtime ws d ts conn = (True, conn')" "pq_ok (pending conn)" "length (pending conn) \<le> maxPending conn"
  shows "pq_ok (pending conn') \<and> length (pending conn') \<le> maxPending conn' \<and> sharedRing conn' = sharedRing conn
     \<and> mset (pending conn') = add_mset \<lparr>due = d, pe_data = ws, pe_timestamp = ts\<rparr> (mset (pending conn))"
proof -
  have "length (pq_push e q) = Suc (length q)" for e q by (induction q) auto
  then show ?thesis using assms by (auto simp: EnqueueNonRealtime_def IsPendingFull_def pq.push_ok split: if_splits)
qed

lemma PopPendingTop_pending:
  assumes "PopPendingTop conn = Some (e, conn')" "pq_ok (pending conn)"
  shows "pq_ok (pending conn') \<and> mset (pending conn) = add_mset e (mset (pending conn'))
     \<and> (\<forall>x\<in>set (pending conn'). due e \<le> due x) \<and> length (pending conn) = Suc (length (pending conn'))
     \<and> sharedRing conn' = sharedRing conn"
proof -
  have ne: "mset (pending conn) \<noteq> {#}" and e: "e = pq_top (pending conn)"
    and c: "conn' = conn\<lparr>pending := pq_pop (pending conn)\<rparr>"
    using assms(1) by (auto simp: PopPendingTop_def split: if_splits)
  have m: "mset (pending conn) = add_mset e (mset (pq_pop (pending conn)))"
    using pq.content_top_pop [OF assms(2) ne] by (simp add: e)
  have "\<forall>x\<in>#mset (pending conn). due e \<le> due x" using pq.top_min [OF assms(2) ne] by (simp add: e)
  then have "\<forall>x\<in>set (pq_pop (pending conn)). due e \<le> due x" unfolding m by simp
  moreover have "length (pending conn) = Suc (length (pq_pop (pending conn)))"
    using arg_cong [OF m, of size] by simp
  ultimately show ?thesis using m pq.pop_ok(1) [OF assms(2) ne] by (simp add: c)
qed

lemma TrySendToClient_inv:
  assumes "conn_inv conn es"
  shows "case TrySendToClient event conn of (ret, conn') \<Rightarrow>
     ret = OH_MIDI_STATUS_OK \<and> conn_inv conn' (es @ [event_of event]) \<or> ret = OH_MIDI_STATUS_SYSTEM_ERROR \<and> conn_inv conn' es"
proof -
  obtain ring where r: "sharedRing conn = Some ring" "ring_queue ring es" "capacity ring = DEFAULT_RING_BUFFER_SIZE"
    using assms by (auto simp: conn_inv_def)
  obtain status ring' where T: "TryWriteEvent event True ring = (status, ring')" by fastforce
  have "capacity ring' = capacity ring" using TryWriteEvent_capacity [of event True ring] T by simp
  then show ?thesis using TryWriteEvent_queue [OF r(2), of event True] r T assms
    by (auto simp: TrySendToClient_def conn_inv_def)
qed

end
