(* ===== verification/Device_Connection.thy ===== *)
theory Device_Connection
  imports Client_Connection
begin

text \<open>
  \<^verbatim>\<open>services/server/src/midi_device_connection.cpp\<close>: one port of one device in the service. An
  input connection copies the events of the device into the rings of its clients; an output
  connection drains the rings of its clients, keeps the events that are due later, and passes the
  others in batches to the driver.

  The readings of the clocks are arguments. The driver is the field \<open>to_driver\<close>: the list of the batches
  that \<open>HandleUmpInput\<close> was called with. A connection that is in use has no null entry in its client list.
\<close>

section \<open>The base class\<close>

datatype MidiPortDirection = INPUT | OUTPUT

definition MAX_EVENT_COUNT :: u64 where "MAX_EVENT_COUNT = (2 ^ 64 - 1) - 1000000"
definition MAX_BYTE_COUNT :: u64 where "MAX_BYTE_COUNT = (2 ^ 64 - 1) - 1024 * 1024 * 1024"

text \<open>\<open>info_driver\<close>: the pointer to the driver is not null.\<close>

record DeviceConnectionInfo =
  info_driver :: bool
  info_deviceId :: int
  info_direction :: MidiPortDirection
  info_portIndex :: u32

record DeviceConnectionStats =
  eventCount :: u64
  byteCount :: u64
  errorCount :: u64
  statsStartTimeMs :: int
  statsDurationMs :: int

record DeviceConnection =
  info :: DeviceConnectionInfo
  clients :: "ClientConnectionInServer list"
  stats :: DeviceConnectionStats

definition new_DeviceConnection :: "DeviceConnectionInfo \<Rightarrow> DeviceConnection" where
  "new_DeviceConnection i =
     \<lparr>info = i, clients = [],
      stats = \<lparr>eventCount = 0, byteCount = 0, errorCount = 0, statsStartTimeMs = 0, statsDurationMs = 0\<rparr>\<rparr>"

text \<open>On success the new connection's ring is the one that is handed to the client.\<close>

definition AddClientConnection ::
  "(int \<Rightarrow> nat \<Rightarrow> (nat \<Rightarrow> u32) option) \<Rightarrow> u32 \<Rightarrow> int \<Rightarrow> DeviceConnection \<Rightarrow> int \<times> DeviceConnection" where
  "AddClientConnection map_memory cid handle dc =
     (case CreateRingBuffer map_memory (-1) (new_ClientConnection cid handle (info_portIndex (info dc))) of (rc, conn) \<Rightarrow>
        if rc \<noteq> OH_MIDI_STATUS_OK then (OH_MIDI_STATUS_SYSTEM_ERROR, dc)
        else (OH_MIDI_STATUS_OK, dc\<lparr>clients := clients dc @ [conn]\<rparr>))"

definition RemoveClientConnection :: "u32 \<Rightarrow> 'a DeviceConnection_scheme \<Rightarrow> 'a DeviceConnection_scheme" where
  "RemoveClientConnection cid dc = dc\<lparr>clients := filter (\<lambda>c. conn_clientId c \<noteq> cid) (clients dc)\<rparr>"

definition HasClientConnection :: "u32 \<Rightarrow> 'a DeviceConnection_scheme \<Rightarrow> bool" where
  "HasClientConnection cid dc = list_ex (\<lambda>c. conn_clientId c = cid) (clients dc)"

definition IsEmptyClientConnections :: "'a DeviceConnection_scheme \<Rightarrow> bool" where
  "IsEmptyClientConnections dc \<longleftrightarrow> clients dc = []"

definition GetConnectedClientIds :: "'a DeviceConnection_scheme \<Rightarrow> u32 list" where
  "GetConnectedClientIds dc = map conn_clientId (clients dc)"

definition GetStats :: "int \<Rightarrow> 'a DeviceConnection_scheme \<Rightarrow> DeviceConnectionStats" where
  "GetStats nowMs dc =
     (let s = (stats dc)\<lparr>statsDurationMs := 0\<rparr>
      in if statsStartTimeMs s > 0 then s\<lparr>statsDurationMs := nowMs - statsStartTimeMs s\<rparr> else s)"

definition ResetStats :: "int \<Rightarrow> DeviceConnectionStats \<Rightarrow> DeviceConnectionStats" where
  "ResetStats nowMs s = s\<lparr>eventCount := 0, byteCount := 0, errorCount := 0, statsStartTimeMs := nowMs\<rparr>"

definition IncrementEventCount :: "int \<Rightarrow> nat \<Rightarrow> DeviceConnectionStats \<Rightarrow> DeviceConnectionStats" where
  "IncrementEventCount nowMs bytes s =
     (let s = (if eventCount s \<ge> MAX_EVENT_COUNT
               then s\<lparr>eventCount := 0, byteCount := 0, statsStartTimeMs := nowMs\<rparr> else s);
          s = s\<lparr>eventCount := eventCount s + 1\<rparr>;
          s = (if statsStartTimeMs s = 0 then s\<lparr>statsStartTimeMs := nowMs\<rparr> else s)
      in if bytes > 0 then
           (let currentBytes = byteCount s; b = (of_nat bytes :: u64)
            in if currentBytes \<ge> MAX_BYTE_COUNT \<or> (MAX_BYTE_COUNT - currentBytes) < b
               then s\<lparr>byteCount := b\<rparr> else s\<lparr>byteCount := byteCount s + b\<rparr>)
         else s)"

definition IncrementErrorCount :: "DeviceConnectionStats \<Rightarrow> DeviceConnectionStats" where
  "IncrementErrorCount s =
     (let s = (if errorCount s \<ge> MAX_EVENT_COUNT then s\<lparr>errorCount := 0\<rparr> else s)
      in s\<lparr>errorCount := errorCount s + 1\<rparr>)"

section \<open>Input\<close>

definition BroadcastToClients :: "MidiEventInner \<Rightarrow> DeviceConnection \<Rightarrow> DeviceConnection" where
  "BroadcastToClients ev dc = dc\<lparr>clients := map (\<lambda>c. snd (TrySendToClient ev c)) (clients dc)\<rparr>"

primrec HandleDeviceUmpInput :: "int \<Rightarrow> MidiEventInner list \<Rightarrow> DeviceConnection \<Rightarrow> DeviceConnection" where
  "HandleDeviceUmpInput nowMs [] dc = dc"
| "HandleDeviceUmpInput nowMs (event # events) dc =
     (let dc = dc\<lparr>stats := IncrementEventCount nowMs (ev_length event * SIZEOF_WORD) (stats dc)\<rparr>
      in HandleDeviceUmpInput nowMs events (BroadcastToClients event dc))"

section \<open>Output\<close>

record DeviceConnectionForOutput = DeviceConnection +
  running :: bool
  notifyEventFd :: "int option"
  epollFd :: "int option"
  timerFd :: "int option"
  timer :: "int \<times> int"
  wakeups :: nat
  maxSendCacheBytes :: nat
  currentSendCacheBytes :: nat
  sendCache :: "MidiEvent list"
  perClientMaxPendingEvents :: nat
  to_driver :: "MidiEvent list list"

definition new_DeviceConnectionForOutput :: "DeviceConnectionInfo \<Rightarrow> DeviceConnectionForOutput" where
  "new_DeviceConnectionForOutput i =
     DeviceConnection.extend (new_DeviceConnection i)
       \<lparr>running = False, notifyEventFd = None, epollFd = None, timerFd = None, timer = (0, 0), wakeups = 0,
        maxSendCacheBytes = 64 * 1024, currentSendCacheBytes = 0, sendCache = [],
        perClientMaxPendingEvents = 1024, to_driver = []\<rparr>"

text \<open>What the five system calls of the set-up return, in order.\<close>

record SetupCalls =
  r_eventfd :: int
  r_timerfd :: int
  r_epoll :: int
  r_ctl_notify :: int
  r_ctl_timer :: int

definition InitEpollAndFds :: "SetupCalls \<Rightarrow> DeviceConnectionForOutput \<Rightarrow> int \<times> DeviceConnectionForOutput" where
  "InitEpollAndFds os dc =
     (if r_eventfd os < 0 then (OH_MIDI_STATUS_SYSTEM_ERROR, dc)
      else
        let dc = dc\<lparr>notifyEventFd := Some (r_eventfd os)\<rparr>
        in if r_timerfd os < 0 then (OH_MIDI_STATUS_SYSTEM_ERROR, dc\<lparr>notifyEventFd := None\<rparr>)
           else
             let dc = dc\<lparr>timerFd := Some (r_timerfd os)\<rparr>
             in if r_epoll os < 0 then (OH_MIDI_STATUS_SYSTEM_ERROR, dc\<lparr>timerFd := None, notifyEventFd := None\<rparr>)
                else
                  let dc = dc\<lparr>epollFd := Some (r_epoll os)\<rparr>
                  in if r_ctl_notify os \<noteq> 0 then (OH_MIDI_STATUS_SYSTEM_ERROR, dc)
                     else if r_ctl_timer os \<noteq> 0 then
                       (OH_MIDI_STATUS_SYSTEM_ERROR, dc\<lparr>epollFd := None, timerFd := None, notifyEventFd := None\<rparr>)
                     else (OH_MIDI_STATUS_OK, dc))"

definition WakeWorkerByEventFd :: "DeviceConnectionForOutput \<Rightarrow> DeviceConnectionForOutput" where
  "WakeWorkerByEventFd dc = (if notifyEventFd dc = None then dc else dc\<lparr>wakeups := wakeups dc + 1\<rparr>)"

definition Start :: "SetupCalls \<Rightarrow> DeviceConnectionForOutput \<Rightarrow> int \<times> DeviceConnectionForOutput" where
  "Start os dc =
     (if running dc then (OH_MIDI_STATUS_OK, dc)
      else
        (case InitEpollAndFds os (dc\<lparr>running := True\<rparr>) of (rc, dc) \<Rightarrow>
           if rc \<noteq> OH_MIDI_STATUS_OK then (rc, dc\<lparr>running := False\<rparr>) else (OH_MIDI_STATUS_OK, dc)))"

definition Stop :: "DeviceConnectionForOutput \<Rightarrow> int \<times> DeviceConnectionForOutput" where
  "Stop dc =
     (if \<not> running dc then (OH_MIDI_STATUS_OK, dc)
      else (OH_MIDI_STATUS_OK, WakeWorkerByEventFd (dc\<lparr>running := False\<rparr>)))"

text \<open>\<open>dupFd\<close> is the result of duplicating the notification descriptor.\<close>

definition AddClientConnectionForOutput ::
  "(int \<Rightarrow> nat \<Rightarrow> (nat \<Rightarrow> u32) option) \<Rightarrow> int \<Rightarrow> u32 \<Rightarrow> int \<Rightarrow> DeviceConnectionForOutput \<Rightarrow> int \<times> DeviceConnectionForOutput" where
  "AddClientConnectionForOutput map_memory dupFd cid handle dc =
     (if \<not> dupFd \<ge> 0 then (OH_MIDI_STATUS_SYSTEM_ERROR, dc)
      else
        (case CreateRingBuffer map_memory dupFd (new_ClientConnection cid handle (info_portIndex (info dc))) of (rc, conn) \<Rightarrow>
           if rc \<noteq> OH_MIDI_STATUS_OK then (OH_MIDI_STATUS_SYSTEM_ERROR, dc)
           else (OH_MIDI_STATUS_OK, dc\<lparr>clients := clients dc @ [conn]\<rparr>)))"

definition SetPerClientMaxPendingEvents :: "nat \<Rightarrow> DeviceConnectionForOutput \<Rightarrow> DeviceConnectionForOutput" where
  "SetPerClientMaxPendingEvents n dc = dc\<lparr>perClientMaxPendingEvents := n\<rparr>"

definition SetMaxSendCacheBytes :: "nat \<Rightarrow> DeviceConnectionForOutput \<Rightarrow> DeviceConnectionForOutput" where
  "SetMaxSendCacheBytes n dc = dc\<lparr>maxSendCacheBytes := n\<rparr>"

subsection \<open>The send cache\<close>

definition TryAppendToSendCache :: "u64 \<Rightarrow> u32 list \<Rightarrow> DeviceConnectionForOutput \<Rightarrow> bool \<times> DeviceConnectionForOutput" where
  "TryAppendToSendCache ts payloadWords dc =
     (if length payloadWords = 0 then (True, dc)
      else
        let payloadBytes = length payloadWords * SIZEOF_WORD
        in if payloadBytes > maxSendCacheBytes dc then (False, dc)
           else if currentSendCacheBytes dc + payloadBytes > maxSendCacheBytes dc then (False, dc)
           else (True, dc\<lparr>sendCache := sendCache dc @ [\<lparr>me_timestamp = ts, me_words = payloadWords\<rparr>],
                          currentSendCacheBytes := currentSendCacheBytes dc + payloadBytes\<rparr>))"

definition FlushSendCacheToDriver :: "int \<Rightarrow> DeviceConnectionForOutput \<Rightarrow> DeviceConnectionForOutput" where
  "FlushSendCacheToDriver nowMs dc =
     (if sendCache dc = [] then dc
      else if \<not> info_driver (info dc) then dc
      else
        dc\<lparr>stats := fold (\<lambda>e. IncrementEventCount nowMs (length (me_words e) * SIZEOF_WORD)) (sendCache dc) (stats dc),
           to_driver := to_driver dc @ [sendCache dc], sendCache := [], currentSendCacheBytes := 0\<rparr>)"

definition SendToDriver :: "MidiEvent \<Rightarrow> DeviceConnectionForOutput \<Rightarrow> DeviceConnectionForOutput" where
  "SendToDriver event dc = dc"

text \<open>The same pattern in both places that consume an event: append, or flush and append again.\<close>

definition AppendOrFlush :: "int \<Rightarrow> u64 \<Rightarrow> u32 list \<Rightarrow> DeviceConnectionForOutput \<Rightarrow> DeviceConnectionForOutput" where
  "AppendOrFlush nowMs ts payloadWords dc =
     (case TryAppendToSendCache ts payloadWords dc of (res, dc) \<Rightarrow>
        if res then dc
        else
          (case TryAppendToSendCache ts payloadWords (FlushSendCacheToDriver nowMs dc) of (res, dc) \<Rightarrow>
             if \<not> res then SendToDriver \<lparr>me_timestamp = ts, me_words = payloadWords\<rparr> dc else dc))"

subsection \<open>Draining the rings\<close>

definition ConsumeRealtimeEvent ::
  "int \<Rightarrow> MidiSharedRing \<Rightarrow> PeekedEvent \<Rightarrow> DeviceConnectionForOutput \<Rightarrow> bool \<times> MidiSharedRing \<times> DeviceConnectionForOutput" where
  "ConsumeRealtimeEvent nowMs ring ringEvent dc =
     (let payload = me_words (CopyOut ringEvent ring);
          ts = h_timestamp (localHeader ringEvent)
      in (case CommitRead ringEvent ring of (ok, ring) \<Rightarrow>
            if \<not> ok then (False, ring, dc) else (True, ring, AppendOrFlush nowMs ts payload dc)))"

definition ConsumeNonRealtimeEvent ::
  "ClientConnectionInServer \<Rightarrow> MidiSharedRing \<Rightarrow> PeekedEvent \<Rightarrow> bool \<times> ClientConnectionInServer \<times> MidiSharedRing" where
  "ConsumeNonRealtimeEvent conn ring ringEvent =
     (if IsPendingFull conn then (False, conn, ring)
      else
        let ts = h_timestamp (localHeader ringEvent);
            dueTime = sint ts;
            payload = me_words (CopyOut ringEvent ring)
        in (case CommitRead ringEvent ring of (ok, ring) \<Rightarrow>
              if \<not> ok then (False, conn, ring)
              else (case EnqueueNonRealtime payload dueTime ts conn of (enqueued, conn) \<Rightarrow> (enqueued, conn, ring))))"

definition MAX_DRAIN_PER_CLIENT :: nat where "MAX_DRAIN_PER_CLIENT = 128"

text \<open>
  The loop, with the number of events that may still be drained. The ring is the connection's own, and is
  stored back into it.
\<close>

primrec DrainRingLoop ::
  "nat \<Rightarrow> int \<Rightarrow> ClientConnectionInServer \<Rightarrow> MidiSharedRing \<Rightarrow> DeviceConnectionForOutput
     \<Rightarrow> ClientConnectionInServer \<times> MidiSharedRing \<times> DeviceConnectionForOutput" where
  "DrainRingLoop 0 nowMs conn ring dc = (conn, snd (snd (PeekNext ring)), dc)"
| "DrainRingLoop (Suc left) nowMs conn ring dc =
     (case PeekNext ring of (status, ringEvent, ring) \<Rightarrow>
        if status \<noteq> OK then (conn, ring, dc)
        else if h_timestamp (localHeader ringEvent) = 0 then
          (case ConsumeRealtimeEvent nowMs ring ringEvent dc of (ok, ring, dc) \<Rightarrow>
             if \<not> ok then (conn, ring, dc) else DrainRingLoop left nowMs conn ring dc)
        else
          (case ConsumeNonRealtimeEvent conn ring ringEvent of (ok, conn, ring) \<Rightarrow>
             if \<not> ok then (conn, ring, dc) else DrainRingLoop left nowMs conn ring dc))"

definition DrainSingleClientRing ::
  "int \<Rightarrow> ClientConnectionInServer \<Rightarrow> DeviceConnectionForOutput \<Rightarrow> ClientConnectionInServer \<times> DeviceConnectionForOutput" where
  "DrainSingleClientRing nowMs conn dc =
     (case sharedRing conn of
        None \<Rightarrow> (conn, dc)
      | Some ring \<Rightarrow>
          (case DrainRingLoop MAX_DRAIN_PER_CLIENT nowMs conn ring dc of (conn, ring, dc) \<Rightarrow>
             (conn\<lparr>sharedRing := Some ring\<rparr>, dc)))"

primrec DrainClients ::
  "int \<Rightarrow> ClientConnectionInServer list \<Rightarrow> DeviceConnectionForOutput \<Rightarrow> ClientConnectionInServer list \<times> DeviceConnectionForOutput" where
  "DrainClients nowMs [] dc = ([], dc)"
| "DrainClients nowMs (c # cs) dc =
     (case DrainSingleClientRing nowMs c dc of (c, dc) \<Rightarrow>
        case DrainClients nowMs cs dc of (cs, dc) \<Rightarrow> (c # cs, dc))"

definition DrainAllClientsRings :: "int \<Rightarrow> DeviceConnectionForOutput \<Rightarrow> DeviceConnectionForOutput" where
  "DrainAllClientsRings nowMs dc =
     (case DrainClients nowMs (clients dc) dc of (cs, dc) \<Rightarrow> dc\<lparr>clients := cs\<rparr>)"

subsection \<open>Collecting what is due\<close>

text \<open>The index of the first client whose earliest pending event is due before those of the others.\<close>

fun FindEarliest :: "ClientConnectionInServer list \<Rightarrow> nat \<Rightarrow> (nat \<times> int) option \<Rightarrow> (nat \<times> int) option" where
  "FindEarliest [] i best = best"
| "FindEarliest (c # cs) i best =
     (case PeekPendingTop c of
        None \<Rightarrow> FindEarliest cs (i + 1) best
      | Some t \<Rightarrow>
          (case best of
             None \<Rightarrow> FindEarliest cs (i + 1) (Some (i, due t))
           | Some (j, d) \<Rightarrow> FindEarliest cs (i + 1) (if due t < d then Some (i, due t) else Some (j, d))))"

definition FindClientWithEarliestDue :: "ClientConnectionInServer list \<Rightarrow> (nat \<times> int) option" where
  "FindClientWithEarliestDue cs = FindEarliest cs 0 None"

definition total_pending :: "ClientConnectionInServer list \<Rightarrow> nat" where
  "total_pending cs = sum_list (map (length \<circ> pending) cs)"

text \<open>
  The loop pops one pending event in each round, so the number of pending events is enough fuel;
  \<open>clock k\<close> is the \<open>k\<close>-th reading of the steady clock.
\<close>

primrec CollectLoop :: "nat \<Rightarrow> (nat \<Rightarrow> int) \<Rightarrow> nat \<Rightarrow> int \<Rightarrow> DeviceConnectionForOutput \<Rightarrow> DeviceConnectionForOutput" where
  "CollectLoop 0 clock k nowMs dc = dc"
| "CollectLoop (Suc fuel) clock k nowMs dc =
     (case FindClientWithEarliestDue (clients dc) of
        None \<Rightarrow> dc
      | Some (i, earliestDueTime) \<Rightarrow>
          if earliestDueTime > clock k then dc
          else
            (case PopPendingTop (clients dc ! i) of
               None \<Rightarrow> dc
             | Some (dueEvent, conn) \<Rightarrow>
                 let dc = dc\<lparr>clients := (clients dc)[i := conn]\<rparr>
                 in if fst (TryAppendToSendCache (pe_timestamp dueEvent) (pe_data dueEvent) dc)
                    then CollectLoop fuel clock k nowMs
                           (snd (TryAppendToSendCache (pe_timestamp dueEvent) (pe_data dueEvent) dc))
                    else CollectLoop fuel clock (k + 1) nowMs
                           (AppendOrFlush nowMs (pe_timestamp dueEvent) (pe_data dueEvent) dc)))"

definition CollectDueEventsFromClientHeaps :: "(nat \<Rightarrow> int) \<Rightarrow> int \<Rightarrow> DeviceConnectionForOutput \<Rightarrow> DeviceConnectionForOutput" where
  "CollectDueEventsFromClientHeaps clock nowMs dc =
     CollectLoop (total_pending (clients dc)) clock 0 nowMs dc"

subsection \<open>The timer and the wake-up\<close>

definition UpdateNextTimer :: "int \<Rightarrow> DeviceConnectionForOutput \<Rightarrow> DeviceConnectionForOutput" where
  "UpdateNextTimer now dc =
     (case FindClientWithEarliestDue (clients dc) of
        None \<Rightarrow> dc\<lparr>timer := (0, 0)\<rparr>
      | Some (_, earliestDueTime) \<Rightarrow>
          if earliestDueTime < now then (WakeWorkerByEventFd dc)\<lparr>timer := (0, 1)\<rparr>
          else
            let deltaNs = earliestDueTime - now; deltaNs = (if deltaNs \<le> 0 then 1 else deltaNs)
            in dc\<lparr>timer := (deltaNs div 1000000000, deltaNs mod 1000000000)\<rparr>)"

definition HandleWakeupOnce :: "(nat \<Rightarrow> int) \<Rightarrow> int \<Rightarrow> int \<Rightarrow> DeviceConnectionForOutput \<Rightarrow> DeviceConnectionForOutput" where
  "HandleWakeupOnce clock later nowMs dc =
     (let dc = DrainAllClientsRings nowMs dc;
          dc = CollectDueEventsFromClientHeaps clock nowMs dc;
          dc = FlushSendCacheToDriver nowMs dc
      in UpdateNextTimer later dc)"

definition FlushClientCache :: "u32 \<Rightarrow> DeviceConnectionForOutput \<Rightarrow> DeviceConnectionForOutput" where
  "FlushClientCache cid dc =
     dc\<lparr>clients := map (\<lambda>c. if conn_clientId c = cid then Conn_Flush c else c) (clients dc)\<rparr>"

end
