(* ===== verification/Device_Delivery.thy ===== *)
theory Device_Delivery
  imports Device_Connection
begin

text \<open>
  What a port of the service promises: an output port passes the real time events of every client on in the order
  they were written, keeps the others until they are due and then passes them on in due order; its timer is
  armed for the earliest of them; an input port gives each client the events of the device for which its ring has room.
\<close>


section \<open>The stream to the driver\<close>

definition stream :: "DeviceConnectionForOutput \<Rightarrow> MidiEvent list" where
  "stream dc = concat (to_driver dc) @ sendCache dc"

definition event_bytes :: "MidiEvent \<Rightarrow> nat" where
  "event_bytes e = length (me_words e) * SIZEOF_WORD"

definition cache_inv :: "DeviceConnectionForOutput \<Rightarrow> bool" where
  "cache_inv dc \<longleftrightarrow> currentSendCacheBytes dc = sum_list (map event_bytes (sendCache dc))
     \<and> currentSendCacheBytes dc \<le> maxSendCacheBytes dc"

definition visible :: "MidiEvent list \<Rightarrow> MidiEvent list" where
  "visible es = filter (\<lambda>e. me_words e \<noteq> []) es"

lemma visible_simps [simp]: "visible [] = []" "visible (es @ fs) = visible es @ visible fs"
  "visible (e # es) = (if me_words e \<noteq> [] then [e] else []) @ visible es"
  by (simp_all add: visible_def)

lemma AppendOrFlush_stream:
  assumes "cache_inv dc" "info_driver (info dc)" "length ws * SIZEOF_WORD \<le> maxSendCacheBytes dc"
  shows "let dc' = AppendOrFlush nowMs ts ws dc
     in cache_inv dc' \<and> stream dc' = stream dc @ visible [\<lparr>me_timestamp = ts, me_words = ws\<rparr>]
        \<and> clients dc' = clients dc \<and> maxSendCacheBytes dc' = maxSendCacheBytes dc \<and> info dc' = info dc"
  using assms
  by (auto simp: AppendOrFlush_def TryAppendToSendCache_def FlushSendCacheToDriver_def stream_def cache_inv_def
      event_bytes_def Let_def SendToDriver_def)

lemma FlushSendCache_stream:
  "info_driver (info dc) \<Longrightarrow> stream (FlushSendCacheToDriver nowMs dc) = stream dc \<and> sendCache (FlushSendCacheToDriver nowMs dc) = []
   \<and> clients (FlushSendCacheToDriver nowMs dc) = clients dc"
  by (simp add: FlushSendCacheToDriver_def stream_def)

section \<open>Draining one ring\<close>

definition pending_of :: "MidiEvent \<Rightarrow> PendingEvent" where
  "pending_of e = \<lparr>due = sint (me_timestamp e), pe_data = me_words e, pe_timestamp = me_timestamp e\<rparr>"

definition realtime :: "MidiEvent list \<Rightarrow> MidiEvent list" where
  "realtime es = filter (\<lambda>e. me_timestamp e = 0) es"

definition later :: "MidiEvent list \<Rightarrow> MidiEvent list" where
  "later es = filter (\<lambda>e. me_timestamp e \<noteq> 0) es"

lemma segment_sizes: "segment m a b es \<Longrightarrow> e \<in> set es \<Longrightarrow> event_size e \<le> b"
  by (induction es arbitrary: a) (auto dest: segment_le)

lemma ring_queue_size:
  assumes "ring_queue ring es" "e \<in> set es"
  shows "event_size e \<le> unat (capacity ring)"
proof (cases "readPosition ring \<le> writePosition ring")
  case True
  then show ?thesis using assms segment_sizes
    by (fastforce simp: ring_queue_def Let_def word_le_nat_alt)
next
  case False
  then have wr: "writePosition ring < readPosition ring" by simp
  obtain p es1 es2 where "es = es1 @ es2" "segment (ring_mem ring) (unat (readPosition ring)) p es1"
    "segment (ring_mem ring) 0 (unat (writePosition ring)) es2" "p \<le> unat (capacity ring)"
    using wrapped_cases [OF assms(1) wr] by metis
  moreover have "unat (writePosition ring) \<le> unat (capacity ring)"
    using assms(1) by (simp add: ring_queue_def Let_def)
  ultimately show ?thesis using assms(2) segment_sizes by (metis Un_iff order_trans set_append)
qed

lemma CopyOut_timestamp: "CopyOut ev ring = e \<Longrightarrow> h_timestamp (localHeader ev) = me_timestamp e"
  by (auto simp: CopyOut_def Let_def)

text \<open>
  What one pass over a ring takes from it, when the pending queue has room for so many events: the loop stops at the first event for later
  for which there is no room, and leaves it and all behind it, real time events included, in the ring.
\<close>

primrec drained :: "nat \<Rightarrow> MidiEvent list \<Rightarrow> MidiEvent list \<times> MidiEvent list" where
  "drained room [] = ([], [])"
| "drained room (e # es) =
     (if me_timestamp e = 0 then (case drained room es of (taken, left) \<Rightarrow> (e # taken, left))
      else if room = 0 then ([], e # es)
      else (case drained (room - 1) es of (taken, left) \<Rightarrow> (e # taken, left)))"

lemma drained_append: "fst (drained room es) @ snd (drained room es) = es"
  by (induction es arbitrary: room) (auto simp: split_beta)

lemma drained_room: "length (later (fst (drained room es))) \<le> room"
proof (induction es arbitrary: room)
  case (Cons e es)
  have "0 < room \<Longrightarrow> Suc (length (later (fst (drained (room - 1) es)))) \<le> room"
    using Cons [of "room - 1"] by linarith
  then show ?case using Cons [of room] by (auto simp: later_def split_beta)
qed (simp add: later_def)

lemma drained_all: "length (later es) \<le> room \<Longrightarrow> drained room es = (es, [])"
  by (induction es arbitrary: room) (auto simp: later_def split_beta split: if_splits)

lemma DrainRingLoop_drains:
  assumes "ring_queue ring es" "all_published (length es) ring" "length es < left"
    "capacity ring = DEFAULT_RING_BUFFER_SIZE" "cache_inv dc" "2048 \<le> maxSendCacheBytes dc" "info_driver (info dc)"
    "pq_ok (pending conn)" "length (pending conn) \<le> maxPending conn"
    "drained (maxPending conn - length (pending conn)) es = (taken, rest)"
  shows "\<exists>conn' ring' dc'. DrainRingLoop left nowMs conn ring dc = (conn', ring', dc')
     \<and> ring_queue ring' rest \<and> capacity ring' = DEFAULT_RING_BUFFER_SIZE
     \<and> cache_inv dc' \<and> stream dc' = stream dc @ visible (realtime taken) \<and> clients dc' = clients dc
     \<and> maxSendCacheBytes dc' = maxSendCacheBytes dc \<and> info dc' = info dc
     \<and> pq_ok (pending conn') \<and> maxPending conn' = maxPending conn
     \<and> mset (pending conn') = mset (pending conn) + mset (map pending_of (later taken))"
  using assms
proof (induction es arbitrary: left conn ring dc taken)
  case Nil
  then obtain n where "left = Suc n" by (cases left) auto
  moreover obtain ev ring' where "PeekNext ring = (WOULD_BLOCK, ev, ring')" "ring_queue ring' []"
    using PeekNext_empty [OF Nil.prems(1)] by blast
  moreover from this have "capacity ring' = DEFAULT_RING_BUFFER_SIZE" using PeekNext_capacity [of ring] Nil by simp
  ultimately show ?case using Nil by (simp add: realtime_def later_def)
next
  case (Cons e es)
  then obtain n where n: "left = Suc n" "length es < n" by (cases left) auto
  have p: "published ring" "all_published (length es) (snd (ring_get ring))" using Cons.prems(2) by simp_all
  obtain ev ring1 ring2 where P: "PeekNext ring = (OK, ev, ring1)" "CopyOut ev ring1 = e"
    "CommitRead ev ring1 = (True, ring2)" "ring_queue ring2 es" "ring_queue ring1 (e # es)"
    using PeekNext_pop [OF Cons.prems(1) p(1)] by blast
  have g: "snd (ring_get ring) = ring2" using P by (simp add: ring_get_def)
  have cap: "capacity ring1 = DEFAULT_RING_BUFFER_SIZE" "capacity ring2 = DEFAULT_RING_BUFFER_SIZE"
    using PeekNext_capacity [of ring] CommitRead_capacity [of ev ring1] P Cons.prems(4) by simp_all
  note ts = CopyOut_timestamp [OF P(2)]
  show ?case
  proof (cases "me_timestamp e = 0")
    case True
    have "event_size e \<le> 2048" using ring_queue_size [OF Cons.prems(1), of e] Cons.prems(4) by (simp add: DEFAULT_RING_BUFFER_SIZE_def)
    then have sz: "length (me_words e) * SIZEOF_WORD \<le> maxSendCacheBytes dc"
      using event_size_bounds(1) [of e] Cons.prems(6) by (simp add: SIZEOF_WORD_def)
    define dc1 where "dc1 = AppendOrFlush nowMs 0 (me_words e) dc"
    note A = AppendOrFlush_stream [OF Cons.prems(5,7) sz, of nowMs 0, folded dc1_def, unfolded Let_def]
    obtain tk where d: "drained (maxPending conn - length (pending conn)) es = (tk, rest)" "taken = e # tk"
      using Cons.prems(10) True by (auto split: prod.splits)
    have l: "later taken = later tk" "realtime taken = e # realtime tk" "\<lparr>me_timestamp = 0, me_words = me_words e\<rparr> = e"
      using True by (simp_all add: later_def realtime_def d(2))
    have E: "DrainRingLoop left nowMs conn ring dc = DrainRingLoop n nowMs conn ring2 dc1"
      using P True ts by (simp add: n ConsumeRealtimeEvent_def dc1_def)
    show ?thesis unfolding E
      using Cons.IH [OF P(4) _ n(2) cap(2) _ _ _ Cons.prems(8,9) d(1), of dc1] p(2) g A Cons.prems(6,7) l by auto
  next
    case False
    show ?thesis
    proof (cases "IsPendingFull conn")
      case True
      then have "taken = []" "rest = e # es" using Cons.prems(10) False by (simp_all add: IsPendingFull_def)
      moreover have "DrainRingLoop left nowMs conn ring dc = (conn, ring1, dc)"
        using P False ts True by (simp add: n ConsumeNonRealtimeEvent_def)
      ultimately show ?thesis using P(5) cap(1) Cons.prems by (simp add: realtime_def later_def)
    next
      case F: False
      then have lt: "length (pending conn) < maxPending conn" by (simp add: IsPendingFull_def)
      obtain tk where d: "drained (maxPending conn - length (pending conn) - 1) es = (tk, rest)" "taken = e # tk"
        using Cons.prems(10) False lt by (auto split: prod.splits)
      have l: "later taken = e # later tk" "realtime taken = realtime tk"
        using False by (simp_all add: later_def realtime_def d(2))
      define conn1 where "conn1 = conn\<lparr>pending := pq_push (pending_of e) (pending conn)\<rparr>"
      have q: "pq_ok (pending conn1)" "mset (pending conn1) = add_mset (pending_of e) (mset (pending conn))"
        using Cons.prems(8) by (simp_all add: conn1_def pq_push_ok mset_pq_push)
      have "length (pending conn1) = Suc (length (pending conn))" using arg_cong [OF q(2), of size] by simp
      then have l1: "length (pending conn1) \<le> maxPending conn1" "drained (maxPending conn1 - length (pending conn1)) es = (tk, rest)"
        using lt d(1) by (simp_all add: conn1_def)
      have E: "DrainRingLoop left nowMs conn ring dc = DrainRingLoop n nowMs conn1 ring2 dc"
        using P False ts F
        by (simp add: n ConsumeNonRealtimeEvent_def EnqueueNonRealtime_def conn1_def pending_of_def Let_def)
      show ?thesis unfolding E
        using Cons.IH [OF P(4) _ n(2) cap(2) Cons.prems(5,6,7) q(1) l1] p(2) g l q(2) by (auto simp: conn1_def)
    qed
  qed
qed

text \<open>A client whose ring holds the events \<open>es\<close>, all of them published.\<close>

definition drain_ready :: "ClientConnectionInServer \<Rightarrow> MidiEvent list \<Rightarrow> bool" where
  "drain_ready conn es \<longleftrightarrow> conn_inv conn es \<and> all_published (length es) (the (sharedRing conn))"

definition drained_of :: "ClientConnectionInServer \<Rightarrow> MidiEvent list \<Rightarrow> MidiEvent list \<times> MidiEvent list" where
  "drained_of conn es = drained (maxPending conn - length (pending conn)) es"

lemma later_small: "ring_queue ring es \<Longrightarrow> capacity ring = DEFAULT_RING_BUFFER_SIZE \<Longrightarrow> e \<in> set (later es) \<Longrightarrow>
    length (me_words e) * SIZEOF_WORD \<le> 2048"
  using ring_queue_size [of ring es e] event_size_bounds(1) [of e]
  by (simp add: later_def DEFAULT_RING_BUFFER_SIZE_def SIZEOF_WORD_def)

lemma DrainSingle_drains:
  assumes "drain_ready conn es" "cache_inv dc" "2048 \<le> maxSendCacheBytes dc" "info_driver (info dc)"
  shows "\<exists>conn' dc'. DrainSingleClientRing nowMs conn dc = (conn', dc') \<and> conn_inv conn' (snd (drained_of conn es))
     \<and> stream dc' = stream dc @ visible (realtime (fst (drained_of conn es)))
     \<and> cache_inv dc' \<and> maxSendCacheBytes dc' = maxSendCacheBytes dc \<and> info dc' = info dc
     \<and> mset (pending conn') = mset (pending conn) + mset (map pending_of (later (fst (drained_of conn es))))"
proof -
  obtain ring where r: "sharedRing conn = Some ring" "ring_queue ring es" "capacity ring = DEFAULT_RING_BUFFER_SIZE"
    using assms(1) by (auto simp: conn_inv_def drain_ready_def)
  have "length es < MAX_DRAIN_PER_CLIENT"
    using ring_queue_length [OF r(2)] r(3) by (simp add: DEFAULT_RING_BUFFER_SIZE_def MAX_DRAIN_PER_CLIENT_def)
  moreover obtain taken rest where d: "drained_of conn es = (taken, rest)" by fastforce
  moreover have p: "all_published (length es) ring" "pq_ok (pending conn)" "length (pending conn) \<le> maxPending conn"
    using assms(1) r(1) by (simp_all add: conn_inv_def drain_ready_def)
  ultimately obtain conn' ring' dc' where D: "DrainRingLoop MAX_DRAIN_PER_CLIENT nowMs conn ring dc = (conn', ring', dc')"
     "ring_queue ring' rest" "capacity ring' = DEFAULT_RING_BUFFER_SIZE" "cache_inv dc'"
     "stream dc' = stream dc @ visible (realtime taken)" "pq_ok (pending conn')" "maxPending conn' = maxPending conn"
     "mset (pending conn') = mset (pending conn) + mset (map pending_of (later taken))"
     "maxSendCacheBytes dc' = maxSendCacheBytes dc" "info dc' = info dc"
    using DrainRingLoop_drains [OF r(2) p(1) _ r(3) assms(2-4) p(2,3)] by (metis drained_of_def)
  have "length (later taken) \<le> maxPending conn - length (pending conn)"
    using drained_room [of "maxPending conn - length (pending conn)" es] d by (simp add: drained_of_def)
  then have "length (pending conn') \<le> maxPending conn'"
    using arg_cong [OF D(8), of size] p(3) D(7) by simp
  then show ?thesis using D r(1) d by (simp add: DrainSingleClientRing_def conn_inv_def)
qed

definition all_pending :: "ClientConnectionInServer list \<Rightarrow> PendingEvent multiset" where
  "all_pending cs = sum_list (map (mset \<circ> pending) cs)"

definition taken_of :: "ClientConnectionInServer list \<Rightarrow> MidiEvent list list \<Rightarrow> MidiEvent list" where
  "taken_of cs ess = concat (map2 (\<lambda>c es. fst (drained_of c es)) cs ess)"

definition left_of :: "ClientConnectionInServer list \<Rightarrow> MidiEvent list list \<Rightarrow> MidiEvent list list" where
  "left_of cs ess = map2 (\<lambda>c es. snd (drained_of c es)) cs ess"

lemma DrainClients_drains:
  assumes "list_all2 drain_ready cs ess" "cache_inv dc" "2048 \<le> maxSendCacheBytes dc" "info_driver (info dc)"
  shows "\<exists>cs' dc'. DrainClients nowMs cs dc = (cs', dc') \<and> list_all2 conn_inv cs' (left_of cs ess)
     \<and> stream dc' = stream dc @ visible (realtime (taken_of cs ess))
     \<and> cache_inv dc' \<and> maxSendCacheBytes dc' = maxSendCacheBytes dc \<and> info dc' = info dc
     \<and> all_pending cs' = all_pending cs + mset (map pending_of (later (taken_of cs ess)))"
  using assms
proof (induction cs ess arbitrary: dc rule: list_all2_induct)
  case Nil
  then show ?case by (simp add: realtime_def later_def taken_of_def left_of_def)
next
  case (Cons c cs es ess)
  obtain c' dc1 where D: "DrainSingleClientRing nowMs c dc = (c', dc1)" "conn_inv c' (snd (drained_of c es))"
     "stream dc1 = stream dc @ visible (realtime (fst (drained_of c es)))" "cache_inv dc1" "maxSendCacheBytes dc1 = maxSendCacheBytes dc"
     "info dc1 = info dc" "mset (pending c') = mset (pending c) + mset (map pending_of (later (fst (drained_of c es))))"
    using DrainSingle_drains [OF Cons.hyps(1) Cons.prems] by blast
  obtain cs' dc2 where E: "DrainClients nowMs cs dc1 = (cs', dc2)" "list_all2 conn_inv cs' (left_of cs ess)"
     "stream dc2 = stream dc1 @ visible (realtime (taken_of cs ess))" "cache_inv dc2" "maxSendCacheBytes dc2 = maxSendCacheBytes dc1"
     "info dc2 = info dc1" "all_pending cs' = all_pending cs + mset (map pending_of (later (taken_of cs ess)))"
    using Cons.IH [OF D(4)] Cons.prems(2,3) D(5,6) by auto
  show ?case using D E by (simp add: realtime_def later_def all_pending_def taken_of_def left_of_def)
qed

section \<open>Collecting what is due\<close>

definition earliest :: "ClientConnectionInServer list \<Rightarrow> (nat \<times> int) option \<Rightarrow> bool" where
  "earliest cs best \<longleftrightarrow>
     (case best of
        None \<Rightarrow> \<forall>c\<in>set cs. pending c = []
      | Some (i, d) \<Rightarrow> i < length cs \<and> pending (cs ! i) \<noteq> [] \<and> d = due (pq_top (pending (cs ! i)))
          \<and> (\<forall>c\<in>set cs. pending c \<noteq> [] \<longrightarrow> d \<le> due (pq_top (pending c))))"

lemma FindEarliest_spec:
  "earliest ps best \<Longrightarrow> i = length ps \<Longrightarrow> earliest (ps @ cs) (FindEarliest cs i best)"
proof (induction cs arbitrary: ps i best)
  case (Cons c cs)
  let ?best = "case PeekPendingTop c of None \<Rightarrow> best
     | Some t \<Rightarrow> (case best of None \<Rightarrow> Some (i, due t) | Some (j, d) \<Rightarrow> if due t < d then Some (i, due t) else Some (j, d))"
  have "earliest (ps @ [c]) ?best"
    using Cons.prems by (auto simp: earliest_def PeekPendingTop_def nth_append split: option.splits)
  then have "earliest ((ps @ [c]) @ cs) (FindEarliest cs (i + 1) ?best)"
    using Cons.IH [of "ps @ [c]" ?best "i + 1"] Cons.prems(2) by simp
  moreover have "FindEarliest (c # cs) i best = FindEarliest cs (i + 1) ?best"
    by (auto split: option.splits)
  ultimately show ?case by simp
qed simp

lemma FindClient_spec: "earliest cs (FindClientWithEarliestDue cs)"
  using FindEarliest_spec [of "[]" None 0 cs] by (simp add: earliest_def FindClientWithEarliestDue_def)

definition event_of_pending :: "PendingEvent \<Rightarrow> MidiEvent" where
  "event_of_pending e = \<lparr>me_timestamp = pe_timestamp e, me_words = pe_data e\<rparr>"

lemma all_pending_update:
  "i < length cs \<Longrightarrow> mset (pending (cs ! i)) = add_mset e (mset (pending c)) \<Longrightarrow>
    all_pending cs = add_mset e (all_pending (cs[i := c]))"
proof (induction cs arbitrary: i)
  case (Cons x cs)
  then show ?case by (cases i) (auto simp: all_pending_def)
qed simp

lemma total_pending_update:
  "i < length cs \<Longrightarrow> length (pending (cs ! i)) = Suc (length (pending c)) \<Longrightarrow>
    total_pending cs = Suc (total_pending (cs[i := c]))"
proof (induction cs arbitrary: i)
  case (Cons x cs)
  then show ?case by (cases i) (auto simp: total_pending_def)
qed simp

lemma in_all_pending: "e \<in># all_pending cs \<longleftrightarrow> (\<exists>c\<in>set cs. e \<in> set (pending c))"
  by (induction cs) (auto simp: all_pending_def)

definition output_inv :: "DeviceConnectionForOutput \<Rightarrow> bool" where
  "output_inv dc \<longleftrightarrow> cache_inv dc \<and> (\<forall>c\<in>set (clients dc). pq_ok (pending c))
     \<and> (\<forall>e\<in>#all_pending (clients dc). length (pe_data e) * SIZEOF_WORD \<le> maxSendCacheBytes dc)"

lemma earliest_min:
  assumes "earliest cs (Some (i, d))" "\<forall>c\<in>set cs. pq_ok (pending c)" "e \<in># all_pending cs"
  shows "d \<le> due e"
proof -
  obtain c where c: "c \<in> set cs" "e \<in> set (pending c)" using assms(3) by (auto simp: in_all_pending)
  then have "d \<le> due (pq_top (pending c))" using assms(1) by (auto simp: earliest_def)
  also have "due (pq_top (pending c)) \<le> due e" using pq.top_min [of "pending c"] c assms(2)
    by (metis empty_iff list.set(1) mset_zero_iff set_mset_mset)
  finally show ?thesis .
qed

lemma AppendOrFlush_TryAppend:
  "fst (TryAppendToSendCache ts ws dc) \<Longrightarrow> AppendOrFlush nowMs ts ws dc = snd (TryAppendToSendCache ts ws dc)"
  by (simp add: AppendOrFlush_def split_beta)

text \<open>What collecting leaves as it is in a client: its ring and its limits.\<close>

definition same_ring :: "ClientConnectionInServer \<Rightarrow> ClientConnectionInServer \<Rightarrow> bool" where
  "same_ring c c' \<longleftrightarrow> sharedRing c' = sharedRing c \<and> maxPending c' = maxPending c \<and> length (pending c') \<le> length (pending c)"

lemma same_ring_self: "same_ring c c"
  by (simp add: same_ring_def)

lemma same_ring_refl: "list_all2 same_ring cs cs"
  by (simp add: list_all2_conv_all_nth same_ring_def)

lemma same_ring_trans: "list_all2 same_ring cs cs' \<Longrightarrow> list_all2 same_ring cs' cs'' \<Longrightarrow> list_all2 same_ring cs cs''"
  by (rule list_all2_trans) (auto simp: same_ring_def)

lemma same_ring_inv: "list_all2 conn_inv cs ess \<Longrightarrow> list_all2 same_ring cs cs' \<Longrightarrow> \<forall>c\<in>set cs'. pq_ok (pending c) \<Longrightarrow>
    list_all2 conn_inv cs' ess"
  unfolding list_all2_conv_all_nth by (fastforce simp: same_ring_def conn_inv_def)

lemma CollectLoop_step:
  assumes "earliest (clients dc) (Some (i, d))" "FindClientWithEarliestDue (clients dc) = Some (i, d)" "d \<le> clock k"
    "output_inv dc" "info_driver (info dc)"
  shows "\<exists>e dc1. CollectLoop (Suc fuel) clock k nowMs dc
        = CollectLoop fuel clock (if fst (TryAppendToSendCache (pe_timestamp e) (pe_data e) dc) then k else k + 1) nowMs dc1
     \<and> due e = d \<and> all_pending (clients dc) = add_mset e (all_pending (clients dc1))
     \<and> total_pending (clients dc) = Suc (total_pending (clients dc1))
     \<and> output_inv dc1 \<and> stream dc1 = stream dc @ visible [event_of_pending e]
     \<and> list_all2 same_ring (clients dc) (clients dc1) \<and> info dc1 = info dc"
proof -
  let ?c = "clients dc ! i"
  have i: "i < length (clients dc)" "pending ?c \<noteq> []" "d = due (pq_top (pending ?c))"
    using assms(1) by (auto simp: earliest_def)
  obtain e conn where pop: "PopPendingTop ?c = Some (e, conn)" and e: "e = pq_top (pending ?c)"
    using i(2) by (simp add: PopPendingTop_def)
  have ok: "pq_ok (pending ?c)" using assms(4) i(1) by (simp add: output_inv_def)
  note P = PopPendingTop_pending [OF pop ok]
  define dc0 where "dc0 = dc\<lparr>clients := (clients dc)[i := conn]\<rparr>"
  have ap: "all_pending (clients dc) = add_mset e (all_pending (clients dc0))"
    and tp: "total_pending (clients dc) = Suc (total_pending (clients dc0))"
    using all_pending_update [OF i(1)] total_pending_update [OF i(1)] P by (simp_all add: dc0_def)
  have c0: "cache_inv dc0" "stream dc0 = stream dc" "maxSendCacheBytes dc0 = maxSendCacheBytes dc" "info dc0 = info dc"
    using assms(4) by (simp_all add: dc0_def output_inv_def cache_inv_def stream_def)
  have sz: "length (pe_data e) * SIZEOF_WORD \<le> maxSendCacheBytes dc0"
    using assms(4) ap c0(3) by (simp add: output_inv_def)
  define dc1 where "dc1 = AppendOrFlush nowMs (pe_timestamp e) (pe_data e) dc0"
  have "info_driver (info dc0)" using assms(5) c0(4) by simp
  note A = AppendOrFlush_stream [OF c0(1) this sz, of nowMs "pe_timestamp e", folded dc1_def, unfolded Let_def]
  have "\<forall>c\<in>set (clients dc0). pq_ok (pending c)"
    using assms(4) P by (auto simp: dc0_def output_inv_def dest: set_update_subset_insert [THEN subsetD])
  then have inv: "output_inv dc1"
    using A ap assms(4) c0(3) by (simp add: output_inv_def)
  have t: "fst (TryAppendToSendCache ts ws dc0) = fst (TryAppendToSendCache ts ws dc)" for ts ws
    by (simp add: TryAppendToSendCache_def dc0_def Let_def)
  have step: "CollectLoop (Suc fuel) clock k nowMs dc
        = CollectLoop fuel clock (if fst (TryAppendToSendCache (pe_timestamp e) (pe_data e) dc) then k else k + 1) nowMs dc1"
    using assms(2,3) pop AppendOrFlush_TryAppend [of "pe_timestamp e" "pe_data e" dc0 nowMs]
    by (auto simp: dc0_def [symmetric] dc1_def t)
  have "maxPending conn = maxPending ?c" using pop by (auto simp: PopPendingTop_def split: if_splits)
  then have "same_ring ?c conn" using P by (simp add: same_ring_def)
  then have "list_all2 same_ring (clients dc) (clients dc0)"
    using i(1) by (auto simp: dc0_def list_all2_conv_all_nth nth_list_update same_ring_self)
  moreover have "stream dc1 = stream dc @ visible [event_of_pending e]"
    using A c0(2) by (simp add: event_of_pending_def)
  moreover have "clients dc1 = clients dc0" "info dc1 = info dc" using A c0(4) by simp_all
  moreover have "due e = d" by (simp add: e i(3))
  ultimately show ?thesis using step ap tp inv by (intro exI [of _ e] exI [of _ dc1]) (simp only: simp_thms)
qed

lemma no_pending: "\<forall>c\<in>set cs. pending c = [] \<Longrightarrow> all_pending cs = {#}"
  by (induction cs) (auto simp: all_pending_def)

lemma total_pending_0: "total_pending cs = 0 \<Longrightarrow> all_pending cs = {#}"
  by (rule no_pending) (auto simp: total_pending_def)

lemma CollectLoop_collects:
  assumes "output_inv dc" "total_pending (clients dc) \<le> fuel" "\<forall>e\<in>#all_pending (clients dc). lo \<le> due e"
    "info_driver (info dc)" "mono clock"
  shows "\<exists>es k'. let dc' = CollectLoop fuel clock k nowMs dc
     in stream dc' = stream dc @ visible (map event_of_pending es)
        \<and> sorted (map due es) \<and> k \<le> k' \<and> k' \<le> k + length es \<and> (\<forall>e\<in>set es. lo \<le> due e \<and> due e \<le> clock k')
        \<and> all_pending (clients dc) = mset es + all_pending (clients dc')
        \<and> (\<forall>e\<in>#all_pending (clients dc'). clock k' < due e) \<and> output_inv dc'
        \<and> list_all2 same_ring (clients dc) (clients dc') \<and> info dc' = info dc"
  using assms(1-4)
proof (induction fuel arbitrary: k dc lo)
  case 0
  then have "all_pending (clients dc) = {#}" using total_pending_0 [of "clients dc"] by simp
  then show ?case using 0 by (intro exI [of _ "[]"] exI [of _ k]) (simp add: same_ring_refl)
next
  case (Suc fuel)
  show ?case
  proof (cases "FindClientWithEarliestDue (clients dc)")
    case None
    then have "all_pending (clients dc) = {#}"
      using FindClient_spec [of "clients dc"] no_pending by (simp add: earliest_def)
    then show ?thesis using None Suc.prems by (intro exI [of _ "[]"] exI [of _ k]) (simp add: same_ring_refl)
  next
    case (Some best)
    obtain i d where b: "best = (i, d)" by fastforce
    have E: "earliest (clients dc) (Some (i, d))" using FindClient_spec [of "clients dc"] Some b by simp
    have ok: "\<forall>c\<in>set (clients dc). pq_ok (pending c)" using Suc.prems(1) by (simp add: output_inv_def)
    show ?thesis
    proof (cases "d \<le> clock k")
      case True
      obtain e k1 dc1 where S: "CollectLoop (Suc fuel) clock k nowMs dc = CollectLoop fuel clock k1 nowMs dc1"
        "due e = d" "all_pending (clients dc) = add_mset e (all_pending (clients dc1))"
        "total_pending (clients dc) = Suc (total_pending (clients dc1))"
        "output_inv dc1" "stream dc1 = stream dc @ visible [event_of_pending e]"
        "list_all2 same_ring (clients dc) (clients dc1)" "info dc1 = info dc" "k \<le> k1" "k1 \<le> k + 1"
        using CollectLoop_step [where clock = clock and k = k and fuel = fuel and nowMs = nowMs, OF E _ True Suc.prems(1,4)] Some b
        by (auto split: if_splits)
      have lo1: "\<forall>x\<in>#all_pending (clients dc1). d \<le> due x"
        using earliest_min [OF E ok] S(3) by simp
      obtain es k' where es: "let dc' = CollectLoop fuel clock k1 nowMs dc1
         in stream dc' = stream dc1 @ visible (map event_of_pending es)
        \<and> sorted (map due es) \<and> k1 \<le> k' \<and> k' \<le> k1 + length es \<and> (\<forall>e\<in>set es. d \<le> due e \<and> due e \<le> clock k')
        \<and> all_pending (clients dc1) = mset es + all_pending (clients dc')
        \<and> (\<forall>e\<in>#all_pending (clients dc'). clock k' < due e) \<and> output_inv dc'
        \<and> list_all2 same_ring (clients dc1) (clients dc') \<and> info dc' = info dc1"
        using Suc.IH [OF S(5) _ lo1, of k1] S(4,8) Suc.prems(2,4) by auto
      have "lo \<le> d" using Suc.prems(3) S(2,3) by auto
      moreover have "d \<le> clock k'" using True monoD [OF assms(5), of k k'] es S(9) by (auto simp: Let_def)
      ultimately show ?thesis unfolding S(1) using es S(2,3,6-10) same_ring_trans [OF S(7)]
        by (intro exI [of _ "e # es"] exI [of _ k']) (auto simp: Let_def)
    next
      case False
      then have "\<forall>e\<in>#all_pending (clients dc). clock k < due e"
        using earliest_min [OF E ok] by fastforce
      then show ?thesis using Some b False Suc.prems by (intro exI [of _ "[]"] exI [of _ k]) (simp add: same_ring_refl)
    qed
  qed
qed

section \<open>A concrete port\<close>

text \<open>One client with a published event in its ring, due at 7, and a pending one, due at 2.\<close>

definition client_ring :: MidiSharedRing where
  "client_ring = demo_ring\<lparr>capacity := 2048\<rparr>"

lemma client_ring_write:
  "\<exists>s'. ring_put demo_event client_ring = (True, s') \<and> readPosition s' = 0 \<and> load_sequence (ring_mem s') 0 = 2
     \<and> capacity s' = 2048 \<and> flushFlag s' = 0"
proof -
  have d: "capacity client_ring = 2048" "readPosition client_ring = 0" "writePosition client_ring = 0"
    "ring_mem client_ring = (\<lambda>_. 0)" "flushFlag client_ring = 0"
    by (simp_all add: client_ring_def demo_ring_def)
  obtain mem where W: "WriteEvent 0 demo_event client_ring = (True, client_ring\<lparr>ring_mem := mem\<rparr>)"
    "load_sequence mem 0 = 2"
    using WriteEvent_memory [of 0 client_ring demo_event]
    by (auto simp: demo_simps d load_sequence_def even_sequence_def)
  have "TryWriteOneEvent demo_event 32 0 0 client_ring = (OK, 32, client_ring\<lparr>ring_mem := mem, writePosition := 32\<rparr>)"
    by (simp add: TryWriteOneEvent_def UpdateWriteIndexIfNeed_def RingFree_def RingUsed_def d W)
  then have "WriteLoop [demo_event] 0 0 0 client_ring = (1, client_ring\<lparr>ring_mem := mem, writePosition := 32\<rparr>)"
    by (simp add: ValidateOneEvent_def demo_simps d demo_size IsValidOffset_def)
  then show ?thesis using W(2)
    by (simp add: ring_put_def TryWriteEvent_def TryWriteEvents_def ValidateWriteArgs_def demo_simps d
        IsValidOffset_def SIZEOF_HEADER_def NotifyWrittenEvents_def NotifyConsumer_def d Let_def del: WriteLoop.simps)
qed

definition demo_client :: ClientConnectionInServer where
  "demo_client = \<lparr>conn_clientId = 3, conn_deviceHandle = 1, conn_portIndex = 0,
     sharedRing = Some (snd (ring_put demo_event client_ring)), maxPending = 1024,
     pending = [\<lparr>due = 2, pe_data = [0x20903C41], pe_timestamp = 2\<rparr>]\<rparr>"

definition demo_port :: DeviceConnectionForOutput where
  "demo_port = (new_DeviceConnectionForOutput \<lparr>info_driver = True, info_deviceId = 1, info_direction = OUTPUT, info_portIndex = 0\<rparr>)\<lparr>
     clients := [demo_client]\<rparr>"

definition demo_input :: DeviceConnection where
  "demo_input = (new_DeviceConnection \<lparr>info_driver = True, info_deviceId = 1, info_direction = INPUT, info_portIndex = 0\<rparr>)\<lparr>clients := [demo_client]\<rparr>"

lemma demo_client_ready: "drain_ready demo_client [event_of demo_event]"
proof -
  obtain s' where s: "ring_put demo_event client_ring = (True, s')" "readPosition s' = 0" "load_sequence (ring_mem s') 0 = 2"
    "capacity s' = 2048" using client_ring_write by blast
  have "ring_queue client_ring []" by (simp add: ring_queue_def client_ring_def demo_ring_def)
  from ring.put_accepted [OF this s(1)] show ?thesis using s
    by (simp add: drain_ready_def conn_inv_def demo_client_def pq_ok_def DEFAULT_RING_BUFFER_SIZE_def published_def later_def)
qed

lemma demo_client_flag: "\<forall>ring. sharedRing demo_client = Some ring \<longrightarrow> flushFlag ring = 0"
  using client_ring_write by (auto simp: demo_client_def)

lemma demo_port_inv: "info_driver (info demo_port)" "cache_inv demo_port" "maxSendCacheBytes demo_port = 65536" "output_inv demo_port"
    "all_pending (clients demo_port) = {#\<lparr>due = 2, pe_data = [0x20903C41], pe_timestamp = 2\<rparr>#}"
  by (simp_all add: demo_port_def cache_inv_def new_DeviceConnectionForOutput_def new_DeviceConnection_def
      DeviceConnection.defs output_inv_def all_pending_def demo_client_def pq_ok_def SIZEOF_WORD_def)

section \<open>The timer\<close>

lemma UpdateNextTimer_unchanged:
  "clients (UpdateNextTimer now dc) = clients dc \<and> to_driver (UpdateNextTimer now dc) = to_driver dc
   \<and> sendCache (UpdateNextTimer now dc) = sendCache dc"
  by (auto simp: UpdateNextTimer_def WakeWorkerByEventFd_def Let_def split: option.splits)

lemma split_ns:
  assumes "1 \<le> (d :: int)"
  shows "0 \<le> d div 1000000000" "0 \<le> d mod 1000000000" "d mod 1000000000 < 1000000000"
    "d div 1000000000 * 1000000000 + d mod 1000000000 = d" "\<not> (d div 1000000000 = 0 \<and> d mod 1000000000 = 0)"
  using assms by (simp_all add: pos_imp_zdiv_nonneg_iff) (metis div_mult_mod_eq add.right_neutral mult_zero_left not_one_le_zero)?

text \<open>
  C11: after the worker has set its timer, the timer is armed exactly when an event is pending, and then it
  runs out when the earliest pending event is due, at once (after one nanosecond, since zero disarms the timer)
  if that has passed; the two fields of the timer are in the range the system call accepts.
\<close>

theorem timer_armed:
  assumes "output_inv dc"
  shows "let dc' = UpdateNextTimer now dc; (s, n) = timer dc'; dues = due ` set_mset (all_pending (clients dc))
     in 0 \<le> s \<and> 0 \<le> n \<and> n < 1000000000 \<and> ((s, n) = (0, 0) \<longleftrightarrow> dues = {})
        \<and> (dues \<noteq> {} \<longrightarrow> s * 1000000000 + n = max 1 (Min dues - now))"
proof (cases "FindClientWithEarliestDue (clients dc)")
  case None
  then have "all_pending (clients dc) = {#}" using FindClient_spec [of "clients dc"] no_pending by (simp add: earliest_def)
  then show ?thesis using None by (simp add: UpdateNextTimer_def)
next
  case (Some best)
  obtain i d where b: "best = (i, d)" by fastforce
  have E: "earliest (clients dc) (Some (i, d))" using FindClient_spec [of "clients dc"] Some b by simp
  let ?dues = "due ` set_mset (all_pending (clients dc))"
  have "\<forall>c\<in>set (clients dc). pq_ok (pending c)" using assms by (simp add: output_inv_def)
  then have le: "\<forall>x\<in>?dues. d \<le> x" using earliest_min [OF E] by blast
  have "pq_top (pending (clients dc ! i)) \<in> set (pending (clients dc ! i))"
    using E by (simp add: earliest_def pq_top_def)
  then have mem: "d \<in> ?dues" using E by (force simp: earliest_def in_all_pending)
  then have "?dues \<noteq> {}" "Min ?dues = d" using le by (auto intro!: Min_eqI)
  moreover have "(if d - now \<le> 0 then 1 else d - now) = max 1 (d - now)" "max 1 (d - now) = 1 \<longleftrightarrow> d \<le> now + 1"
    by auto
  ultimately show ?thesis using Some b split_ns [of "max 1 (d - now)"]
    by (auto simp: UpdateNextTimer_def Let_def WakeWorkerByEventFd_def simp del: One_nat_def)
qed

theorem timer_armed_witness:
  "let dc' = UpdateNextTimer 1 demo_port; (s, n) = timer dc'; dues = due ` set_mset (all_pending (clients demo_port))
     in 0 \<le> s \<and> 0 \<le> n \<and> n < 1000000000 \<and> ((s, n) = (0, 0) \<longleftrightarrow> dues = {})
        \<and> (dues \<noteq> {} \<longrightarrow> s * 1000000000 + n = max 1 (Min dues - 1))"
  by (rule timer_armed [OF demo_port_inv(4)])

section \<open>One wake-up of the worker\<close>

lemma taken_small:
  assumes "list_all2 drain_ready cs ess" "e \<in> set (later (taken_of cs ess))"
  shows "length (me_words e) * SIZEOF_WORD \<le> 2048"
proof -
  obtain c es where z: "(c, es) \<in> set (zip cs ess)" "e \<in> set (later (fst (drained_of c es)))"
    using assms(2) by (auto simp: taken_of_def later_def)
  then have "drain_ready c es" using assms(1) by (auto simp: list_all2_iff)
  moreover have "e \<in> set (later es)"
    using z(2) drained_append [of "maxPending c - length (pending c)" es] by (auto simp: drained_of_def later_def) (metis Un_iff set_append)
  ultimately show ?thesis using later_small by (auto simp: drain_ready_def conn_inv_def)
qed

lemma lower_bound: "\<exists>lo. \<forall>e\<in>#M. lo \<le> (due e :: int)"
  by (rule exI [of _ "Min (due ` set_mset M)"]) simp

text \<open>
  C12: one wake-up of the worker of an output port whose clients' rings hold published events. Of each ring the events are taken up to the first
  event for later for which the client's pending queue has no room; that event and all behind it, real time events included, stay in the
  ring. To the driver it passes, behind what it had gathered before, first every taken event without a timestamp, client by client, each in
  ring order, then every pending event that is due by the clock, whose readings may advance meanwhile, in due order; events
  without words are left out. What is not due stays pending, nothing is lost, duplicated or sent early, and the batch is not held back.
\<close>

theorem wakeup_delivers:
  assumes "list_all2 drain_ready (clients dc) ess" "cache_inv dc" "2048 \<le> maxSendCacheBytes dc" "info_driver (info dc)"
    "\<forall>e\<in>#all_pending (clients dc). length (pe_data e) * SIZEOF_WORD \<le> maxSendCacheBytes dc" "mono clock"
  shows "\<exists>sent k. let dc' = HandleWakeupOnce clock t nowMs dc; taken = taken_of (clients dc) ess
     in concat (to_driver dc') = stream dc @ visible (realtime taken @ map event_of_pending sent) \<and> sendCache dc' = []
        \<and> sorted (map due sent) \<and> k \<le> length sent \<and> (\<forall>e\<in>set sent. due e \<le> clock k)
        \<and> all_pending (clients dc) + mset (map pending_of (later taken)) = mset sent + all_pending (clients dc')
        \<and> (\<forall>e\<in>#all_pending (clients dc'). clock k < due e)
        \<and> list_all2 conn_inv (clients dc') (left_of (clients dc) ess)"
proof -
  let ?taken = "taken_of (clients dc) ess"
  obtain cs dc1 where D: "DrainClients nowMs (clients dc) dc = (cs, dc1)" "list_all2 conn_inv cs (left_of (clients dc) ess)"
     "stream dc1 = stream dc @ visible (realtime ?taken)" "cache_inv dc1" "maxSendCacheBytes dc1 = maxSendCacheBytes dc"
     "info dc1 = info dc" "all_pending cs = all_pending (clients dc) + mset (map pending_of (later ?taken))"
    using DrainClients_drains [OF assms(1-4)] by blast
  define dc2 where "dc2 = DrainAllClientsRings nowMs dc"
  have dc2: "dc2 = dc1\<lparr>clients := cs\<rparr>" using D(1) by (simp add: dc2_def DrainAllClientsRings_def)
  have "length (pe_data e) * SIZEOF_WORD \<le> maxSendCacheBytes dc" if "e \<in># all_pending cs" for e
    using \<open>e \<in># _\<close> D(7) assms(5) order_trans [OF taken_small [OF assms(1)] assms(3)] by (auto simp: pending_of_def)
  moreover have "\<forall>c\<in>set cs. pq_ok (pending c)"
    using D(2) by (auto simp: conn_inv_def list_all2_conv_all_nth all_set_conv_all_nth)
  ultimately have inv: "output_inv dc2"
    using D(4,5) by (auto simp: dc2 output_inv_def cache_inv_def)
  have drv: "info_driver (info dc2)" using D(6) assms(4) by (simp add: dc2)
  obtain lo where lo: "\<forall>e\<in>#all_pending (clients dc2). lo \<le> due e" using lower_bound by blast
  define dc3 where "dc3 = CollectDueEventsFromClientHeaps clock nowMs dc2"
  obtain sent k where S: "stream dc3 = stream dc2 @ visible (map event_of_pending sent)"
        "sorted (map due sent)" "k \<le> length sent" "\<forall>e\<in>set sent. due e \<le> clock k"
        "all_pending (clients dc2) = mset sent + all_pending (clients dc3)"
        "\<forall>e\<in>#all_pending (clients dc3). clock k < due e" "output_inv dc3"
        "list_all2 same_ring (clients dc2) (clients dc3)" "info dc3 = info dc2"
    using CollectLoop_collects [OF inv order_refl lo drv assms(6), where k = 0 and nowMs = nowMs, folded CollectDueEventsFromClientHeaps_def, folded dc3_def]
    by (auto simp: Let_def)
  have E: "HandleWakeupOnce clock t nowMs dc = UpdateNextTimer t (FlushSendCacheToDriver nowMs dc3)"
    by (simp add: HandleWakeupOnce_def dc3_def dc2_def Let_def)
  have "info_driver (info dc3)" using S(9) drv by simp
  note F = FlushSendCache_stream [OF this, of nowMs]
  have "concat (to_driver (FlushSendCacheToDriver nowMs dc3)) = stream dc2 @ visible (map event_of_pending sent)"
    using conjunct1 [OF F] conjunct1 [OF conjunct2 [OF F]] S(1) by (simp add: stream_def)
  moreover have "stream dc2 = stream dc @ visible (realtime ?taken)"
    using D(3) by (simp add: dc2 stream_def)
  moreover have "list_all2 conn_inv (clients dc3) (left_of (clients dc) ess)"
    using same_ring_inv [OF D(2)] S(7,8) by (simp add: dc2 output_inv_def)
  ultimately show ?thesis unfolding E
    using S F D(7) UpdateNextTimer_unchanged [of t "FlushSendCacheToDriver nowMs dc3"]
    by (intro exI [of _ sent] exI [of _ k]) (simp add: Let_def dc2)
qed

theorem wakeup_delivers_witness:
  "\<exists>sent k. let dc' = HandleWakeupOnce int 11 0 demo_port; taken = taken_of (clients demo_port) [[event_of demo_event]]
     in concat (to_driver dc') = stream demo_port @ visible (realtime taken @ map event_of_pending sent)
        \<and> sendCache dc' = [] \<and> sorted (map due sent) \<and> k \<le> length sent \<and> (\<forall>e\<in>set sent. due e \<le> int k)
        \<and> all_pending (clients demo_port) + mset (map pending_of (later taken)) = mset sent + all_pending (clients dc')
        \<and> (\<forall>e\<in>#all_pending (clients dc'). int k < due e)
        \<and> list_all2 conn_inv (clients dc') (left_of (clients demo_port) [[event_of demo_event]])"
  by (rule wakeup_delivers)
    (use demo_client_ready demo_port_inv in \<open>simp_all add: SIZEOF_WORD_def mono_def\<close>, simp add: demo_port_def)

section \<open>Broadcast and flush\<close>

text \<open>The events of a batch that a ring accepts, one after the other; and a batch for which it has room at one go.\<close>

primrec accepted :: "MidiEventInner list \<Rightarrow> MidiSharedRing \<Rightarrow> MidiEventInner list" where
  "accepted [] ring = []"
| "accepted (ev # evs) ring = (if ring_room ev ring then [ev] else []) @ accepted evs (snd (ring_put ev ring))"

definition room_for_all :: "MidiEventInner list \<Rightarrow> MidiSharedRing \<Rightarrow> bool" where
  "room_for_all evs ring \<longleftrightarrow> (\<forall>ev\<in>set evs. ev_data ev \<noteq> None) \<and>
     unat (writePosition ring) + sum_list (map (\<lambda>ev. record_size (ev_length ev)) evs)
       < (if writePosition ring < readPosition ring then unat (readPosition ring) else unat (capacity ring))"

lemma TrySend_put:
  "sharedRing conn = Some ring \<Longrightarrow> snd (TrySendToClient ev conn) = conn\<lparr>sharedRing := Some (snd (ring_put ev ring))\<rparr>"
  by (simp add: TrySendToClient_def ring_put_def split_beta)

lemma ring_put_capacity: "capacity (snd (ring_put ev ring)) = capacity ring"
  by (simp add: ring_put_def split_beta)

lemma accepted_queue:
  "ring_queue ring es \<Longrightarrow> capacity ring = DEFAULT_RING_BUFFER_SIZE \<Longrightarrow> sharedRing conn = Some ring \<Longrightarrow>
   pq_ok (pending conn) \<Longrightarrow> length (pending conn) \<le> maxPending conn \<Longrightarrow>
    conn_inv (fold (\<lambda>ev c. snd (TrySendToClient ev c)) evs conn) (es @ map event_of (accepted evs ring))"
proof (induction evs arbitrary: ring es conn)
  case Nil
  then show ?case by (simp add: conn_inv_def)
next
  case (Cons ev evs)
  obtain ok ring' where p: "ring_put ev ring = (ok, ring')" by fastforce
  have ok: "ok \<longleftrightarrow> ring_room ev ring" using ring.put_room [OF Cons.prems(1), of ev] p by simp
  have q: "ring_queue ring' (es @ (if ok then [event_of ev] else []))"
    using ring.put_accepted [OF Cons.prems(1)] ring.put_refused [OF Cons.prems(1)] p by (cases ok) auto
  have "capacity ring' = DEFAULT_RING_BUFFER_SIZE" using ring_put_capacity [of ev ring] p Cons.prems(2) by simp
  from Cons.IH [OF q this, of "conn\<lparr>sharedRing := Some ring'\<rparr>"] show ?case
    using p ok TrySend_put [OF Cons.prems(3)] Cons.prems(4,5) by (cases ok) (auto simp: p)
qed

lemma ring_put_positions:
  assumes "ring_queue ring es" "ring_room ev ring"
    "unat (writePosition ring) + record_size (ev_length ev) < unat (capacity ring)"
  shows "readPosition (snd (ring_put ev ring)) = readPosition ring
     \<and> unat (writePosition (snd (ring_put ev ring))) = unat (writePosition ring) + record_size (ev_length ev)"
proof -
  have c: "24 < unat (capacity ring)" "unat (capacity ring) \<le> 8128" "readPosition ring < capacity ring" "writePosition ring < capacity ring"
    using assms(1) by (simp_all add: ring_queue_def Let_def word_less_nat_alt)
  then have "ev_length ev < 2 ^ 29" using record_size_bounds(1) [of "ev_length ev"] assms(3) by simp
  note K = GetEventRecordSize_small [OF this] and L = this
  define needed where "needed = (of_nat (record_size (ev_length ev)) :: u32)"
  have n: "unat needed = record_size (ev_length ev)" using GetEventRecordSize_Some [OF K] by (simp add: needed_def)
  obtain ret w1 ring1 where T: "TryWriteOneEvent ev needed (readPosition ring) (writePosition ring) ring = (ret, w1, ring1)"
    using prod_cases3 by blast
  have pos: "0 < unat needed" "unat needed < unat (capacity ring)" using n assms(3) record_size_bounds(1) [of "ev_length ev"] by simp_all
  have ret: "ret = OK" using TryWriteOneEvent_room [OF assms(1) pos(2,1), of ev] assms(2) T n
    by (simp add: ring_room_def Let_def)
  have "unat (capacity ring - writePosition ring) = unat (capacity ring) - unat (writePosition ring)"
    using c(4) by (intro unat_sub) simp
  then have "needed \<le> capacity ring - writePosition ring" using n assms(3) by (simp add: word_le_nat_alt)
  note D = TryWriteOneEvent_direct [OF T [unfolded ret] this]
  have u: "unat (writePosition ring + needed) = unat (writePosition ring) + record_size (ev_length ev)"
    using n assms(3) c(2) by (simp add: unat_word_ariths)
  then have w: "unat w1 = unat (writePosition ring) + record_size (ev_length ev)" "writePosition ring1 = w1"
    "readPosition ring1 = readPosition ring" "capacity ring1 = capacity ring"
    using D L assms(3) by (auto split: if_splits)
  have v: "ValidateOneEvent ev ring"
    using assms(2) K n c(1) unat_sub [of 1 "capacity ring"] unfolding needed_def [symmetric]
    by (auto simp: ValidateOneEvent_def ring_room_def Let_def word_le_nat_alt)
  have "WriteLoop [ev] 0 (readPosition ring) (writePosition ring) ring = (1, ring1)"
    using v T ret w c(3) by (simp add: K needed_def [symmetric] IsValidOffset_def)
  then have "snd (ring_put ev ring) = NotifyWrittenEvents ring1"
    using c by (simp add: ring_put_def TryWriteEvent_def TryWriteEvents_def ValidateWriteArgs_def SIZEOF_HEADER_def
        IsValidOffset_def Let_def del: WriteLoop.simps)
  then show ?thesis using w by simp
qed

lemma accepted_all: "ring_queue ring es \<Longrightarrow> room_for_all evs ring \<Longrightarrow> accepted evs ring = evs"
proof (induction evs arbitrary: ring es)
  case (Cons ev evs)
  have c: "unat (readPosition ring) < unat (capacity ring)" "unat (writePosition ring) < unat (capacity ring)"
    using Cons.prems(1) by (simp_all add: ring_queue_def Let_def)
  have room: "ring_room ev ring" and lt: "unat (writePosition ring) + record_size (ev_length ev) < unat (capacity ring)"
    using Cons.prems(2) c by (auto simp: room_for_all_def ring_room_def Let_def word_less_nat_alt split: if_splits)
  obtain ring' where p: "ring_put ev ring = (True, ring')"
    using ring.put_room [OF Cons.prems(1), of ev] room by (metis prod.collapse)
  note pos = ring_put_positions [OF Cons.prems(1) room lt, unfolded p snd_conv]
  have "room_for_all evs ring'"
    using Cons.prems(2) pos ring_put_capacity [of ev ring] p
    by (auto simp: room_for_all_def word_less_nat_alt add.assoc split: if_splits)
  then show ?case using Cons.IH [OF ring.put_accepted [OF Cons.prems(1) p]] room p by simp
qed simp

lemma HandleDeviceUmpInput_clients:
  "clients (HandleDeviceUmpInput nowMs events dc) = map (fold (\<lambda>ev c. snd (TrySendToClient ev c)) events) (clients dc)"
  by (induction events arbitrary: dc) (simp_all add: BroadcastToClients_def Let_def)

text \<open>
  C13: of the events a device delivers, every client of the input port gets exactly those for whose record its own ring has room when their
  turn comes, in their order and behind what its ring held: the ring of another client, full or not, does not
  matter. A client whose ring has room for the whole batch gets all of it.
\<close>

theorem broadcast:
  assumes "list_all2 conn_inv (clients dc) ess" "i < length (clients dc)"
  shows "let ring = the (sharedRing (clients dc ! i)); got = accepted events ring
     in conn_inv (clients (HandleDeviceUmpInput nowMs events dc) ! i) (ess ! i @ map event_of got)
        \<and> (room_for_all events ring \<longrightarrow> got = events)"
proof -
  have inv: "conn_inv (clients dc ! i) (ess ! i)" using assms by (simp add: list_all2_conv_all_nth)
  then obtain ring where r: "sharedRing (clients dc ! i) = Some ring" "ring_queue ring (ess ! i)" "capacity ring = DEFAULT_RING_BUFFER_SIZE"
    by (auto simp: conn_inv_def)
  from accepted_queue [OF r(2,3,1)] accepted_all [OF r(2)] show ?thesis
    using inv assms(2) by (simp add: conn_inv_def r(1) HandleDeviceUmpInput_clients)
qed

theorem broadcast_witness:
  "conn_inv (clients (HandleDeviceUmpInput 5 [demo_event, demo_event] demo_input) ! 0)
     [event_of demo_event, event_of demo_event, event_of demo_event]"
proof -
  obtain s' where s: "ring_put demo_event client_ring = (True, s')" using client_ring_write by blast
  have "ring_queue client_ring []" by (simp add: ring_queue_def client_ring_def demo_ring_def)
  moreover have "ring_room demo_event client_ring" "record_size 1 = 32"
    by (simp_all add: ring_room_def client_ring_def demo_ring_def demo_simps record_size_def AlignUpToHeader_def ring_defs)
  ultimately have "readPosition s' = 0 \<and> unat (writePosition s') = 32"
    using ring_put_positions [of client_ring "[]" demo_event] s by (simp add: client_ring_def demo_ring_def demo_simps)
  then have "room_for_all [demo_event, demo_event] s'"
    using ring_put_capacity [of demo_event client_ring] s \<open>record_size 1 = 32\<close>
    by (simp add: room_for_all_def client_ring_def demo_ring_def demo_simps word_less_nat_alt)
  moreover have "the (sharedRing demo_client) = s'" by (simp add: demo_client_def s)
  moreover have "clients demo_input = [demo_client]" by (simp add: demo_input_def)
  ultimately show ?thesis
    using broadcast [of demo_input "[[event_of demo_event]]" 0 "[demo_event, demo_event]" 5] demo_client_ready
    by (auto simp: drain_ready_def Let_def simp del: accepted.simps HandleDeviceUmpInput.simps)
qed

text \<open>
  Flushing a client's cache empties that client's ring and pending queue, and changes no other client.
\<close>

lemma flush_client:
  assumes "i < length (clients dc)" "conn_inv (clients dc ! i) es"
    "\<forall>ring. sharedRing (clients dc ! i) = Some ring \<longrightarrow> flushFlag ring = 0"
  shows "let c' = clients (FlushClientCache cid dc) ! i
     in if conn_clientId (clients dc ! i) = cid then conn_inv c' [] \<and> pending c' = [] else c' = clients dc ! i"
proof -
  obtain ring where r: "sharedRing (clients dc ! i) = Some ring" "ring_queue ring es" "capacity ring = DEFAULT_RING_BUFFER_SIZE"
    using assms(2) by (auto simp: conn_inv_def)
  have "ring_queue (Flush ring) []" "capacity (Flush ring) = DEFAULT_RING_BUFFER_SIZE"
    using r(2,3) assms(3) r(1) by (simp_all add: Flush_def ring_queue_def Let_def DEFAULT_RING_BUFFER_SIZE_def)
  then show ?thesis using assms(1) r(1)
    by (simp add: FlushClientCache_def Conn_Flush_def conn_inv_def pq_ok_def Let_def)
qed

end
