(* ===== verification/Device_Manager.thy ===== *)
theory Device_Manager
  imports Device_Delivery
begin

text \<open>
  \<^verbatim>\<open>services/server/src/midi_device_mananger.cpp\<close> and the driver interface of
  \<^verbatim>\<open>midi_device_driver.h\<close>: the registry of the devices that the drivers report, under identifiers
  of the service.

  A driver is an abstract class in the code, and here a record of its operations on a state \<open>'d\<close> that all drivers
  share (the world outside is part of it). What a driver calls back while it closes a device is part of
  that operation's result. The manager's own calls of the controller and of the callback of a Bluetooth
  open are its outputs, in order, as values of \<open>ManagerCall\<close>; the callback of an open is identified by the
  address it was made for, which is all that it captures.
\<close>

section \<open>Drivers\<close>

record 'd MidiDeviceDriver =
  drv_GetRegisteredDevices :: "'d \<Rightarrow> DeviceInformation list"
  drv_OpenDevice :: "int \<Rightarrow> 'd \<Rightarrow> int \<times> 'd"
  drv_OpenBleDevice :: "string \<Rightarrow> 'd \<Rightarrow> int \<times> 'd"
  drv_CloseDevice :: "int \<Rightarrow> 'd \<Rightarrow> int \<times> (string \<times> DeviceInformation) list \<times> 'd"
  drv_OpenInputPort :: "int \<Rightarrow> u32 \<Rightarrow> 'd \<Rightarrow> int \<times> 'd"
  drv_OpenOutputPort :: "int \<Rightarrow> u32 \<Rightarrow> 'd \<Rightarrow> int \<times> 'd"
  drv_CloseInputPort :: "int \<Rightarrow> u32 \<Rightarrow> 'd \<Rightarrow> int \<times> 'd"
  drv_CloseOutputPort :: "int \<Rightarrow> u32 \<Rightarrow> 'd \<Rightarrow> int \<times> 'd"

text \<open>
  The table \<open>drivers_\<close> is an unordered map: the list is in the order in which a loop over it comes by. Its pointers are never null.
\<close>

type_synonym 'd Drivers = "(DeviceType \<times> 'd MidiDeviceDriver) list"

section \<open>The registry\<close>

record 'd MidiDeviceManager =
  devices :: "DeviceInformation list"
  driverIdToMidiId :: "((int \<times> DeviceType) \<times> int) list"
  nextDeviceId :: int
  driver_state :: 'd

definition new_MidiDeviceManager :: "'d \<Rightarrow> 'd MidiDeviceManager" where
  "new_MidiDeviceManager d = \<lparr>devices = [], driverIdToMidiId = [], nextDeviceId = 1000, driver_state = d\<rparr>"

datatype ManagerCall =
    BleOpenComplete string bool int MidiDeviceInfo
  | NotifyChange DeviceChangeType DeviceInformation

definition driver_key :: "DeviceInformation \<Rightarrow> int \<times> DeviceType" where
  "driver_key dev = (driverDeviceId (midiDeviceInfo dev), deviceType (midiDeviceInfo dev))"

definition device_id :: "DeviceInformation \<Rightarrow> int" where
  "device_id dev = deviceId (midiDeviceInfo dev)"

definition with_id :: "int \<Rightarrow> DeviceInformation \<Rightarrow> DeviceInformation" where
  "with_id i dev = dev\<lparr>midiDeviceInfo := (midiDeviceInfo dev)\<lparr>deviceId := i\<rparr>\<rparr>"

text \<open>The counter is an atomic 64 bit integer.\<close>

definition GenerateDeviceId :: "'d MidiDeviceManager \<Rightarrow> int \<times> 'd MidiDeviceManager" where
  "GenerateDeviceId m =
     (let n = sint (word_of_int (nextDeviceId m + 1) :: u64) in (n, m\<lparr>nextDeviceId := n\<rparr>))"

definition GetOrCreateDeviceId :: "int \<times> DeviceType \<Rightarrow> 'd MidiDeviceManager \<Rightarrow> int \<times> 'd MidiDeviceManager" where
  "GetOrCreateDeviceId key m =
     (case find_key (driverIdToMidiId m) key of
        Some i \<Rightarrow> (i, m)
      | None \<Rightarrow>
          (case GenerateDeviceId m of (i, m) \<Rightarrow> (i, m\<lparr>driverIdToMidiId := AList.update key i (driverIdToMidiId m)\<rparr>)))"

definition CompareDevices ::
  "DeviceInformation list \<Rightarrow> DeviceInformation list \<Rightarrow> 'd MidiDeviceManager \<Rightarrow> ManagerCall list \<times> 'd MidiDeviceManager" where
  "CompareDevices oldDevices newDevices m =
     (let addedDevices = filter (\<lambda>n. \<not> list_ex (\<lambda>p. driver_key p = driver_key n) oldDevices) newDevices;
          removedDevices = filter (\<lambda>p. \<not> list_ex (\<lambda>n. driver_key n = driver_key p) newDevices) oldDevices;
          m = m\<lparr>driverIdToMidiId := fold AList.delete (map driver_key removedDevices) (driverIdToMidiId m)\<rparr>
      in (map (NotifyChange ADD) addedDevices @ map (NotifyChange REMOVED) removedDevices, m))"

primrec AssignIds :: "DeviceInformation list \<Rightarrow> 'd MidiDeviceManager \<Rightarrow> DeviceInformation list \<times> 'd MidiDeviceManager" where
  "AssignIds [] m = ([], m)"
| "AssignIds (dev # devs) m =
     (case GetOrCreateDeviceId (driver_key dev) m of (i, m) \<Rightarrow>
        case AssignIds devs m of (news, m) \<Rightarrow> (with_id i dev # news, m))"

definition driver_devices :: "'d Drivers \<Rightarrow> 'd \<Rightarrow> DeviceInformation list" where
  "driver_devices drv d =
     concat (map (\<lambda>(_, driver). drv_GetRegisteredDevices driver d) drv)"

definition UpdateDevices :: "'d Drivers \<Rightarrow> 'd MidiDeviceManager \<Rightarrow> ManagerCall list \<times> 'd MidiDeviceManager" where
  "UpdateDevices drv m =
     (case AssignIds (driver_devices drv (driver_state m)) m of (newDevices, m) \<Rightarrow>
        CompareDevices (devices m) newDevices (m\<lparr>devices := newDevices\<rparr>))"

definition GetDeviceForDeviceId :: "int \<Rightarrow> 'd MidiDeviceManager \<Rightarrow> DeviceInformation" where
  "GetDeviceForDeviceId i m =
     (case find (\<lambda>dev. device_id dev = i) (devices m) of Some dev \<Rightarrow> dev | None \<Rightarrow> default_DeviceInformation)"

definition GetDevicePorts :: "int \<Rightarrow> 'd MidiDeviceManager \<Rightarrow> int \<times> MidiPortInfo list" where
  "GetDevicePorts i m =
     (let dev = GetDeviceForDeviceId i m
      in if device_id dev = 0 then (OH_MIDI_STATUS_GENERIC_INVALID_ARGUMENT, [])
         else (OH_MIDI_STATUS_OK, portInfos dev))"

section \<open>Devices\<close>

text \<open>
  What opening and closing devices and ports share: find the device and its driver, and call the driver with the
  driver's own identifier.
\<close>

definition with_driver ::
  "'d Drivers \<Rightarrow> int \<Rightarrow> 'd MidiDeviceManager \<Rightarrow> (DeviceInformation \<times> 'd MidiDeviceDriver) option" where
  "with_driver drv i m =
     (let dev = GetDeviceForDeviceId i m
      in if device_id dev = 0 then None
         else (case find_key drv (deviceType (midiDeviceInfo dev)) of None \<Rightarrow> None | Some driver \<Rightarrow> Some (dev, driver)))"

definition Manager_OpenDevice :: "'d Drivers \<Rightarrow> int \<Rightarrow> 'd MidiDeviceManager \<Rightarrow> int \<times> 'd MidiDeviceManager" where
  "Manager_OpenDevice drv i m =
     (case with_driver drv i m of
        None \<Rightarrow> (OH_MIDI_STATUS_SYSTEM_ERROR, m)
      | Some (dev, driver) \<Rightarrow>
          (case drv_OpenDevice driver (driverDeviceId (midiDeviceInfo dev)) (driver_state m) of (result, d) \<Rightarrow>
             (result, m\<lparr>driver_state := d\<rparr>)))"

definition Manager_OpenBleDevice :: "'d Drivers \<Rightarrow> string \<Rightarrow> 'd MidiDeviceManager \<Rightarrow> int \<times> 'd MidiDeviceManager" where
  "Manager_OpenBleDevice drv addr m =
     (case find_key drv DEVICE_TYPE_BLE of
        None \<Rightarrow> (OH_MIDI_STATUS_SYSTEM_ERROR, m)
      | Some driver \<Rightarrow>
          (case drv_OpenBleDevice driver addr (driver_state m) of (result, d) \<Rightarrow> (result, m\<lparr>driver_state := d\<rparr>)))"

definition HandleBleConnect ::
  "string \<Rightarrow> DeviceInformation \<Rightarrow> 'd MidiDeviceManager \<Rightarrow> ManagerCall list \<times> 'd MidiDeviceManager" where
  "HandleBleConnect addr devInfo m =
     (case GetOrCreateDeviceId (driverDeviceId (midiDeviceInfo devInfo), DEVICE_TYPE_BLE) m of (midiDeviceId, m) \<Rightarrow>
        case find (\<lambda>dev. device_id dev = midiDeviceId) (devices m) of
          None \<Rightarrow>
            let devInfo = with_id midiDeviceId devInfo
            in ([BleOpenComplete addr True midiDeviceId (midiDeviceInfo devInfo), NotifyChange ADD devInfo],
                m\<lparr>devices := devices m @ [devInfo]\<rparr>)
        | Some foundInfo \<Rightarrow> ([BleOpenComplete addr True midiDeviceId (midiDeviceInfo foundInfo)], m))"

text \<open>Erasing an element that \<open>find_if\<close> found erases the first one.\<close>

definition HandleBleDisconnect ::
  "string \<Rightarrow> DeviceInformation \<Rightarrow> 'd MidiDeviceManager \<Rightarrow> ManagerCall list \<times> 'd MidiDeviceManager" where
  "HandleBleDisconnect addr devInfo m =
     (let key = (driverDeviceId (midiDeviceInfo devInfo), DEVICE_TYPE_BLE);
          midiDeviceId = (case find_key (driverIdToMidiId m) key of Some i \<Rightarrow> i | None \<Rightarrow> 0);
          m = m\<lparr>driverIdToMidiId := AList.delete key (driverIdToMidiId m)\<rparr>
      in case find (\<lambda>dev. device_id dev = midiDeviceId) (devices m) of
           None \<Rightarrow> ([BleOpenComplete addr False midiDeviceId (midiDeviceInfo devInfo)], m)
         | Some foundInfo \<Rightarrow>
             ([NotifyChange REMOVED foundInfo], m\<lparr>devices := remove1 foundInfo (devices m)\<rparr>))"

primrec HandleBleDisconnects ::
  "(string \<times> DeviceInformation) list \<Rightarrow> 'd MidiDeviceManager \<Rightarrow> ManagerCall list \<times> 'd MidiDeviceManager" where
  "HandleBleDisconnects [] m = ([], m)"
| "HandleBleDisconnects (x # xs) m =
     (case HandleBleDisconnect (fst x) (snd x) m of (calls, m) \<Rightarrow>
        case HandleBleDisconnects xs m of (calls', m) \<Rightarrow> (calls @ calls', m))"

definition Manager_CloseDevice ::
  "'d Drivers \<Rightarrow> int \<Rightarrow> 'd MidiDeviceManager \<Rightarrow> int \<times> ManagerCall list \<times> 'd MidiDeviceManager" where
  "Manager_CloseDevice drv i m =
     (case with_driver drv i m of
        None \<Rightarrow> (OH_MIDI_STATUS_SYSTEM_ERROR, [], m)
      | Some (dev, driver) \<Rightarrow>
          (case drv_CloseDevice driver (driverDeviceId (midiDeviceInfo dev)) (driver_state m) of (result, callbacks, d) \<Rightarrow>
             case HandleBleDisconnects callbacks (m\<lparr>driver_state := d\<rparr>) of (calls, m) \<Rightarrow> (result, calls, m)))"

section \<open>Ports\<close>

definition connection_info :: "DeviceInformation \<Rightarrow> MidiPortDirection \<Rightarrow> u32 \<Rightarrow> DeviceConnectionInfo" where
  "connection_info dev dir portIndex =
     \<lparr>info_driver = True, info_deviceId = driverDeviceId (midiDeviceInfo dev), info_direction = dir, info_portIndex = portIndex\<rparr>"

definition Manager_OpenInputPort ::
  "'d Drivers \<Rightarrow> int \<Rightarrow> u32 \<Rightarrow> 'd MidiDeviceManager \<Rightarrow> int \<times> DeviceConnection option \<times> 'd MidiDeviceManager" where
  "Manager_OpenInputPort drv i portIndex m =
     (case with_driver drv i m of
        None \<Rightarrow> (OH_MIDI_STATUS_SYSTEM_ERROR, None, m)
      | Some (dev, driver) \<Rightarrow>
          let connection = new_DeviceConnection (connection_info dev INPUT portIndex)
          in (case drv_OpenInputPort driver (driverDeviceId (midiDeviceInfo dev)) portIndex (driver_state m) of (ret, d) \<Rightarrow>
                (if ret = OH_MIDI_STATUS_OK then ret else OH_MIDI_STATUS_INVALID_PORT, Some connection, m\<lparr>driver_state := d\<rparr>)))"

definition Manager_OpenOutputPort ::
  "'d Drivers \<Rightarrow> int \<Rightarrow> u32 \<Rightarrow> 'd MidiDeviceManager \<Rightarrow> int \<times> DeviceConnectionForOutput option \<times> 'd MidiDeviceManager" where
  "Manager_OpenOutputPort drv i portIndex m =
     (case with_driver drv i m of
        None \<Rightarrow> (OH_MIDI_STATUS_SYSTEM_ERROR, None, m)
      | Some (dev, driver) \<Rightarrow>
          let connection = new_DeviceConnectionForOutput (connection_info dev OUTPUT portIndex)
          in (case drv_OpenOutputPort driver (driverDeviceId (midiDeviceInfo dev)) portIndex (driver_state m) of (ret, d) \<Rightarrow>
                (if ret = OH_MIDI_STATUS_OK then ret else OH_MIDI_STATUS_INVALID_PORT, Some connection, m\<lparr>driver_state := d\<rparr>)))"

definition Manager_CloseInputPort :: "'d Drivers \<Rightarrow> int \<Rightarrow> u32 \<Rightarrow> 'd MidiDeviceManager \<Rightarrow> int \<times> 'd MidiDeviceManager" where
  "Manager_CloseInputPort drv i portIndex m =
     (case with_driver drv i m of
        None \<Rightarrow> (OH_MIDI_STATUS_SYSTEM_ERROR, m)
      | Some (dev, driver) \<Rightarrow>
          (case drv_CloseInputPort driver (driverDeviceId (midiDeviceInfo dev)) portIndex (driver_state m) of (ret, d) \<Rightarrow>
             (ret, m\<lparr>driver_state := d\<rparr>)))"

definition Manager_CloseOutputPort :: "'d Drivers \<Rightarrow> int \<Rightarrow> u32 \<Rightarrow> 'd MidiDeviceManager \<Rightarrow> int \<times> 'd MidiDeviceManager" where
  "Manager_CloseOutputPort drv i portIndex m =
     (case with_driver drv i m of
        None \<Rightarrow> (OH_MIDI_STATUS_SYSTEM_ERROR, m)
      | Some (dev, driver) \<Rightarrow>
          (case drv_CloseOutputPort driver (driverDeviceId (midiDeviceInfo dev)) portIndex (driver_state m) of (ret, d) \<Rightarrow>
             (ret, m\<lparr>driver_state := d\<rparr>)))"

section \<open>Invariant\<close>

definition manager_inv :: "'d MidiDeviceManager \<Rightarrow> bool" where
  "manager_inv m \<longleftrightarrow>
     distinct (keys_of (driverIdToMidiId m)) \<and> distinct (map snd (driverIdToMidiId m))
     \<and> (\<forall>i\<in>snd ` set (driverIdToMidiId m). 0 < i \<and> i \<le> nextDeviceId m) \<and> 0 \<le> nextDeviceId m
     \<and> distinct (map driver_key (devices m))
     \<and> (\<forall>dev\<in>set (devices m). find_key (driverIdToMidiId m) (driver_key dev) = Some (device_id dev))"

text \<open>So many identifiers are left.\<close>

definition ids_left :: "nat \<Rightarrow> 'd MidiDeviceManager \<Rightarrow> bool" where
  "ids_left n m \<longleftrightarrow> nextDeviceId m + int n < 2 ^ 63"

lemma with_id_simps [simp]: "driver_key (with_id i dev) = driver_key dev" "device_id (with_id i dev) = i"
  by (simp_all add: driver_key_def device_id_def with_id_def)

lemma GenerateDeviceId_next:
  assumes "0 \<le> nextDeviceId m" "nextDeviceId m + 1 < 2 ^ 63"
  shows "GenerateDeviceId m = (nextDeviceId m + 1, m\<lparr>nextDeviceId := nextDeviceId m + 1\<rparr>)"
proof -
  have "sint (word_of_int (nextDeviceId m + 1) :: u64) = nextDeviceId m + 1"
    unfolding sint_sbintrunc' using assms signed_take_bit_int_eq_self [of 63 "nextDeviceId m + 1"] by simp
  then show ?thesis by (simp add: GenerateDeviceId_def Let_def)
qed

lemma fresh_update: "map_of m k = None \<Longrightarrow> AList.update k v m = m @ [(k, v)]"
  by (induction m) (auto split: if_splits)

lemma GetOrCreateDeviceId_spec:
  assumes "GetOrCreateDeviceId key m = (i, m')" "manager_inv m" "ids_left (Suc n) m"
  shows "manager_inv m' \<and> ids_left n m' \<and> find_key (driverIdToMidiId m') key = Some i \<and> devices m' = devices m
     \<and> nextDeviceId m \<le> nextDeviceId m' \<and> driver_state m' = driver_state m
     \<and> (\<forall>k. k \<noteq> key \<longrightarrow> find_key (driverIdToMidiId m') k = find_key (driverIdToMidiId m) k)
     \<and> (find_key (driverIdToMidiId m) key \<in> {Some i, None})
     \<and> (find_key (driverIdToMidiId m) key = None \<longrightarrow> nextDeviceId m < i)"
proof (cases "find_key (driverIdToMidiId m) key")
  case None
  have m': "i = nextDeviceId m + 1" "m' = m\<lparr>nextDeviceId := i, driverIdToMidiId := driverIdToMidiId m @ [(key, i)]\<rparr>"
    using assms None GenerateDeviceId_next [of m]
    by (auto simp: GetOrCreateDeviceId_def manager_inv_def ids_left_def fresh_update)
  have "i \<notin> snd ` set (driverIdToMidiId m)" "key \<notin> fst ` set (driverIdToMidiId m)"
    using assms(2) m'(1) None by (auto simp: manager_inv_def map_of_eq_None_iff)
  then show ?thesis using assms None m' by (auto simp: manager_inv_def ids_left_def map_add_def split: option.splits)
next
  case (Some j)
  then show ?thesis using assms by (auto simp: GetOrCreateDeviceId_def ids_left_def)
qed

lemma AssignIds_spec:
  assumes "AssignIds devs m = (news, m')" "manager_inv m" "ids_left (length devs) m" "distinct (map driver_key devs)"
  shows "manager_inv m' \<and> devices m' = devices m \<and> driver_state m' = driver_state m \<and> nextDeviceId m \<le> nextDeviceId m'
     \<and> list_all2 (\<lambda>dev new. new = with_id (device_id new) dev) devs news
     \<and> (\<forall>new\<in>set news. find_key (driverIdToMidiId m') (driver_key new) = Some (device_id new)
          \<and> (find_key (driverIdToMidiId m) (driver_key new) \<in> {Some (device_id new), None})
          \<and> (find_key (driverIdToMidiId m) (driver_key new) = None \<longrightarrow> nextDeviceId m < device_id new))
     \<and> (\<forall>k. k \<notin> set (map driver_key devs) \<longrightarrow> find_key (driverIdToMidiId m') k = find_key (driverIdToMidiId m) k)"
  using assms
proof (induction devs arbitrary: m news)
  case (Cons dev devs)
  obtain i m1 where 1: "GetOrCreateDeviceId (driver_key dev) m = (i, m1)" by fastforce
  obtain news1 where 2: "AssignIds devs m1 = (news1, m')" "news = with_id i dev # news1"
    using Cons.prems(1) 1 by (auto split: prod.splits)
  note G = GetOrCreateDeviceId_spec [OF 1 Cons.prems(2), of "length devs"]
  have l: "ids_left (Suc (length devs)) m" "ids_left (length devs) m1" "distinct (map driver_key devs)" "manager_inv m1"
    "driver_key dev \<notin> driver_key ` set devs"
    using Cons.prems(3,4) G by simp_all
  note A = Cons.IH [OF 2(1) l(4,2,3)]
  have keys: "driver_key ` set news1 = driver_key ` set devs"
  proof -
    have "map driver_key news1 = map driver_key devs"
      using A by (auto simp: list_all2_conv_all_nth intro!: nth_equalityI) (metis with_id_simps(1))
    then show ?thesis by (metis list.set_map)
  qed
  have "driver_key new \<noteq> driver_key dev" if "new \<in> set news1" for new
    using that keys l(5) by (metis image_eqI)
  then have o: "find_key (driverIdToMidiId m1) (driver_key new) = find_key (driverIdToMidiId m) (driver_key new)"
    if "new \<in> set news1" for new using that G l(1) by metis
  have d: "find_key (driverIdToMidiId m') (driver_key dev) = Some i" using A G l(1,5) by (simp del: split_paired_All)
  have k: "\<forall>k. k \<notin> set (map driver_key (dev # devs)) \<longrightarrow> find_key (driverIdToMidiId m') k = find_key (driverIdToMidiId m) k"
    using A G l(1) by (simp del: split_paired_All)
  have n: "nextDeviceId m \<le> nextDeviceId m1" "nextDeviceId m1 \<le> nextDeviceId m'" using A G l(1) by simp_all
  have new: "\<forall>new\<in>set news1. find_key (driverIdToMidiId m') (driver_key new) = Some (device_id new)
          \<and> (find_key (driverIdToMidiId m) (driver_key new) \<in> {Some (device_id new), None})
          \<and> (find_key (driverIdToMidiId m) (driver_key new) = None \<longrightarrow> nextDeviceId m < device_id new)"
    using A o n(1) by (simp del: split_paired_All) (metis order_le_less_trans)
  show ?case unfolding 2(2) using A G l(1) d k n new by (simp del: split_paired_All)
qed simp

lemma fold_delete: "fold AList.delete ks m = filter (\<lambda>p. fst p \<notin> set ks) m"
  by (induction ks arbitrary: m) (auto simp: AList.delete_eq intro: filter_cong)

lemma map_of_filter_key: "map_of (filter (\<lambda>p. fst p \<notin> K) m) k = (if k \<in> K then None else map_of m k)"
  by (induction m) auto

lemma manager_inv_delete:
  assumes "manager_inv m" "\<forall>dev\<in>set (devices m). driver_key dev \<notin> set ks"
  shows "manager_inv (m\<lparr>driverIdToMidiId := fold AList.delete ks (driverIdToMidiId m)\<rparr>)"
  using assms
  by (auto simp: manager_inv_def fold_delete map_of_filter_key intro: distinct_map_filter simp del: split_paired_All)

lemma keys_with_ids:
  "list_all2 (\<lambda>dev new. new = with_id (device_id new) dev) devs news \<Longrightarrow> map driver_key news = map driver_key devs"
  by (auto simp: list_all2_conv_all_nth intro!: nth_equalityI) (metis with_id_simps(1))

text \<open>
  An update of the device list keeps the registry consistent: every device that a driver
  reports is registered as reported, under an identifier of its own; a device that was registered
  keeps its identifier, and one the registry has never seen gets one that was never used; the identifier of a
  device that is gone is forgotten. Exactly the
  devices that are new are announced as added, and then exactly those that are gone as removed.
\<close>

lemma update_devices:
  assumes "manager_inv m" "devs = driver_devices drv (driver_state m)" "distinct (map driver_key devs)" "ids_left (length devs) m"
  shows "case UpdateDevices drv m of (calls, m') \<Rightarrow>
     manager_inv m' \<and> list_all2 (\<lambda>dev new. new = with_id (device_id new) dev) devs (devices m')
     \<and> (\<forall>old\<in>set (devices m). \<forall>new\<in>set (devices m'). driver_key new = driver_key old \<longrightarrow> device_id new = device_id old)
     \<and> (\<forall>new\<in>set (devices m'). find_key (driverIdToMidiId m) (driver_key new) = None \<longrightarrow> nextDeviceId m < device_id new)
     \<and> (\<forall>old\<in>set (devices m). driver_key old \<notin> driver_key ` set devs \<longrightarrow> find_key (driverIdToMidiId m') (driver_key old) = None)
     \<and> calls = map (NotifyChange ADD) (filter (\<lambda>n. driver_key n \<notin> driver_key ` set (devices m)) (devices m'))
         @ map (NotifyChange REMOVED) (filter (\<lambda>p. driver_key p \<notin> driver_key ` set devs) (devices m))"
proof -
  obtain news m1 where 1: "AssignIds devs m = (news, m1)" by fastforce
  note A = AssignIds_spec [OF 1 assms(1,4,3)]
  have keys: "map driver_key news = map driver_key devs" using A keys_with_ids by blast
  then have kset: "driver_key ` set news = driver_key ` set devs" by (metis list.set_map)
  define removed where "removed = filter (\<lambda>p. driver_key p \<notin> driver_key ` set devs) (devices m)"
  have "manager_inv (m1\<lparr>devices := news\<rparr>)" using A keys assms(3) by (simp add: manager_inv_def del: split_paired_All)
  moreover have gone: "\<forall>dev\<in>set news. driver_key dev \<notin> set (map driver_key removed)"
  proof
    fix dev assume "dev \<in> set news"
    then have "driver_key dev \<in> driver_key ` set devs" using kset by blast
    then show "driver_key dev \<notin> set (map driver_key removed)" by (auto simp: removed_def)
  qed
  ultimately have inv: "manager_inv (m1\<lparr>devices := news, driverIdToMidiId := fold AList.delete (map driver_key removed) (driverIdToMidiId m1)\<rparr>)"
    using manager_inv_delete [of "m1\<lparr>devices := news\<rparr>" "map driver_key removed"] gone by simp
  have ex: "list_ex (\<lambda>q. driver_key q = k) xs \<longleftrightarrow> k \<in> driver_key ` set xs" for k xs
    by (auto simp: list_ex_iff)
  have U: "UpdateDevices drv m = (map (NotifyChange ADD) (filter (\<lambda>n. driver_key n \<notin> driver_key ` set (devices m)) news)
        @ map (NotifyChange REMOVED) removed,
      m1\<lparr>devices := news, driverIdToMidiId := fold AList.delete (map driver_key removed) (driverIdToMidiId m1)\<rparr>)"
    using 1 A by (simp add: UpdateDevices_def CompareDevices_def assms(2) [symmetric] removed_def ex kset Let_def)
  have "device_id new = device_id old"
    if "old \<in> set (devices m)" "new \<in> set news" "driver_key new = driver_key old" for old new
  proof -
    have "find_key (driverIdToMidiId m) (driver_key new) = Some (device_id old)"
      using that(1,3) assms(1) by (simp add: manager_inv_def)
    moreover have "find_key (driverIdToMidiId m) (driver_key new) \<in> {Some (device_id new), None}"
      using that(2) A by blast
    ultimately show ?thesis by simp
  qed
  moreover have "find_key (fold AList.delete (map driver_key removed) (driverIdToMidiId m1)) (driver_key old) = None"
    if "old \<in> set (devices m)" "driver_key old \<notin> driver_key ` set devs" for old
    using that by (simp add: fold_delete map_of_filter_key removed_def)
  ultimately show ?thesis using inv A by (simp add: U removed_def del: split_paired_All)
qed

definition demo_device :: "int \<Rightarrow> DeviceInformation" where
  "demo_device i = \<lparr>midiDeviceInfo = default_MidiDeviceInfo\<lparr>driverDeviceId := i, deviceType := DEVICE_TYPE_BLE, address := ''A''\<rparr>, portInfos = []\<rparr>"

text \<open>A driver whose state is the list of its devices.\<close>

definition demo_driver :: "DeviceInformation list MidiDeviceDriver" where
  "demo_driver =
     \<lparr>drv_GetRegisteredDevices = (\<lambda>d. d), drv_OpenDevice = (\<lambda>i d. (0, d)), drv_OpenBleDevice = (\<lambda>a d. (0, d)),
      drv_CloseDevice = (\<lambda>i d. (0, map (\<lambda>dev. (''A'', dev)) (filter (\<lambda>dev. driverDeviceId (midiDeviceInfo dev) = i) d),
                                filter (\<lambda>dev. driverDeviceId (midiDeviceInfo dev) \<noteq> i) d)),
      drv_OpenInputPort = (\<lambda>i p d. (0, d)), drv_OpenOutputPort = (\<lambda>i p d. (0, d)),
      drv_CloseInputPort = (\<lambda>i p d. (0, d)), drv_CloseOutputPort = (\<lambda>i p d. (0, d))\<rparr>"

definition demo_drivers :: "DeviceInformation list Drivers" where
  "demo_drivers = [(DEVICE_TYPE_BLE, demo_driver)]"

definition demo_manager :: "DeviceInformation list MidiDeviceManager" where
  "demo_manager = (new_MidiDeviceManager [demo_device 7, demo_device 9])\<lparr>
     devices := [with_id 5 (demo_device 7)], driverIdToMidiId := [((7, DEVICE_TYPE_BLE), 5)]\<rparr>"

lemma demo_device_key: "driver_key (demo_device i) = (i, DEVICE_TYPE_BLE)"
  by (simp add: driver_key_def demo_device_def)

lemma demo_manager_inv: "manager_inv demo_manager" "ids_left 2 demo_manager"
    "driver_devices demo_drivers (driver_state demo_manager) = [demo_device 7, demo_device 9]"
  by (simp_all add: manager_inv_def demo_manager_def new_MidiDeviceManager_def demo_device_key ids_left_def
      driver_devices_def demo_drivers_def demo_driver_def)

section \<open>A Bluetooth session\<close>

lemma find_none: "manager_inv m \<Longrightarrow> i \<notin> device_id ` set (devices m) \<Longrightarrow> find (\<lambda>dev. device_id dev = i) (devices m) = None"
  by (auto simp: find_None_iff)

text \<open>
  C15: a Bluetooth device that connects for the first time is registered under an identifier that was never
  used, its opener is told so, and then it is announced; when it disconnects it is announced as
  removed, and the registry is as before.
\<close>

theorem ble_session:
  assumes "manager_inv m" "ids_left 1 m" "deviceType (midiDeviceInfo devInfo) = DEVICE_TYPE_BLE"
    "find_key (driverIdToMidiId m) (driver_key devInfo) = None"
  shows "case HandleBleConnect addr devInfo m of (calls, m1) \<Rightarrow>
     \<exists>i. nextDeviceId m < i \<and> calls = [BleOpenComplete addr True i (midiDeviceInfo (with_id i devInfo)), NotifyChange ADD (with_id i devInfo)]
       \<and> manager_inv m1 \<and> devices m1 = devices m @ [with_id i devInfo]
       \<and> HandleBleDisconnect addr devInfo m1
           = ([NotifyChange REMOVED (with_id i devInfo)], m1\<lparr>devices := devices m, driverIdToMidiId := driverIdToMidiId m\<rparr>)"
proof -
  have key: "(driverDeviceId (midiDeviceInfo devInfo), DEVICE_TYPE_BLE) = driver_key devInfo"
    using assms(3) by (simp add: driver_key_def)
  let ?i = "nextDeviceId m + 1"
  let ?m = "m\<lparr>nextDeviceId := ?i, driverIdToMidiId := driverIdToMidiId m @ [(driver_key devInfo, ?i)]\<rparr>"
  have g: "GetOrCreateDeviceId (driver_key devInfo) m = (?i, ?m)"
    using assms GenerateDeviceId_next [of m]
    by (simp add: GetOrCreateDeviceId_def manager_inv_def ids_left_def fresh_update)
  have ids: "\<forall>dev\<in>set (devices m). device_id dev \<le> nextDeviceId m"
    using assms(1) by (force simp: manager_inv_def dest: map_of_SomeD)
  then have nf: "find (\<lambda>dev. device_id dev = ?i) (devices m) = None"
    using find_none [OF assms(1)] by force
  let ?m1 = "?m\<lparr>devices := devices m @ [with_id ?i devInfo]\<rparr>"
  have C: "HandleBleConnect addr devInfo m
      = ([BleOpenComplete addr True ?i (midiDeviceInfo (with_id ?i devInfo)), NotifyChange ADD (with_id ?i devInfo)], ?m1)"
    using nf by (simp add: HandleBleConnect_def key g Let_def)
  have inv: "manager_inv ?m"
    using GetOrCreateDeviceId_spec [OF g assms(1), of 0] assms(2) by simp
  have newkey: "driver_key devInfo \<notin> driver_key ` set (devices m)"
    using assms(1,4) by (force simp: manager_inv_def)
  then have inv1: "manager_inv ?m1" using inv assms(4) by (simp add: manager_inv_def map_add_def)
  have f: "find (\<lambda>dev. device_id dev = ?i) (devices m @ [with_id ?i devInfo]) = Some (with_id ?i devInfo)"
    using nf by (induction "devices m") (auto simp: find_None_iff find_Some_iff nth_append)
  have "with_id ?i devInfo \<notin> set (devices m)" using newkey by (metis image_eqI with_id_simps(1))
  moreover have "AList.delete (driver_key devInfo) (driverIdToMidiId m @ [(driver_key devInfo, ?i)]) = driverIdToMidiId m"
    using assms(4) by (force simp: AList.delete_eq map_of_eq_None_iff filter_id_conv)
  ultimately have "HandleBleDisconnect addr devInfo ?m1
     = ([NotifyChange REMOVED (with_id ?i devInfo)], ?m1\<lparr>devices := devices m, driverIdToMidiId := driverIdToMidiId m\<rparr>)"
    using f assms(4) by (simp add: HandleBleDisconnect_def key map_add_def remove1_append Let_def)
  then show ?thesis using C inv1 by auto
qed

theorem ble_session_witness:
  "case HandleBleConnect ''B'' (demo_device 9) demo_manager of (calls, m1) \<Rightarrow>
     \<exists>i. nextDeviceId demo_manager < i
       \<and> calls = [BleOpenComplete ''B'' True i (midiDeviceInfo (with_id i (demo_device 9))), NotifyChange ADD (with_id i (demo_device 9))]
       \<and> manager_inv m1 \<and> devices m1 = devices demo_manager @ [with_id i (demo_device 9)]
       \<and> HandleBleDisconnect ''B'' (demo_device 9) m1
           = ([NotifyChange REMOVED (with_id i (demo_device 9))],
              m1\<lparr>devices := devices demo_manager, driverIdToMidiId := driverIdToMidiId demo_manager\<rparr>)"
proof (rule ble_session)
  show "ids_left 1 demo_manager" using demo_manager_inv(2) by (simp add: ids_left_def)
qed (use demo_manager_inv in \<open>simp_all add: demo_device_key\<close>, simp_all add: demo_device_def demo_manager_def)

end
