(* ===== verification/Service_Controller.thy ===== *)
theory Service_Controller
  imports Device_Manager
begin

text \<open>
  \<^verbatim>\<open>services/server/src/midi_service_controller.cpp\<close>: the tables of the service, which clients
  exist, which devices and ports each of them has open, who waits for a Bluetooth device, and the
  operations that the clients' stubs call on them.

  A client's stub object is not part of the tables' content: the notifications that the controller sends to the stubs and
  to the callbacks of Bluetooth opens are recorded, in order, in the field \<open>sent\<close>. The code holds the
  lock of the tables during an operation, except while it closes a device in the device manager and while it sends
  notifications; the model runs each operation without another one in between.
\<close>

section \<open>State\<close>

definition MAX_CLIENTS :: nat where "MAX_CLIENTS = 8"
definition MAX_CLIENTS_PER_APP :: nat where "MAX_CLIENTS_PER_APP = 2"
definition MAX_DEVICES_PER_CLIENT :: nat where "MAX_DEVICES_PER_CLIENT = 16"
definition MAX_PORTS_PER_CLIENT :: u32 where "MAX_PORTS_PER_CLIENT = 64"
definition MAX_CLIENTID :: u32 where "MAX_CLIENTID = 0xFFFFFFFF"

text \<open>The set of clients holds \<open>int32_t\<close>, to which an identifier converts without loss.\<close>

record DeviceClientContext =
  ctx_deviceId :: int
  ctx_clients :: "u32 list"
  inputConnections :: "(u32 \<times> DeviceConnection) list"
  outputConnections :: "(u32 \<times> DeviceConnectionForOutput) list"

record PendingBleConnection =
  pb_clientId :: u32
  pb_callback :: nat

record ClientResourceInfo =
  uid :: u32
  openDevices :: "int list"
  openPortCount :: u32

definition default_ClientResourceInfo :: ClientResourceInfo where
  "default_ClientResourceInfo = \<lparr>uid = 0, openDevices = [], openPortCount = 0\<rparr>"

datatype Notification =
    DeviceChanged u32 DeviceChangeType MidiDeviceInfo
  | ErrorRaised u32 int
  | DeviceOpened nat bool MidiDeviceInfo

record 'd MidiServiceController =
  deviceClientContexts :: "(int \<times> DeviceClientContext) list"
  sc_clients :: "u32 list"
  activeBleDevices :: "(string \<times> int) list"
  pendingBleConnections :: "(string \<times> PendingBleConnection list) list"
  clientResourceInfo :: "(u32 \<times> ClientResourceInfo) list"
  appClientMap :: "(u32 \<times> u32 list) list"
  clientCallbackObjects :: "u32 list"
  deathRecipients :: "u32 list"
  currentClientId :: u32
  isUnloadPending :: bool
  unloadCancelled :: bool
  manager :: "'d MidiDeviceManager"
  sent :: "Notification list"

definition new_MidiServiceController :: "'d \<Rightarrow> 'd MidiServiceController" where
  "new_MidiServiceController d =
     \<lparr>deviceClientContexts = [], sc_clients = [], activeBleDevices = [], pendingBleConnections = [],
      clientResourceInfo = [], appClientMap = [], clientCallbackObjects = [], deathRecipients = [],
      currentClientId = 0, isUnloadPending = False, unloadCancelled = False,
      manager = new_MidiDeviceManager d, sent = []\<rparr>"

text \<open>
  The world outside during one call: whether the caller has the Bluetooth permission, and what the system calls
  of setting up a port return.
\<close>

record ServiceEnv =
  env_permission :: bool
  env_map :: "int \<Rightarrow> nat \<Rightarrow> (nat \<Rightarrow> u32) option"
  env_setup :: SetupCalls
  env_dup :: int

definition find_ctx :: "'d MidiServiceController \<Rightarrow> int \<Rightarrow> DeviceClientContext option" where
  "find_ctx st d = find_key (deviceClientContexts st) d"

definition set_ctx :: "int \<Rightarrow> DeviceClientContext \<Rightarrow> 'd MidiServiceController \<Rightarrow> 'd MidiServiceController" where
  "set_ctx d ctx st = st\<lparr>deviceClientContexts := AList.update d ctx (deviceClientContexts st)\<rparr>"

definition erase_ctx :: "int \<Rightarrow> 'd MidiServiceController \<Rightarrow> 'd MidiServiceController" where
  "erase_ctx d st = st\<lparr>deviceClientContexts := AList.delete d (deviceClientContexts st)\<rparr>"

text \<open>\<open>clientResourceInfo_[clientId]\<close>, which makes an entry when there is none.\<close>

definition resource_of :: "'d MidiServiceController \<Rightarrow> u32 \<Rightarrow> ClientResourceInfo" where
  "resource_of st c =
     (case find_key (clientResourceInfo st) c of Some r \<Rightarrow> r | None \<Rightarrow> default_ClientResourceInfo)"

definition set_resource :: "u32 \<Rightarrow> ClientResourceInfo \<Rightarrow> 'd MidiServiceController \<Rightarrow> 'd MidiServiceController" where
  "set_resource c r st = st\<lparr>clientResourceInfo := AList.update c r (clientResourceInfo st)\<rparr>"

definition touch_resource :: "u32 \<Rightarrow> 'd MidiServiceController \<Rightarrow> 'd MidiServiceController" where
  "touch_resource c st = set_resource c (resource_of st c) st"

definition send :: "Notification list \<Rightarrow> 'd MidiServiceController \<Rightarrow> 'd MidiServiceController" where
  "send ns st = st\<lparr>sent := sent st @ ns\<rparr>"

section \<open>Unloading\<close>

definition CancelUnloadTask :: "'d MidiServiceController \<Rightarrow> 'd MidiServiceController" where
  "CancelUnloadTask st =
     (if \<not> isUnloadPending st then st else st\<lparr>unloadCancelled := True, isUnloadPending := False\<rparr>)"

definition ScheduleUnloadTask :: "'d MidiServiceController \<Rightarrow> 'd MidiServiceController" where
  "ScheduleUnloadTask st =
     (let st = (if isUnloadPending st then st\<lparr>unloadCancelled := True\<rparr> else st)
      in st\<lparr>unloadCancelled := False, isUnloadPending := True\<rparr>)"

section \<open>Clients\<close>

text \<open>
  The loop that looks for a free identifier. With \<open>n\<close> clients the first \<open>n + 1\<close> candidates cannot all be taken,
  so that fuel \<open>n + 1\<close> is enough; \<open>None\<close> would be a loop that goes on.
\<close>

primrec NextClientId :: "nat \<Rightarrow> u32 list \<Rightarrow> u32 \<Rightarrow> u32 option" where
  "NextClientId 0 taken current = None"
| "NextClientId (Suc fuel) taken current =
     (let current = (if current \<ge> MAX_CLIENTID then 0 else current); current = current + 1
      in if current \<in> set taken then NextClientId fuel taken current else Some current)"

text \<open>
  \<open>valid\<close>: the object is a listener of the right type; \<open>allocated\<close>: the stub and the death recipient could be
  created; \<open>added\<close>: the death recipient could be registered.
\<close>

definition CreateMidiInServer ::
  "bool \<Rightarrow> bool \<Rightarrow> bool \<Rightarrow> u32 \<Rightarrow> 'd MidiServiceController \<Rightarrow> int \<times> u32 option \<times> 'd MidiServiceController" where
  "CreateMidiInServer valid allocated added callingUid st =
     (if \<not> valid then (OH_MIDI_STATUS_SYSTEM_ERROR, None, st)
      else
        let st = CancelUnloadTask st
        in if length (sc_clients st) \<ge> MAX_CLIENTS then (OH_MIDI_STATUS_TOO_MANY_CLIENTS, None, st)
           else
             let appClients = (case find_key (appClientMap st) callingUid of Some cs \<Rightarrow> cs | None \<Rightarrow> []);
                 st = st\<lparr>appClientMap := AList.update callingUid appClients (appClientMap st)\<rparr>
             in if length appClients \<ge> MAX_CLIENTS_PER_APP then (OH_MIDI_STATUS_TOO_MANY_CLIENTS, None, st)
                else
                  (case NextClientId (length (sc_clients st) + 1) (sc_clients st) (currentClientId st) of
                     None \<Rightarrow> (OH_MIDI_STATUS_SYSTEM_ERROR, None, st)
                   | Some clientId \<Rightarrow>
                       let st = st\<lparr>currentClientId := clientId\<rparr>
                       in if \<not> allocated then (OH_MIDI_STATUS_SYSTEM_ERROR, Some clientId, st)
                          else if \<not> added then (OH_MIDI_STATUS_SYSTEM_ERROR, Some clientId, st)
                          else
                            let st = st\<lparr>clientCallbackObjects := set_add clientId (clientCallbackObjects st),
                                        deathRecipients := set_add clientId (deathRecipients st),
                                        sc_clients := set_add clientId (sc_clients st)\<rparr>;
                                st = set_resource clientId ((resource_of st clientId)\<lparr>uid := callingUid\<rparr>) st;
                                st = st\<lparr>appClientMap := AList.update callingUid (set_add clientId appClients) (appClientMap st)\<rparr>
                            in (OH_MIDI_STATUS_OK, Some clientId, st)))"

section \<open>Devices\<close>

definition GetDevices :: "'d MidiServiceController \<Rightarrow> MidiDeviceInfo list" where
  "GetDevices st = map midiDeviceInfo (devices (manager st))"

definition GetDevice :: "int \<Rightarrow> 'd MidiServiceController \<Rightarrow> MidiDeviceInfo" where
  "GetDevice d st = midiDeviceInfo (GetDeviceForDeviceId d (manager st))"

definition IsBluetoothDevice :: "int \<Rightarrow> 'd MidiServiceController \<Rightarrow> bool" where
  "IsBluetoothDevice d st = list_ex (\<lambda>p. snd p = d) (activeBleDevices st)"

definition Controller_GetDevicePorts :: "ServiceEnv \<Rightarrow> int \<Rightarrow> 'd MidiServiceController \<Rightarrow> int \<times> MidiPortInfo list" where
  "Controller_GetDevicePorts env d st =
     (if IsBluetoothDevice d st \<and> \<not> env_permission env then (OH_MIDI_STATUS_PERMISSION_DENIED, [])
      else GetDevicePorts d (manager st))"

definition open_for :: "u32 \<Rightarrow> int \<Rightarrow> 'd MidiServiceController \<Rightarrow> 'd MidiServiceController" where
  "open_for c d st =
     (let r = resource_of st c in set_resource c (r\<lparr>openDevices := set_add d (openDevices r)\<rparr>) st)"

definition OpenDevice ::
  "'d Drivers \<Rightarrow> ServiceEnv \<Rightarrow> u32 \<Rightarrow> int \<Rightarrow> 'd MidiServiceController \<Rightarrow> int \<times> 'd MidiServiceController" where
  "OpenDevice drv env c d st =
     (if c \<notin> set (sc_clients st) then (OH_MIDI_STATUS_INVALID_CLIENT, st)
      else
        let st = touch_resource c st
        in if IsBluetoothDevice d st \<and> \<not> env_permission env then (OH_MIDI_STATUS_PERMISSION_DENIED, st)
           else if length (openDevices (resource_of st c)) \<ge> MAX_DEVICES_PER_CLIENT
           then (OH_MIDI_STATUS_TOO_MANY_OPEN_DEVICES, st)
           else
             (case find_ctx st d of
                Some ctx \<Rightarrow>
                  if c \<in> set (ctx_clients ctx) then (OH_MIDI_STATUS_DEVICE_ALREADY_OPEN, st)
                  else (OH_MIDI_STATUS_OK,
                        open_for c d (set_ctx d (ctx\<lparr>ctx_clients := set_add c (ctx_clients ctx)\<rparr>) st))
              | None \<Rightarrow>
                  (case Manager_OpenDevice drv d (manager st) of (ret, m) \<Rightarrow>
                     let st = st\<lparr>manager := m\<rparr>
                     in if ret \<noteq> OH_MIDI_STATUS_OK then (OH_MIDI_STATUS_GENERIC_INVALID_ARGUMENT, st)
                        else
                          let context = \<lparr>ctx_deviceId = d, ctx_clients = [c], inputConnections = [], outputConnections = []\<rparr>
                          in (OH_MIDI_STATUS_OK, open_for c d (set_ctx d context st)))))"

section \<open>Removal of a device\<close>

primrec erase_value :: "int \<Rightarrow> (string \<times> int) list \<Rightarrow> (string \<times> int) list" where
  "erase_value d [] = []"
| "erase_value d (p # ps) = (if snd p = d then ps else p # erase_value d ps)"

definition RemoveFromActiveBleDevices :: "int \<Rightarrow> 'd MidiServiceController \<Rightarrow> 'd MidiServiceController" where
  "RemoveFromActiveBleDevices d st = st\<lparr>activeBleDevices := erase_value d (activeBleDevices st)\<rparr>"

definition CalculateClientPortCountAndStopWorkers :: "u32 \<Rightarrow> DeviceClientContext \<Rightarrow> u32 \<times> DeviceClientContext" where
  "CalculateClientPortCountAndStopWorkers c ctx =
     (of_nat (length (filter (\<lambda>p. HasClientConnection c (snd p)) (inputConnections ctx)))
        + of_nat (length (filter (\<lambda>p. HasClientConnection c (snd p)) (outputConnections ctx))),
      ctx\<lparr>outputConnections := map (\<lambda>(i, conn). (i, if HasClientConnection c conn then snd (Stop conn) else conn)) (outputConnections ctx)\<rparr>)"

definition CleanupClientResourceForDevice :: "u32 \<Rightarrow> int \<Rightarrow> u32 \<Rightarrow> 'd MidiServiceController \<Rightarrow> 'd MidiServiceController" where
  "CleanupClientResourceForDevice c d portCount st =
     (case find_key (clientResourceInfo st) c of
        None \<Rightarrow> st
      | Some r \<Rightarrow>
          set_resource c
            (r\<lparr>openDevices := set_remove d (openDevices r),
               openPortCount := (if openPortCount r \<ge> portCount then openPortCount r - portCount else 0)\<rparr>) st)"

primrec CleanupClients :: "u32 list \<Rightarrow> int \<Rightarrow> DeviceClientContext \<Rightarrow> 'd MidiServiceController \<Rightarrow> 'd MidiServiceController" where
  "CleanupClients [] d ctx st = st"
| "CleanupClients (c # cs) d ctx st =
     (case CalculateClientPortCountAndStopWorkers c ctx of (portCount, ctx) \<Rightarrow>
        CleanupClients cs d ctx (CleanupClientResourceForDevice c d portCount st))"

definition CleanupDeviceContext :: "int \<Rightarrow> 'd MidiServiceController \<Rightarrow> 'd MidiServiceController" where
  "CleanupDeviceContext d st =
     (case find_ctx st d of
        None \<Rightarrow> st
      | Some ctx \<Rightarrow> erase_ctx d (CleanupClients (ctx_clients ctx) d ctx st))"

definition CollectClientsToNotify :: "'d MidiServiceController \<Rightarrow> u32 list" where
  "CollectClientsToNotify st = sc_clients st"

definition NotifyDeviceChange ::
  "DeviceChangeType \<Rightarrow> DeviceInformation \<Rightarrow> 'd MidiServiceController \<Rightarrow> 'd MidiServiceController" where
  "NotifyDeviceChange change dev st =
     (let st = (if change = REMOVED
                then CleanupDeviceContext (device_id dev) (RemoveFromActiveBleDevices (device_id dev) st) else st)
      in send (map (\<lambda>c. DeviceChanged c change (midiDeviceInfo dev)) (CollectClientsToNotify st)) st)"

definition NotifyError :: "int \<Rightarrow> 'd MidiServiceController \<Rightarrow> 'd MidiServiceController" where
  "NotifyError code st = send (map (\<lambda>c. ErrorRaised c code) (sc_clients st)) st"

section \<open>Opening a Bluetooth device\<close>

text \<open>The first part of \<open>HandleBleOpenComplete\<close> takes the waiting clients, the last part tells them.\<close>

definition TakeWaiting :: "string \<Rightarrow> 'd MidiServiceController \<Rightarrow> PendingBleConnection list \<times> 'd MidiServiceController" where
  "TakeWaiting addr st =
     (case find_key (pendingBleConnections st) addr of
        None \<Rightarrow> ([], st)
      | Some reqs \<Rightarrow> (reqs, st\<lparr>pendingBleConnections := AList.delete addr (pendingBleConnections st)\<rparr>))"

definition TellWaiting ::
  "PendingBleConnection list \<Rightarrow> bool \<Rightarrow> MidiDeviceInfo \<Rightarrow> 'd MidiServiceController \<Rightarrow> 'd MidiServiceController" where
  "TellWaiting reqs success devInfo st = send (map (\<lambda>r. DeviceOpened (pb_callback r) success devInfo) reqs) st"

text \<open>
  What the manager calls while it closes a device: the driver then only reports devices that are gone, so that
  \<open>success\<close> is false in a completed open, which closes no further device.
\<close>

definition HandleCallWhileClosing :: "ManagerCall \<Rightarrow> 'd MidiServiceController \<Rightarrow> 'd MidiServiceController" where
  "HandleCallWhileClosing call st =
     (case call of
        BleOpenComplete addr success i devInfo \<Rightarrow>
          (case TakeWaiting addr st of (reqs, st) \<Rightarrow> TellWaiting reqs success devInfo st)
      | NotifyChange change dev \<Rightarrow> NotifyDeviceChange change dev st)"

definition CloseManagerDevice :: "'d Drivers \<Rightarrow> int \<Rightarrow> 'd MidiServiceController \<Rightarrow> int \<times> 'd MidiServiceController" where
  "CloseManagerDevice drv d st =
     (case Manager_CloseDevice drv d (manager st) of (ret, calls, m) \<Rightarrow>
        (ret, fold HandleCallWhileClosing calls (st\<lparr>manager := m\<rparr>)))"

definition RegisterBleDeviceForPendingClientsLocked ::
  "string \<Rightarrow> int \<Rightarrow> PendingBleConnection list \<Rightarrow> 'd MidiServiceController \<Rightarrow> bool \<times> 'd MidiServiceController" where
  "RegisterBleDeviceForPendingClientsLocked addr d reqs st =
     (let st = st\<lparr>activeBleDevices := AList.update addr d (activeBleDevices st)\<rparr>;
          alive = filter (\<lambda>c. c \<in> set (sc_clients st)) (map pb_clientId reqs);
          initialClients = fold set_add alive [];
          st = fold (\<lambda>c. open_for c d) alive st
      in if initialClients = [] then (False, st)
         else
           (case find_ctx st d of
              Some ctx \<Rightarrow> (True, set_ctx d (ctx\<lparr>ctx_clients := fold set_add initialClients (ctx_clients ctx)\<rparr>) st)
            | None \<Rightarrow>
                (True, set_ctx d \<lparr>ctx_deviceId = d, ctx_clients = initialClients, inputConnections = [], outputConnections = []\<rparr> st)))"

definition HandleBleOpenComplete ::
  "'d Drivers \<Rightarrow> string \<Rightarrow> bool \<Rightarrow> int \<Rightarrow> MidiDeviceInfo \<Rightarrow> 'd MidiServiceController \<Rightarrow> 'd MidiServiceController" where
  "HandleBleOpenComplete drv addr success d devInfo st =
     (case TakeWaiting addr st of (reqs, st) \<Rightarrow>
        let st = (if success then
                    (case RegisterBleDeviceForPendingClientsLocked addr d reqs st of (ok, st) \<Rightarrow>
                       if \<not> ok then snd (CloseManagerDevice drv d st) else st)
                  else st)
        in TellWaiting reqs success devInfo st)"

definition TryAttachToActiveBleDevice ::
  "u32 \<Rightarrow> string \<Rightarrow> 'd MidiServiceController \<Rightarrow> MidiDeviceInfo option \<times> 'd MidiServiceController" where
  "TryAttachToActiveBleDevice c addr st =
     (case find_key (activeBleDevices st) addr of
        None \<Rightarrow> (None, st)
      | Some d \<Rightarrow>
          (case find_ctx st d of
             None \<Rightarrow> (None, st)
           | Some ctx \<Rightarrow>
               (Some (midiDeviceInfo (GetDeviceForDeviceId d (manager st))),
                open_for c d (set_ctx d (ctx\<lparr>ctx_clients := set_add c (ctx_clients ctx)\<rparr>) st))))"

definition EnqueueBleConnectionRequest ::
  "'d Drivers \<Rightarrow> u32 \<Rightarrow> string \<Rightarrow> nat \<Rightarrow> 'd MidiServiceController \<Rightarrow> int \<times> 'd MidiServiceController" where
  "EnqueueBleConnectionRequest drv c addr callback st =
     (let waiting = find_key (pendingBleConnections st) addr;
          req = \<lparr>pb_clientId = c, pb_callback = callback\<rparr>;
          reqs = (case waiting of Some reqs \<Rightarrow> reqs | None \<Rightarrow> []);
          st = st\<lparr>pendingBleConnections := AList.update addr (reqs @ [req]) (pendingBleConnections st)\<rparr>
      in if waiting \<noteq> None then (OH_MIDI_STATUS_OK, st)
         else
           (case Manager_OpenBleDevice drv addr (manager st) of (ret, m) \<Rightarrow>
              let st = st\<lparr>manager := m\<rparr>
              in if ret \<noteq> OH_MIDI_STATUS_OK
                 then (ret, st\<lparr>pendingBleConnections := AList.delete addr (pendingBleConnections st)\<rparr>)
                 else (OH_MIDI_STATUS_OK, st)))"

definition OpenBleDevice ::
  "'d Drivers \<Rightarrow> u32 \<Rightarrow> string \<Rightarrow> nat option \<Rightarrow> 'd MidiServiceController \<Rightarrow> int \<times> 'd MidiServiceController" where
  "OpenBleDevice drv c addr callback st =
     (case callback of
        None \<Rightarrow> (OH_MIDI_STATUS_SYSTEM_ERROR, st)
      | Some cb \<Rightarrow>
          if c \<notin> set (sc_clients st) then (OH_MIDI_STATUS_INVALID_CLIENT, st)
          else
            let st = touch_resource c st
            in if length (openDevices (resource_of st c)) \<ge> MAX_DEVICES_PER_CLIENT
               then (OH_MIDI_STATUS_TOO_MANY_OPEN_DEVICES, st)
               else
                 (case TryAttachToActiveBleDevice c addr st of
                    (Some devInfo, st) \<Rightarrow> (OH_MIDI_STATUS_OK, send [DeviceOpened cb True devInfo] st)
                  | (None, st) \<Rightarrow> EnqueueBleConnectionRequest drv c addr cb st))"

section \<open>Opening ports\<close>

text \<open>The checks that opening an input and an output port share.\<close>

definition PortGuard ::
  "ServiceEnv \<Rightarrow> u32 \<Rightarrow> int \<Rightarrow> 'd MidiServiceController \<Rightarrow> int \<times> DeviceClientContext option \<times> 'd MidiServiceController" where
  "PortGuard env c d st =
     (if c \<notin> set (sc_clients st) then (OH_MIDI_STATUS_INVALID_CLIENT, None, st)
      else
        (case find_ctx st d of
           None \<Rightarrow> (OH_MIDI_STATUS_INVALID_DEVICE_HANDLE, None, st)
         | Some ctx \<Rightarrow>
             if c \<notin> set (ctx_clients ctx) then (OH_MIDI_STATUS_SYSTEM_ERROR, None, st)
             else if IsBluetoothDevice d st \<and> \<not> env_permission env then (OH_MIDI_STATUS_PERMISSION_DENIED, None, st)
             else
               let st = touch_resource c st
               in if openPortCount (resource_of st c) \<ge> MAX_PORTS_PER_CLIENT
                  then (OH_MIDI_STATUS_TOO_MANY_OPEN_PORTS, None, st)
                  else (OH_MIDI_STATUS_OK, Some ctx, st)))"

definition count_port :: "u32 \<Rightarrow> 'd MidiServiceController \<Rightarrow> 'd MidiServiceController" where
  "count_port c st = (let r = resource_of st c in set_resource c (r\<lparr>openPortCount := openPortCount r + 1\<rparr>) st)"

definition ConnectToExistingInputPort ::
  "ServiceEnv \<Rightarrow> u32 \<Rightarrow> int \<Rightarrow> u32 \<Rightarrow> DeviceClientContext \<Rightarrow> DeviceConnection \<Rightarrow> 'd MidiServiceController
     \<Rightarrow> int \<times> 'd MidiServiceController" where
  "ConnectToExistingInputPort env c d p ctx portConn st =
     (if HasClientConnection c portConn then (OH_MIDI_STATUS_PORT_ALREADY_OPEN, st)
      else if openPortCount (resource_of st c) \<ge> MAX_PORTS_PER_CLIENT then (OH_MIDI_STATUS_TOO_MANY_OPEN_PORTS, st)
      else
        (case AddClientConnection (env_map env) c d portConn of (addRet, portConn) \<Rightarrow>
           let st = set_ctx d (ctx\<lparr>inputConnections := AList.update p portConn (inputConnections ctx)\<rparr>) st
           in if addRet \<noteq> OH_MIDI_STATUS_OK then (addRet, st) else (OH_MIDI_STATUS_OK, count_port c st)))"

definition CreateNewInputPortConnection ::
  "'d Drivers \<Rightarrow> ServiceEnv \<Rightarrow> u32 \<Rightarrow> int \<Rightarrow> u32 \<Rightarrow> DeviceClientContext \<Rightarrow> 'd MidiServiceController
     \<Rightarrow> int \<times> 'd MidiServiceController" where
  "CreateNewInputPortConnection drv env c d p ctx st =
     (case Manager_OpenInputPort drv d p (manager st) of (ret, connection, m) \<Rightarrow>
        let st = st\<lparr>manager := m\<rparr>
        in if ret \<noteq> OH_MIDI_STATUS_OK then (ret, st)
           else
             (case AddClientConnection (env_map env) c d (the connection) of (addRet, inputConnection) \<Rightarrow>
                if addRet \<noteq> OH_MIDI_STATUS_OK
                then (addRet, st\<lparr>manager := snd (Manager_CloseInputPort drv d p (manager st))\<rparr>)
                else
                  (OH_MIDI_STATUS_OK,
                   set_ctx d (ctx\<lparr>inputConnections := AList.update p inputConnection (inputConnections ctx)\<rparr>) (count_port c st))))"

definition OpenInputPort ::
  "'d Drivers \<Rightarrow> ServiceEnv \<Rightarrow> u32 \<Rightarrow> int \<Rightarrow> u32 \<Rightarrow> 'd MidiServiceController \<Rightarrow> int \<times> 'd MidiServiceController" where
  "OpenInputPort drv env c d p st =
     (case PortGuard env c d st of
        (status, None, st) \<Rightarrow> (status, st)
      | (_, Some ctx, st) \<Rightarrow>
          (case find_key (inputConnections ctx) p of
             Some portConn \<Rightarrow> ConnectToExistingInputPort env c d p ctx portConn st
           | None \<Rightarrow> CreateNewInputPortConnection drv env c d p ctx st))"

definition ConnectToExistingOutputPort ::
  "ServiceEnv \<Rightarrow> u32 \<Rightarrow> int \<Rightarrow> u32 \<Rightarrow> DeviceClientContext \<Rightarrow> DeviceConnectionForOutput \<Rightarrow> 'd MidiServiceController
     \<Rightarrow> int \<times> 'd MidiServiceController" where
  "ConnectToExistingOutputPort env c d p ctx portConn st =
     (if HasClientConnection c portConn then (OH_MIDI_STATUS_PORT_ALREADY_OPEN, st)
      else if openPortCount (resource_of st c) \<ge> MAX_PORTS_PER_CLIENT then (OH_MIDI_STATUS_TOO_MANY_OPEN_PORTS, st)
      else
        (case AddClientConnectionForOutput (env_map env) (env_dup env) c d portConn of (addRet, portConn) \<Rightarrow>
           let st = set_ctx d (ctx\<lparr>outputConnections := AList.update p portConn (outputConnections ctx)\<rparr>) st
           in if addRet \<noteq> OH_MIDI_STATUS_OK then (addRet, st) else (OH_MIDI_STATUS_OK, count_port c st)))"

definition CreateNewOutputPortConnection ::
  "'d Drivers \<Rightarrow> ServiceEnv \<Rightarrow> u32 \<Rightarrow> int \<Rightarrow> u32 \<Rightarrow> DeviceClientContext \<Rightarrow> 'd MidiServiceController
     \<Rightarrow> int \<times> 'd MidiServiceController" where
  "CreateNewOutputPortConnection drv env c d p ctx st =
     (case Manager_OpenOutputPort drv d p (manager st) of (ret, connection, m) \<Rightarrow>
        let st = st\<lparr>manager := m\<rparr>
        in if ret \<noteq> OH_MIDI_STATUS_OK then (ret, st)
           else
             (case Start (env_setup env) (the connection) of (startRet, outputConnection) \<Rightarrow>
                if startRet \<noteq> OH_MIDI_STATUS_OK
                then (startRet, st\<lparr>manager := snd (Manager_CloseOutputPort drv d p (manager st))\<rparr>)
                else
                  (case AddClientConnectionForOutput (env_map env) (env_dup env) c d outputConnection of (addRet, outputConnection) \<Rightarrow>
                     if addRet \<noteq> OH_MIDI_STATUS_OK
                     then (addRet, st\<lparr>manager := snd (Manager_CloseOutputPort drv d p (manager st))\<rparr>)
                     else
                       (OH_MIDI_STATUS_OK,
                        set_ctx d (ctx\<lparr>outputConnections := AList.update p outputConnection (outputConnections ctx)\<rparr>) (count_port c st)))))"

definition OpenOutputPort ::
  "'d Drivers \<Rightarrow> ServiceEnv \<Rightarrow> u32 \<Rightarrow> int \<Rightarrow> u32 \<Rightarrow> 'd MidiServiceController \<Rightarrow> int \<times> 'd MidiServiceController" where
  "OpenOutputPort drv env c d p st =
     (case PortGuard env c d st of
        (status, None, st) \<Rightarrow> (status, st)
      | (_, Some ctx, st) \<Rightarrow>
          (case find_key (outputConnections ctx) p of
             Some portConn \<Rightarrow> ConnectToExistingOutputPort env c d p ctx portConn st
           | None \<Rightarrow> CreateNewOutputPortConnection drv env c d p ctx st))"

section \<open>Flushing and closing ports\<close>

definition FlushOutputPort :: "u32 \<Rightarrow> int \<Rightarrow> u32 \<Rightarrow> 'd MidiServiceController \<Rightarrow> int \<times> 'd MidiServiceController" where
  "FlushOutputPort c d p st =
     (if c \<notin> set (sc_clients st) then (OH_MIDI_STATUS_INVALID_CLIENT, st)
      else
        (case find_ctx st d of
           None \<Rightarrow> (OH_MIDI_STATUS_INVALID_DEVICE_HANDLE, st)
         | Some ctx \<Rightarrow>
             if c \<notin> set (ctx_clients ctx) then (OH_MIDI_STATUS_GENERIC_INVALID_ARGUMENT, st)
             else
               (case find_key (outputConnections ctx) p of
                  None \<Rightarrow> (OH_MIDI_STATUS_OK, st)
                | Some conn \<Rightarrow>
                    (OH_MIDI_STATUS_OK,
                     set_ctx d (ctx\<lparr>outputConnections := AList.update p (FlushClientCache c conn) (outputConnections ctx)\<rparr>) st))))"

definition uncount_port :: "u32 \<Rightarrow> 'd MidiServiceController \<Rightarrow> 'd MidiServiceController" where
  "uncount_port c st =
     (let r = resource_of st c
      in set_resource c (if openPortCount r > 0 then r\<lparr>openPortCount := openPortCount r - 1\<rparr> else r) st)"

definition CloseInputPortInner ::
  "'d Drivers \<Rightarrow> u32 \<Rightarrow> int \<Rightarrow> u32 \<Rightarrow> 'd MidiServiceController \<Rightarrow> int \<times> 'd MidiServiceController" where
  "CloseInputPortInner drv c d p st =
     (case find_ctx st d of
        None \<Rightarrow> (OH_MIDI_STATUS_INVALID_DEVICE_HANDLE, st)
      | Some ctx \<Rightarrow>
          if c \<notin> set (ctx_clients ctx) then (OH_MIDI_STATUS_GENERIC_INVALID_ARGUMENT, st)
          else
            (case find_key (inputConnections ctx) p of
               None \<Rightarrow> (OH_MIDI_STATUS_INVALID_PORT, st)
             | Some conn \<Rightarrow>
                 if \<not> HasClientConnection c conn then (OH_MIDI_STATUS_INVALID_PORT, st)
                 else
                   let st = uncount_port c st;
                       conn = RemoveClientConnection c conn
                   in if IsEmptyClientConnections conn then
                        (case Manager_CloseInputPort drv d p (manager st) of (ret, m) \<Rightarrow>
                           let st = set_ctx d (ctx\<lparr>inputConnections := AList.delete p (inputConnections ctx)\<rparr>) (st\<lparr>manager := m\<rparr>)
                           in if ret \<noteq> OH_MIDI_STATUS_OK then (ret, st) else (OH_MIDI_STATUS_OK, st))
                      else
                        (OH_MIDI_STATUS_OK,
                         set_ctx d (ctx\<lparr>inputConnections := AList.update p conn (inputConnections ctx)\<rparr>) st)))"

definition CloseOutputPortInner ::
  "'d Drivers \<Rightarrow> u32 \<Rightarrow> int \<Rightarrow> u32 \<Rightarrow> 'd MidiServiceController \<Rightarrow> int \<times> 'd MidiServiceController" where
  "CloseOutputPortInner drv c d p st =
     (case find_ctx st d of
        None \<Rightarrow> (OH_MIDI_STATUS_INVALID_DEVICE_HANDLE, st)
      | Some ctx \<Rightarrow>
          if c \<notin> set (ctx_clients ctx) then (OH_MIDI_STATUS_GENERIC_INVALID_ARGUMENT, st)
          else
            (case find_key (outputConnections ctx) p of
               None \<Rightarrow> (OH_MIDI_STATUS_INVALID_PORT, st)
             | Some conn \<Rightarrow>
                 if \<not> HasClientConnection c conn then (OH_MIDI_STATUS_INVALID_PORT, st)
                 else
                   let st = uncount_port c st;
                       conn = RemoveClientConnection c conn
                   in if IsEmptyClientConnections conn then
                        (case Manager_CloseOutputPort drv d p (manager st) of (ret, m) \<Rightarrow>
                           let st = set_ctx d (ctx\<lparr>outputConnections := AList.delete p (outputConnections ctx)\<rparr>) (st\<lparr>manager := m\<rparr>)
                           in if ret \<noteq> OH_MIDI_STATUS_OK then (ret, st) else (OH_MIDI_STATUS_OK, st))
                      else
                        (OH_MIDI_STATUS_OK,
                         set_ctx d (ctx\<lparr>outputConnections := AList.update p conn (outputConnections ctx)\<rparr>) st)))"

definition CloseInputPort ::
  "'d Drivers \<Rightarrow> u32 \<Rightarrow> int \<Rightarrow> u32 \<Rightarrow> 'd MidiServiceController \<Rightarrow> int \<times> 'd MidiServiceController" where
  "CloseInputPort drv c d p st =
     (if c \<notin> set (sc_clients st) then (OH_MIDI_STATUS_INVALID_CLIENT, st) else CloseInputPortInner drv c d p st)"

definition CloseOutputPort ::
  "'d Drivers \<Rightarrow> u32 \<Rightarrow> int \<Rightarrow> u32 \<Rightarrow> 'd MidiServiceController \<Rightarrow> int \<times> 'd MidiServiceController" where
  "CloseOutputPort drv c d p st =
     (if c \<notin> set (sc_clients st) then (OH_MIDI_STATUS_INVALID_CLIENT, st) else CloseOutputPortInner drv c d p st)"

section \<open>Closing devices and clients\<close>

definition ClosePortforDevice ::
  "'d Drivers \<Rightarrow> u32 \<Rightarrow> int \<Rightarrow> DeviceClientContext \<Rightarrow> 'd MidiServiceController \<Rightarrow> 'd MidiServiceController" where
  "ClosePortforDevice drv c d ctx st =
     (let st = fold (\<lambda>p st. snd (CloseInputPortInner drv c d p st)) (keys_of (inputConnections ctx)) st
      in fold (\<lambda>p st. snd (CloseOutputPortInner drv c d p st)) (keys_of (outputConnections ctx)) st)"

text \<open>The end of closing a device for a client: the client leaves, and the context goes with the last client.\<close>

definition LeaveDevice :: "u32 \<Rightarrow> int \<Rightarrow> 'd MidiServiceController \<Rightarrow> 'd MidiServiceController" where
  "LeaveDevice c d st =
     (case find_ctx st d of
        None \<Rightarrow> st
      | Some ctx \<Rightarrow>
          let ctx = ctx\<lparr>ctx_clients := set_remove c (ctx_clients ctx)\<rparr>
          in if ctx_clients ctx = [] then RemoveFromActiveBleDevices d (erase_ctx d st) else set_ctx d ctx st)"

definition CloseDevice ::
  "'d Drivers \<Rightarrow> u32 \<Rightarrow> int \<Rightarrow> 'd MidiServiceController \<Rightarrow> int \<times> 'd MidiServiceController" where
  "CloseDevice drv c d st =
     (if c \<notin> set (sc_clients st) then (OH_MIDI_STATUS_INVALID_CLIENT, st)
      else
        (case find_ctx st d of
           None \<Rightarrow> (OH_MIDI_STATUS_INVALID_DEVICE_HANDLE, st)
         | Some ctx \<Rightarrow>
             if c \<notin> set (ctx_clients ctx) then (OH_MIDI_STATUS_INVALID_DEVICE_HANDLE, st)
             else
               let st = LeaveDevice c d (ClosePortforDevice drv c d ctx st);
                   r = resource_of st c;
                   st = set_resource c (r\<lparr>openDevices := set_remove d (openDevices r)\<rparr>) st
               in if find_ctx st d \<noteq> None then (OH_MIDI_STATUS_OK, st)
                  else
                    (case CloseManagerDevice drv d st of (ret, st) \<Rightarrow>
                       (if ret = OH_MIDI_STATUS_OK then OH_MIDI_STATUS_OK else OH_MIDI_STATUS_SYSTEM_ERROR, st))))"

definition CollectDevicesForClientDestruction :: "u32 \<Rightarrow> 'd MidiServiceController \<Rightarrow> int list \<times> int list" where
  "CollectDevicesForClientDestruction c st =
     (let mine = filter (\<lambda>p. c \<in> set (ctx_clients (snd p))) (deviceClientContexts st)
      in (map fst (filter (\<lambda>p. length (ctx_clients (snd p)) = 1) mine), map fst mine))"

definition CleanupDeviceForClient :: "'d Drivers \<Rightarrow> u32 \<Rightarrow> int \<Rightarrow> 'd MidiServiceController \<Rightarrow> 'd MidiServiceController" where
  "CleanupDeviceForClient drv c d st =
     (case find_ctx st d of
        None \<Rightarrow> st
      | Some ctx \<Rightarrow> LeaveDevice c d (ClosePortforDevice drv c d ctx st))"

definition CleanupClientResources :: "u32 \<Rightarrow> u32 \<Rightarrow> 'd MidiServiceController \<Rightarrow> 'd MidiServiceController" where
  "CleanupClientResources c clientUid st =
     (let st = (case find_key (appClientMap st) clientUid of
                  None \<Rightarrow> st
                | Some cs \<Rightarrow>
                    let cs = set_remove c cs
                    in st\<lparr>appClientMap := (if cs = [] then AList.delete clientUid (appClientMap st)
                                          else AList.update clientUid cs (appClientMap st))\<rparr>)
      in st\<lparr>clientResourceInfo := AList.delete c (clientResourceInfo st)\<rparr>)"

definition RemovePendingBleConnectionsForClient :: "u32 \<Rightarrow> 'd MidiServiceController \<Rightarrow> 'd MidiServiceController" where
  "RemovePendingBleConnectionsForClient c st =
     st\<lparr>pendingBleConnections :=
          filter (\<lambda>p. snd p \<noteq> []) (map (\<lambda>(a, reqs). (a, filter (\<lambda>r. pb_clientId r \<noteq> c) reqs)) (pendingBleConnections st))\<rparr>"

definition DestroyMidiClient ::
  "'d Drivers \<Rightarrow> u32 \<Rightarrow> 'd MidiServiceController \<Rightarrow> int \<times> 'd MidiServiceController" where
  "DestroyMidiClient drv c st =
     (if c \<notin> set (sc_clients st) then (OH_MIDI_STATUS_INVALID_CLIENT, st)
      else
        (case CollectDevicesForClientDestruction c st of (devicesToClose, devicesToClean) \<Rightarrow>
           let clientUid = (case find_key (clientResourceInfo st) c of Some r \<Rightarrow> uid r | None \<Rightarrow> 0);
               st = (if c \<in> set (deathRecipients st)
                     then st\<lparr>clientCallbackObjects := set_remove c (clientCallbackObjects st),
                             deathRecipients := set_remove c (deathRecipients st)\<rparr>
                     else st);
               st = fold (CleanupDeviceForClient drv c) devicesToClean st;
               st = CleanupClientResources c clientUid st;
               st = RemovePendingBleConnectionsForClient c st;
               st = st\<lparr>sc_clients := set_remove c (sc_clients st)\<rparr>;
               st = fold (\<lambda>d st. snd (CloseManagerDevice drv d st)) devicesToClose st
           in if sc_clients st = [] then (OH_MIDI_STATUS_OK, ScheduleUnloadTask st) else (OH_MIDI_STATUS_OK, st)))"

section \<open>The service\<close>

text \<open>
  What can happen to the service: a client's request, with the world during that call, a driver's report
  that a Bluetooth device is or is not connected, a change of the devices on the bus, and any change of a
  driver's state that the service does not see.
\<close>

datatype 'd Request =
    Create bool bool bool u32
  | Open ServiceEnv u32 int
  | OpenBle u32 string "nat option"
  | Close u32 int
  | OpenInput ServiceEnv u32 int u32
  | OpenOutput ServiceEnv u32 int u32
  | FlushPort u32 int u32
  | CloseInput u32 int u32
  | CloseOutput u32 int u32
  | Destroy u32
  | BleReport string bool DeviceInformation
  | BusChange
  | ErrorReport int
  | DriverChange 'd

text \<open>The manager's calls, from outside the controller.\<close>

definition HandleManagerCall :: "'d Drivers \<Rightarrow> ManagerCall \<Rightarrow> 'd MidiServiceController \<Rightarrow> 'd MidiServiceController" where
  "HandleManagerCall drv call st =
     (case call of
        BleOpenComplete addr success i devInfo \<Rightarrow> HandleBleOpenComplete drv addr success i devInfo st
      | NotifyChange change dev \<Rightarrow> NotifyDeviceChange change dev st)"

definition with_manager ::
  "'d Drivers \<Rightarrow> ('d MidiDeviceManager \<Rightarrow> ManagerCall list \<times> 'd MidiDeviceManager) \<Rightarrow> 'd MidiServiceController \<Rightarrow> 'd MidiServiceController" where
  "with_manager drv f st =
     (case f (manager st) of (calls, m) \<Rightarrow> fold (HandleManagerCall drv) calls (st\<lparr>manager := m\<rparr>))"

definition serve :: "'d Drivers \<Rightarrow> 'd Request \<Rightarrow> 'd MidiServiceController \<Rightarrow> int \<times> 'd MidiServiceController" where
  "serve drv req st =
     (case req of
        Create valid allocated added callingUid \<Rightarrow>
          (case CreateMidiInServer valid allocated added callingUid st of (status, _, st) \<Rightarrow> (status, st))
      | Open env c d \<Rightarrow> OpenDevice drv env c d st
      | OpenBle c addr callback \<Rightarrow> OpenBleDevice drv c addr callback st
      | Close c d \<Rightarrow> CloseDevice drv c d st
      | OpenInput env c d p \<Rightarrow> OpenInputPort drv env c d p st
      | OpenOutput env c d p \<Rightarrow> OpenOutputPort drv env c d p st
      | FlushPort c d p \<Rightarrow> FlushOutputPort c d p st
      | CloseInput c d p \<Rightarrow> CloseInputPort drv c d p st
      | CloseOutput c d p \<Rightarrow> CloseOutputPort drv c d p st
      | Destroy c \<Rightarrow> DestroyMidiClient drv c st
      | BleReport addr connected devInfo \<Rightarrow>
          (OH_MIDI_STATUS_OK,
           with_manager drv (if connected then HandleBleConnect addr devInfo else HandleBleDisconnect addr devInfo) st)
      | BusChange \<Rightarrow> (OH_MIDI_STATUS_OK, with_manager drv (UpdateDevices drv) st)
      | ErrorReport code \<Rightarrow> (OH_MIDI_STATUS_OK, NotifyError code st)
      | DriverChange d \<Rightarrow> (OH_MIDI_STATUS_OK, st\<lparr>manager := (manager st)\<lparr>driver_state := d\<rparr>\<rparr>))"

inductive service_step :: "'d Drivers \<Rightarrow> 'd MidiServiceController \<Rightarrow> 'd MidiServiceController \<Rightarrow> bool"
  for drv where
  "serve drv req st = (status, st') \<Longrightarrow> service_step drv st st'"

inductive reachable :: "'d Drivers \<Rightarrow> 'd MidiServiceController \<Rightarrow> bool" for drv where
  init: "reachable drv (new_MidiServiceController d)"
| step: "reachable drv st \<Longrightarrow> service_step drv st st' \<Longrightarrow> reachable drv st'"

inductive_cases service_stepE: "service_step drv st st'"

end
