(* ===== verification/Service_Tables.thy ===== *)
theory Service_Tables
  imports Service_Controller
begin

text \<open>
  The invariant of the service's tables and the elementary changes that keep it: the port connections of a device
  as an interface (locale \<open>connection\<close>, interpreted on input and on output ports), what the tables say about who
  has which device and port open (\<open>members\<close>, \<open>ports_in\<close>, \<open>opened\<close>, \<open>open_ports\<close>), the invariant
  (\<open>tables_inv\<close>, \<open>app_inv\<close>, \<open>pending_inv\<close>, together \<open>service_inv\<close>), and the rule
  \<open>tables_inv_change\<close> for a change of one device's entry.
\<close>

section \<open>Connections\<close>

definition users_of :: "(u32 \<Rightarrow> 'c \<Rightarrow> bool) \<Rightarrow> (u32 \<times> 'c) list \<Rightarrow> (u32 \<times> u32) set" where
  "users_of has m = {(c, p). \<exists>conn. find_key m p = Some conn \<and> has c conn}"

definition all_used :: "(u32 \<Rightarrow> 'c \<Rightarrow> bool) \<Rightarrow> (u32 \<times> 'c) list \<Rightarrow> bool" where
  "all_used has m \<longleftrightarrow> (\<forall>p conn. find_key m p = Some conn \<longrightarrow> (\<exists>c. has c conn))"

locale connection =
  fixes add :: "ServiceEnv \<Rightarrow> u32 \<Rightarrow> int \<Rightarrow> 'c \<Rightarrow> int \<times> 'c" and remove :: "u32 \<Rightarrow> 'c \<Rightarrow> 'c"
    and has :: "u32 \<Rightarrow> 'c \<Rightarrow> bool" and is_empty :: "'c \<Rightarrow> bool"
  assumes has_add: "add env c d conn = (OH_MIDI_STATUS_OK, conn') \<Longrightarrow> has c' conn' \<longleftrightarrow> c' = c \<or> has c' conn"
    and add_fail: "add env c d conn = (ret, conn') \<Longrightarrow> ret \<noteq> OH_MIDI_STATUS_OK \<Longrightarrow> conn' = conn"
    and has_remove: "has c' (remove c conn) \<longleftrightarrow> c' \<noteq> c \<and> has c' conn"
    and empty_iff: "is_empty conn \<longleftrightarrow> (\<forall>c. \<not> has c conn)"
begin

lemma users_add:
  assumes "find_key m p = Some conn" "add env c d conn = (OH_MIDI_STATUS_OK, conn')"
  shows "users_of has (AList.update p conn' m) = insert (c, p) (users_of has m)"
  using assms(1) by (auto simp: users_of_def has_add [OF assms(2)] split: if_splits)

lemma users_add_new:
  assumes "find_key m p = None" "add env c d conn = (OH_MIDI_STATUS_OK, conn')" "is_empty conn"
  shows "users_of has (AList.update p conn' m) = insert (c, p) (users_of has m)"
  using assms(1,3) by (auto simp: users_of_def has_add [OF assms(2)] empty_iff split: if_splits)

lemma users_fail:
  assumes "find_key m p = Some conn" "add env c d conn = (ret, conn')" "ret \<noteq> OH_MIDI_STATUS_OK" "all_used has m"
  shows "users_of has (AList.update p conn' m) = users_of has m \<and> all_used has (AList.update p conn' m)"
  using add_fail [OF assms(2,3)] assms(1,4)
  by (auto simp: users_of_def all_used_def split: if_splits)

lemma all_used_add:
  assumes "add env c d conn = (OH_MIDI_STATUS_OK, conn')" "all_used has m"
  shows "all_used has (AList.update p conn' m)"
  using assms(2) by (auto simp: all_used_def has_add [OF assms(1)] split: if_splits)

lemma users_remove:
  assumes "find_key m p = Some conn"
  shows "users_of has (if is_empty (remove c conn) then AList.delete p m else AList.update p (remove c conn) m)
      = users_of has m - {(c, p)}"
  using assms by (auto simp: users_of_def has_remove empty_iff split: if_splits)

lemma all_used_remove:
  assumes "all_used has m"
  shows "all_used has (if is_empty (remove c conn) then AList.delete p m else AList.update p (remove c conn) m)"
  using assms by (auto simp: all_used_def has_remove empty_iff split: if_splits)

end

lemma users_of_Nil [simp]: "users_of has [] = {}" "all_used has []"
  by (simp_all add: users_of_def all_used_def)

lemma finite_users: "finite (users_of has m \<inter> {x. fst x = c})"
proof -
  have "users_of has m \<inter> {x. fst x = c} \<subseteq> {c} \<times> fst ` set m"
    by (auto simp: users_of_def dest: map_of_SomeD intro: rev_image_eqI)
  then show ?thesis by (rule finite_subset) simp
qed

lemma card_users:
  "distinct (keys_of m) \<Longrightarrow> length (filter (\<lambda>x. has c (snd x)) m) = card {p. (c, p) \<in> users_of has m}"
proof -
  assume d: "distinct (keys_of m)"
  have "{p. (c, p) \<in> users_of has m} = fst ` set (filter (\<lambda>x. has c (snd x)) m)"
    using d by (force simp: users_of_def)
  moreover have "distinct (map fst (filter (\<lambda>x. has c (snd x)) m))" using d by (rule distinct_map_filter)
  ultimately show ?thesis by (metis distinct_card length_map list.set_map)
qed

lemma HasClientConnection_iff: "HasClientConnection c conn \<longleftrightarrow> c \<in> conn_clientId ` set (clients conn)"
  by (auto simp: HasClientConnection_def list_ex_iff)

lemma new_connection_id:
  "CreateRingBuffer f fd (new_ClientConnection c d p) = (rc, conn) \<Longrightarrow> conn_clientId conn = c"
  by (auto simp: CreateRingBuffer_def new_ClientConnection_def split: option.splits)

interpretation inp: connection "\<lambda>env. AddClientConnection (env_map env)" RemoveClientConnection HasClientConnection IsEmptyClientConnections
  by unfold_locales
    (auto simp: AddClientConnection_def HasClientConnection_iff RemoveClientConnection_def IsEmptyClientConnections_def
      status_defs dest!: new_connection_id split: prod.splits if_splits)

interpretation outp: connection "\<lambda>env. AddClientConnectionForOutput (env_map env) (env_dup env)" RemoveClientConnection HasClientConnection IsEmptyClientConnections
  by unfold_locales
    (auto simp: AddClientConnectionForOutput_def HasClientConnection_iff RemoveClientConnection_def IsEmptyClientConnections_def
      status_defs dest!: new_connection_id split: prod.splits if_splits)

section \<open>What the tables say\<close>

abbreviation in_users :: "DeviceClientContext \<Rightarrow> (u32 \<times> u32) set" where
  "in_users ctx \<equiv> users_of HasClientConnection (inputConnections ctx)"

abbreviation out_users :: "DeviceClientContext \<Rightarrow> (u32 \<times> u32) set" where
  "out_users ctx \<equiv> users_of HasClientConnection (outputConnections ctx)"

text \<open>The ports of a device that a client has open.\<close>

definition ctx_ports :: "u32 \<Rightarrow> DeviceClientContext \<Rightarrow> (MidiPortDirection \<times> u32) set" where
  "ctx_ports c ctx = Pair INPUT ` {p. (c, p) \<in> in_users ctx} \<union> Pair OUTPUT ` {p. (c, p) \<in> out_users ctx}"

definition members :: "DeviceClientContext option \<Rightarrow> u32 set" where
  "members co = (case co of None \<Rightarrow> {} | Some ctx \<Rightarrow> set (ctx_clients ctx))"

definition ports_in :: "u32 \<Rightarrow> DeviceClientContext option \<Rightarrow> (MidiPortDirection \<times> u32) set" where
  "ports_in c co = (case co of None \<Rightarrow> {} | Some ctx \<Rightarrow> ctx_ports c ctx)"

definition opened :: "u32 \<Rightarrow> 'd MidiServiceController \<Rightarrow> int set" where
  "opened c st = {d. c \<in> members (find_ctx st d)}"

definition open_ports :: "u32 \<Rightarrow> 'd MidiServiceController \<Rightarrow> (int \<times> MidiPortDirection \<times> u32) set" where
  "open_ports c st = {(d, x). x \<in> ports_in c (find_ctx st d)}"

lemma members_simps [simp]: "members None = {}" "members (Some ctx) = set (ctx_clients ctx)"
  by (simp_all add: members_def)

lemma ports_in_simps [simp]: "ports_in c None = {}" "ports_in c (Some ctx) = ctx_ports c ctx"
  by (simp_all add: ports_in_def)

lemma finite_port_users: "finite {p. (c, p) \<in> users_of has m}"
proof -
  have "{p. (c, p) \<in> users_of has m} \<subseteq> fst ` set m"
    by (auto simp: users_of_def dest: map_of_SomeD intro: rev_image_eqI)
  then show ?thesis by (rule finite_subset) simp
qed

lemma finite_ctx_ports [simp]: "finite (ctx_ports c ctx)"
  by (simp add: ctx_ports_def finite_port_users)

lemma finite_ports_in [simp]: "finite (ports_in c co)"
  by (cases co) simp_all

lemma finite_open_ports: "finite (open_ports c st)"
proof -
  have "open_ports c st \<subseteq> (\<Union>d\<in>fst ` set (deviceClientContexts st). Pair d ` ports_in c (find_ctx st d))"
    by (auto simp: open_ports_def find_ctx_def ports_in_def dest: map_of_SomeD split: option.splits intro!: rev_bexI)
  then show ?thesis by (rule finite_subset) simp
qed

lemma card_ctx_ports:
  "card (ctx_ports c ctx) = card {p. (c, p) \<in> in_users ctx} + card {p. (c, p) \<in> out_users ctx}"
proof -
  have "Pair INPUT ` {p. (c, p) \<in> in_users ctx} \<inter> Pair OUTPUT ` {p. (c, p) \<in> out_users ctx} = {}" by auto
  then show ?thesis
    by (simp add: ctx_ports_def card_Un_disjoint finite_port_users card_image inj_on_def)
qed

section \<open>Invariant\<close>

definition ctx_ok :: "u32 list \<Rightarrow> DeviceClientContext \<Rightarrow> bool" where
  "ctx_ok cs ctx \<longleftrightarrow> ctx_clients ctx \<noteq> [] \<and> distinct (ctx_clients ctx) \<and> set (ctx_clients ctx) \<subseteq> set cs
     \<and> distinct (keys_of (inputConnections ctx)) \<and> distinct (keys_of (outputConnections ctx))
     \<and> all_used HasClientConnection (inputConnections ctx) \<and> all_used HasClientConnection (outputConnections ctx)
     \<and> (\<forall>c. ctx_ports c ctx \<noteq> {} \<longrightarrow> c \<in> set (ctx_clients ctx))"

text \<open>The account of one client: what is counted for it is what it has open.\<close>

definition account_ok :: "ClientResourceInfo \<Rightarrow> int set \<Rightarrow> nat \<Rightarrow> bool" where
  "account_ok r ds n \<longleftrightarrow> distinct (openDevices r) \<and> set (openDevices r) = ds \<and> unat (openPortCount r) = n \<and> n \<le> 64"

text \<open>While a client is destroyed its account is not kept: \<open>X\<close> holds the clients without one.\<close>

definition tables_inv :: "u32 set \<Rightarrow> 'd MidiServiceController \<Rightarrow> bool" where
  "tables_inv X st \<longleftrightarrow>
     distinct (keys_of (deviceClientContexts st))
     \<and> (\<forall>d ctx. find_ctx st d = Some ctx \<longrightarrow> ctx_ok (sc_clients st) ctx)
     \<and> (\<forall>c. has_key (clientResourceInfo st) c \<longleftrightarrow> c \<in> set (sc_clients st))
     \<and> (\<forall>c\<in>set (sc_clients st) - X. account_ok (resource_of st c) (opened c st) (card (open_ports c st)))"

definition app_inv :: "'d MidiServiceController \<Rightarrow> bool" where
  "app_inv st \<longleftrightarrow>
     distinct (sc_clients st) \<and> length (sc_clients st) \<le> MAX_CLIENTS
     \<and> (\<forall>u cs. find_key (appClientMap st) u = Some cs \<longrightarrow> distinct cs \<and> length cs \<le> MAX_CLIENTS_PER_APP
          \<and> (\<forall>c\<in>set cs. c \<in> set (sc_clients st) \<and> uid (resource_of st c) = u))
     \<and> (\<forall>c\<in>set (sc_clients st). \<exists>cs. find_key (appClientMap st) (uid (resource_of st c)) = Some cs \<and> c \<in> set cs)
     \<and> set (clientCallbackObjects st) = set (sc_clients st) \<and> set (deathRecipients st) = set (sc_clients st)"

definition pending_inv :: "'d MidiServiceController \<Rightarrow> bool" where
  "pending_inv st \<longleftrightarrow> distinct (keys_of (pendingBleConnections st))
     \<and> (\<forall>a reqs. find_key (pendingBleConnections st) a = Some reqs \<longrightarrow>
          reqs \<noteq> [] \<and> pb_clientId ` set reqs \<subseteq> set (sc_clients st))"

definition service_inv :: "'d MidiServiceController \<Rightarrow> bool" where
  "service_inv st \<longleftrightarrow> tables_inv {} st \<and> app_inv st \<and> pending_inv st"

subsection \<open>One device changes\<close>

lemma open_ports_split:
  "card (open_ports c st) = card (open_ports c st \<inter> {x. fst x \<noteq> d}) + card (ports_in c (find_ctx st d))"
proof -
  have e: "open_ports c st = (open_ports c st \<inter> {x. fst x \<noteq> d}) \<union> Pair d ` ports_in c (find_ctx st d)"
    by (auto simp: open_ports_def)
  have "card (open_ports c st) = card (open_ports c st \<inter> {x. fst x \<noteq> d}) + card (Pair d ` ports_in c (find_ctx st d))"
    by (subst e, rule card_Un_disjoint) (auto intro: finite_subset [OF _ finite_open_ports])
  then show ?thesis by (simp add: card_image inj_on_def)
qed

lemma tables_inv_change:
  assumes inv: "tables_inv X st"
    and ctxs: "distinct (keys_of (deviceClientContexts st'))" "\<And>d'. find_ctx st' d' = (if d' = d then co else find_ctx st d')"
    and co: "\<And>ctx. co = Some ctx \<Longrightarrow> ctx_ok (sc_clients st) ctx"
    and cs: "sc_clients st' = sc_clients st" "\<And>c. has_key (clientResourceInfo st') c \<longleftrightarrow> has_key (clientResourceInfo st) c"
    and acc: "\<And>c. c \<in> set (sc_clients st) \<Longrightarrow> c \<notin> X \<Longrightarrow>
       distinct (openDevices (resource_of st c)) \<Longrightarrow>
       (d \<in> set (openDevices (resource_of st c)) \<longleftrightarrow> c \<in> members (find_ctx st d)) \<Longrightarrow>
       card (ports_in c (find_ctx st d)) \<le> unat (openPortCount (resource_of st c)) \<Longrightarrow>
       unat (openPortCount (resource_of st c)) \<le> 64 \<Longrightarrow>
       distinct (openDevices (resource_of st' c))
       \<and> set (openDevices (resource_of st' c)) = set (openDevices (resource_of st c)) - {d} \<union> (if c \<in> members co then {d} else {})
       \<and> unat (openPortCount (resource_of st' c)) + card (ports_in c (find_ctx st d))
          = unat (openPortCount (resource_of st c)) + card (ports_in c co)
       \<and> unat (openPortCount (resource_of st' c)) \<le> 64"
  shows "tables_inv X st'"
proof -
  have "account_ok (resource_of st' c) (opened c st') (card (open_ports c st'))" if c: "c \<in> set (sc_clients st)" "c \<notin> X" for c
  proof -
    have a: "distinct (openDevices (resource_of st c))" "set (openDevices (resource_of st c)) = opened c st"
      "unat (openPortCount (resource_of st c)) = card (open_ports c st)" "card (open_ports c st) \<le> 64"
      using inv c by (auto simp: tables_inv_def account_ok_def)
    have s: "card (open_ports c st) = card (open_ports c st \<inter> {x. fst x \<noteq> d}) + card (ports_in c (find_ctx st d))"
      by (rule open_ports_split)
    have e: "open_ports c st' \<inter> {x. fst x \<noteq> d} = open_ports c st \<inter> {x. fst x \<noteq> d}"
      by (auto simp: open_ports_def ctxs(2))
    have s': "card (open_ports c st') = card (open_ports c st \<inter> {x. fst x \<noteq> d}) + card (ports_in c co)"
      using open_ports_split [of c st' d] by (simp add: e ctxs(2))
    have o: "opened c st' = opened c st - {d} \<union> (if c \<in> members co then {d} else {})"
      by (auto simp: opened_def ctxs(2) split: if_splits)
    have "d \<in> set (openDevices (resource_of st c)) \<longleftrightarrow> c \<in> members (find_ctx st d)"
      using a(2) by (simp add: opened_def)
    then show ?thesis using acc [OF c a(1)] a s s' o by (simp add: account_ok_def)
  qed
  then show ?thesis using inv ctxs co cs by (auto simp: tables_inv_def)
qed

section \<open>Reading the tables after an update\<close>

lemma ctl_reads [ctl_simps]:
  "find_ctx (set_ctx d ctx st) d' = (if d' = d then Some ctx else find_ctx st d')"
  "find_ctx (erase_ctx d st) d' = (if d' = d then None else find_ctx st d')"
  "find_ctx (set_resource c r st) d' = find_ctx st d'"
  "find_ctx (st\<lparr>manager := m\<rparr>) d' = find_ctx st d'"
  "find_ctx (st\<lparr>activeBleDevices := a\<rparr>) d' = find_ctx st d'"
  "find_ctx (st\<lparr>pendingBleConnections := q\<rparr>) d' = find_ctx st d'"
  "find_ctx (send ns st) d' = find_ctx st d'"
  "resource_of (set_ctx d ctx st) c' = resource_of st c'"
  "resource_of (erase_ctx d st) c' = resource_of st c'"
  "resource_of (set_resource c r st) c' = (if c' = c then r else resource_of st c')"
  "resource_of (st\<lparr>manager := m\<rparr>) c' = resource_of st c'"
  "resource_of (st\<lparr>activeBleDevices := a\<rparr>) c' = resource_of st c'"
  "resource_of (st\<lparr>pendingBleConnections := q\<rparr>) c' = resource_of st c'"
  "resource_of (send ns st) c' = resource_of st c'"
  "find_key (clientResourceInfo (set_resource c r st)) c' = (if c' = c then Some r else find_key (clientResourceInfo st) c')"
  "clientResourceInfo (set_ctx d ctx st) = clientResourceInfo st" "clientResourceInfo (erase_ctx d st) = clientResourceInfo st"
  "clientResourceInfo (send ns st) = clientResourceInfo st"
  "deviceClientContexts (set_resource c r st) = deviceClientContexts st" "deviceClientContexts (send ns st) = deviceClientContexts st"
  "distinct (keys_of (deviceClientContexts st)) \<Longrightarrow> distinct (keys_of (deviceClientContexts (set_ctx d ctx st)))"
  "distinct (keys_of (deviceClientContexts st)) \<Longrightarrow> distinct (keys_of (deviceClientContexts (erase_ctx d st)))"
  by (simp_all add: find_ctx_def set_ctx_def erase_ctx_def set_resource_def resource_of_def send_def distinct_update distinct_delete)

lemma ctl_fields [ctl_simps]:
  "sc_clients (set_ctx d ctx st) = sc_clients st" "sc_clients (erase_ctx d st) = sc_clients st"
  "sc_clients (set_resource c r st) = sc_clients st" "sc_clients (send ns st) = sc_clients st"
  "appClientMap (set_ctx d ctx st) = appClientMap st" "appClientMap (erase_ctx d st) = appClientMap st"
  "appClientMap (set_resource c r st) = appClientMap st" "appClientMap (send ns st) = appClientMap st"
  "clientCallbackObjects (set_ctx d ctx st) = clientCallbackObjects st" "clientCallbackObjects (erase_ctx d st) = clientCallbackObjects st"
  "clientCallbackObjects (set_resource c r st) = clientCallbackObjects st" "clientCallbackObjects (send ns st) = clientCallbackObjects st"
  "deathRecipients (set_ctx d ctx st) = deathRecipients st" "deathRecipients (erase_ctx d st) = deathRecipients st"
  "deathRecipients (set_resource c r st) = deathRecipients st" "deathRecipients (send ns st) = deathRecipients st"
  "pendingBleConnections (set_ctx d ctx st) = pendingBleConnections st" "pendingBleConnections (erase_ctx d st) = pendingBleConnections st"
  "pendingBleConnections (set_resource c r st) = pendingBleConnections st" "pendingBleConnections (send ns st) = pendingBleConnections st"
  "activeBleDevices (set_ctx d ctx st) = activeBleDevices st" "activeBleDevices (erase_ctx d st) = activeBleDevices st"
  "activeBleDevices (set_resource c r st) = activeBleDevices st" "activeBleDevices (send ns st) = activeBleDevices st"
  "manager (set_ctx d ctx st) = manager st" "manager (erase_ctx d st) = manager st"
  "manager (set_resource c r st) = manager st" "manager (send ns st) = manager st"
  "sent (set_ctx d ctx st) = sent st" "sent (erase_ctx d st) = sent st" "sent (set_resource c r st) = sent st"
  "sent (send ns st) = sent st @ ns"
  by (simp_all add: set_ctx_def erase_ctx_def set_resource_def send_def)

text \<open>Nothing happens to the clients as such.\<close>

definition same_people :: "'d MidiServiceController \<Rightarrow> 'd MidiServiceController \<Rightarrow> bool" where
  "same_people st st' \<longleftrightarrow> sc_clients st' = sc_clients st \<and> appClientMap st' = appClientMap st
     \<and> clientCallbackObjects st' = clientCallbackObjects st \<and> deathRecipients st' = deathRecipients st
     \<and> (\<forall>c. uid (resource_of st' c) = uid (resource_of st c))"

lemma same_people_refl [simp]: "same_people st st"
  by (simp add: same_people_def)

lemma same_people_trans: "same_people a b \<Longrightarrow> same_people b c \<Longrightarrow> same_people a c"
  by (simp add: same_people_def)

lemma app_inv_same:
  assumes "app_inv st" "same_people st st'"
  shows "app_inv st'"
proof -
  have eqs: "sc_clients st' = sc_clients st" "appClientMap st' = appClientMap st"
    "clientCallbackObjects st' = clientCallbackObjects st" "deathRecipients st' = deathRecipients st"
    "\<And>c. uid (resource_of st' c) = uid (resource_of st c)"
    using assms(2) by (simp_all add: same_people_def)
  show ?thesis using assms(1) unfolding app_inv_def eqs .
qed

lemma pending_inv_same:
  "pending_inv st \<Longrightarrow> same_people st st' \<Longrightarrow> pendingBleConnections st' = pendingBleConnections st \<Longrightarrow> pending_inv st'"
  by (simp add: pending_inv_def same_people_def)

lemma tables_inv_cong:
  "tables_inv X st \<Longrightarrow> deviceClientContexts st' = deviceClientContexts st \<Longrightarrow> sc_clients st' = sc_clients st \<Longrightarrow>
   clientResourceInfo st' = clientResourceInfo st \<Longrightarrow> tables_inv X st'"
proof -
  assume a: "tables_inv X st" "deviceClientContexts st' = deviceClientContexts st" "sc_clients st' = sc_clients st"
   "clientResourceInfo st' = clientResourceInfo st"
  have "find_ctx st' = find_ctx st" "resource_of st' = resource_of st" by (simp_all add: fun_eq_iff find_ctx_def resource_of_def a)
  then show ?thesis using a by (simp add: tables_inv_def opened_def open_ports_def)
qed

lemma touch_resource_id: "has_key (clientResourceInfo st) c \<Longrightarrow> touch_resource c st = st"
  by (auto simp: touch_resource_def set_resource_def resource_of_def update_triv)

lemma client_entry: "tables_inv X st \<Longrightarrow> c \<in> set (sc_clients st) \<longleftrightarrow> has_key (clientResourceInfo st) c"
  unfolding tables_inv_def by blast

lemma touch_client: "tables_inv X st \<Longrightarrow> c \<in> set (sc_clients st) \<Longrightarrow> touch_resource c st = st"
  using client_entry touch_resource_id by blast

lemma resource_exists: "tables_inv X st \<Longrightarrow> c \<in> set (sc_clients st) \<Longrightarrow> find_key (clientResourceInfo st) c = Some (resource_of st c)"
  using client_entry [of X st c] by (auto simp: resource_of_def)

section \<open>The elementary changes\<close>

lemma join_device:
  assumes "tables_inv X st" "c \<in> set (sc_clients st)" "ctx_ok (sc_clients st) ctx"
    "set (ctx_clients ctx) = insert c (members (find_ctx st d))" "\<And>c. ctx_ports c ctx = ports_in c (find_ctx st d)"
  shows "tables_inv X (open_for c d (set_ctx d ctx st)) \<and> same_people st (open_for c d (set_ctx d ctx st))"
proof
  show "tables_inv X (open_for c d (set_ctx d ctx st))"
    by (rule tables_inv_change [OF assms(1), where d = d and co = "Some ctx"])
      (use assms in \<open>auto simp: open_for_def Let_def ctl_simps tables_inv_def\<close>)
qed (simp add: same_people_def open_for_def Let_def ctl_simps)

lemma card_insert_port:
  assumes "\<And>c'. ctx_ports c' ctx' = (if c' = c then insert x (ctx_ports c ctx) else ctx_ports c' ctx)" "x \<notin> ctx_ports c ctx"
  shows "card (ctx_ports c' ctx') = (if c' = c then Suc (card (ctx_ports c ctx)) else card (ctx_ports c' ctx))"
  using assms by simp

lemma count_below: "(n :: u32) < 64 \<Longrightarrow> unat (n + 1) = Suc (unat n)"
  by (simp add: unat_word_ariths word_less_nat_alt)

lemma open_port_tables:
  assumes "tables_inv X st" "c \<in> set (sc_clients st)" "find_ctx st d = Some ctx" "openPortCount (resource_of st c) < 64"
    "ctx_ok (sc_clients st) ctx'" "ctx_clients ctx' = ctx_clients ctx" "x \<notin> ctx_ports c ctx"
    "\<And>c'. ctx_ports c' ctx' = (if c' = c then insert x (ctx_ports c ctx) else ctx_ports c' ctx)"
  shows "tables_inv X (set_ctx d ctx' (count_port c st)) \<and> same_people st (set_ctx d ctx' (count_port c st))"
proof
  show "tables_inv X (set_ctx d ctx' (count_port c st))"
    by (rule tables_inv_change [OF assms(1), where d = d and co = "Some ctx'"])
      (use assms count_below [OF assms(4)] card_insert_port [OF assms(8,7)] in
        \<open>auto simp: count_port_def Let_def ctl_simps tables_inv_def word_less_nat_alt\<close>)
qed (simp add: same_people_def count_port_def Let_def ctl_simps)

lemma close_port_tables:
  assumes "tables_inv X st" "c \<in> set (sc_clients st)" "find_ctx st d = Some ctx"
    "ctx_ok (sc_clients st) ctx'" "ctx_clients ctx' = ctx_clients ctx" "x \<in> ctx_ports c ctx"
    "\<And>c'. ctx_ports c' ctx' = (if c' = c then ctx_ports c ctx - {x} else ctx_ports c' ctx)"
  shows "tables_inv X (set_ctx d ctx' (uncount_port c st)) \<and> same_people st (set_ctx d ctx' (uncount_port c st))"
proof
  have pos: "0 < card (ctx_ports c ctx)" using assms(6) by (auto simp: card_gt_0_iff)
  have down: "unat (n - 1) + k = unat n + (k - Suc 0)" if "0 < k" "k \<le> unat n" for k and n :: u32
  proof -
    have "1 \<le> n" using that by (simp add: word_le_nat_alt)
    then have "unat (n - 1) = unat n - 1" by (simp add: unat_sub)
    then show ?thesis using that by simp
  qed
  have le: "unat (n - 1) \<le> 64" if "unat n \<le> 64" "0 < n" for n :: u32
    using that unat_sub [of 1 n] by (simp add: word_le_nat_alt Suc_le_eq unat_gt_0)
  have npos: "\<lbrakk> 0 < k; k \<le> unat n; \<not> 0 < n \<rbrakk> \<Longrightarrow> False" for k and n :: u32
    by (simp add: word_gt_0)
  show "tables_inv X (set_ctx d ctx' (uncount_port c st))"
    by (rule tables_inv_change [OF assms(1), where d = d and co = "Some ctx'"])
      (use assms pos down le in \<open>auto simp: uncount_port_def Let_def ctl_simps tables_inv_def unat_gt_0 dest: npos\<close>)
qed (simp add: same_people_def uncount_port_def Let_def ctl_simps)

end
