(* ===== verification/Service_Operations.thy ===== *)
theory Service_Operations
  imports Service_Tables
begin

text \<open>
  What opening a device, opening and closing ports, and leaving a device do to the tables:
  each operation keeps the invariant and its effect on who has what open is stated exactly.
\<close>

section \<open>Fields the invariant does not see\<close>

lemma tables_inv_fields [ctl_simps]:
  "tables_inv X (st\<lparr>manager := m\<rparr>) = tables_inv X st" "tables_inv X (st\<lparr>activeBleDevices := a\<rparr>) = tables_inv X st"
  "tables_inv X (st\<lparr>pendingBleConnections := q\<rparr>) = tables_inv X st" "tables_inv X (send ns st) = tables_inv X st"
  by (auto simp: send_def elim: tables_inv_cong)

lemma same_people_fields [ctl_simps]:
  "same_people st0 (st\<lparr>manager := m\<rparr>) = same_people st0 st" "same_people st0 (st\<lparr>activeBleDevices := a\<rparr>) = same_people st0 st"
  "same_people st0 (st\<lparr>pendingBleConnections := q\<rparr>) = same_people st0 st" "same_people st0 (send ns st) = same_people st0 st"
  "same_people (st0\<lparr>manager := m\<rparr>) st = same_people st0 st" "same_people (st0\<lparr>activeBleDevices := a\<rparr>) st = same_people st0 st"
  "same_people (st0\<lparr>pendingBleConnections := q\<rparr>) st = same_people st0 st" "same_people (send ns st0) st = same_people st0 st"
  by (simp_all add: same_people_def resource_of_def send_def)

lemma ctx_okD: "tables_inv X st \<Longrightarrow> find_ctx st d = Some ctx \<Longrightarrow> ctx_ok (sc_clients st) ctx"
  by (simp add: tables_inv_def)

lemma fresh_ctx_ok: "c \<in> set cs \<Longrightarrow> ctx_ok cs \<lparr>ctx_deviceId = d, ctx_clients = [c], inputConnections = [], outputConnections = []\<rparr>"
  by (simp add: ctx_ok_def ctx_ports_def)

lemma fresh_ctx_ports [simp]: "ctx_ports c' \<lparr>ctx_deviceId = d, ctx_clients = cs, inputConnections = [], outputConnections = []\<rparr> = {}"
  by (simp add: ctx_ports_def)

lemma ctx_ports_clients [simp]: "ctx_ports c (ctx\<lparr>ctx_clients := cs\<rparr>) = ctx_ports c ctx"
  by (simp add: ctx_ports_def)

section \<open>Opening a device\<close>

lemma add_client_ok: "ctx_ok cs ctx \<Longrightarrow> c \<in> set cs \<Longrightarrow> ctx_ok cs (ctx\<lparr>ctx_clients := set_add c (ctx_clients ctx)\<rparr>)"
  by (auto simp: ctx_ok_def set_add_def)

lemma OpenDevice_tables:
  assumes "tables_inv X st" "OpenDevice drv env c d st = (ret, st')"
  shows "tables_inv X st' \<and> same_people st st' \<and> pendingBleConnections st' = pendingBleConnections st"
proof (cases "c \<in> set (sc_clients st)")
  case True
  note t = touch_client [OF assms(1) True]
  show ?thesis
  proof (cases "find_ctx st d")
    case None
    obtain r m where M: "Manager_OpenDevice drv d (manager st) = (r, m)" by fastforce
    let ?ctx = "\<lparr>ctx_deviceId = d, ctx_clients = [c], inputConnections = [], outputConnections = []\<rparr>"
    have "tables_inv X (open_for c d (set_ctx d ?ctx (st\<lparr>manager := m\<rparr>))) \<and> same_people (st\<lparr>manager := m\<rparr>) (open_for c d (set_ctx d ?ctx (st\<lparr>manager := m\<rparr>)))"
      by (rule join_device) (use assms(1) True None in \<open>simp_all add: ctl_simps fresh_ctx_ok\<close>)
    then show ?thesis using assms True None M t
      by (auto simp: OpenDevice_def ctl_simps open_for_def Let_def split: if_splits)
  next
    case (Some ctx)
    have "tables_inv X (open_for c d (set_ctx d (ctx\<lparr>ctx_clients := set_add c (ctx_clients ctx)\<rparr>) st))
       \<and> same_people st (open_for c d (set_ctx d (ctx\<lparr>ctx_clients := set_add c (ctx_clients ctx)\<rparr>) st))"
      by (rule join_device) (use assms(1) True Some in \<open>auto simp: add_client_ok ctx_okD\<close>)
    then show ?thesis using assms True Some t
      by (auto simp: OpenDevice_def ctl_simps open_for_def Let_def split: if_splits)
  qed
qed (use assms in \<open>auto simp: OpenDevice_def\<close>)

section \<open>Opening ports\<close>

lemma in_ports_iff: "(INPUT, p) \<in> ctx_ports c ctx \<longleftrightarrow> (c, p) \<in> in_users ctx"
  "(OUTPUT, p) \<in> ctx_ports c ctx \<longleftrightarrow> (c, p) \<in> out_users ctx"
  by (auto simp: ctx_ports_def)

lemma in_users_None: "find_key (inputConnections ctx) p = None \<Longrightarrow> (c, p) \<notin> in_users ctx"
  "find_key (outputConnections ctx) p = None \<Longrightarrow> (c, p) \<notin> out_users ctx"
  by (simp_all add: users_of_def)

lemma in_users_Some: "find_key (inputConnections ctx) p = Some conn \<Longrightarrow> (c, p) \<in> in_users ctx \<longleftrightarrow> HasClientConnection c conn"
  "find_key (outputConnections ctx) p = Some oconn \<Longrightarrow> (c, p) \<in> out_users ctx \<longleftrightarrow> HasClientConnection c oconn"
  by (simp_all add: users_of_def)

text \<open>A client that has the device open gets a port of it: the device's context after that.\<close>

lemma ctx_input:
  assumes "ctx_ok cs ctx" "distinct (keys_of m)" "all_used HasClientConnection m"
    "users_of HasClientConnection m = insert (c, p) (in_users ctx)" "c \<in> set (ctx_clients ctx)"
  shows "ctx_ok cs (ctx\<lparr>inputConnections := m\<rparr>)"
    "ctx_ports c' (ctx\<lparr>inputConnections := m\<rparr>) = (if c' = c then insert (INPUT, p) (ctx_ports c ctx) else ctx_ports c' ctx)"
proof -
  show 1: "ctx_ports c' (ctx\<lparr>inputConnections := m\<rparr>) = (if c' = c then insert (INPUT, p) (ctx_ports c ctx) else ctx_ports c' ctx)" for c'
    using assms(4) by (auto simp: ctx_ports_def)
  show "ctx_ok cs (ctx\<lparr>inputConnections := m\<rparr>)" using assms(1,2,3,5) by (simp add: ctx_ok_def 1)
qed

lemma ctx_output:
  assumes "ctx_ok cs ctx" "distinct (keys_of m)" "all_used HasClientConnection m"
    "users_of HasClientConnection m = insert (c, p) (out_users ctx)" "c \<in> set (ctx_clients ctx)"
  shows "ctx_ok cs (ctx\<lparr>outputConnections := m\<rparr>)"
    "ctx_ports c' (ctx\<lparr>outputConnections := m\<rparr>) = (if c' = c then insert (OUTPUT, p) (ctx_ports c ctx) else ctx_ports c' ctx)"
proof -
  show 1: "ctx_ports c' (ctx\<lparr>outputConnections := m\<rparr>) = (if c' = c then insert (OUTPUT, p) (ctx_ports c ctx) else ctx_ports c' ctx)" for c'
    using assms(4) by (auto simp: ctx_ports_def)
  show "ctx_ok cs (ctx\<lparr>outputConnections := m\<rparr>)" using assms(1,2,3,5) by (simp add: ctx_ok_def 1)
qed

lemma count_port_set_ctx: "count_port c (set_ctx d ctx st) = set_ctx d ctx (count_port c st)"
  by (simp add: count_port_def Let_def ctl_simps) (simp add: set_ctx_def set_resource_def)

lemma set_ctx_same: "find_ctx st d = Some ctx \<Longrightarrow> set_ctx d ctx st = st"
  by (simp add: set_ctx_def find_ctx_def update_triv)

definition port_effect ::
  "u32 \<Rightarrow> int \<Rightarrow> MidiPortDirection \<times> u32 \<Rightarrow> 'd MidiServiceController \<Rightarrow> 'd MidiServiceController \<Rightarrow> bool" where
  "port_effect c d x st st' \<longleftrightarrow> (\<forall>d'. members (find_ctx st' d') = members (find_ctx st d'))
     \<and> (\<forall>c' d'. ports_in c' (find_ctx st' d') = (if c' = c \<and> d' = d then insert x (ports_in c' (find_ctx st d')) else ports_in c' (find_ctx st d')))"

lemma PortGuard_cases:
  assumes "PortGuard env c d st = (ret, co, st1)" "tables_inv X st"
  shows "st1 = st \<and> (case co of None \<Rightarrow> ret \<noteq> OH_MIDI_STATUS_OK
     | Some ctx \<Rightarrow> ret = OH_MIDI_STATUS_OK \<and> c \<in> set (sc_clients st) \<and> find_ctx st d = Some ctx \<and> c \<in> set (ctx_clients ctx)
         \<and> openPortCount (resource_of st c) < 64)"
proof (cases "c \<in> set (sc_clients st)")
  case True
  then show ?thesis using assms touch_client [OF assms(2) True]
    by (cases "find_ctx st d")
      (auto simp: PortGuard_def MAX_PORTS_PER_CLIENT_def status_defs Let_def not_le split: option.splits if_splits dest: sym [of "Some _"])
qed (use assms in \<open>auto simp: PortGuard_def status_defs\<close>)

lemma Manager_OpenInputPort_empty:
  "Manager_OpenInputPort drv d p m = (OH_MIDI_STATUS_OK, conn, m') \<Longrightarrow> IsEmptyClientConnections (the conn)"
  by (auto simp: Manager_OpenInputPort_def status_defs Let_def IsEmptyClientConnections_def new_DeviceConnection_def split: option.splits prod.splits)

lemma Manager_OpenOutputPort_empty:
  "Manager_OpenOutputPort drv d p m = (OH_MIDI_STATUS_OK, conn, m') \<Longrightarrow> IsEmptyClientConnections (the conn)"
  by (auto simp: Manager_OpenOutputPort_def status_defs Let_def IsEmptyClientConnections_def new_DeviceConnection_def
     new_DeviceConnectionForOutput_def DeviceConnection.defs split: option.splits prod.splits)

lemma Start_clients: "Start os dc = (ret, dc') \<Longrightarrow> clients dc' = clients dc"
  by (auto simp: Start_def InitEpollAndFds_def Let_def split: if_splits)

definition port_outcome ::
  "u32 set \<Rightarrow> u32 \<Rightarrow> int \<Rightarrow> MidiPortDirection \<times> u32 \<Rightarrow> int \<Rightarrow> 'd MidiServiceController \<Rightarrow> 'd MidiServiceController \<Rightarrow> bool" where
  "port_outcome X c d x ret st st' \<longleftrightarrow> tables_inv X st' \<and> same_people st st' \<and> pendingBleConnections st' = pendingBleConnections st
     \<and> (if ret = OH_MIDI_STATUS_OK then port_effect c d x st st' \<and> x \<notin> ports_in c (find_ctx st d)
        else \<forall>d'. find_ctx st' d' = find_ctx st d')"

lemma port_opened:
  assumes "tables_inv X st" "c \<in> set (sc_clients st)" "find_ctx st d = Some ctx" "openPortCount (resource_of st c) < 64"
    "ctx_ok (sc_clients st) ctx'" "ctx_clients ctx' = ctx_clients ctx" "x \<notin> ctx_ports c ctx"
    "\<And>c'. ctx_ports c' ctx' = (if c' = c then insert x (ctx_ports c ctx) else ctx_ports c' ctx)"
    "st' = set_ctx d ctx' (count_port c (st\<lparr>manager := mg\<rparr>))" "ret = OH_MIDI_STATUS_OK"
  shows "port_outcome X c d x ret st st'"
proof -
  have "tables_inv X st' \<and> same_people (st\<lparr>manager := mg\<rparr>) st'"
    unfolding assms(9) by (rule open_port_tables [where ctx = ctx and x = x]) (use assms in \<open>simp_all add: ctl_simps\<close>)
  then show ?thesis using assms(3,6,7,8,9,10)
    by (auto simp: port_outcome_def port_effect_def ctl_simps count_port_def Let_def)
qed

lemma inp_connected:
  assumes "tables_inv X st" "c \<in> set (sc_clients st)" "find_ctx st d = Some ctx" "c \<in> set (ctx_clients ctx)"
    "openPortCount (resource_of st c) < 64"
    "users_of HasClientConnection m = insert (c, p) (in_users ctx)" "(c, p) \<notin> in_users ctx"
    "distinct (keys_of m)" "all_used HasClientConnection m"
    "st' = set_ctx d (ctx\<lparr>inputConnections := m\<rparr>) (count_port c (st\<lparr>manager := mg\<rparr>))" "ret = OH_MIDI_STATUS_OK"
  shows "port_outcome X c d (INPUT, p) ret st st'"
  by (rule port_opened [OF assms(1-3,5)])
    (use assms ctx_input [OF ctx_okD [OF assms(1,3)] assms(8,9,6,4)] in \<open>simp_all add: in_ports_iff\<close>)

lemma outp_connected:
  assumes "tables_inv X st" "c \<in> set (sc_clients st)" "find_ctx st d = Some ctx" "c \<in> set (ctx_clients ctx)"
    "openPortCount (resource_of st c) < 64"
    "users_of HasClientConnection m = insert (c, p) (out_users ctx)" "(c, p) \<notin> out_users ctx"
    "distinct (keys_of m)" "all_used HasClientConnection m"
    "st' = set_ctx d (ctx\<lparr>outputConnections := m\<rparr>) (count_port c (st\<lparr>manager := mg\<rparr>))" "ret = OH_MIDI_STATUS_OK"
  shows "port_outcome X c d (OUTPUT, p) ret st st'"
  by (rule port_opened [OF assms(1-3,5)])
    (use assms ctx_output [OF ctx_okD [OF assms(1,3)] assms(8,9,6,4)] in \<open>simp_all add: in_ports_iff\<close>)

lemma CreateInput_spec:
  assumes "tables_inv X st" "c \<in> set (sc_clients st)" "find_ctx st d = Some ctx" "c \<in> set (ctx_clients ctx)"
    "openPortCount (resource_of st c) < 64" "find_key (inputConnections ctx) p = None"
    "CreateNewInputPortConnection drv env c d p ctx st = (ret, st')"
  shows "port_outcome X c d (INPUT, p) ret st st'"
proof -
  obtain r conn m where M: "Manager_OpenInputPort drv d p (manager st) = (r, conn, m)" using prod_cases3 by blast
  obtain r2 conn2 where A: "AddClientConnection (env_map env) c d (the conn) = (r2, conn2)" by fastforce
  show ?thesis
  proof (cases "r = OH_MIDI_STATUS_OK \<and> r2 = OH_MIDI_STATUS_OK")
    case True
    then have A': "AddClientConnection (env_map env) c d (the conn) = (OH_MIDI_STATUS_OK, conn2)" using A by simp
    have e: "IsEmptyClientConnections (the conn)" using Manager_OpenInputPort_empty M True  by blast
    show ?thesis
    proof (rule inp_connected [OF assms(1-5)])
      show "users_of HasClientConnection (AList.update p conn2 (inputConnections ctx)) = insert (c, p) (in_users ctx)"
        by (rule inp.users_add_new [OF assms(6) A' e])
      show "all_used HasClientConnection (AList.update p conn2 (inputConnections ctx))"
        by (rule inp.all_used_add [OF A']) (use ctx_okD [OF assms(1,3)] in \<open>simp add: ctx_ok_def\<close>)
      show "st' = set_ctx d (ctx\<lparr>inputConnections := AList.update p conn2 (inputConnections ctx)\<rparr>) (count_port c (st\<lparr>manager := m\<rparr>))"
        "ret = OH_MIDI_STATUS_OK"
        using assms(7) True M A  by (simp_all add: CreateNewInputPortConnection_def Let_def)
    qed (use assms(6) ctx_okD [OF assms(1,3)] in \<open>simp_all add: in_users_None distinct_update ctx_ok_def\<close>)
  next
    case False
    then show ?thesis using assms(1,7) M A 
      by (auto simp: CreateNewInputPortConnection_def port_outcome_def ctl_simps Let_def split: if_splits)
  qed
qed

lemma ConnectInput_spec:
  assumes "tables_inv X st" "c \<in> set (sc_clients st)" "find_ctx st d = Some ctx" "c \<in> set (ctx_clients ctx)"
    "openPortCount (resource_of st c) < 64" "find_key (inputConnections ctx) p = Some conn"
    "ConnectToExistingInputPort env c d p ctx conn st = (ret, st')"
  shows "port_outcome X c d (INPUT, p) ret st st'"
proof -
  obtain r conn2 where A: "AddClientConnection (env_map env) c d conn = (r, conn2)" by fastforce
  show ?thesis
  proof (cases "\<not> HasClientConnection c conn \<and> r = OH_MIDI_STATUS_OK")
    case True
    then have A': "AddClientConnection (env_map env) c d conn = (OH_MIDI_STATUS_OK, conn2)" using A by simp
    show ?thesis
    proof (rule inp_connected [OF assms(1-5)])
      show "users_of HasClientConnection (AList.update p conn2 (inputConnections ctx)) = insert (c, p) (in_users ctx)"
        by (rule inp.users_add [OF assms(6) A'])
      show "all_used HasClientConnection (AList.update p conn2 (inputConnections ctx))"
        by (rule inp.all_used_add [OF A']) (use ctx_okD [OF assms(1,3)] in \<open>simp add: ctx_ok_def\<close>)
      show "st' = set_ctx d (ctx\<lparr>inputConnections := AList.update p conn2 (inputConnections ctx)\<rparr>) (count_port c (st\<lparr>manager := manager st\<rparr>))"
        "ret = OH_MIDI_STATUS_OK"
        using linorder_not_le [THEN iffD2, OF assms(5)] assms(7) True A by (simp_all add: ConnectToExistingInputPort_def MAX_PORTS_PER_CLIENT_def count_port_set_ctx)
    qed (use assms(6) True ctx_okD [OF assms(1,3)] in \<open>simp_all add: in_users_Some distinct_update ctx_ok_def\<close>)
  next
    case False
    then have "HasClientConnection c conn \<or> conn2 = conn \<and> r \<noteq> OH_MIDI_STATUS_OK" using inp.add_fail [OF A] by blast
    then have "st' = st \<and> ret \<noteq> OH_MIDI_STATUS_OK"
      using assms(3,6,7) linorder_not_le [THEN iffD2, OF assms(5)] A
      by (auto simp: ConnectToExistingInputPort_def MAX_PORTS_PER_CLIENT_def update_triv set_ctx_same status_defs split: if_splits)
    then show ?thesis using assms(1) by (simp add: port_outcome_def)
  qed
qed

lemma OpenInputPort_spec:
  assumes "tables_inv X st" "OpenInputPort drv env c d p st = (ret, st')"
  shows "port_outcome X c d (INPUT, p) ret st st'"
proof -
  obtain g co st1 where G: "PortGuard env c d st = (g, co, st1)" using prod_cases3 by blast
  note gc = PortGuard_cases [OF G assms(1)]
  show ?thesis
  proof (cases co)
    case None
    then show ?thesis using assms G gc by (auto simp: OpenInputPort_def port_outcome_def)
  next
    case (Some ctx)
    then show ?thesis
      using assms G gc CreateInput_spec [OF assms(1), of c d ctx] ConnectInput_spec [OF assms(1), of c d ctx]
      by (cases "find_key (inputConnections ctx) p") (simp_all add: OpenInputPort_def)
  qed
qed

lemma CreateOutput_spec:
  assumes "tables_inv X st" "c \<in> set (sc_clients st)" "find_ctx st d = Some ctx" "c \<in> set (ctx_clients ctx)"
    "openPortCount (resource_of st c) < 64" "find_key (outputConnections ctx) p = None"
    "CreateNewOutputPortConnection drv env c d p ctx st = (ret, st')"
  shows "port_outcome X c d (OUTPUT, p) ret st st'"
proof -
  obtain r conn m where M: "Manager_OpenOutputPort drv d p (manager st) = (r, conn, m)" using prod_cases3 by blast
  obtain r1 conn1 where S: "Start (env_setup env) (the conn) = (r1, conn1)" by fastforce
  obtain r2 conn2 where A: "AddClientConnectionForOutput (env_map env) (env_dup env) c d conn1 = (r2, conn2)" by fastforce
  show ?thesis
  proof (cases "r = OH_MIDI_STATUS_OK \<and> r1 = OH_MIDI_STATUS_OK \<and> r2 = OH_MIDI_STATUS_OK")
    case True
    then have A': "AddClientConnectionForOutput (env_map env) (env_dup env) c d conn1 = (OH_MIDI_STATUS_OK, conn2)" using A by simp
    have e: "IsEmptyClientConnections conn1" using Manager_OpenOutputPort_empty M True Start_clients [OF S] by (fastforce simp: IsEmptyClientConnections_def)
    show ?thesis
    proof (rule outp_connected [OF assms(1-5)])
      show "users_of HasClientConnection (AList.update p conn2 (outputConnections ctx)) = insert (c, p) (out_users ctx)"
        by (rule outp.users_add_new [OF assms(6) A' e])
      show "all_used HasClientConnection (AList.update p conn2 (outputConnections ctx))"
        by (rule outp.all_used_add [OF A']) (use ctx_okD [OF assms(1,3)] in \<open>simp add: ctx_ok_def\<close>)
      show "st' = set_ctx d (ctx\<lparr>outputConnections := AList.update p conn2 (outputConnections ctx)\<rparr>) (count_port c (st\<lparr>manager := m\<rparr>))"
        "ret = OH_MIDI_STATUS_OK"
        using assms(7) True M A S by (simp_all add: CreateNewOutputPortConnection_def Let_def)
    qed (use assms(6) ctx_okD [OF assms(1,3)] in \<open>simp_all add: in_users_None distinct_update ctx_ok_def\<close>)
  next
    case False
    then show ?thesis using assms(1,7) M A S
      by (auto simp: CreateNewOutputPortConnection_def port_outcome_def ctl_simps Let_def split: if_splits)
  qed
qed

lemma ConnectOutput_spec:
  assumes "tables_inv X st" "c \<in> set (sc_clients st)" "find_ctx st d = Some ctx" "c \<in> set (ctx_clients ctx)"
    "openPortCount (resource_of st c) < 64" "find_key (outputConnections ctx) p = Some conn"
    "ConnectToExistingOutputPort env c d p ctx conn st = (ret, st')"
  shows "port_outcome X c d (OUTPUT, p) ret st st'"
proof -
  obtain r conn2 where A: "AddClientConnectionForOutput (env_map env) (env_dup env) c d conn = (r, conn2)" by fastforce
  show ?thesis
  proof (cases "\<not> HasClientConnection c conn \<and> r = OH_MIDI_STATUS_OK")
    case True
    then have A': "AddClientConnectionForOutput (env_map env) (env_dup env) c d conn = (OH_MIDI_STATUS_OK, conn2)" using A by simp
    show ?thesis
    proof (rule outp_connected [OF assms(1-5)])
      show "users_of HasClientConnection (AList.update p conn2 (outputConnections ctx)) = insert (c, p) (out_users ctx)"
        by (rule outp.users_add [OF assms(6) A'])
      show "all_used HasClientConnection (AList.update p conn2 (outputConnections ctx))"
        by (rule outp.all_used_add [OF A']) (use ctx_okD [OF assms(1,3)] in \<open>simp add: ctx_ok_def\<close>)
      show "st' = set_ctx d (ctx\<lparr>outputConnections := AList.update p conn2 (outputConnections ctx)\<rparr>) (count_port c (st\<lparr>manager := manager st\<rparr>))"
        "ret = OH_MIDI_STATUS_OK"
        using linorder_not_le [THEN iffD2, OF assms(5)] assms(7) True A by (simp_all add: ConnectToExistingOutputPort_def MAX_PORTS_PER_CLIENT_def count_port_set_ctx)
    qed (use assms(6) True ctx_okD [OF assms(1,3)] in \<open>simp_all add: in_users_Some distinct_update ctx_ok_def\<close>)
  next
    case False
    then have "HasClientConnection c conn \<or> conn2 = conn \<and> r \<noteq> OH_MIDI_STATUS_OK" using outp.add_fail [OF A] by blast
    then have "st' = st \<and> ret \<noteq> OH_MIDI_STATUS_OK"
      using assms(3,6,7) linorder_not_le [THEN iffD2, OF assms(5)] A
      by (auto simp: ConnectToExistingOutputPort_def MAX_PORTS_PER_CLIENT_def update_triv set_ctx_same status_defs split: if_splits)
    then show ?thesis using assms(1) by (simp add: port_outcome_def)
  qed
qed

lemma OpenOutputPort_spec:
  assumes "tables_inv X st" "OpenOutputPort drv env c d p st = (ret, st')"
  shows "port_outcome X c d (OUTPUT, p) ret st st'"
proof -
  obtain g co st1 where G: "PortGuard env c d st = (g, co, st1)" using prod_cases3 by blast
  note gc = PortGuard_cases [OF G assms(1)]
  show ?thesis
  proof (cases co)
    case None
    then show ?thesis using assms G gc by (auto simp: OpenOutputPort_def port_outcome_def)
  next
    case (Some ctx)
    then show ?thesis
      using assms G gc CreateOutput_spec [OF assms(1), of c d ctx] ConnectOutput_spec [OF assms(1), of c d ctx]
      by (cases "find_key (outputConnections ctx) p") (simp_all add: OpenOutputPort_def)
  qed
qed

section \<open>Closing ports\<close>

definition close_outcome ::
  "u32 set \<Rightarrow> u32 \<Rightarrow> int \<Rightarrow> (MidiPortDirection \<times> u32) set \<Rightarrow> 'd MidiServiceController \<Rightarrow> 'd MidiServiceController \<Rightarrow> bool" where
  "close_outcome X c d S st st' \<longleftrightarrow> tables_inv X st' \<and> same_people st st' \<and> pendingBleConnections st' = pendingBleConnections st
     \<and> activeBleDevices st' = activeBleDevices st \<and> sent st' = sent st
     \<and> (\<forall>d'. members (find_ctx st' d') = members (find_ctx st d'))
     \<and> (\<forall>c' d'. ports_in c' (find_ctx st' d') = (if c' = c \<and> d' = d then ports_in c (find_ctx st d) - S else ports_in c' (find_ctx st d')))"

lemma close_outcome_refl: "tables_inv X st \<Longrightarrow> S \<inter> ports_in c (find_ctx st d) = {} \<Longrightarrow> close_outcome X c d S st st"
  by (auto simp: close_outcome_def)

lemma close_outcome_trans:
  "close_outcome X c d S a b \<Longrightarrow> close_outcome X c d T b e \<Longrightarrow> close_outcome X c d (S \<union> T) a e"
  by (auto simp: close_outcome_def intro: same_people_trans)

lemma ctx_less: "ctx_ok cs ctx \<Longrightarrow> c \<in> set (ctx_clients ctx) \<Longrightarrow> c \<in> set cs"
  by (auto simp: ctx_ok_def)

lemma port_closed:
  assumes "tables_inv X st" "find_ctx st d = Some ctx" "c \<in> set (ctx_clients ctx)" "x \<in> ctx_ports c ctx"
    "ctx_ok (sc_clients st) ctx'" "ctx_clients ctx' = ctx_clients ctx"
    "\<And>c'. ctx_ports c' ctx' = (if c' = c then ctx_ports c ctx - {x} else ctx_ports c' ctx)"
  shows "close_outcome X c d {x} st (set_ctx d ctx' ((uncount_port c st)\<lparr>manager := mg\<rparr>))"
proof -
  have "c \<in> set (sc_clients st)" using ctx_less [OF ctx_okD [OF assms(1,2)] assms(3)] .
  from close_port_tables [OF assms(1) this assms(2,5,6,4,7)]
  have t: "tables_inv X (set_ctx d ctx' (uncount_port c st))" "same_people st (set_ctx d ctx' (uncount_port c st))" by simp_all
  have e: "set_ctx d ctx' ((uncount_port c st)\<lparr>manager := mg\<rparr>) = (set_ctx d ctx' (uncount_port c st))\<lparr>manager := mg\<rparr>"
    by (simp add: set_ctx_def)
  show ?thesis unfolding e using t assms(2,6,7)
    by (auto simp: close_outcome_def ctl_simps uncount_port_def Let_def)
qed

lemma CloseInputPortInner_spec:
  assumes "tables_inv X st"
  shows "close_outcome X c d {(INPUT, p)} st (snd (CloseInputPortInner drv c d p st))"
proof (cases "(INPUT, p) \<in> ports_in c (find_ctx st d)")
  case False
  have "snd (CloseInputPortInner drv c d p st) = st"
  proof (cases "find_ctx st d")
    case None
    then show ?thesis by (simp add: CloseInputPortInner_def)
  next
    case (Some ctx)
    then have "(c, p) \<notin> in_users ctx" using False by (simp add: in_ports_iff)
    then show ?thesis using Some in_users_Some(1) [of ctx p _ c]
      by (cases "find_key (inputConnections ctx) p") (simp_all add: CloseInputPortInner_def)
  qed
  then show ?thesis using assms False by (simp add: close_outcome_refl)
next
  case True
  then obtain ctx where ctx: "find_ctx st d = Some ctx" "(INPUT, p) \<in> ctx_ports c ctx"
    by (cases "find_ctx st d") auto
  note ok = ctx_okD [OF assms ctx(1)]
  obtain conn where conn: "find_key (inputConnections ctx) p = Some conn" "HasClientConnection c conn"
    using ctx(2) by (auto simp: in_ports_iff users_of_def)
  have c: "c \<in> set (ctx_clients ctx)" using ok ctx(2) by (auto simp: ctx_ok_def)
  define m where "m = (if IsEmptyClientConnections (RemoveClientConnection c conn) then AList.delete p (inputConnections ctx)
      else AList.update p (RemoveClientConnection c conn) (inputConnections ctx))"
  have m: "users_of HasClientConnection m = in_users ctx - {(c, p)}" "all_used HasClientConnection m" "distinct (keys_of m)"
    using inp.users_remove [OF conn(1)] inp.all_used_remove ok
    by (simp_all add: m_def ctx_ok_def distinct_update distinct_delete)
  obtain mg where E: "snd (CloseInputPortInner drv c d p st) = set_ctx d (ctx\<lparr>inputConnections := m\<rparr>) ((uncount_port c st)\<lparr>manager := mg\<rparr>)"
  proof (cases "IsEmptyClientConnections (RemoveClientConnection c conn)")
    case True
    show thesis
      by (rule that [of "snd (Manager_CloseInputPort drv d p (manager (uncount_port c st)))"])
        (use ctx c conn True in \<open>simp add: CloseInputPortInner_def m_def Let_def split_beta\<close>)
  next
    case False
    show thesis
      by (rule that [of "manager (uncount_port c st)"]) (use ctx c conn False in \<open>simp add: CloseInputPortInner_def m_def Let_def\<close>)
  qed
  show ?thesis unfolding E
    by (rule port_closed [OF assms ctx(1) c ctx(2)])
      (use ok m ctx_less [OF ok] in \<open>auto simp: ctx_ok_def ctx_ports_def\<close>)
qed

lemma CloseOutputPortInner_spec:
  assumes "tables_inv X st"
  shows "close_outcome X c d {(OUTPUT, p)} st (snd (CloseOutputPortInner drv c d p st))"
proof (cases "(OUTPUT, p) \<in> ports_in c (find_ctx st d)")
  case False
  have "snd (CloseOutputPortInner drv c d p st) = st"
  proof (cases "find_ctx st d")
    case None
    then show ?thesis by (simp add: CloseOutputPortInner_def)
  next
    case (Some ctx)
    then have "(c, p) \<notin> out_users ctx" using False by (simp add: in_ports_iff)
    then show ?thesis using Some in_users_Some(2) [of ctx p _ c]
      by (cases "find_key (outputConnections ctx) p") (simp_all add: CloseOutputPortInner_def)
  qed
  then show ?thesis using assms False by (simp add: close_outcome_refl)
next
  case True
  then obtain ctx where ctx: "find_ctx st d = Some ctx" "(OUTPUT, p) \<in> ctx_ports c ctx"
    by (cases "find_ctx st d") auto
  note ok = ctx_okD [OF assms ctx(1)]
  obtain conn where conn: "find_key (outputConnections ctx) p = Some conn" "HasClientConnection c conn"
    using ctx(2) by (auto simp: in_ports_iff users_of_def)
  have c: "c \<in> set (ctx_clients ctx)" using ok ctx(2) by (auto simp: ctx_ok_def)
  define m where "m = (if IsEmptyClientConnections (RemoveClientConnection c conn) then AList.delete p (outputConnections ctx)
      else AList.update p (RemoveClientConnection c conn) (outputConnections ctx))"
  have m: "users_of HasClientConnection m = out_users ctx - {(c, p)}" "all_used HasClientConnection m" "distinct (keys_of m)"
    using outp.users_remove [OF conn(1)] outp.all_used_remove ok
    by (simp_all add: m_def ctx_ok_def distinct_update distinct_delete)
  obtain mg where E: "snd (CloseOutputPortInner drv c d p st) = set_ctx d (ctx\<lparr>outputConnections := m\<rparr>) ((uncount_port c st)\<lparr>manager := mg\<rparr>)"
  proof (cases "IsEmptyClientConnections (RemoveClientConnection c conn)")
    case True
    show thesis
      by (rule that [of "snd (Manager_CloseOutputPort drv d p (manager (uncount_port c st)))"])
        (use ctx c conn True in \<open>simp add: CloseOutputPortInner_def m_def Let_def split_beta\<close>)
  next
    case False
    show thesis
      by (rule that [of "manager (uncount_port c st)"]) (use ctx c conn False in \<open>simp add: CloseOutputPortInner_def m_def Let_def\<close>)
  qed
  show ?thesis unfolding E
    by (rule port_closed [OF assms ctx(1) c ctx(2)])
      (use ok m ctx_less [OF ok] in \<open>auto simp: ctx_ok_def ctx_ports_def\<close>)
qed

lemma close_many:
  assumes "\<And>p st. tables_inv X st \<Longrightarrow> close_outcome X c d {f p} st (close p st)" "tables_inv X st"
  shows "close_outcome X c d (f ` set ps) st (fold close ps st)"
  using assms(2)
proof (induction ps arbitrary: st)
  case Nil
  then show ?case by (simp add: close_outcome_refl)
next
  case (Cons p ps)
  have 1: "close_outcome X c d {f p} st (close p st)" using assms(1) Cons.prems .
  then have "tables_inv X (close p st)" by (simp add: close_outcome_def)
  from close_outcome_trans [OF 1 Cons.IH [OF this]] show ?case by simp
qed

lemma ClosePortforDevice_spec:
  assumes "tables_inv X st" "find_ctx st d = Some ctx"
  shows "close_outcome X c d UNIV st (ClosePortforDevice drv c d ctx st)"
proof -
  let ?st1 = "fold (\<lambda>p st. snd (CloseInputPortInner drv c d p st)) (keys_of (inputConnections ctx)) st"
  have 1: "close_outcome X c d (Pair INPUT ` set (keys_of (inputConnections ctx))) st ?st1"
    using close_many [where f = "Pair INPUT", OF CloseInputPortInner_spec assms(1)] .
  then have "tables_inv X ?st1" by (simp add: close_outcome_def)
  have 2: "close_outcome X c d (Pair OUTPUT ` set (keys_of (outputConnections ctx))) ?st1
      (fold (\<lambda>p st. snd (CloseOutputPortInner drv c d p st)) (keys_of (outputConnections ctx)) ?st1)"
    using close_many [where f = "Pair OUTPUT", OF CloseOutputPortInner_spec \<open>tables_inv X ?st1\<close>] .
  from close_outcome_trans [OF 1 2]
  have C: "close_outcome X c d (Pair INPUT ` set (keys_of (inputConnections ctx)) \<union> Pair OUTPUT ` set (keys_of (outputConnections ctx)))
      st (ClosePortforDevice drv c d ctx st)"
    by (simp add: ClosePortforDevice_def)
  have "ctx_ports c ctx \<subseteq> Pair INPUT ` set (keys_of (inputConnections ctx)) \<union> Pair OUTPUT ` set (keys_of (outputConnections ctx))"
    by (force simp: ctx_ports_def users_of_def dest: map_of_SomeD)
  then show ?thesis using C assms(2) by (simp add: close_outcome_def Diff_eq_empty_iff [THEN iffD2])
qed

section \<open>Leaving a device\<close>

definition left_ctx :: "u32 \<Rightarrow> DeviceClientContext \<Rightarrow> DeviceClientContext option" where
  "left_ctx c ctx = (if set_remove c (ctx_clients ctx) = [] then None else Some (ctx\<lparr>ctx_clients := set_remove c (ctx_clients ctx)\<rparr>))"

lemma LeaveDevice_Some:
  "find_ctx st d = Some ctx \<Longrightarrow> LeaveDevice c d st =
     (case left_ctx c ctx of None \<Rightarrow> RemoveFromActiveBleDevices d (erase_ctx d st) | Some ctx' \<Rightarrow> set_ctx d ctx' st)"
  by (simp add: LeaveDevice_def left_ctx_def Let_def)

lemma RemoveFromActive_simps [ctl_simps]:
  "find_ctx (RemoveFromActiveBleDevices d st) d' = find_ctx st d'" "resource_of (RemoveFromActiveBleDevices d st) c = resource_of st c"
  "sc_clients (RemoveFromActiveBleDevices d st) = sc_clients st" "clientResourceInfo (RemoveFromActiveBleDevices d st) = clientResourceInfo st"
  "deviceClientContexts (RemoveFromActiveBleDevices d st) = deviceClientContexts st"
  "pendingBleConnections (RemoveFromActiveBleDevices d st) = pendingBleConnections st"
  "tables_inv X (RemoveFromActiveBleDevices d st) = tables_inv X st"
  "same_people st0 (RemoveFromActiveBleDevices d st) = same_people st0 st"
  "manager (RemoveFromActiveBleDevices d st) = manager st" "sent (RemoveFromActiveBleDevices d st) = sent st"
  "same_people st0 (set_ctx d ctx st) = same_people st0 st" "same_people st0 (erase_ctx d st) = same_people st0 st"
  by (simp_all add: RemoveFromActiveBleDevices_def ctl_simps same_people_def)

lemma left_ctx_ports:
  assumes "ctx_ok cs ctx" "ctx_ports c ctx = {}"
  shows "ports_in c' (left_ctx c ctx) = ctx_ports c' ctx" "members (left_ctx c ctx) = set (ctx_clients ctx) - {c}"
    "left_ctx c ctx = Some ctx' \<Longrightarrow> ctx_ok cs ctx'"
proof -
  have "ctx_ports c' ctx = {}" if "set_remove c (ctx_clients ctx) = []"
  proof -
    have "set (ctx_clients ctx) - {c} = {}" using arg_cong [OF that, of set] by simp
    then show ?thesis using assms by (cases "c' = c") (auto simp: ctx_ok_def)
  qed
  then show "ports_in c' (left_ctx c ctx) = ctx_ports c' ctx" by (simp add: left_ctx_def)
  show "members (left_ctx c ctx) = set (ctx_clients ctx) - {c}"
  proof (cases "set_remove c (ctx_clients ctx) = []")
    case True
    have "{} = set (ctx_clients ctx) - {c}" using set_set_remove [of c "ctx_clients ctx"] unfolding True by simp
    then show ?thesis using True by (simp add: left_ctx_def)
  qed (simp add: left_ctx_def)
  show "ctx_ok cs ctx'" if "left_ctx c ctx = Some ctx'"
  proof -
    have "ctx_ports c0 ctx \<noteq> {} \<Longrightarrow> c0 \<in> set (ctx_clients ctx) - {c}" for c0
      using assms by (cases "c0 = c") (auto simp: ctx_ok_def)
    then have "\<forall>c0. ctx_ports c0 ctx \<noteq> {} \<longrightarrow> c0 \<in> set (ctx_clients ctx) - {c}" by blast
    moreover have "ctx' = ctx\<lparr>ctx_clients := set_remove c (ctx_clients ctx)\<rparr>" "set_remove c (ctx_clients ctx) \<noteq> []"
      using that by (simp_all add: left_ctx_def split: if_splits)
    ultimately show ?thesis using assms(1) by (simp add: ctx_ok_def subset_iff)
  qed
qed

lemma LeaveDevice_reads:
  assumes "find_ctx st d = Some ctx"
  shows "find_ctx (LeaveDevice c d st) d' = (if d' = d then left_ctx c ctx else find_ctx st d')"
    "resource_of (LeaveDevice c d st) c' = resource_of st c'" "sc_clients (LeaveDevice c d st) = sc_clients st"
    "clientResourceInfo (LeaveDevice c d st) = clientResourceInfo st" "same_people st0 (LeaveDevice c d st) = same_people st0 st"
    "pendingBleConnections (LeaveDevice c d st) = pendingBleConnections st" "sent (LeaveDevice c d st) = sent st"
    "distinct (keys_of (deviceClientContexts st)) \<Longrightarrow> distinct (keys_of (deviceClientContexts (LeaveDevice c d st)))"
  by (auto simp: LeaveDevice_Some [OF assms] ctl_simps split: option.splits)

text \<open>What is left of a device when a client without ports leaves it, with the account that \<open>r\<close> keeps for the client.\<close>

lemma leave_device:
  assumes "tables_inv X st" "find_ctx st d = Some ctx" "ctx_ports c ctx = {}" "c \<in> set (sc_clients st)"
    "r = (if c \<in> X then resource_of st c else (resource_of st c)\<lparr>openDevices := set_remove d (openDevices (resource_of st c))\<rparr>)"
  shows "tables_inv X (set_resource c r (LeaveDevice c d st))"
proof -
  note L = left_ctx_ports [OF ctx_okD [OF assms(1,2)] assms(3)]
  show ?thesis
    by (rule tables_inv_change [OF assms(1), where d = d and co = "left_ctx c ctx"])
      (use assms L LeaveDevice_reads [OF assms(2), where c = c] in \<open>auto simp: ctl_simps tables_inv_def\<close>)
qed

definition left_device :: "u32 \<Rightarrow> int \<Rightarrow> 'd MidiServiceController \<Rightarrow> 'd MidiServiceController \<Rightarrow> bool" where
  "left_device c d st st' \<longleftrightarrow>
     (\<forall>d'. members (find_ctx st' d') = members (find_ctx st d') - (if d' = d then {c} else {}))
     \<and> (\<forall>c' d'. ports_in c' (find_ctx st' d') = (if c' = c \<and> d' = d then {} else ports_in c' (find_ctx st d')))"

lemma close_then_leave:
  assumes "tables_inv X st" "find_ctx st d = Some ctx" "c \<in> set (ctx_clients ctx)"
    "st1 = LeaveDevice c d (ClosePortforDevice drv c d ctx st)"
    "r = (if c \<in> X then resource_of st1 c else (resource_of st1 c)\<lparr>openDevices := set_remove d (openDevices (resource_of st1 c))\<rparr>)"
  shows "tables_inv X (set_resource c r st1) \<and> same_people st (set_resource c r st1)
     \<and> pendingBleConnections st1 = pendingBleConnections st \<and> sent st1 = sent st \<and> left_device c d st (set_resource c r st1)"
proof -
  let ?st0 = "ClosePortforDevice drv c d ctx st"
  have C: "close_outcome X c d UNIV st ?st0" using ClosePortforDevice_spec assms(1,2) .
  then have t: "tables_inv X ?st0" "same_people st ?st0" "sc_clients ?st0 = sc_clients st"
    by (simp_all add: close_outcome_def same_people_def)
  have mem: "members (find_ctx ?st0 d) = set (ctx_clients ctx)" "ports_in c (find_ctx ?st0 d) = {}"
    using C assms(2) by (simp_all add: close_outcome_def)
  then obtain ctx0 where x: "find_ctx ?st0 d = Some ctx0" using assms(3) by (cases "find_ctx ?st0 d") auto
  have c: "c \<in> set (sc_clients ?st0)" using ctx_less [OF ctx_okD [OF assms(1,2)] assms(3)] t(3) by simp
  note R = LeaveDevice_reads [OF x, where c = c, folded assms(4)]
  have none: "ctx_ports c ctx0 = {}" "set (ctx_clients ctx0) = set (ctx_clients ctx)" using mem x by simp_all
  have "tables_inv X (set_resource c r st1)"
    unfolding assms(4) by (rule leave_device [OF t(1) x none(1) c]) (use assms(5) R(2) in \<open>simp add: assms(4)\<close>)
  moreover have "same_people st (set_resource c r st1)"
    using t(2) R assms(5) by (auto simp: same_people_def ctl_simps)
  moreover have "left_device c d st (set_resource c r st1)"
  proof -
    have "ports_in c' (find_ctx ?st0 d) = (if c' = c then {} else ports_in c' (find_ctx st d))" for c'
      using C by (simp add: close_outcome_def)
    then have "ctx_ports c' ctx0 = (if c' = c then {} else ports_in c' (find_ctx st d))" for c' by (simp add: x)
    then show ?thesis
      using C left_ctx_ports [OF ctx_okD [OF t(1) x] none(1)] R(1) none(2) assms(2)
      by (simp add: left_device_def ctl_simps close_outcome_def)
  qed
  ultimately show ?thesis using C R by (simp add: close_outcome_def)
qed

end
