(* ===== verification/Service_Closing.thy ===== *)
theory Service_Closing
  imports Service_Operations
begin

text \<open>
  A device that is gone, the manager's calls while it closes a device, and the parts of closing a device
  and a client: their effect and the invariant.
\<close>

section \<open>A device is gone\<close>

definition charge :: "int \<Rightarrow> u32 \<Rightarrow> ClientResourceInfo \<Rightarrow> ClientResourceInfo" where
  "charge d n r = r\<lparr>openDevices := set_remove d (openDevices r),
     openPortCount := (if openPortCount r \<ge> n then openPortCount r - n else 0)\<rparr>"

lemma Stop_clients: "clients (snd (Stop dc)) = clients dc"
  by (simp add: Stop_def WakeWorkerByEventFd_def)

lemma Calculate_count:
  assumes "distinct (keys_of (inputConnections ctx))" "distinct (keys_of (outputConnections ctx))"
  shows "fst (CalculateClientPortCountAndStopWorkers c ctx) = of_nat (card (ctx_ports c ctx))"
  using card_users [OF assms(1), of HasClientConnection c] card_users [OF assms(2), of HasClientConnection c]
  by (simp add: CalculateClientPortCountAndStopWorkers_def card_ctx_ports)

lemma Calculate_same:
  "fst (CalculateClientPortCountAndStopWorkers c (snd (CalculateClientPortCountAndStopWorkers c0 ctx)))
    = fst (CalculateClientPortCountAndStopWorkers c ctx)"
proof -
  have "HasClientConnection c (if b then snd (Stop conn) else conn) = HasClientConnection c conn" for b conn
    by (simp add: HasClientConnection_iff Stop_clients)
  then show ?thesis
    by (simp add: CalculateClientPortCountAndStopWorkers_def filter_map comp_def case_prod_unfold)
qed

lemma CleanupClients_spec:
  assumes "distinct cs"
  shows "find_key (clientResourceInfo (CleanupClients cs d ctx st)) c =
      (if c \<in> set cs then map_option (charge d (fst (CalculateClientPortCountAndStopWorkers c ctx))) (find_key (clientResourceInfo st) c)
       else find_key (clientResourceInfo st) c)
    \<and> (\<exists>res. CleanupClients cs d ctx st = st\<lparr>clientResourceInfo := res\<rparr>)"
  using assms
proof (induction cs arbitrary: ctx st)
  case Nil
  have "st = st\<lparr>clientResourceInfo := clientResourceInfo st\<rparr>" by simp
  then show ?case unfolding CleanupClients.simps by (metis Nil empty_iff list.set(1))
next
  case (Cons c0 cs)
  obtain n ctx1 where C: "CalculateClientPortCountAndStopWorkers c0 ctx = (n, ctx1)" by fastforce
  define st1 where "st1 = CleanupClientResourceForDevice c0 d n st"
  have k: "fst (CalculateClientPortCountAndStopWorkers c ctx1) = fst (CalculateClientPortCountAndStopWorkers c ctx)" for c
    using Calculate_same [of c c0 ctx] C by simp
  have s1: "find_key (clientResourceInfo st1) c = (if c = c0 then map_option (charge d n) (find_key (clientResourceInfo st) c)
      else find_key (clientResourceInfo st) c)" "\<exists>res. st1 = st\<lparr>clientResourceInfo := res\<rparr>" for c
    by (auto simp: st1_def CleanupClientResourceForDevice_def set_resource_def charge_def split: option.splits intro: exI [of _ "clientResourceInfo st"])
  have E: "CleanupClients (c0 # cs) d ctx st = CleanupClients cs d ctx1 st1" by (simp add: C st1_def)
  show ?case unfolding E using Cons.IH [of ctx1 st1] Cons.prems s1(1) s1(2) C by (auto simp: k)
qed

lemma charge_account:
  assumes "k \<le> unat n" "unat n \<le> 64"
  shows "unat (if n \<ge> of_nat k then n - of_nat k else (0 :: u32)) + k = unat n"
proof -
  have k: "unat (of_nat k :: u32) = k" using assms by (simp add: unat_of_nat take_bit_nat_eq_self)
  then have "of_nat k \<le> n" using assms(1) by (simp add: word_le_nat_alt)
  then show ?thesis using k assms(1) by (simp add: unat_sub)
qed

definition device_gone :: "int \<Rightarrow> 'd MidiServiceController \<Rightarrow> 'd MidiServiceController \<Rightarrow> bool" where
  "device_gone d st st' \<longleftrightarrow> (\<forall>d'. find_ctx st' d' = (if d' = d then None else find_ctx st d'))"

lemma CleanupDeviceContext_spec:
  assumes "tables_inv X st"
  shows "tables_inv X (CleanupDeviceContext d st) \<and> same_people st (CleanupDeviceContext d st)
     \<and> pendingBleConnections (CleanupDeviceContext d st) = pendingBleConnections st \<and> device_gone d st (CleanupDeviceContext d st)
     \<and> sent (CleanupDeviceContext d st) = sent st \<and> sc_clients (CleanupDeviceContext d st) = sc_clients st"
proof (cases "find_ctx st d")
  case None
  then show ?thesis using assms by (simp add: CleanupDeviceContext_def device_gone_def)
next
  case (Some ctx)
  note ok = ctx_okD [OF assms Some]
  define st1 where "st1 = CleanupClients (ctx_clients ctx) d ctx st"
  have "distinct (ctx_clients ctx)" using ok by (simp add: ctx_ok_def)
  note S = CleanupClients_spec [OF this, of d ctx st, folded st1_def]
  obtain res where st1: "st1 = st\<lparr>clientResourceInfo := res\<rparr>" using S by blast
  have f: "find_ctx st1 d' = find_ctx st d'" for d' by (simp add: st1 find_ctx_def)
  have E: "CleanupDeviceContext d st = erase_ctx d st1" using Some by (simp add: CleanupDeviceContext_def st1_def)
  have n: "fst (CalculateClientPortCountAndStopWorkers c ctx) = of_nat (card (ctx_ports c ctx))" for c
    using ok by (intro Calculate_count) (simp_all add: ctx_ok_def)
  have r: "resource_of st1 c = (if c \<in> set (ctx_clients ctx) then charge d (of_nat (card (ctx_ports c ctx))) (resource_of st c) else resource_of st c)"
    if "c \<in> set (sc_clients st)" for c
    using S [of c] resource_exists [OF assms that] by (cases "find_key (clientResourceInfo st) c") (auto simp: resource_of_def n)
  have u: "uid (resource_of st1 c) = uid (resource_of st c)" for c
    using S [of c] by (auto simp: resource_of_def charge_def split: option.splits if_splits)
  have none: "ctx_ports c ctx = {}" if "c \<notin> set (ctx_clients ctx)" for c using ok that by (auto simp: ctx_ok_def)
  have "tables_inv X (erase_ctx d st1)"
  proof (rule tables_inv_change [OF assms, where d = d and co = None])
    fix c show "has_key (clientResourceInfo (erase_ctx d st1)) c \<longleftrightarrow> has_key (clientResourceInfo st) c"
      using S [of c] by (auto simp: ctl_simps split: if_splits)
  next
    fix c
    assume c: "c \<in> set (sc_clients st)" and le: "card (ports_in c (find_ctx st d)) \<le> unat (openPortCount (resource_of st c))"
      "unat (openPortCount (resource_of st c)) \<le> 64" "distinct (openDevices (resource_of st c))"
      "d \<in> set (openDevices (resource_of st c)) \<longleftrightarrow> c \<in> members (find_ctx st d)"
    show "distinct (openDevices (resource_of (erase_ctx d st1) c)) \<and>
       set (openDevices (resource_of (erase_ctx d st1) c)) = set (openDevices (resource_of st c)) - {d} \<union> (if c \<in> members None then {d} else {}) \<and>
       unat (openPortCount (resource_of (erase_ctx d st1) c)) + card (ports_in c (find_ctx st d)) = unat (openPortCount (resource_of st c)) + card (ports_in c None) \<and>
       unat (openPortCount (resource_of (erase_ctx d st1) c)) \<le> 64"
      using r [OF c] le none Some charge_account [OF le(1,2)] by (auto simp: ctl_simps charge_def)
  qed (use assms f in \<open>auto simp: ctl_simps st1 tables_inv_def\<close>)
  moreover have "same_people st (erase_ctx d st1)" using u by (simp add: same_people_def ctl_simps) (simp add: st1)
  ultimately show ?thesis unfolding E by (simp add: device_gone_def ctl_simps f) (simp add: st1)
qed

lemma same_people_active: "same_people (RemoveFromActiveBleDevices d st0) st = same_people st0 st"
  by (simp add: RemoveFromActiveBleDevices_def ctl_simps)

lemma NotifyDeviceChange_spec:
  assumes "tables_inv X st"
  shows "tables_inv X (NotifyDeviceChange change dev st) \<and> same_people st (NotifyDeviceChange change dev st)
     \<and> pendingBleConnections (NotifyDeviceChange change dev st) = pendingBleConnections st
     \<and> sent (NotifyDeviceChange change dev st) = sent st @ map (\<lambda>c. DeviceChanged c change (midiDeviceInfo dev)) (sc_clients st)
     \<and> (change = REMOVED \<longrightarrow> device_gone (device_id dev) st (NotifyDeviceChange change dev st))
     \<and> (change = ADD \<longrightarrow> (\<forall>d. find_ctx (NotifyDeviceChange change dev st) d = find_ctx st d))"
  using CleanupDeviceContext_spec [of X "RemoveFromActiveBleDevices (device_id dev) st" "device_id dev"] assms
  by (cases change) (simp_all add: NotifyDeviceChange_def ctl_simps device_gone_def CollectClientsToNotify_def same_people_active)

section \<open>The manager's calls\<close>

lemma TakeWaiting_spec:
  assumes "TakeWaiting addr st = (reqs, st1)"
  shows "\<exists>q. st1 = st\<lparr>pendingBleConnections := q\<rparr>" "pending_inv st \<Longrightarrow> pending_inv st1"
  using assms
proof -
  assume T: "TakeWaiting addr st = (reqs, st1)"
  show "\<exists>q. st1 = st\<lparr>pendingBleConnections := q\<rparr>"
    by (rule exI [of _ "pendingBleConnections st1"]) (use T in \<open>auto simp: TakeWaiting_def split: option.splits\<close>)
  show "pending_inv st1" if "pending_inv st"
  proof -
    have "find_key (pendingBleConnections st1) a = Some qs \<Longrightarrow> find_key (pendingBleConnections st) a = Some qs" for a qs
      using T by (auto simp: TakeWaiting_def split: option.splits if_splits)
    moreover have "distinct (keys_of (pendingBleConnections st1))" "sc_clients st1 = sc_clients st"
      using T that by (auto simp: TakeWaiting_def pending_inv_def distinct_delete split: option.splits)
    ultimately show ?thesis using that unfolding pending_inv_def by metis
  qed
qed

lemma service_inv_same:
  "service_inv st \<Longrightarrow> tables_inv {} st' \<Longrightarrow> same_people st st' \<Longrightarrow> pendingBleConnections st' = pendingBleConnections st \<Longrightarrow> service_inv st'"
  unfolding service_inv_def using app_inv_same pending_inv_same by blast

lemma TakeWaiting_inv:
  assumes "service_inv st" "TakeWaiting addr st = (reqs, st1)"
  shows "service_inv st1"
proof -
  obtain q where "st1 = st\<lparr>pendingBleConnections := q\<rparr>" using TakeWaiting_spec(1) [OF assms(2)] by blast
  then have "tables_inv {} st1 = tables_inv {} st" "same_people st st1" by (simp_all add: ctl_simps)
  then show ?thesis using assms TakeWaiting_spec(2) [OF assms(2)] app_inv_same unfolding service_inv_def by blast
qed

lemma service_inv_fields [ctl_simps]:
  "service_inv (st\<lparr>manager := m\<rparr>) = service_inv st" "service_inv (send ns st) = service_inv st"
  "service_inv (st\<lparr>activeBleDevices := a\<rparr>) = service_inv st"
  by (simp_all add: service_inv_def ctl_simps app_inv_def pending_inv_def)

lemma NotifyDeviceChange_inv: "service_inv st \<Longrightarrow> service_inv (NotifyDeviceChange change dev st)"
  using NotifyDeviceChange_spec [of "{}" st] service_inv_same unfolding service_inv_def by blast

lemma HandleCallWhileClosing_inv: "service_inv st \<Longrightarrow> service_inv (HandleCallWhileClosing call st)"
  by (auto simp: HandleCallWhileClosing_def NotifyDeviceChange_inv TellWaiting_def ctl_simps split: ManagerCall.splits prod.splits
      elim: TakeWaiting_inv)

lemma fold_inv: "(\<And>x st. P st \<Longrightarrow> P (f x st)) \<Longrightarrow> P st \<Longrightarrow> P (fold f xs st)"
  by (induction xs arbitrary: st) auto

lemma CloseManagerDevice_inv: "service_inv st \<Longrightarrow> service_inv (snd (CloseManagerDevice drv d st))"
proof -
  assume i: "service_inv st"
  obtain ret calls m where M: "Manager_CloseDevice drv d (manager st) = (ret, calls, m)" using prod_cases3 by blast
  have "service_inv (fold HandleCallWhileClosing calls (st\<lparr>manager := m\<rparr>))"
    by (rule fold_inv) (use i in \<open>simp_all add: HandleCallWhileClosing_inv ctl_simps\<close>)
  then show ?thesis by (simp add: CloseManagerDevice_def M)
qed

section \<open>Closing a device and a client\<close>

lemma set_resource_same: "find_key (clientResourceInfo st) c = Some r \<Longrightarrow> set_resource c r st = st"
  by (simp add: set_resource_def update_triv)

lemma CloseDevice_inv:
  assumes "service_inv st"
  shows "service_inv (snd (CloseDevice drv c d st))"
proof (cases "find_ctx st d")
  case (Some ctx)
  show ?thesis
  proof (cases "c \<in> set (sc_clients st) \<and> c \<in> set (ctx_clients ctx)")
    case True
    define st1 where "st1 = LeaveDevice c d (ClosePortforDevice drv c d ctx st)"
    define st2 where "st2 = set_resource c ((resource_of st1 c)\<lparr>openDevices := set_remove d (openDevices (resource_of st1 c))\<rparr>) st1"
    have L: "tables_inv {} st2 \<and> same_people st st2 \<and> pendingBleConnections st1 = pendingBleConnections st"
      using close_then_leave [of "{}" st d ctx c, OF _ Some _ st1_def refl] assms True by (simp add: st2_def service_inv_def)
    then have "service_inv st2" using service_inv_same [OF assms, of st2] by (simp add: st2_def ctl_simps)
    moreover have "snd (CloseDevice drv c d st) = (if find_ctx st2 d \<noteq> None then st2 else snd (CloseManagerDevice drv d st2))"
      using True Some by (simp add: CloseDevice_def st1_def st2_def Let_def split_beta)
    ultimately show ?thesis using CloseManagerDevice_inv [of st2 drv d] by simp
  qed (use assms Some in \<open>auto simp: CloseDevice_def\<close>)
qed (use assms in \<open>simp add: CloseDevice_def\<close>)

definition forgets :: "u32 \<Rightarrow> int set \<Rightarrow> 'd MidiServiceController \<Rightarrow> 'd MidiServiceController \<Rightarrow> bool" where
  "forgets c D st st' \<longleftrightarrow>
     (\<forall>d. members (find_ctx st' d) = members (find_ctx st d) - (if d \<in> D then {c} else {}))
     \<and> (\<forall>c' d. ports_in c' (find_ctx st' d) = (if c' = c \<and> d \<in> D then {} else ports_in c' (find_ctx st d)))"

lemma CleanupDeviceForClient_spec:
  assumes "tables_inv X st" "c \<in> X" "c \<in> members (find_ctx st d)"
  shows "tables_inv X (CleanupDeviceForClient drv c d st) \<and> same_people st (CleanupDeviceForClient drv c d st)
     \<and> pendingBleConnections (CleanupDeviceForClient drv c d st) = pendingBleConnections st
     \<and> forgets c {d} st (CleanupDeviceForClient drv c d st)"
proof -
  obtain ctx where ctx: "find_ctx st d = Some ctx" "c \<in> set (ctx_clients ctx)"
    using assms(3) by (cases "find_ctx st d") auto
  define st1 where "st1 = LeaveDevice c d (ClosePortforDevice drv c d ctx st)"
  note L = close_then_leave [OF assms(1) ctx st1_def, OF if_P [OF assms(2), symmetric]]
  have "c \<in> set (sc_clients st1)"
    using L ctx_less [OF ctx_okD [OF assms(1) ctx(1)] ctx(2)] by (simp add: same_people_def ctl_simps)
  moreover have "tables_inv X (set_resource c (resource_of st1 c) st1)" using L by simp
  then have "c \<in> set (sc_clients st1) \<Longrightarrow> c \<in> set (sc_clients (set_resource c (resource_of st1 c) st1))" by (simp add: ctl_simps)
  moreover have "has_key (clientResourceInfo st1) c"
  proof -
    have "members (find_ctx (ClosePortforDevice drv c d ctx st) d) = set (ctx_clients ctx)"
      using ClosePortforDevice_spec [OF assms(1) ctx(1), of c drv] ctx(1) by (simp add: close_outcome_def)
    then have "find_ctx (ClosePortforDevice drv c d ctx st) d \<noteq> None" using ctx(2) by (metis empty_iff members_simps(1))
    then obtain ctx0 where x: "find_ctx (ClosePortforDevice drv c d ctx st) d = Some ctx0" by blast
    have "tables_inv X (ClosePortforDevice drv c d ctx st)" "sc_clients (ClosePortforDevice drv c d ctx st) = sc_clients st"
      using ClosePortforDevice_spec [OF assms(1) ctx(1), of c drv] by (simp_all add: close_outcome_def same_people_def)
    then show ?thesis
      using client_entry [of X "ClosePortforDevice drv c d ctx st" c] ctx_less [OF ctx_okD [OF assms(1) ctx(1)] ctx(2)]
        LeaveDevice_reads(4) [OF x, where c = c]
      by (simp add: st1_def)
  qed
  ultimately have "set_resource c (resource_of st1 c) st1 = st1"
    using set_resource_same [of st1 c "resource_of st1 c"] by (auto simp: resource_of_def)
  then show ?thesis using L ctx by (auto simp: CleanupDeviceForClient_def st1_def [symmetric] left_device_def forgets_def)
qed

lemma CleanupDevices_spec:
  assumes "tables_inv X st" "c \<in> X" "distinct ds" "\<forall>d\<in>set ds. c \<in> members (find_ctx st d)"
  shows "tables_inv X (fold (CleanupDeviceForClient drv c) ds st) \<and> same_people st (fold (CleanupDeviceForClient drv c) ds st)
     \<and> pendingBleConnections (fold (CleanupDeviceForClient drv c) ds st) = pendingBleConnections st
     \<and> forgets c (set ds) st (fold (CleanupDeviceForClient drv c) ds st)"
  using assms
proof (induction ds arbitrary: st)
  case Nil
  then show ?case by (simp add: forgets_def)
next
  case (Cons d ds)
  define st1 where "st1 = CleanupDeviceForClient drv c d st"
  have 1: "tables_inv X st1 \<and> same_people st st1 \<and> pendingBleConnections st1 = pendingBleConnections st \<and> forgets c {d} st st1"
    unfolding st1_def by (rule CleanupDeviceForClient_spec [OF Cons.prems(1,2)]) (use Cons.prems(4) in simp)
  have m: "\<forall>d'\<in>set ds. c \<in> members (find_ctx st1 d')" using 1 Cons.prems(3,4) by (auto simp: forgets_def)
  from 1 have "tables_inv X st1" by blast
  note I = Cons.IH [OF this Cons.prems(2) _ m]
  then show ?case using 1 Cons.prems(3)
    by (auto simp: st1_def [symmetric] forgets_def intro: same_people_trans)
qed

text \<open>The tables once the client has left every device and its account and the client itself are deleted.\<close>

lemma delete_client:
  assumes "tables_inv {c} st" "\<forall>d. c \<notin> members (find_ctx st d)"
    "deviceClientContexts st' = deviceClientContexts st" "sc_clients st' = set_remove c (sc_clients st)"
    "clientResourceInfo st' = AList.delete c (clientResourceInfo st)"
  shows "tables_inv {} st'"
proof -
  have f: "find_ctx st' = find_ctx st" by (simp add: fun_eq_iff find_ctx_def assms(3))
  have r: "resource_of st' c' = resource_of st c'" if "c' \<noteq> c" for c' using that by (simp add: resource_of_def assms(5))
  have "ctx_ok (sc_clients st') ctx" if "find_ctx st d = Some ctx" for d ctx
    using ctx_okD [OF assms(1) that] assms(2) that by (auto simp: ctx_ok_def assms(4) dest: spec [of _ d])
  moreover have "has_key (clientResourceInfo st') c' \<longleftrightarrow> c' \<in> set (sc_clients st')" for c'
    using client_entry [OF assms(1), of c'] by (auto simp: assms(4,5))
  ultimately show ?thesis
    using assms(1) r by (simp add: tables_inv_def f assms(3,4) opened_def open_ports_def del: not_None_eq)
qed

lemma CleanupClientResources_spec:
  "\<exists>am. CleanupClientResources c u st = st\<lparr>clientResourceInfo := AList.delete c (clientResourceInfo st), appClientMap := am\<rparr>
     \<and> (\<forall>u'. find_key am u' = (if u' = u then (case find_key (appClientMap st) u of None \<Rightarrow> None
           | Some cs \<Rightarrow> if set_remove c cs = [] then None else Some (set_remove c cs)) else find_key (appClientMap st) u'))"
proof (cases "find_key (appClientMap st) u")
  case None
  then show ?thesis by (intro exI [of _ "appClientMap st"]) (simp add: CleanupClientResources_def)
next
  case (Some cs)
  then show ?thesis
    by (intro exI [of _ "if set_remove c cs = [] then AList.delete u (appClientMap st) else AList.update u (set_remove c cs) (appClientMap st)"])
      (simp add: CleanupClientResources_def Let_def)
qed

lemma pending_without_client:
  assumes "pending_inv st" "sc_clients st' = set_remove c (sc_clients st)"
    "pendingBleConnections st' = pendingBleConnections (RemovePendingBleConnectionsForClient c st)"
  shows "pending_inv st'"
proof -
  let ?f = "\<lambda>(a, reqs). (a, filter (\<lambda>r. pb_clientId r \<noteq> c) reqs)"
  let ?q = "filter (\<lambda>p. snd p \<noteq> []) (map ?f (pendingBleConnections st))"
  have d: "distinct (keys_of (pendingBleConnections st))" using assms(1) by (simp add: pending_inv_def)
  have "keys_of (map ?f (pendingBleConnections st)) = keys_of (pendingBleConnections st)" by (induction "pendingBleConnections st") auto
  then have dq: "distinct (keys_of ?q)" using d by (metis distinct_map_filter)
  have "reqs \<noteq> [] \<and> pb_clientId ` set reqs \<subseteq> set (sc_clients st) - {c}" if "find_key ?q a = Some reqs" for a reqs
  proof -
    have "(a, reqs) \<in> set ?q" using map_of_SomeD [OF that] .
    then obtain reqs0 where "(a, reqs0) \<in> set (pendingBleConnections st)" "reqs = filter (\<lambda>r. pb_clientId r \<noteq> c) reqs0" "reqs \<noteq> []"
      by auto
    moreover from this have "find_key (pendingBleConnections st) a = Some reqs0" using d by simp
    ultimately show ?thesis using assms(1) unfolding pending_inv_def by fastforce
  qed
  moreover have q: "pendingBleConnections st' = ?q" by (simp add: assms(3) RemovePendingBleConnectionsForClient_def)
  moreover have s: "set (sc_clients st') = set (sc_clients st) - {c}" by (simp add: assms(2))
  ultimately show ?thesis using dq unfolding pending_inv_def q s by blast
qed

lemma app_without_client:
  assumes "app_inv st" "c \<in> set (sc_clients st)" "u = uid (resource_of st c)"
    "sc_clients st' = set_remove c (sc_clients st)" "set (clientCallbackObjects st') = set (clientCallbackObjects st) - {c}"
    "set (deathRecipients st') = set (deathRecipients st) - {c}" "\<And>c'. c' \<noteq> c \<Longrightarrow> uid (resource_of st' c') = uid (resource_of st c')"
    "\<And>u'. find_key (appClientMap st') u' = (if u' = u then (case find_key (appClientMap st) u of None \<Rightarrow> None
           | Some cs \<Rightarrow> if set_remove c cs = [] then None else Some (set_remove c cs)) else find_key (appClientMap st) u')"
  shows "app_inv st'"
proof -
  have len: "length (set_remove c xs) \<le> n" if "length xs \<le> n" for xs :: "u32 list" and n
    using length_set_remove_le [of c xs] that by linarith
  have keep: "distinct cs' \<and> length cs' \<le> MAX_CLIENTS_PER_APP \<and> (\<forall>c'\<in>set cs'. c' \<in> set (sc_clients st') \<and> uid (resource_of st' c') = u')"
    if k: "find_key (appClientMap st') u' = Some cs'" for u' cs'
  proof (cases "u' = u")
    case True
    then obtain cs where "find_key (appClientMap st) u = Some cs" "cs' = set_remove c cs"
      using k [unfolded True] assms(8) [of u] by (auto split: option.splits if_splits)
    moreover from this have "distinct cs \<and> length cs \<le> MAX_CLIENTS_PER_APP \<and> (\<forall>c'\<in>set cs. c' \<in> set (sc_clients st) \<and> uid (resource_of st c') = u)"
      using assms(1) unfolding app_inv_def by blast
    ultimately show ?thesis using True assms(7) by (simp add: assms(4) len)
  next
    case False
    then have "find_key (appClientMap st) u' = Some cs'" using k assms(8) by simp
    then have "distinct cs' \<and> length cs' \<le> MAX_CLIENTS_PER_APP \<and> (\<forall>c'\<in>set cs'. c' \<in> set (sc_clients st) \<and> uid (resource_of st c') = u')"
      using assms(1) unfolding app_inv_def by blast
    moreover from this have "c \<notin> set cs'" using False assms(3) by auto
    then have "c' \<noteq> c" if "c' \<in> set cs'" for c' using that by blast
    ultimately show ?thesis by (simp add: assms(4,7))
  qed
  have own: "\<exists>cs. find_key (appClientMap st') (uid (resource_of st' c')) = Some cs \<and> c' \<in> set cs" if "c' \<in> set (sc_clients st')" for c'
  proof -
    have c': "c' \<noteq> c" "c' \<in> set (sc_clients st)" using that assms(4) by simp_all
    obtain cs where cs: "find_key (appClientMap st) (uid (resource_of st c')) = Some cs" "c' \<in> set cs"
      using assms(1) c'(2) unfolding app_inv_def by blast
    then have in': "c' \<in> set (set_remove c cs)" using c'(1) by simp
    then have ne: "set_remove c cs \<noteq> []" by force
    have "find_key (appClientMap st') (uid (resource_of st c')) = Some (if uid (resource_of st c') = u then set_remove c cs else cs)"
      unfolding assms(8) using cs(1) ne by (cases "uid (resource_of st c') = u") simp_all
    then show ?thesis unfolding assms(7) [OF c'(1)] using in' cs(2) by simp
  qed
  have A: "distinct (sc_clients st)" "length (sc_clients st) \<le> MAX_CLIENTS"
    "set (clientCallbackObjects st) = set (sc_clients st)" "set (deathRecipients st) = set (sc_clients st)"
    using assms(1) unfolding app_inv_def by blast+
  have "distinct (sc_clients st')" "length (sc_clients st') \<le> MAX_CLIENTS"
    "set (clientCallbackObjects st') = set (sc_clients st')" "set (deathRecipients st') = set (sc_clients st')"
    by (simp_all add: assms(4-6) A len)
  moreover have "\<forall>u' cs'. find_key (appClientMap st') u' = Some cs' \<longrightarrow> distinct cs' \<and> length cs' \<le> MAX_CLIENTS_PER_APP
      \<and> (\<forall>c'\<in>set cs'. c' \<in> set (sc_clients st') \<and> uid (resource_of st' c') = u')"
    by (intro allI impI keep)
  moreover have "\<forall>c'\<in>set (sc_clients st'). \<exists>cs. find_key (appClientMap st') (uid (resource_of st' c')) = Some cs \<and> c' \<in> set cs"
    by (intro ballI own)
  ultimately show ?thesis unfolding app_inv_def by (intro conjI)
qed

end
