(* ===== verification/Service_Clients.thy ===== *)
theory Service_Clients
  imports Service_Closing
begin

text \<open>
  Creating a client: the search for a free identifier ends and finds one, and the tables with a new client in them.
\<close>

section \<open>A new client\<close>

text \<open>The candidates that the search for a free identifier visits: the numbers from 1 to \<open>MAX_CLIENTID\<close> in a circle.\<close>

definition candidate :: "u32 \<Rightarrow> nat \<Rightarrow> nat" where
  "candidate current k = (unat current + k) mod unat MAX_CLIENTID + 1"

lemma unat_MAX_CLIENTID: "unat MAX_CLIENTID = 4294967295"
  by (simp add: MAX_CLIENTID_def)

lemma next_candidate:
  "unat ((if current \<ge> MAX_CLIENTID then 0 else current) + 1) = candidate current 0"
proof (cases "current \<ge> MAX_CLIENTID")
  case True
  then have "unat current = 4294967295" using unsigned_less [of current, where 'a = nat] by (simp add: word_le_nat_alt unat_MAX_CLIENTID)
  then show ?thesis using True by (simp add: candidate_def unat_MAX_CLIENTID)
next
  case False
  then have "unat current < 4294967295" by (simp add: word_le_nat_alt unat_MAX_CLIENTID)
  then show ?thesis using False by (simp add: candidate_def unat_MAX_CLIENTID unat_word_ariths)
qed

lemma candidate_step: "unat next = candidate current 0 \<Longrightarrow> candidate next k = candidate current (Suc k)"
  using mod_add_left_eq [of "unat current" "unat MAX_CLIENTID" "Suc k"] by (simp add: candidate_def)

lemma candidate_inj: "inj_on (candidate current) {..<n}" if "n \<le> unat MAX_CLIENTID"
proof (rule inj_onI)
  have le: "\<not> a < b" if "(u + b) mod m = (u + a) mod m" "b < m" for u a b m :: nat
  proof
    assume "a < b"
    then have "m dvd b - a" using that(1) mod_eq_dvd_iff_nat [of "u + a" "u + b" m] by simp
    then show False using \<open>a < b\<close> that(2) by (auto dest!: dvd_imp_le)
  qed
  fix a b assume "a \<in> {..<n}" "b \<in> {..<n}" "candidate current a = candidate current b"
  then have "(unat current + a) mod unat MAX_CLIENTID = (unat current + b) mod unat MAX_CLIENTID"
    "a < unat MAX_CLIENTID" "b < unat MAX_CLIENTID" using that by (simp_all add: candidate_def)
  then show "a = b" using le [of "unat current" a] le [of "unat current" b] by (metis linorder_cases)
qed

lemma NextClientId_spec:
  "case NextClientId fuel taken current of
     None \<Rightarrow> candidate current ` {..<fuel} \<subseteq> unat ` set taken
   | Some x \<Rightarrow> \<exists>k<fuel. unat x = candidate current k \<and> x \<notin> set taken \<and> candidate current ` {..<k} \<subseteq> unat ` set taken"
proof (induction fuel arbitrary: current)
  case (Suc fuel)
  define nx where "nx = (if current \<ge> MAX_CLIENTID then 0 else current) + 1"
  have n: "unat nx = candidate current 0" unfolding nx_def by (rule next_candidate)
  have e: "NextClientId (Suc fuel) taken current = (if nx \<in> set taken then NextClientId fuel taken nx else Some nx)"
    unfolding NextClientId.simps(2) Let_def nx_def by (rule refl)
  note NextClientId.simps [simp del]
  have s: "candidate nx = candidate current \<circ> Suc" using candidate_step [OF n] by (simp add: fun_eq_iff)
  have im: "candidate current ` {..<Suc m} = insert (candidate current 0) (candidate nx ` {..<m})" for m
    by (simp add: s lessThan_Suc_eq_insert_0 image_comp)
  show ?case
  proof (cases "nx \<in> set taken")
    case True
    then have in': "candidate current 0 \<in> unat ` set taken" using n by (metis imageI)
    show ?thesis
    proof (cases "NextClientId fuel taken nx")
      case None
      then show ?thesis using Suc.IH [of nx] True in' by (simp add: e im)
    next
      case (Some x)
      then obtain k where k: "k < fuel" "unat x = candidate nx k" "x \<notin> set taken" "candidate nx ` {..<k} \<subseteq> unat ` set taken"
        using Suc.IH [of nx] by auto
      then have "\<exists>k<Suc fuel. unat x = candidate current k \<and> x \<notin> set taken \<and> candidate current ` {..<k} \<subseteq> unat ` set taken"
        using in' by (intro exI [of _ "Suc k"]) (simp add: im, simp add: s)
      then show ?thesis using Some True by (simp add: e)
    qed
  next
    case False
    then show ?thesis using n by (auto simp: e intro: exI [of _ 0])
  qed
qed simp

lemma NextClientId_finds:
  assumes "length taken < unat MAX_CLIENTID"
  shows "\<exists>x k. NextClientId (length taken + 1) taken current = Some x \<and> k \<le> length taken \<and> unat x = candidate current k
     \<and> x \<notin> set taken \<and> candidate current ` {..<k} \<subseteq> unat ` set taken"
proof (cases "NextClientId (length taken + 1) taken current")
  case None
  then have "candidate current ` {..<length taken + 1} \<subseteq> unat ` set taken"
    using NextClientId_spec [of current "length taken + 1" taken] by simp
  then have "card (candidate current ` {..<length taken + 1}) \<le> card (unat ` set taken)"
    by (intro card_mono) simp_all
  also have "\<dots> \<le> length taken" by (rule order_trans [OF card_image_le card_length]) simp
  finally have "length taken + 1 \<le> length taken"
    using card_image [OF candidate_inj [of "length taken + 1" current]] assms by simp
  then show ?thesis by simp
next
  case (Some x)
  then show ?thesis using NextClientId_spec [of current "length taken + 1" taken]
    by (auto simp: less_Suc_eq_le)
qed

lemma client_id_nonzero: "unat (x :: u32) = candidate current k \<Longrightarrow> x \<noteq> 0"
  by (auto simp: candidate_def)

section \<open>Creating a client\<close>

definition app_clients :: "'d MidiServiceController \<Rightarrow> u32 \<Rightarrow> u32 list" where
  "app_clients st u = (case find_key (appClientMap st) u of Some cs \<Rightarrow> cs | None \<Rightarrow> [])"

definition new_account :: "u32 \<Rightarrow> ClientResourceInfo" where
  "new_account u = \<lparr>uid = u, openDevices = [], openPortCount = 0\<rparr>"

lemma app_invD:
  assumes "app_inv st"
  shows "distinct (sc_clients st)" "length (sc_clients st) \<le> MAX_CLIENTS"
    "set (clientCallbackObjects st) = set (sc_clients st)" "set (deathRecipients st) = set (sc_clients st)"
    "find_key (appClientMap st) u = Some cs \<Longrightarrow> distinct cs \<and> length cs \<le> MAX_CLIENTS_PER_APP
       \<and> (\<forall>c\<in>set cs. c \<in> set (sc_clients st) \<and> uid (resource_of st c) = u)"
    "c \<in> set (sc_clients st) \<Longrightarrow> \<exists>cs. find_key (appClientMap st) (uid (resource_of st c)) = Some cs \<and> c \<in> set cs"
  using assms unfolding app_inv_def by blast+

lemma app_clientsD:
  assumes "app_inv st"
  shows "distinct (app_clients st u)" "length (app_clients st u) \<le> MAX_CLIENTS_PER_APP"
    "c \<in> set (app_clients st u) \<Longrightarrow> c \<in> set (sc_clients st) \<and> uid (resource_of st c) = u"
proof -
  have "distinct (app_clients st u) \<and> length (app_clients st u) \<le> MAX_CLIENTS_PER_APP
      \<and> (\<forall>c\<in>set (app_clients st u). c \<in> set (sc_clients st) \<and> uid (resource_of st c) = u)"
    using app_invD(5) [OF assms, of u] by (cases "find_key (appClientMap st) u") (simp_all add: app_clients_def)
  then show "distinct (app_clients st u)" "length (app_clients st u) \<le> MAX_CLIENTS_PER_APP"
    "c \<in> set (app_clients st u) \<Longrightarrow> c \<in> set (sc_clients st) \<and> uid (resource_of st c) = u" by blast+
qed

lemma app_clients_has: "app_inv st \<Longrightarrow> c \<in> set (sc_clients st) \<Longrightarrow> c \<in> set (app_clients st (uid (resource_of st c)))"
  using app_invD(6) unfolding app_clients_def by fastforce

lemma app_invI:
  assumes "distinct (sc_clients st)" "length (sc_clients st) \<le> MAX_CLIENTS"
    "set (clientCallbackObjects st) = set (sc_clients st)" "set (deathRecipients st) = set (sc_clients st)"
    "\<And>u. distinct (app_clients st u) \<and> length (app_clients st u) \<le> MAX_CLIENTS_PER_APP"
    "\<And>u c. c \<in> set (app_clients st u) \<Longrightarrow> c \<in> set (sc_clients st) \<and> uid (resource_of st c) = u"
    "\<And>c. c \<in> set (sc_clients st) \<Longrightarrow> c \<in> set (app_clients st (uid (resource_of st c)))"
  shows "app_inv st"
proof -
  have "distinct cs \<and> length cs \<le> MAX_CLIENTS_PER_APP \<and> (\<forall>c\<in>set cs. c \<in> set (sc_clients st) \<and> uid (resource_of st c) = u)"
    if "find_key (appClientMap st) u = Some cs" for u cs
    using assms(5) [of u] assms(6) [of _ u] that by (simp add: app_clients_def)
  moreover have "\<exists>cs. find_key (appClientMap st) (uid (resource_of st c)) = Some cs \<and> c \<in> set cs" if "c \<in> set (sc_clients st)" for c
    using assms(7) [OF that] by (cases "find_key (appClientMap st) (uid (resource_of st c))") (simp_all add: app_clients_def)
  ultimately show ?thesis using assms(1-4) unfolding app_inv_def by blast
qed

lemma not_member: "tables_inv X st \<Longrightarrow> c \<notin> set (sc_clients st) \<Longrightarrow> c \<notin> members (find_ctx st d) \<and> ports_in c (find_ctx st d) = {}"
proof (cases "find_ctx st d")
  case (Some ctx)
  assume "tables_inv X st" "c \<notin> set (sc_clients st)"
  then show ?thesis using ctx_okD [OF _ Some] Some by (auto simp: ctx_ok_def)
qed simp

lemma add_client:
  assumes inv: "service_inv st" and c: "c \<notin> set (sc_clients st)" and room: "length (sc_clients st) < MAX_CLIENTS"
      "length (app_clients st u) < MAX_CLIENTS_PER_APP"
    and st': "deviceClientContexts st' = deviceClientContexts st" "pendingBleConnections st' = pendingBleConnections st"
      "sc_clients st' = set_add c (sc_clients st)" "clientCallbackObjects st' = set_add c (clientCallbackObjects st)"
      "deathRecipients st' = set_add c (deathRecipients st)"
      "clientResourceInfo st' = AList.update c (new_account u) (clientResourceInfo st)"
      "\<And>u'. app_clients st' u' = (if u' = u then set_add c (app_clients st u) else app_clients st u')"
  shows "service_inv st'"
proof -
  have t: "tables_inv {} st" and a: "app_inv st" and q: "pending_inv st" using inv by (simp_all add: service_inv_def)
  have f: "find_ctx st' = find_ctx st" by (simp add: fun_eq_iff find_ctx_def st')
  have r: "resource_of st' c' = (if c' = c then new_account u else resource_of st c')" for c' by (simp add: resource_of_def st'(6))
  have s: "set (sc_clients st') = insert c (set (sc_clients st))" by (simp add: st'(3))
  have "tables_inv {} st'"
  proof -
    have "ctx_ok (sc_clients st') ctx" if "find_ctx st d = Some ctx" for d ctx
      using ctx_okD [OF t that] by (auto simp: ctx_ok_def s)
    moreover have "has_key (clientResourceInfo st') c' \<longleftrightarrow> c' \<in> set (sc_clients st')" for c'
      using client_entry [OF t, of c'] by (auto simp: st'(6) s)
    moreover have "opened c st' = {}" "open_ports c st' = {}"
      using not_member [OF t c] by (simp_all add: opened_def open_ports_def f)
    then have "account_ok (resource_of st' c) (opened c st') (card (open_ports c st'))" by (simp add: account_ok_def r new_account_def)
    moreover have "account_ok (resource_of st' c') (opened c' st') (card (open_ports c' st'))" if "c' \<in> set (sc_clients st)" for c'
      using t that c by (auto simp: tables_inv_def r opened_def open_ports_def f)
    ultimately show ?thesis using t by (simp add: tables_inv_def f st'(1) s)
  qed
  moreover have "app_inv st'"
  proof (rule app_invI)
    show "distinct (sc_clients st')" "length (sc_clients st') \<le> MAX_CLIENTS"
      using app_invD(1,2) [OF a] room(1) c by (simp_all add: st'(3) set_add_def)
    show "set (clientCallbackObjects st') = set (sc_clients st')" "set (deathRecipients st') = set (sc_clients st')"
      using app_invD(3,4) [OF a] by (simp_all add: st')
    show "distinct (app_clients st' u') \<and> length (app_clients st' u') \<le> MAX_CLIENTS_PER_APP" for u'
      using app_clientsD(1,2) [OF a, of u'] room(2) by (cases "u' = u") (simp_all add: st'(7) set_add_def)
    show "c' \<in> set (sc_clients st') \<and> uid (resource_of st' c') = u'" if "c' \<in> set (app_clients st' u')" for u' c'
      using app_clientsD(3) [OF a, of c' u'] that c by (auto simp: st'(7) s r new_account_def split: if_splits)
    show "c' \<in> set (app_clients st' (uid (resource_of st' c')))" if "c' \<in> set (sc_clients st')" for c'
      using app_clients_has [OF a, of c'] that by (cases "c' = c") (auto simp: st'(7) s r new_account_def)
  qed
  moreover have "pending_inv st'" using q unfolding pending_inv_def st'(2) s by blast
  ultimately show ?thesis by (simp add: service_inv_def)
qed

lemma same_tables_inv:
  assumes "service_inv st" "deviceClientContexts st' = deviceClientContexts st" "sc_clients st' = sc_clients st"
    "clientResourceInfo st' = clientResourceInfo st" "pendingBleConnections st' = pendingBleConnections st"
    "clientCallbackObjects st' = clientCallbackObjects st" "deathRecipients st' = deathRecipients st"
    "\<And>u. app_clients st' u = app_clients st u"
  shows "service_inv st'"
proof -
  have a: "app_inv st" using assms(1) by (simp add: service_inv_def)
  have r: "resource_of st' c = resource_of st c" for c by (simp add: resource_of_def assms(4))
  have "app_inv st'"
    by (rule app_invI) (use app_invD(1-4) [OF a] app_clientsD [OF a] app_clients_has [OF a] in \<open>simp_all add: assms(3,6-8) r\<close>)
  moreover have "tables_inv {} st'"
    by (rule tables_inv_cong [of "{}" st]) (use assms(1) in \<open>simp_all add: service_inv_def assms(2-4)\<close>)
  moreover have "pending_inv st'" using assms(1) by (simp add: service_inv_def pending_inv_def assms(3,5))
  ultimately show ?thesis by (simp add: service_inv_def)
qed

lemma CancelUnloadTask_inv: "service_inv st \<Longrightarrow> service_inv (CancelUnloadTask st)"
  by (erule same_tables_inv) (simp_all add: CancelUnloadTask_def app_clients_def)

lemma ScheduleUnloadTask_inv: "service_inv st \<Longrightarrow> service_inv (ScheduleUnloadTask st)"
  by (erule same_tables_inv) (simp_all add: ScheduleUnloadTask_def app_clients_def Let_def)


text \<open>Whether there is room for a client of the application \<open>u\<close>.\<close>

definition client_room :: "'d MidiServiceController \<Rightarrow> u32 \<Rightarrow> bool" where
  "client_room st u \<longleftrightarrow> length (sc_clients st) < MAX_CLIENTS \<and> length (app_clients st u) < MAX_CLIENTS_PER_APP"

lemma CreateMidiInServer_spec:
  assumes "service_inv st" "CreateMidiInServer valid allocated added u st = (ret, cid, st')"
  shows "service_inv st' \<and> deviceClientContexts st' = deviceClientContexts st \<and> sent st' = sent st \<and> manager st' = manager st
     \<and> (ret = OH_MIDI_STATUS_OK \<longleftrightarrow> valid \<and> client_room st u \<and> allocated \<and> added)
     \<and> (if ret = OH_MIDI_STATUS_OK
        then (\<exists>c. cid = Some c \<and> c \<noteq> 0 \<and> c \<notin> set (sc_clients st) \<and> sc_clients st' = sc_clients st @ [c]
               \<and> resource_of st' c = new_account u \<and> app_clients st' u = app_clients st u @ [c])
        else sc_clients st' = sc_clients st)"
proof -
  define st1 where "st1 = CancelUnloadTask st"
  have i1: "service_inv st1" using assms(1) by (simp add: st1_def CancelUnloadTask_inv)
  have f1: "sc_clients st1 = sc_clients st" "appClientMap st1 = appClientMap st" "deviceClientContexts st1 = deviceClientContexts st"
    "sent st1 = sent st" "manager st1 = manager st" "currentClientId st1 = currentClientId st" "clientResourceInfo st1 = clientResourceInfo st"
    "clientCallbackObjects st1 = clientCallbackObjects st" "deathRecipients st1 = deathRecipients st"
    "pendingBleConnections st1 = pendingBleConnections st"
    by (simp_all add: st1_def CancelUnloadTask_def)
  define apps where "apps = app_clients st u"
  define st2 where "st2 = st1\<lparr>appClientMap := AList.update u apps (appClientMap st1)\<rparr>"
  have a1: "app_clients st1 u' = app_clients st u'" for u' by (simp add: app_clients_def f1)
  have a2: "app_clients st2 u' = app_clients st u'" for u' by (simp add: app_clients_def st2_def f1 apps_def)
  have f2: "sc_clients st2 = sc_clients st" "deviceClientContexts st2 = deviceClientContexts st"
    "sent st2 = sent st" "manager st2 = manager st" "currentClientId st2 = currentClientId st" "clientResourceInfo st2 = clientResourceInfo st"
    "clientCallbackObjects st2 = clientCallbackObjects st" "deathRecipients st2 = deathRecipients st"
    "pendingBleConnections st2 = pendingBleConnections st"
    by (simp_all add: st2_def f1)
  have e2: "st1\<lparr>appClientMap := AList.update u apps (appClientMap st)\<rparr> = st2" by (simp add: st2_def f1)
  have i2: "service_inv st2" by (rule same_tables_inv [OF i1]) (simp_all add: f1 f2 a1 a2)
  show ?thesis
  proof (cases "valid \<and> client_room st u")
    case False
    then show ?thesis using assms i1 i2 f1 f2
      by (auto simp: CreateMidiInServer_def Let_def st1_def [symmetric] app_clients_def [symmetric] apps_def [symmetric]
          e2 client_room_def status_defs split: if_splits)
  next
    case True
    have "length (sc_clients st) < unat MAX_CLIENTID" using True by (simp add: client_room_def MAX_CLIENTS_def unat_MAX_CLIENTID)
    from NextClientId_finds [OF this] obtain c k where n: "NextClientId (length (sc_clients st) + 1) (sc_clients st) (currentClientId st) = Some c"
      "c \<notin> set (sc_clients st)" "c \<noteq> 0" using client_id_nonzero by metis
    define st3 where "st3 = st2\<lparr>currentClientId := c\<rparr>"
    have i3: "service_inv st3" by (rule same_tables_inv [OF i2]) (simp_all add: st3_def app_clients_def)
    define st4 where "st4 = st3\<lparr>clientCallbackObjects := set_add c (clientCallbackObjects st), deathRecipients := set_add c (deathRecipients st),
      sc_clients := set_add c (sc_clients st), clientResourceInfo := AList.update c (new_account u) (clientResourceInfo st),
      appClientMap := AList.update u (set_add c apps) (appClientMap st2)\<rparr>"
    have no: "find_key (clientResourceInfo st) c = None"
      using client_entry [of "{}" st c] assms(1) n(2) by (simp add: service_inv_def)
    have E: "CreateMidiInServer valid allocated added u st =
      (if \<not> (allocated \<and> added) then (OH_MIDI_STATUS_SYSTEM_ERROR, Some c, st3) else (OH_MIDI_STATUS_OK, Some c, st4))"
      using True n(1) no
      by (simp add: CreateMidiInServer_def Let_def st1_def [symmetric] f1 f2 app_clients_def [symmetric] apps_def [symmetric]
          e2 client_room_def not_le st3_def st4_def set_resource_def resource_of_def new_account_def default_ClientResourceInfo_def)
    have f4: "resource_of st4 c = new_account u" "app_clients st4 u = set_add c (app_clients st u)" "sc_clients st4 = set_add c (sc_clients st)"
      "deviceClientContexts st4 = deviceClientContexts st" "sent st4 = sent st" "manager st4 = manager st"
      by (simp_all add: app_clients_def [of st4] resource_of_def) (simp_all add: st4_def st3_def f2 apps_def)
    have m4: "appClientMap st4 = AList.update u (set_add c (app_clients st u)) (appClientMap st2)" by (simp add: st4_def apps_def)
    have i4: "service_inv st4"
    proof (rule add_client [OF assms(1) n(2)])
      show "length (sc_clients st) < MAX_CLIENTS" "length (app_clients st u) < MAX_CLIENTS_PER_APP" using True by (simp_all add: client_room_def)
      show "app_clients st4 u' = (if u' = u then set_add c (app_clients st u) else app_clients st u')" for u'
        using a2 [of u'] by (simp add: app_clients_def [of st4] app_clients_def [of st2] m4)
    qed (simp_all add: st4_def st3_def f2)
    have "c \<notin> set (app_clients st u)" using app_clientsD(3) [of st c u] assms(1) n(2) by (auto simp: service_inv_def)
    then show ?thesis
    proof (cases "allocated \<and> added")
      case True
      then have "ret = OH_MIDI_STATUS_OK" "cid = Some c" "st' = st4" using E assms(2) by simp_all
      then show ?thesis using True \<open>valid \<and> client_room st u\<close> i4 f4 n(2,3) \<open>c \<notin> set (app_clients st u)\<close>
        by (simp add: set_add_def)
    next
      case False
      then have "ret = OH_MIDI_STATUS_SYSTEM_ERROR" "st' = st3" using E assms(2) by auto
      then show ?thesis using False i3 by (simp add: status_defs) (simp add: st3_def f2)
    qed
  qed
qed

end
