(* ===== verification/Service_Ble.thy ===== *)
theory Service_Ble
  imports Service_Clients
begin

text \<open>
  Opening a Bluetooth device: what its arrival means for the clients that wait for it, and the invariant.
\<close>

section \<open>Bluetooth devices\<close>

lemma set_add_twice: "set_add d (set_add d xs) = set_add d xs"
  by (simp add: set_add_def)

lemma fold_open_for:
  "find_ctx (fold (\<lambda>c. open_for c d) cs st) = find_ctx st
   \<and> resource_of (fold (\<lambda>c. open_for c d) cs st) c =
       (if c \<in> set cs then (resource_of st c)\<lparr>openDevices := set_add d (openDevices (resource_of st c))\<rparr> else resource_of st c)
   \<and> has_key (clientResourceInfo (fold (\<lambda>c. open_for c d) cs st)) c = (has_key (clientResourceInfo st) c \<or> c \<in> set cs)
   \<and> (\<exists>r. fold (\<lambda>c. open_for c d) cs st = st\<lparr>clientResourceInfo := r\<rparr>)"
proof (induction cs arbitrary: st)
  case Nil
  have "st = st\<lparr>clientResourceInfo := clientResourceInfo st\<rparr>" by simp
  then show ?case by (auto intro: exI [of _ "clientResourceInfo st"])
next
  case (Cons c0 cs)
  have "find_ctx (open_for c0 d st) = find_ctx st" by (simp add: fun_eq_iff open_for_def Let_def ctl_simps)
  moreover have "\<exists>r. open_for c0 d st = st\<lparr>clientResourceInfo := r\<rparr>" by (auto simp: open_for_def Let_def set_resource_def)
  ultimately show ?case using Cons.IH [of "open_for c0 d st"]
    by (auto simp: open_for_def Let_def ctl_simps set_add_twice split: if_splits)
qed

lemma fold_set_add: "distinct ys \<Longrightarrow> distinct (fold set_add xs ys) \<and> set (fold set_add xs ys) = set xs \<union> set ys"
  by (induction xs arbitrary: ys) auto

text \<open>What a Bluetooth device that has come up means for those who waited and are still there.\<close>

definition ble_registered :: "int \<Rightarrow> u32 set \<Rightarrow> 'd MidiServiceController \<Rightarrow> 'd MidiServiceController \<Rightarrow> bool" where
  "ble_registered d cs st st' \<longleftrightarrow>
     (\<forall>d'. members (find_ctx st' d') = (if d' = d then members (find_ctx st d) \<union> cs else members (find_ctx st d')))
     \<and> (\<forall>c d'. ports_in c (find_ctx st' d') = ports_in c (find_ctx st d'))"

lemma Register_spec:
  assumes "tables_inv {} st" "RegisterBleDeviceForPendingClientsLocked addr d reqs st = (ok, st')"
  shows "tables_inv {} st' \<and> same_people st st' \<and> pendingBleConnections st' = pendingBleConnections st \<and> sent st' = sent st
     \<and> ok = (pb_clientId ` set reqs \<inter> set (sc_clients st) \<noteq> {})
     \<and> ble_registered d (pb_clientId ` set reqs \<inter> set (sc_clients st)) st st'
     \<and> find_key (activeBleDevices st') addr = Some d"
proof -
  define alive where "alive = filter (\<lambda>c. c \<in> set (sc_clients st)) (map pb_clientId reqs)"
  define cs where "cs = fold set_add alive []"
  have al: "set alive = pb_clientId ` set reqs \<inter> set (sc_clients st)" by (auto simp: alive_def)
  have cs: "distinct cs" "set cs = set alive" using fold_set_add [of "[]" alive] by (simp_all add: cs_def)
  define st1 where "st1 = st\<lparr>activeBleDevices := AList.update addr d (activeBleDevices st)\<rparr>"
  have s1: "sc_clients st1 = sc_clients st" by (simp add: st1_def)
  define st2 where "st2 = fold (\<lambda>c. open_for c d) alive st1"
  note F = fold_open_for [of d alive st1, folded st2_def]
  obtain r where r: "st2 = st1\<lparr>clientResourceInfo := r\<rparr>" using F by blast
  have u: "uid (resource_of st2 c) = uid (resource_of st c)" for c using F [of c] by (auto simp: st1_def ctl_simps)
  have st2: "find_ctx st2 d' = find_ctx st d'" "sc_clients st2 = sc_clients st" "same_people st st2" "sent st2 = sent st"
    "pendingBleConnections st2 = pendingBleConnections st" "deviceClientContexts st2 = deviceClientContexts st"
    "find_key (activeBleDevices st2) addr = Some d" for d'
    by (simp_all add: same_people_def u) (simp_all add: r st1_def find_ctx_def)
  define ctx where "ctx = (case find_ctx st d of Some ctx \<Rightarrow> ctx\<lparr>ctx_clients := fold set_add cs (ctx_clients ctx)\<rparr>
     | None \<Rightarrow> \<lparr>ctx_deviceId = d, ctx_clients = cs, inputConnections = [], outputConnections = []\<rparr>)"
  have E: "RegisterBleDeviceForPendingClientsLocked addr d reqs st = (if cs = [] then (False, st2) else (True, set_ctx d ctx st2))"
    by (simp add: RegisterBleDeviceForPendingClientsLocked_def Let_def alive_def [symmetric] cs_def [symmetric] st1_def [symmetric]
        s1 st2_def [symmetric] st2(1) ctx_def split: option.split)
  show ?thesis
  proof (cases "cs = []")
    case True
    then have a: "alive = []" using cs by simp
    then have "st2 = st1" by (simp add: st2_def)
    then show ?thesis using E assms st2 True a al by (simp add: ble_registered_def st1_def ctl_simps)
  next
    case False
    then have "alive \<noteq> []" using cs by auto
    have ports: "ctx_ports c ctx = ports_in c (find_ctx st d)" for c by (simp add: ctx_def split: option.split)
    have mem: "set (ctx_clients ctx) = set alive \<union> members (find_ctx st d)"
    proof (cases "find_ctx st d")
      case (Some ctx0)
      then show ?thesis using fold_set_add [of "ctx_clients ctx0" cs] ctx_okD [OF assms(1) Some] cs by (simp add: ctx_def ctx_ok_def)
    qed (simp add: ctx_def cs)
    have ok: "ctx_ok (sc_clients st) ctx"
    proof (cases "find_ctx st d")
      case (Some ctx0)
      then show ?thesis
        using fold_set_add [of "ctx_clients ctx0" cs] ctx_okD [OF assms(1) Some] cs al False by (auto simp: ctx_def ctx_ok_def)
    next
      case None
      then show ?thesis using cs al False by (auto simp: ctx_def ctx_ok_def ctx_ports_def)
    qed
    have "tables_inv {} (set_ctx d ctx st2)"
    proof (rule tables_inv_change [OF assms(1), where d = d and co = "Some ctx"])
      show "has_key (clientResourceInfo (set_ctx d ctx st2)) c \<longleftrightarrow> has_key (clientResourceInfo st) c" for c
        using F [of c] client_entry [OF assms(1), of c] al by (auto simp: ctl_simps st1_def)
    next
      fix c assume "c \<in> set (sc_clients st)" "d \<in> set (openDevices (resource_of st c)) \<longleftrightarrow> c \<in> members (find_ctx st d)"
        "distinct (openDevices (resource_of st c))" "unat (openPortCount (resource_of st c)) \<le> 64"
      then show "distinct (openDevices (resource_of (set_ctx d ctx st2) c))
       \<and> set (openDevices (resource_of (set_ctx d ctx st2) c)) = set (openDevices (resource_of st c)) - {d} \<union> (if c \<in> members (Some ctx) then {d} else {})
       \<and> unat (openPortCount (resource_of (set_ctx d ctx st2) c)) + card (ports_in c (find_ctx st d))
          = unat (openPortCount (resource_of st c)) + card (ports_in c (Some ctx))
       \<and> unat (openPortCount (resource_of (set_ctx d ctx st2) c)) \<le> 64"
        using F [of c] mem ports [of c] by (auto simp: ctl_simps st1_def)
    qed (use assms(1) st2 ok in \<open>simp_all add: ctl_simps tables_inv_def\<close>)
    moreover have "ble_registered d (set alive) st (set_ctx d ctx st2)"
      using mem ports by (auto simp: ble_registered_def ctl_simps st2)
    ultimately show ?thesis using E assms(2) False \<open>alive \<noteq> []\<close> al st2 by (auto simp: ctl_simps same_people_def)
  qed
qed

lemma service_invI: "tables_inv {} st' \<Longrightarrow> service_inv st \<Longrightarrow> same_people st st' \<Longrightarrow> pending_inv st' \<Longrightarrow> service_inv st'"
  unfolding service_inv_def using app_inv_same by blast

lemma TellWaiting_inv: "service_inv (TellWaiting reqs success devInfo st) = service_inv st"
  by (simp add: TellWaiting_def ctl_simps)

lemma HandleBleOpenComplete_inv:
  assumes "service_inv st"
  shows "service_inv (HandleBleOpenComplete drv addr success d devInfo st)"
proof -
  obtain reqs st1 where T: "TakeWaiting addr st = (reqs, st1)" by fastforce
  have i1: "service_inv st1" using TakeWaiting_inv assms T by blast
  obtain ok st2 where R: "RegisterBleDeviceForPendingClientsLocked addr d reqs st1 = (ok, st2)" by fastforce
  have "service_inv st2"
    using Register_spec [OF _ R] i1 by (intro service_inv_same [OF i1]) (simp_all add: service_inv_def)
  then show ?thesis using i1
    by (simp add: HandleBleOpenComplete_def T R TellWaiting_inv CloseManagerDevice_inv Let_def)
qed

lemma TryAttach_spec:
  assumes "tables_inv {} st" "c \<in> set (sc_clients st)" "TryAttachToActiveBleDevice c addr st = (found, st')"
  shows "tables_inv {} st' \<and> same_people st st' \<and> pendingBleConnections st' = pendingBleConnections st \<and> (found = None \<longrightarrow> st' = st)"
proof (cases "find_key (activeBleDevices st) addr")
  case (Some d)
  show ?thesis
  proof (cases "find_ctx st d")
    case s: (Some ctx)
    let ?st' = "open_for c d (set_ctx d (ctx\<lparr>ctx_clients := set_add c (ctx_clients ctx)\<rparr>) st)"
    have "tables_inv {} ?st' \<and> same_people st ?st'"
      by (rule join_device) (use assms s in \<open>auto simp: add_client_ok ctx_okD\<close>)
    moreover have "pendingBleConnections ?st' = pendingBleConnections st" by (simp add: open_for_def Let_def ctl_simps)
    moreover have "found \<noteq> None" "st' = ?st'" using assms(3) Some s by (auto simp: TryAttachToActiveBleDevice_def)
    ultimately show ?thesis by auto
  qed (use assms Some in \<open>simp add: TryAttachToActiveBleDevice_def\<close>)
qed (use assms in \<open>simp add: TryAttachToActiveBleDevice_def\<close>)

lemma service_inv_pending:
  assumes "service_inv st" "pending_inv (st\<lparr>pendingBleConnections := q\<rparr>)"
  shows "service_inv (st\<lparr>pendingBleConnections := q\<rparr>)"
  by (rule service_invI [OF _ assms(1) _ assms(2)]) (use assms(1) in \<open>simp_all add: service_inv_def ctl_simps\<close>)

lemma Enqueue_inv:
  assumes "service_inv st" "c \<in> set (sc_clients st)"
  shows "service_inv (snd (EnqueueBleConnectionRequest drv c addr callback st))"
proof -
  obtain ret m where M: "Manager_OpenBleDevice drv addr (manager st) = (ret, m)" by fastforce
  define reqs where "reqs = (case find_key (pendingBleConnections st) addr of Some reqs \<Rightarrow> reqs | None \<Rightarrow> []) @ [\<lparr>pb_clientId = c, pb_callback = callback\<rparr>]"
  define q where "q = AList.update addr reqs (pendingBleConnections st)"
  have p: "pending_inv st" using assms(1) by (simp add: service_inv_def)
  have old: "reqs' \<noteq> [] \<and> pb_clientId ` set reqs' \<subseteq> set (sc_clients st)" if "find_key (pendingBleConnections st) a = Some reqs'" for a reqs'
    using p that unfolding pending_inv_def by blast
  have r: "reqs \<noteq> [] \<and> pb_clientId ` set reqs \<subseteq> set (sc_clients st)"
    using old [of addr] assms(2) by (cases "find_key (pendingBleConnections st) addr") (simp_all add: reqs_def)
  have d: "distinct (keys_of q)" "distinct (keys_of (AList.delete addr q))"
    using p by (simp_all add: q_def pending_inv_def distinct_update distinct_delete)
  have f: "find_key q a = (if a = addr then Some reqs else find_key (pendingBleConnections st) a)" for a by (simp add: q_def)
  have "pending_inv (st\<lparr>pendingBleConnections := q\<rparr>)"
    using d r old by (simp add: pending_inv_def f del: map_of_eq_Some_iff split del: if_split) (metis option.inject)
  then have 1: "service_inv (st\<lparr>pendingBleConnections := q\<rparr>)" by (rule service_inv_pending [OF assms(1)])
  have "pending_inv (st\<lparr>pendingBleConnections := AList.delete addr q\<rparr>)"
    using d old by (auto simp: pending_inv_def f delete_conv' del: map_of_eq_Some_iff split: if_splits)
  then have 2: "service_inv (st\<lparr>pendingBleConnections := AList.delete addr q\<rparr>)" by (rule service_inv_pending [OF assms(1)])
  have e: "st\<lparr>pendingBleConnections := x, manager := m\<rparr> = st\<lparr>pendingBleConnections := x\<rparr>\<lparr>manager := m\<rparr>" for x by simp
  have "snd (EnqueueBleConnectionRequest drv c addr callback st) =
      (if find_key (pendingBleConnections st) addr \<noteq> None then st\<lparr>pendingBleConnections := q\<rparr>
       else if ret \<noteq> OH_MIDI_STATUS_OK then (st\<lparr>pendingBleConnections := AList.delete addr q\<rparr>)\<lparr>manager := m\<rparr>
       else (st\<lparr>pendingBleConnections := q\<rparr>)\<lparr>manager := m\<rparr>)"
    using M by (cases st) (auto simp: EnqueueBleConnectionRequest_def Let_def reqs_def q_def split: option.split)
  then show ?thesis using 1 2 by (simp add: service_inv_fields)
qed

lemma OpenBleDevice_inv:
  assumes "service_inv st"
  shows "service_inv (snd (OpenBleDevice drv c addr callback st))"
proof (cases "callback = None \<or> c \<notin> set (sc_clients st)")
  case False
  then obtain cb where cb: "callback = Some cb" "c \<in> set (sc_clients st)" by auto
  have t: "tables_inv {} st" using assms by (simp add: service_inv_def)
  obtain found st1 where A: "TryAttachToActiveBleDevice c addr st = (found, st1)" by fastforce
  note S = TryAttach_spec [OF t cb(2) A]
  then have "service_inv st1" by (intro service_inv_same [OF assms]) simp_all
  then show ?thesis using cb S Enqueue_inv [OF assms cb(2)] assms A
    by (cases found) (simp_all add: OpenBleDevice_def touch_client [OF t cb(2)] service_inv_fields)
qed (use assms in \<open>auto simp: OpenBleDevice_def split: option.splits\<close>)

section \<open>The manager's calls\<close>

lemma HandleManagerCall_inv: "service_inv st \<Longrightarrow> service_inv (HandleManagerCall drv call st)"
  by (simp add: HandleManagerCall_def HandleBleOpenComplete_inv NotifyDeviceChange_inv split: ManagerCall.split)

lemma with_manager_inv:
  assumes "service_inv st"
  shows "service_inv (with_manager drv f st)"
proof -
  obtain calls m where "f (manager st) = (calls, m)" by fastforce
  moreover have "service_inv (fold (HandleManagerCall drv) calls (st\<lparr>manager := m\<rparr>))"
    by (rule fold_inv) (use assms in \<open>simp_all add: HandleManagerCall_inv service_inv_fields\<close>)
  ultimately show ?thesis by (simp add: with_manager_def)
qed

end
