(* ===== verification/Service_Invariant.thy ===== *)
theory Service_Invariant
  imports Service_Ble
begin

text \<open>
  Destroying a client leaves nothing of it; every request keeps the invariant, so that it holds in every reachable state.
\<close>

section \<open>Destroying a client\<close>

text \<open>Closing a device in the manager may take devices and waiting clients away, never add any.\<close>

definition only_removes :: "'d MidiServiceController \<Rightarrow> 'd MidiServiceController \<Rightarrow> bool" where
  "only_removes st st' \<longleftrightarrow> same_people st st'
     \<and> (\<forall>d. find_ctx st' d = None \<or> find_ctx st' d = find_ctx st d)
     \<and> (\<forall>a q. find_key (pendingBleConnections st') a = Some q \<longrightarrow> find_key (pendingBleConnections st) a = Some q)"

lemma only_removes_refl [simp]: "only_removes st st"
  by (simp add: only_removes_def)

lemma only_removes_trans: "only_removes a b \<Longrightarrow> only_removes b c \<Longrightarrow> only_removes a c"
  unfolding only_removes_def by (metis same_people_trans)

lemma HandleCallWhileClosing_removes:
  assumes "service_inv st"
  shows "only_removes st (HandleCallWhileClosing call st)"
proof (cases call)
  case (BleOpenComplete addr success i devInfo)
  obtain reqs st1 where T: "TakeWaiting addr st = (reqs, st1)" by fastforce
  then obtain q where q: "st1 = st\<lparr>pendingBleConnections := q\<rparr>" using TakeWaiting_spec(1) by blast
  have "find_key (pendingBleConnections st1) a = Some r \<Longrightarrow> find_key (pendingBleConnections st) a = Some r" for a r
    using T by (auto simp: TakeWaiting_def split: option.splits if_splits)
  then have "only_removes st (TellWaiting reqs success devInfo st1)"
    by (simp add: only_removes_def q TellWaiting_def ctl_simps)
  then show ?thesis by (simp add: HandleCallWhileClosing_def BleOpenComplete T)
next
  case (NotifyChange change dev)
  have "tables_inv {} st" using assms by (simp add: service_inv_def)
  from NotifyDeviceChange_spec [OF this, of change dev] show ?thesis
    by (cases change) (simp_all add: HandleCallWhileClosing_def NotifyChange only_removes_def device_gone_def)
qed

lemma fold_removes:
  assumes "\<And>x st. service_inv st \<Longrightarrow> service_inv (f x st) \<and> only_removes st (f x st)" "service_inv st"
  shows "service_inv (fold f xs st) \<and> only_removes st (fold f xs st)"
  using assms(2)
proof (induction xs arbitrary: st)
  case (Cons x xs)
  then show ?case using assms(1) [OF Cons.prems] only_removes_trans by (metis fold_simps(2))
qed simp

lemma CloseManagerDevice_removes:
  assumes "service_inv st"
  shows "only_removes st (snd (CloseManagerDevice drv d st))"
proof -
  obtain ret calls m where M: "Manager_CloseDevice drv d (manager st) = (ret, calls, m)" using prod_cases3 by blast
  have "only_removes (st\<lparr>manager := m\<rparr>) (fold HandleCallWhileClosing calls (st\<lparr>manager := m\<rparr>))"
    using fold_removes [of HandleCallWhileClosing "st\<lparr>manager := m\<rparr>" calls] assms
    by (simp add: HandleCallWhileClosing_inv HandleCallWhileClosing_removes service_inv_fields)
  then show ?thesis by (simp add: CloseManagerDevice_def M only_removes_def ctl_simps)
qed

text \<open>Nothing of the client is left, and every other client keeps what it has on the devices that remain.\<close>

definition client_gone :: "u32 \<Rightarrow> 'd MidiServiceController \<Rightarrow> 'd MidiServiceController \<Rightarrow> bool" where
  "client_gone c st st' \<longleftrightarrow> sc_clients st' = set_remove c (sc_clients st)
     \<and> find_key (clientResourceInfo st') c = None \<and> (\<forall>u. c \<notin> set (app_clients st' u))
     \<and> c \<notin> set (clientCallbackObjects st') \<and> c \<notin> set (deathRecipients st')
     \<and> (\<forall>a q. find_key (pendingBleConnections st') a = Some q \<longrightarrow> c \<notin> pb_clientId ` set q)
     \<and> opened c st' = {} \<and> open_ports c st' = {}
     \<and> (\<forall>d. find_ctx st' d = None \<or>
          members (find_ctx st' d) = members (find_ctx st d) - {c} \<and> (\<forall>c'. c' \<noteq> c \<longrightarrow> ports_in c' (find_ctx st' d) = ports_in c' (find_ctx st d)))"

lemma gone_when_inv:
  assumes "service_inv st'" "c \<notin> set (sc_clients st')"
  shows "find_key (clientResourceInfo st') c = None" "c \<notin> set (app_clients st' u)"
    "c \<notin> set (clientCallbackObjects st')" "c \<notin> set (deathRecipients st')"
    "find_key (pendingBleConnections st') a = Some q \<Longrightarrow> c \<notin> pb_clientId ` set q"
    "opened c st' = {}" "open_ports c st' = {}"
proof -
  have t: "tables_inv {} st'" and a: "app_inv st'" and p: "pending_inv st'" using assms(1) by (simp_all add: service_inv_def)
  show "find_key (clientResourceInfo st') c = None" using client_entry [OF t, of c] assms(2) by simp
  show "c \<notin> set (app_clients st' u)" using app_clientsD(3) [OF a] assms(2) by blast
  show "c \<notin> set (clientCallbackObjects st')" "c \<notin> set (deathRecipients st')" using app_invD(3,4) [OF a] assms(2) by simp_all
  show "c \<notin> pb_clientId ` set q" if "find_key (pendingBleConnections st') a = Some q" for a q
    using p that assms(2) unfolding pending_inv_def by blast
  show "opened c st' = {}" "open_ports c st' = {}" using not_member [OF t assms(2)] by (simp_all add: opened_def open_ports_def)
qed


lemma tables_inv_less: "tables_inv {} st \<Longrightarrow> tables_inv X st"
  unfolding tables_inv_def by blast

lemma devices_of:
  assumes "tables_inv X st" "CollectDevicesForClientDestruction c st = (toClose, toClean)"
  shows "distinct toClean" "set toClean = opened c st"
proof -
  have d: "distinct (keys_of (deviceClientContexts st))" using assms(1) by (simp add: tables_inv_def)
  have e: "toClean = map fst (filter (\<lambda>p. c \<in> set (ctx_clients (snd p))) (deviceClientContexts st))"
    using assms(2) by (auto simp: CollectDevicesForClientDestruction_def Let_def)
  show "distinct toClean" unfolding e by (rule distinct_map_filter [OF d])
  have "d \<in> set toClean \<longleftrightarrow> d \<in> opened c st" for d
  proof (cases "find_key (deviceClientContexts st) d")
    case (Some ctx)
    then have "(d, ctx') \<in> set (deviceClientContexts st) \<longleftrightarrow> ctx' = ctx" for ctx' using d by (metis map_of_eq_Some_iff option.inject)
    then show ?thesis using Some by (force simp: e opened_def find_ctx_def)
  next
    case None
    then have "d \<notin> fst ` set (deviceClientContexts st)" by (simp add: map_of_eq_None_iff)
    moreover have "opened c st \<inter> {d} = {}" using None by (simp add: opened_def find_ctx_def)
    ultimately show ?thesis by (auto simp: e)
  qed
  then show "set toClean = opened c st" by blast
qed

text \<open>The tables when the client has left, before the devices that nobody uses any more are closed.\<close>

definition without_client :: "'d Drivers \<Rightarrow> u32 \<Rightarrow> int list \<Rightarrow> 'd MidiServiceController \<Rightarrow> 'd MidiServiceController" where
  "without_client drv c toClean st =
     (let st0 = st\<lparr>clientCallbackObjects := set_remove c (clientCallbackObjects st), deathRecipients := set_remove c (deathRecipients st)\<rparr>;
          st3 = RemovePendingBleConnectionsForClient c (CleanupClientResources c (uid (resource_of st c)) (fold (CleanupDeviceForClient drv c) toClean st0))
      in st3\<lparr>sc_clients := set_remove c (sc_clients st3)\<rparr>)"

lemma without_client_spec:
  assumes "service_inv st" "c \<in> set (sc_clients st)" "CollectDevicesForClientDestruction c st = (toClose, toClean)"
    "st4 = without_client drv c toClean st"
  shows "service_inv st4 \<and> sc_clients st4 = set_remove c (sc_clients st)
     \<and> (\<forall>d. members (find_ctx st4 d) = members (find_ctx st d) - {c})
     \<and> (\<forall>c' d. c' \<noteq> c \<longrightarrow> ports_in c' (find_ctx st4 d) = ports_in c' (find_ctx st d))"
proof -
  have t: "tables_inv {} st" and a: "app_inv st" and p: "pending_inv st" using assms(1) by (simp_all add: service_inv_def)
  define u where "u = uid (resource_of st c)"
  define st0 where "st0 = st\<lparr>clientCallbackObjects := set_remove c (clientCallbackObjects st), deathRecipients := set_remove c (deathRecipients st)\<rparr>"
  define st1 where "st1 = fold (CleanupDeviceForClient drv c) toClean st0"
  have f0: "find_ctx st0 d = find_ctx st d" "resource_of st0 c' = resource_of st c'" for d c'
    by (simp_all add: st0_def find_ctx_def resource_of_def)
  have "tables_inv {c} st0" by (rule tables_inv_cong [OF tables_inv_less [OF t]]) (simp_all add: st0_def)
  from CleanupDevices_spec [OF this, of c toClean drv]
  have S: "tables_inv {c} st1" "same_people st0 st1" "pendingBleConnections st1 = pendingBleConnections st0" "forgets c (opened c st) st0 st1"
    using devices_of [OF t assms(3)] by (simp_all add: st1_def opened_def f0)
  have none: "c \<notin> members (find_ctx st1 d)" for d
    using S(4) by (auto simp: forgets_def opened_def f0)
  obtain am where am: "CleanupClientResources c u st1 = st1\<lparr>clientResourceInfo := AList.delete c (clientResourceInfo st1), appClientMap := am\<rparr>"
    "\<And>u'. find_key am u' = (if u' = u then (case find_key (appClientMap st1) u of None \<Rightarrow> None
           | Some cs \<Rightarrow> if set_remove c cs = [] then None else Some (set_remove c cs)) else find_key (appClientMap st1) u')"
    using CleanupClientResources_spec [of c u st1] by auto
  have f4: "deviceClientContexts st4 = deviceClientContexts st1" "sc_clients st4 = set_remove c (sc_clients st1)"
    "clientResourceInfo st4 = AList.delete c (clientResourceInfo st1)" "appClientMap st4 = am"
    "clientCallbackObjects st4 = clientCallbackObjects st1" "deathRecipients st4 = deathRecipients st1"
    "pendingBleConnections st4 = pendingBleConnections (RemovePendingBleConnectionsForClient c st1)"
    by (simp_all add: assms(4) without_client_def Let_def st0_def [symmetric] st1_def [symmetric] u_def [symmetric] am(1)
        RemovePendingBleConnectionsForClient_def)
  have s1: "sc_clients st1 = sc_clients st" "appClientMap st1 = appClientMap st" "uid (resource_of st1 c') = uid (resource_of st c')"
    "clientCallbackObjects st1 = set_remove c (clientCallbackObjects st)" "deathRecipients st1 = set_remove c (deathRecipients st)" for c'
    using S(2) f0 by (simp_all add: same_people_def st0_def)
  have "tables_inv {} st4" by (rule delete_client [OF S(1) _ f4(1-3)]) (use none in blast)
  moreover have "app_inv st4"
    by (rule app_without_client [OF a assms(2) u_def]) (use s1 f4 am(2) in \<open>simp_all add: resource_of_def [of st4] resource_of_def [of st1]\<close>)
  moreover have "pending_inv st4"
    by (rule pending_without_client [OF p]) (simp_all add: f4 s1 RemovePendingBleConnectionsForClient_def S(3) st0_def)
  moreover have "find_ctx st4 = find_ctx st1" by (simp add: fun_eq_iff find_ctx_def f4)
  ultimately show ?thesis using S(4) by (auto simp: service_inv_def f4 s1 forgets_def f0 opened_def)
qed

lemma DestroyMidiClient_spec:
  assumes "service_inv st" "c \<in> set (sc_clients st)"
  shows "service_inv (snd (DestroyMidiClient drv c st)) \<and> fst (DestroyMidiClient drv c st) = OH_MIDI_STATUS_OK
     \<and> client_gone c st (snd (DestroyMidiClient drv c st))"
proof -
  have t: "tables_inv {} st" and a: "app_inv st" and p: "pending_inv st" using assms(1) by (simp_all add: service_inv_def)
  obtain toClose toClean where C: "CollectDevicesForClientDestruction c st = (toClose, toClean)" by fastforce
  define st4 where "st4 = without_client drv c toClean st"
  note W = without_client_spec [OF assms C st4_def]
  define st5 where "st5 = fold (\<lambda>d st. snd (CloseManagerDevice drv d st)) toClose st4"
  have R: "service_inv st5 \<and> only_removes st4 st5"
    unfolding st5_def using W by (intro fold_removes) (simp_all add: CloseManagerDevice_inv CloseManagerDevice_removes)
  then have s5: "sc_clients st5 = set_remove c (sc_clients st)" using W by (simp add: only_removes_def same_people_def)
  define st' where "st' = (if sc_clients st5 = [] then ScheduleUnloadTask st5 else st5)"
  have E: "DestroyMidiClient drv c st = (OH_MIDI_STATUS_OK, st')"
    using assms(2) app_invD(4) [OF a] C resource_exists [OF t assms(2)]
    by (simp add: DestroyMidiClient_def Let_def st'_def st5_def st4_def without_client_def)
  have i: "service_inv st'" using R by (simp add: st'_def ScheduleUnloadTask_inv)
  have f: "find_ctx st' d = find_ctx st5 d" "sc_clients st' = sc_clients st5" for d
    by (simp_all add: st'_def ScheduleUnloadTask_def find_ctx_def Let_def)
  have rest: "find_ctx st' d = None \<or> members (find_ctx st' d) = members (find_ctx st d) - {c}
      \<and> (\<forall>c'. c' \<noteq> c \<longrightarrow> ports_in c' (find_ctx st' d) = ports_in c' (find_ctx st d))" for d
    using R W by (simp add: f only_removes_def) metis
  have "c \<notin> set (sc_clients st')" by (simp add: f s5)
  note G = gone_when_inv [OF i this]
  have "client_gone c st st'" using G rest by (simp add: client_gone_def f s5 del: not_None_eq)
  then show ?thesis using i by (simp add: E)
qed

section \<open>Every request keeps the invariant\<close>

lemma FlushClientCache_has: "HasClientConnection c' (FlushClientCache c conn) = HasClientConnection c' conn"
proof -
  have "map conn_clientId (clients (FlushClientCache c conn)) = map conn_clientId (clients conn)"
    by (simp add: FlushClientCache_def Conn_Flush_def)
  then have "conn_clientId ` set (clients (FlushClientCache c conn)) = conn_clientId ` set (clients conn)" by (metis list.set_map)
  then show ?thesis by (simp add: HasClientConnection_iff)
qed

lemma FlushOutputPort_inv:
  assumes "service_inv st"
  shows "service_inv (snd (FlushOutputPort c d p st))"
proof (cases "c \<in> set (sc_clients st) \<and> find_ctx st d \<noteq> None \<and> c \<in> set (ctx_clients (the (find_ctx st d)))
    \<and> find_key (outputConnections (the (find_ctx st d))) p \<noteq> None")
  case True
  then obtain ctx conn where k: "c \<in> set (sc_clients st)" "find_ctx st d = Some ctx" "c \<in> set (ctx_clients ctx)"
    "find_key (outputConnections ctx) p = Some conn" by auto
  define m where "m = AList.update p (FlushClientCache c conn) (outputConnections ctx)"
  have t: "tables_inv {} st" using assms by (simp add: service_inv_def)
  have u: "users_of HasClientConnection m = out_users ctx"
    using k(4) by (auto simp: m_def users_of_def FlushClientCache_has split: if_splits)
  have a: "all_used HasClientConnection m" if "all_used HasClientConnection (outputConnections ctx)"
    using k(4) that by (auto simp: m_def all_used_def FlushClientCache_has simp del: map_of_eq_Some_iff split: if_splits)
  have p: "ctx_ports c' (ctx\<lparr>outputConnections := m\<rparr>) = ctx_ports c' ctx" for c' by (simp add: ctx_ports_def u)
  have ok: "ctx_ok (sc_clients st) (ctx\<lparr>outputConnections := m\<rparr>)"
    using ctx_okD [OF t k(2)] a by (simp add: ctx_ok_def p) (simp add: m_def distinct_update)
  have "tables_inv {} (set_ctx d (ctx\<lparr>outputConnections := m\<rparr>) st)"
    by (rule tables_inv_change [OF t, where d = d and co = "Some (ctx\<lparr>outputConnections := m\<rparr>)"])
      (use t ok k(2) p in \<open>auto simp: ctl_simps tables_inv_def\<close>)
  then have "service_inv (set_ctx d (ctx\<lparr>outputConnections := m\<rparr>) st)"
    by (rule service_inv_same [OF assms]) (simp_all add: same_people_def ctl_simps)
  then show ?thesis using k by (simp add: FlushOutputPort_def m_def)
qed (use assms in \<open>auto simp: FlushOutputPort_def split: option.splits\<close>)

lemma close_outcome_inv: "service_inv st \<Longrightarrow> close_outcome {} c d S st st' \<Longrightarrow> service_inv st'"
  unfolding close_outcome_def using service_inv_same by blast

lemma port_outcome_inv: "service_inv st \<Longrightarrow> port_outcome {} c d x ret st st' \<Longrightarrow> service_inv st'"
  unfolding port_outcome_def using service_inv_same by blast

lemma serve_inv:
  assumes "service_inv st"
  shows "service_inv (snd (serve drv req st))"
proof -
  have t: "tables_inv {} st" using assms by (simp add: service_inv_def)
  show ?thesis
  proof (cases req)
    case (Create valid allocated added u)
    obtain ret cid st' where "CreateMidiInServer valid allocated added u st = (ret, cid, st')" using prod_cases3 by blast
    then show ?thesis using CreateMidiInServer_spec [OF assms] by (simp add: serve_def Create)
  next
    case (Open env c d)
    obtain ret st' where O: "OpenDevice drv env c d st = (ret, st')" by fastforce
    have "service_inv st'" by (rule service_inv_same [OF assms]) (use OpenDevice_tables [OF t O] in simp_all)
    then show ?thesis by (simp add: serve_def Open O)
  next
    case (OpenInput env c d p)
    obtain ret st' where "OpenInputPort drv env c d p st = (ret, st')" by fastforce
    then show ?thesis using port_outcome_inv [OF assms OpenInputPort_spec [OF t]] by (simp add: serve_def OpenInput)
  next
    case (OpenOutput env c d p)
    obtain ret st' where "OpenOutputPort drv env c d p st = (ret, st')" by fastforce
    then show ?thesis using port_outcome_inv [OF assms OpenOutputPort_spec [OF t]] by (simp add: serve_def OpenOutput)
  next
    case (CloseInput c d p)
    then show ?thesis using close_outcome_inv [OF assms CloseInputPortInner_spec [OF t]] assms
      by (simp add: serve_def CloseInputPort_def)
  next
    case (CloseOutput c d p)
    then show ?thesis using close_outcome_inv [OF assms CloseOutputPortInner_spec [OF t]] assms
      by (simp add: serve_def CloseOutputPort_def)
  next
    case (Destroy c)
    then show ?thesis using DestroyMidiClient_spec [OF assms, of c drv] assms
      by (cases "c \<in> set (sc_clients st)") (simp_all add: serve_def, simp add: DestroyMidiClient_def)
  qed (use assms in \<open>simp_all add: serve_def OpenBleDevice_inv CloseDevice_inv FlushOutputPort_inv with_manager_inv NotifyError_def
      service_inv_fields\<close>)
qed

lemma init_inv: "service_inv (new_MidiServiceController drv_state)"
  by (simp add: service_inv_def tables_inv_def app_inv_def pending_inv_def new_MidiServiceController_def find_ctx_def)

lemma reachable_inv: "reachable drv st \<Longrightarrow> service_inv st"
proof (induction rule: reachable.induct)
  case (init d)
  show ?case by (rule init_inv)
next
  case (step st st')
  from step(2) show ?case by (rule service_stepE) (metis serve_inv snd_conv step.IH)
qed

end
