(* ===== verification/Service_Drivers.thy ===== *)
theory Service_Drivers
  imports Service_Invariant
begin

text \<open>
  What the service's operations do to the devices themselves, through the manager and the drivers: what opening a port asks of
  the driver and takes back when it fails, what closing a device and destroying a client close, and what the manager's
  calls while it closes devices do to the other tables. Every statement here is exact, so that an operation that
  left the hardware open, or touched the requests of another client, would not satisfy it.
\<close>

lemma account: "service_inv st \<Longrightarrow> c \<in> set (sc_clients st) \<Longrightarrow>
    account_ok (resource_of st c) (opened c st) (card (open_ports c st))"
  by (simp add: service_inv_def tables_inv_def)

lemma open_count: "service_inv st \<Longrightarrow> c \<in> set (sc_clients st) \<Longrightarrow> length (openDevices (resource_of st c)) = card (opened c st)"
  using account [of st c] distinct_card by (fastforce simp: account_ok_def)

section \<open>Opening a port\<close>

text \<open>The driver's part of opening and of closing a port, through the manager.\<close>

definition driver_opens ::
  "MidiPortDirection \<Rightarrow> 'd Drivers \<Rightarrow> int \<Rightarrow> u32 \<Rightarrow> 'd MidiDeviceManager \<Rightarrow> int \<times> 'd MidiDeviceManager" where
  "driver_opens dir drv d p m =
     (case dir of
        INPUT \<Rightarrow> (case Manager_OpenInputPort drv d p m of (r, _, m') \<Rightarrow> (r, m'))
      | OUTPUT \<Rightarrow> (case Manager_OpenOutputPort drv d p m of (r, _, m') \<Rightarrow> (r, m')))"

definition driver_closes ::
  "MidiPortDirection \<Rightarrow> 'd Drivers \<Rightarrow> int \<Rightarrow> u32 \<Rightarrow> 'd MidiDeviceManager \<Rightarrow> 'd MidiDeviceManager" where
  "driver_closes dir drv d p m =
     (case dir of INPUT \<Rightarrow> snd (Manager_CloseInputPort drv d p m) | OUTPUT \<Rightarrow> snd (Manager_CloseOutputPort drv d p m))"

text \<open>What an operation that opens a port needs of the system: memory for a ring (64 bytes and 2048), and for an output port a
  duplicate of the descriptor and, when its thread has to be started, what the thread needs.\<close>

definition thread_starts :: "SetupCalls \<Rightarrow> bool" where
  "thread_starts os \<longleftrightarrow> 0 \<le> r_eventfd os \<and> 0 \<le> r_timerfd os \<and> 0 \<le> r_epoll os \<and> r_ctl_notify os = 0 \<and> r_ctl_timer os = 0"

definition system_provides :: "MidiPortDirection \<Rightarrow> bool \<Rightarrow> ServiceEnv \<Rightarrow> bool" where
  "system_provides dir first env \<longleftrightarrow> env_map env (-1) 2112 \<noteq> None
     \<and> (dir = OUTPUT \<longrightarrow> 0 \<le> env_dup env \<and> (first \<longrightarrow> thread_starts (env_setup env)))"

definition port_allowed :: "ServiceEnv \<Rightarrow> u32 \<Rightarrow> int \<Rightarrow> 'd MidiServiceController \<Rightarrow> bool" where
  "port_allowed env c d st \<longleftrightarrow> c \<in> set (sc_clients st) \<and> c \<in> members (find_ctx st d)
     \<and> \<not> (IsBluetoothDevice d st \<and> \<not> env_permission env) \<and> card (open_ports c st) < 64"

definition port_unused :: "MidiPortDirection \<times> u32 \<Rightarrow> DeviceClientContext option \<Rightarrow> bool" where
  "port_unused x co \<longleftrightarrow> (\<forall>c. x \<notin> ports_in c co)"

lemma CreateRingBuffer_ok: "fst (CreateRingBuffer f fd conn) = OH_MIDI_STATUS_OK \<longleftrightarrow> f (-1) 2112 \<noteq> None"
  by (auto simp: CreateRingBuffer_def CreateFromLocal_def Init_def totalMemorySize_def SIZEOF_CONTROL_def
      DEFAULT_RING_BUFFER_SIZE_def MAX_MMAP_BUFFER_SIZE_def MidiSharedMemory_Init_def OH_INVALID_FD_def status_defs split: option.split)

lemma add_input_ok: "fst (AddClientConnection f c d conn) = OH_MIDI_STATUS_OK \<longleftrightarrow> f (-1) 2112 \<noteq> None"
  using CreateRingBuffer_ok [of f "-1" "new_ClientConnection c d (info_portIndex (info conn))"]
  by (auto simp: AddClientConnection_def status_defs split: prod.split)

lemma add_output_ok: "fst (AddClientConnectionForOutput f fd c d conn) = OH_MIDI_STATUS_OK \<longleftrightarrow> 0 \<le> fd \<and> f (-1) 2112 \<noteq> None"
  using CreateRingBuffer_ok [of f fd "new_ClientConnection c d (info_portIndex (info conn))"]
  by (auto simp: AddClientConnectionForOutput_def status_defs split: prod.split)

lemma Start_ok: "\<not> running dc \<Longrightarrow> fst (Start os dc) = OH_MIDI_STATUS_OK \<longleftrightarrow> thread_starts os"
  by (auto simp: Start_def InitEpollAndFds_def thread_starts_def status_defs Let_def)

lemma Manager_OpenOutputPort_stopped:
  "Manager_OpenOutputPort drv d p m = (OH_MIDI_STATUS_OK, conn, m') \<Longrightarrow> \<not> running (the conn)"
  by (auto simp: Manager_OpenOutputPort_def status_defs Let_def new_DeviceConnection_def
     new_DeviceConnectionForOutput_def DeviceConnection.defs split: option.splits prod.splits)

lemma PortGuard_allowed:
  assumes "service_inv st" "PortGuard env c d st = (ret, co, st1)"
  shows "st1 = st \<and> (if port_allowed env c d st then \<exists>ctx. co = Some ctx \<and> find_ctx st d = Some ctx \<and> openPortCount (resource_of st c) < 64
     else co = None \<and> ret \<noteq> OH_MIDI_STATUS_OK)"
proof (cases "c \<in> set (sc_clients st)")
  case True
  have "touch_resource c st = st" using touch_client [of "{}" st c] assms(1) True by (simp add: service_inv_def)
  moreover have "unat (openPortCount (resource_of st c)) = card (open_ports c st)"
    using account [OF assms(1) True] by (simp add: account_ok_def)
  then have "openPortCount (resource_of st c) < 64 \<longleftrightarrow> card (open_ports c st) < 64" by (simp add: word_less_nat_alt)
  ultimately show ?thesis using assms(2) True
    by (cases "find_ctx st d")
      (auto simp: PortGuard_def port_allowed_def MAX_PORTS_PER_CLIENT_def status_defs Let_def not_le [symmetric] split: if_splits)
qed (use assms in \<open>auto simp: PortGuard_def port_allowed_def status_defs\<close>)

lemma unused_None:
  assumes "service_inv st" "find_ctx st d = Some ctx"
  shows "port_unused (INPUT, p) (find_ctx st d) \<longleftrightarrow> find_key (inputConnections ctx) p = None"
    "port_unused (OUTPUT, p) (find_ctx st d) \<longleftrightarrow> find_key (outputConnections ctx) p = None"
proof -
  have ok: "ctx_ok (sc_clients st) ctx" using ctx_okD [of "{}" st d ctx] assms by (simp add: service_inv_def)
  show "port_unused (INPUT, p) (find_ctx st d) \<longleftrightarrow> find_key (inputConnections ctx) p = None"
    using ok in_users_Some(1) [of ctx p] in_users_None(1) [of ctx p] assms(2)
    by (cases "find_key (inputConnections ctx) p") (auto simp: port_unused_def in_ports_iff ctx_ok_def all_used_def)
  show "port_unused (OUTPUT, p) (find_ctx st d) \<longleftrightarrow> find_key (outputConnections ctx) p = None"
    using ok in_users_Some(2) [of ctx p] in_users_None(2) [of ctx p] assms(2)
    by (cases "find_key (outputConnections ctx) p") (auto simp: port_unused_def in_ports_iff ctx_ok_def all_used_def)
qed

text \<open>The result and the driver's part of opening a port.\<close>

definition open_driver ::
  "MidiPortDirection \<Rightarrow> 'd Drivers \<Rightarrow> ServiceEnv \<Rightarrow> u32 \<Rightarrow> int \<Rightarrow> u32 \<Rightarrow> 'd MidiServiceController \<Rightarrow> int \<Rightarrow> 'd MidiServiceController \<Rightarrow> bool" where
  "open_driver dir drv env c d p st ret st' \<longleftrightarrow>
     (let first = port_unused (dir, p) (find_ctx st d); (r, m) = driver_opens dir drv d p (manager st)
      in (ret = OH_MIDI_STATUS_OK \<longleftrightarrow> port_allowed env c d st \<and> (dir, p) \<notin> ports_in c (find_ctx st d)
            \<and> (first \<longrightarrow> r = OH_MIDI_STATUS_OK) \<and> system_provides dir first env)
         \<and> manager st' = (if \<not> (port_allowed env c d st \<and> first) then manager st
              else if r \<noteq> OH_MIDI_STATUS_OK \<or> ret = OH_MIDI_STATUS_OK then m else driver_closes dir drv d p m)
         \<and> (ret \<noteq> OH_MIDI_STATUS_OK \<longrightarrow> st' = st\<lparr>manager := manager st'\<rparr>))"

lemma OpenInput_driver:
  assumes "service_inv st" "OpenInputPort drv env c d p st = (ret, st')"
  shows "open_driver INPUT drv env c d p st ret st'"
proof -
  obtain g co st1 where G: "PortGuard env c d st = (g, co, st1)" using prod_cases3 by blast
  note gc = PortGuard_allowed [OF assms(1) G]
  obtain r conn m where M: "Manager_OpenInputPort drv d p (manager st) = (r, conn, m)" using prod_cases3 by blast
  show ?thesis
  proof (cases "port_allowed env c d st")
    case False
    then show ?thesis using gc assms(2) G M by (auto simp: OpenInputPort_def open_driver_def driver_opens_def Let_def)
  next
    case True
    then obtain ctx where ctx: "co = Some ctx" "find_ctx st d = Some ctx" and n: "\<not> 64 \<le> openPortCount (resource_of st c)"
      using gc by (auto simp: not_le)
    note u = unused_None(1) [OF assms(1) ctx(2), of p]
    show ?thesis
    proof (cases "find_key (inputConnections ctx) p")
      case None
      obtain r2 conn2 where A: "AddClientConnection (env_map env) c d (the conn) = (r2, conn2)" by fastforce
      have r2: "r2 = OH_MIDI_STATUS_OK \<longleftrightarrow> env_map env (-1) 2112 \<noteq> None" using add_input_ok [of "env_map env" c d "the conn"] A by simp
      have np: "(INPUT, p) \<notin> ctx_ports c ctx" using None by (simp add: in_ports_iff in_users_None)
      have "(ret, st') = CreateNewInputPortConnection drv env c d p ctx st" using assms(2) G gc ctx None by (simp add: OpenInputPort_def)
      then show ?thesis using True u None M A r2 np ctx
        by (auto simp: CreateNewInputPortConnection_def open_driver_def driver_opens_def driver_closes_def system_provides_def
            count_port_def ctl_simps Let_def split: if_splits)
    next
      case (Some conn0)
      obtain r2 conn2 where A: "AddClientConnection (env_map env) c d conn0 = (r2, conn2)" by fastforce
      have r2: "r2 = OH_MIDI_STATUS_OK \<longleftrightarrow> env_map env (-1) 2112 \<noteq> None" using add_input_ok [of "env_map env" c d conn0] A by simp
      have e: "r2 \<noteq> OH_MIDI_STATUS_OK \<Longrightarrow> conn2 = conn0" using inp.add_fail [OF A] by blast
      have np: "(INPUT, p) \<in> ctx_ports c ctx \<longleftrightarrow> HasClientConnection c conn0" using Some by (simp add: in_ports_iff in_users_Some)
      have "(ret, st') = ConnectToExistingInputPort env c d p ctx conn0 st" using assms(2) G gc ctx Some by (simp add: OpenInputPort_def)
      then show ?thesis using True u Some M A r2 np ctx n e
        by (auto simp: ConnectToExistingInputPort_def MAX_PORTS_PER_CLIENT_def open_driver_def driver_opens_def system_provides_def
            count_port_def ctl_simps update_triv set_ctx_same status_defs Let_def split: if_splits)
    qed
  qed
qed

lemma OpenOutput_driver:
  assumes "service_inv st" "OpenOutputPort drv env c d p st = (ret, st')"
  shows "open_driver OUTPUT drv env c d p st ret st'"
proof -
  obtain g co st1 where G: "PortGuard env c d st = (g, co, st1)" using prod_cases3 by blast
  note gc = PortGuard_allowed [OF assms(1) G]
  obtain r conn m where M: "Manager_OpenOutputPort drv d p (manager st) = (r, conn, m)" using prod_cases3 by blast
  show ?thesis
  proof (cases "port_allowed env c d st")
    case False
    then show ?thesis using gc assms(2) G M by (auto simp: OpenOutputPort_def open_driver_def driver_opens_def Let_def)
  next
    case True
    then obtain ctx where ctx: "co = Some ctx" "find_ctx st d = Some ctx" and n: "\<not> 64 \<le> openPortCount (resource_of st c)"
      using gc by (auto simp: not_le)
    note u = unused_None(2) [OF assms(1) ctx(2), of p]
    show ?thesis
    proof (cases "find_key (outputConnections ctx) p")
      case None
      obtain r1 conn1 where S: "Start (env_setup env) (the conn) = (r1, conn1)" by fastforce
      obtain r2 conn2 where A: "AddClientConnectionForOutput (env_map env) (env_dup env) c d conn1 = (r2, conn2)" by fastforce
      have r1: "r = OH_MIDI_STATUS_OK \<Longrightarrow> r1 = OH_MIDI_STATUS_OK \<longleftrightarrow> thread_starts (env_setup env)"
        using Start_ok [of "the conn" "env_setup env"] Manager_OpenOutputPort_stopped M S by fastforce
      have r2: "r2 = OH_MIDI_STATUS_OK \<longleftrightarrow> 0 \<le> env_dup env \<and> env_map env (-1) 2112 \<noteq> None"
        using add_output_ok [of "env_map env" "env_dup env" c d conn1] A by simp
      have np: "(OUTPUT, p) \<notin> ctx_ports c ctx" using None by (simp add: in_ports_iff in_users_None)
      have "(ret, st') = CreateNewOutputPortConnection drv env c d p ctx st" using assms(2) G gc ctx None by (simp add: OpenOutputPort_def)
      then show ?thesis using True u None M S A r1 r2 np ctx
        by (auto simp: CreateNewOutputPortConnection_def open_driver_def driver_opens_def driver_closes_def system_provides_def
            count_port_def ctl_simps Let_def split: if_splits)
    next
      case (Some conn0)
      obtain r2 conn2 where A: "AddClientConnectionForOutput (env_map env) (env_dup env) c d conn0 = (r2, conn2)" by fastforce
      have r2: "r2 = OH_MIDI_STATUS_OK \<longleftrightarrow> 0 \<le> env_dup env \<and> env_map env (-1) 2112 \<noteq> None"
        using add_output_ok [of "env_map env" "env_dup env" c d conn0] A by simp
      have e: "r2 \<noteq> OH_MIDI_STATUS_OK \<Longrightarrow> conn2 = conn0" using outp.add_fail [OF A] by blast
      have np: "(OUTPUT, p) \<in> ctx_ports c ctx \<longleftrightarrow> HasClientConnection c conn0" using Some by (simp add: in_ports_iff in_users_Some)
      have "(ret, st') = ConnectToExistingOutputPort env c d p ctx conn0 st" using assms(2) G gc ctx Some by (simp add: OpenOutputPort_def)
      then show ?thesis using True u Some M A r2 np ctx n e
        by (auto simp: ConnectToExistingOutputPort_def MAX_PORTS_PER_CLIENT_def open_driver_def driver_opens_def system_provides_def
            count_port_def ctl_simps update_triv set_ctx_same status_defs Let_def split: if_splits)
    qed
  qed
qed

section \<open>What is closed in the driver\<close>

text \<open>The ports of a device that only the client \<open>c\<close> uses are closed in the driver when \<open>c\<close> leaves, the input ports first.\<close>

definition sole_user :: "u32 \<Rightarrow> 'a DeviceConnection_scheme option \<Rightarrow> bool" where
  "sole_user c co = (case co of None \<Rightarrow> False
     | Some conn \<Rightarrow> HasClientConnection c conn \<and> IsEmptyClientConnections (RemoveClientConnection c conn))"

definition ports_closed :: "'d Drivers \<Rightarrow> u32 \<Rightarrow> int \<Rightarrow> DeviceClientContext \<Rightarrow> 'd MidiDeviceManager \<Rightarrow> 'd MidiDeviceManager" where
  "ports_closed drv c d ctx m =
     (let m = fold (driver_closes INPUT drv d) (filter (\<lambda>p. sole_user c (find_key (inputConnections ctx) p)) (keys_of (inputConnections ctx))) m
      in fold (driver_closes OUTPUT drv d) (filter (\<lambda>p. sole_user c (find_key (outputConnections ctx) p)) (keys_of (outputConnections ctx))) m)"

lemma sole_user_alone: "sole_user c (Some conn) \<longleftrightarrow> (\<forall>c'. HasClientConnection c' conn \<longleftrightarrow> c' = c)"
  by (auto simp: sole_user_def HasClientConnection_iff RemoveClientConnection_def IsEmptyClientConnections_def filter_empty_conv)

text \<open>What closing ports leaves as it is: the other entries, and in this entry the clients and the ports that are not closed.\<close>

definition entry_kept :: "int \<Rightarrow> DeviceClientContext \<Rightarrow> DeviceClientContext \<Rightarrow> 'd MidiServiceController \<Rightarrow> 'd MidiServiceController \<Rightarrow> bool" where
  "entry_kept d ctx ctx' st st' \<longleftrightarrow> find_ctx st' d = Some ctx' \<and> ctx_clients ctx' = ctx_clients ctx
     \<and> (\<forall>d'. d' \<noteq> d \<longrightarrow> find_ctx st' d' = find_ctx st d')"

lemma CloseInputPortInner_driver:
  assumes "find_ctx st d = Some ctx" "c \<in> set (ctx_clients ctx)"
  shows "manager (snd (CloseInputPortInner drv c d p st))
      = (if sole_user c (find_key (inputConnections ctx) p) then driver_closes INPUT drv d p (manager st) else manager st)
    \<and> (\<exists>ctx'. entry_kept d ctx ctx' st (snd (CloseInputPortInner drv c d p st)) \<and> outputConnections ctx' = outputConnections ctx
        \<and> (\<forall>q. q \<noteq> p \<longrightarrow> find_key (inputConnections ctx') q = find_key (inputConnections ctx) q))"
  using assms
  by (cases "find_key (inputConnections ctx) p")
    (auto simp: CloseInputPortInner_def sole_user_def driver_closes_def entry_kept_def uncount_port_def ctl_simps Let_def split: prod.split)

lemma CloseOutputPortInner_driver:
  assumes "find_ctx st d = Some ctx" "c \<in> set (ctx_clients ctx)"
  shows "manager (snd (CloseOutputPortInner drv c d p st))
      = (if sole_user c (find_key (outputConnections ctx) p) then driver_closes OUTPUT drv d p (manager st) else manager st)
    \<and> (\<exists>ctx'. entry_kept d ctx ctx' st (snd (CloseOutputPortInner drv c d p st))
        \<and> (\<forall>q. q \<noteq> p \<longrightarrow> find_key (outputConnections ctx') q = find_key (outputConnections ctx) q))"
  using assms
  by (cases "find_key (outputConnections ctx) p")
    (auto simp: CloseOutputPortInner_def sole_user_def driver_closes_def entry_kept_def uncount_port_def ctl_simps Let_def split: prod.split)

lemma entry_kept_trans: "entry_kept d a b st st1 \<Longrightarrow> entry_kept d b e st1 st2 \<Longrightarrow> entry_kept d a e st st2"
  by (auto simp: entry_kept_def)

lemma entry_kept_refl: "find_ctx st d = Some ctx \<Longrightarrow> entry_kept d ctx ctx st st"
  by (simp add: entry_kept_def)

lemma close_inputs_driver:
  assumes "find_ctx st d = Some ctx" "c \<in> set (ctx_clients ctx)" "distinct ps"
  shows "manager (fold (\<lambda>p st. snd (CloseInputPortInner drv c d p st)) ps st)
      = fold (driver_closes INPUT drv d) (filter (\<lambda>p. sole_user c (find_key (inputConnections ctx) p)) ps) (manager st)
    \<and> (\<exists>ctx'. entry_kept d ctx ctx' st (fold (\<lambda>p st. snd (CloseInputPortInner drv c d p st)) ps st)
        \<and> outputConnections ctx' = outputConnections ctx)"
  using assms
proof (induction ps arbitrary: st ctx)
  case Nil
  then show ?case by (auto intro: entry_kept_refl)
next
  case (Cons p ps)
  define st1 where "st1 = snd (CloseInputPortInner drv c d p st)"
  obtain ctx1 where 1: "manager st1 = (if sole_user c (find_key (inputConnections ctx) p) then driver_closes INPUT drv d p (manager st) else manager st)"
    "entry_kept d ctx ctx1 st st1" "outputConnections ctx1 = outputConnections ctx"
    "\<And>q. q \<noteq> p \<Longrightarrow> find_key (inputConnections ctx1) q = find_key (inputConnections ctx) q"
    using CloseInputPortInner_driver [OF Cons.prems(1,2), of drv p] unfolding st1_def by blast
  have "find_ctx st1 d = Some ctx1" "c \<in> set (ctx_clients ctx1)" "distinct ps"
    using 1(2) Cons.prems(2,3) by (simp_all add: entry_kept_def)
  note I = Cons.IH [OF this]
  have "filter (\<lambda>q. sole_user c (find_key (inputConnections ctx1) q)) ps = filter (\<lambda>q. sole_user c (find_key (inputConnections ctx) q)) ps"
    using Cons.prems(3) by (intro filter_cong refl arg_cong [of _ _ "sole_user c"] 1(4)) auto
  then show ?case using I 1 entry_kept_trans [OF 1(2)] by (auto simp: st1_def [symmetric])
qed

lemma close_outputs_driver:
  assumes "find_ctx st d = Some ctx" "c \<in> set (ctx_clients ctx)" "distinct ps"
  shows "manager (fold (\<lambda>p st. snd (CloseOutputPortInner drv c d p st)) ps st)
      = fold (driver_closes OUTPUT drv d) (filter (\<lambda>p. sole_user c (find_key (outputConnections ctx) p)) ps) (manager st)
    \<and> (\<exists>ctx'. entry_kept d ctx ctx' st (fold (\<lambda>p st. snd (CloseOutputPortInner drv c d p st)) ps st))"
  using assms
proof (induction ps arbitrary: st ctx)
  case Nil
  then show ?case by (auto intro: entry_kept_refl)
next
  case (Cons p ps)
  define st1 where "st1 = snd (CloseOutputPortInner drv c d p st)"
  obtain ctx1 where 1: "manager st1 = (if sole_user c (find_key (outputConnections ctx) p) then driver_closes OUTPUT drv d p (manager st) else manager st)"
    "entry_kept d ctx ctx1 st st1"
    "\<And>q. q \<noteq> p \<Longrightarrow> find_key (outputConnections ctx1) q = find_key (outputConnections ctx) q"
    using CloseOutputPortInner_driver [OF Cons.prems(1,2), of drv p] unfolding st1_def by blast
  have "find_ctx st1 d = Some ctx1" "c \<in> set (ctx_clients ctx1)" "distinct ps"
    using 1(2) Cons.prems(2,3) by (simp_all add: entry_kept_def)
  note I = Cons.IH [OF this]
  have "filter (\<lambda>q. sole_user c (find_key (outputConnections ctx1) q)) ps = filter (\<lambda>q. sole_user c (find_key (outputConnections ctx) q)) ps"
    using Cons.prems(3) by (intro filter_cong refl arg_cong [of _ _ "sole_user c"] 1(3)) auto
  then show ?case using I 1 entry_kept_trans [OF 1(2)] by (auto simp: st1_def [symmetric])
qed

lemma ClosePortforDevice_driver:
  assumes "tables_inv X st" "find_ctx st d = Some ctx" "c \<in> set (ctx_clients ctx)"
  shows "manager (ClosePortforDevice drv c d ctx st) = ports_closed drv c d ctx (manager st)
    \<and> (\<exists>ctx'. entry_kept d ctx ctx' st (ClosePortforDevice drv c d ctx st))"
proof -
  have ok: "distinct (keys_of (inputConnections ctx))" "distinct (keys_of (outputConnections ctx))"
    using ctx_okD [OF assms(1,2)] by (simp_all add: ctx_ok_def)
  define st1 where "st1 = fold (\<lambda>p st. snd (CloseInputPortInner drv c d p st)) (keys_of (inputConnections ctx)) st"
  obtain ctx1 where 1: "manager st1 = fold (driver_closes INPUT drv d)
      (filter (\<lambda>p. sole_user c (find_key (inputConnections ctx) p)) (keys_of (inputConnections ctx))) (manager st)"
    "entry_kept d ctx ctx1 st st1" "outputConnections ctx1 = outputConnections ctx"
    using close_inputs_driver [OF assms(2,3) ok(1), of drv] unfolding st1_def by blast
  have "find_ctx st1 d = Some ctx1" "c \<in> set (ctx_clients ctx1)" using 1(2) assms(3) by (simp_all add: entry_kept_def)
  from close_outputs_driver [OF this ok(2), of drv] show ?thesis
    using 1 entry_kept_trans [OF 1(2)] by (auto simp: ClosePortforDevice_def st1_def [symmetric] ports_closed_def)
qed

lemma ClosePort_LeaveDevice_driver:
  assumes "tables_inv X st" "find_ctx st d = Some ctx" "c \<in> set (ctx_clients ctx)"
  shows "manager (LeaveDevice c d (ClosePortforDevice drv c d ctx st)) = ports_closed drv c d ctx (manager st)
    \<and> (\<forall>d'. d' \<noteq> d \<longrightarrow> find_ctx (LeaveDevice c d (ClosePortforDevice drv c d ctx st)) d' = find_ctx st d')"
proof -
  obtain ctx' where C: "manager (ClosePortforDevice drv c d ctx st) = ports_closed drv c d ctx (manager st)"
    "entry_kept d ctx ctx' st (ClosePortforDevice drv c d ctx st)"
    using ClosePortforDevice_driver [OF assms, of drv] by blast
  then show ?thesis
    by (auto simp: entry_kept_def LeaveDevice_Some ctl_simps split: option.split)
qed

section \<open>What the manager calls while it closes\<close>

definition answered :: "ManagerCall list \<Rightarrow> string set" where
  "answered calls = {a. \<exists>s i x. BleOpenComplete a s i x \<in> set calls}"

definition removed :: "ManagerCall list \<Rightarrow> int set" where
  "removed calls = {device_id dev | dev. NotifyChange REMOVED dev \<in> set calls}"

text \<open>The entries that go, the requests that are answered; everything else stays.\<close>

definition calls_effect :: "ManagerCall list \<Rightarrow> 'd MidiServiceController \<Rightarrow> 'd MidiServiceController \<Rightarrow> bool" where
  "calls_effect calls st st' \<longleftrightarrow>
     (\<forall>d. find_ctx st' d = (if d \<in> removed calls then None else find_ctx st d))
     \<and> (\<forall>a. find_key (pendingBleConnections st') a = (if a \<in> answered calls then None else find_key (pendingBleConnections st) a))"

lemma call_effect:
  assumes "service_inv st"
  shows "manager (HandleCallWhileClosing call st) = manager st \<and> calls_effect [call] st (HandleCallWhileClosing call st)"
proof (cases call)
  case (BleOpenComplete addr success i devInfo)
  then show ?thesis
    by (auto simp: HandleCallWhileClosing_def TakeWaiting_def TellWaiting_def calls_effect_def answered_def removed_def ctl_simps
        send_def find_ctx_def split: option.split)
next
  case (NotifyChange change dev)
  have t: "tables_inv {} st" using assms by (simp add: service_inv_def)
  have "manager (CleanupDeviceContext d st) = manager st" for d and st :: "'a MidiServiceController"
  proof (cases "find_ctx st d")
    case (Some ctx)
    have "manager (CleanupClients cs d ctx st) = manager st" for cs
      by (induction cs arbitrary: ctx st)
        (auto simp: CleanupClientResourceForDevice_def set_resource_def split: prod.split option.split)
    then show ?thesis using Some by (simp add: CleanupDeviceContext_def erase_ctx_def)
  qed (simp add: CleanupDeviceContext_def)
  then have "manager (NotifyDeviceChange change dev st) = manager st"
    by (simp add: NotifyDeviceChange_def send_def RemoveFromActiveBleDevices_def Let_def)
  then show ?thesis using NotifyDeviceChange_spec [OF t, of change dev]
    by (cases change) (auto simp: HandleCallWhileClosing_def NotifyChange calls_effect_def answered_def removed_def device_gone_def)
qed

lemma calls_effect_trans: "calls_effect xs a b \<Longrightarrow> calls_effect ys b e \<Longrightarrow> calls_effect (xs @ ys) a e"
  by (auto simp: calls_effect_def answered_def removed_def)

lemma calls_effect_Nil: "calls_effect [] st st"
  by (simp add: calls_effect_def answered_def removed_def)

lemma fold_calls_effect:
  "service_inv st \<Longrightarrow> manager (fold HandleCallWhileClosing calls st) = manager st \<and> calls_effect calls st (fold HandleCallWhileClosing calls st)"
proof (induction calls arbitrary: st)
  case (Cons call calls)
  have i: "service_inv (HandleCallWhileClosing call st)" using HandleCallWhileClosing_inv [OF Cons.prems] .
  then show ?case using call_effect [OF Cons.prems, of call] Cons.IH [OF i] calls_effect_trans [of "[call]"] by auto
qed (simp add: calls_effect_Nil)

lemma CloseManagerDevice_effect:
  assumes "service_inv st" "Manager_CloseDevice drv d (manager st) = (r, calls, m)"
  shows "fst (CloseManagerDevice drv d st) = r \<and> manager (snd (CloseManagerDevice drv d st)) = m
     \<and> calls_effect calls st (snd (CloseManagerDevice drv d st))"
proof -
  have "service_inv (st\<lparr>manager := m\<rparr>)" using assms(1) by (simp add: service_inv_fields)
  from fold_calls_effect [OF this, of calls] show ?thesis
    by (simp add: CloseManagerDevice_def assms(2) calls_effect_def find_ctx_def)
qed

text \<open>The manager closes some devices one after the other.\<close>

primrec devices_closed :: "'d Drivers \<Rightarrow> int list \<Rightarrow> 'd MidiDeviceManager \<Rightarrow> ManagerCall list \<times> 'd MidiDeviceManager" where
  "devices_closed drv [] m = ([], m)"
| "devices_closed drv (d # ds) m =
     (case Manager_CloseDevice drv d m of (_, calls, m) \<Rightarrow>
        case devices_closed drv ds m of (calls', m) \<Rightarrow> (calls @ calls', m))"

lemma close_devices_effect:
  assumes "service_inv st" "devices_closed drv ds (manager st) = (calls, m)"
  shows "manager (fold (\<lambda>d st. snd (CloseManagerDevice drv d st)) ds st) = m
     \<and> calls_effect calls st (fold (\<lambda>d st. snd (CloseManagerDevice drv d st)) ds st)"
  using assms
proof (induction ds arbitrary: st calls)
  case (Cons d ds)
  obtain r calls1 m1 where M: "Manager_CloseDevice drv d (manager st) = (r, calls1, m1)" using prod_cases3 by blast
  obtain calls2 where D: "devices_closed drv ds m1 = (calls2, m)" "calls = calls1 @ calls2"
    using Cons.prems(2) M by (auto split: prod.splits)
  note E = CloseManagerDevice_effect [OF Cons.prems(1) M]
  have "service_inv (snd (CloseManagerDevice drv d st))" using CloseManagerDevice_inv [OF Cons.prems(1)] .
  from Cons.IH [OF this, of calls2] show ?case using E D calls_effect_trans by auto
qed (simp add: calls_effect_Nil)

section \<open>Closing a device\<close>

text \<open>Everything that closing a device leaves when the client has left it and nothing has been said to the manager about the device.\<close>

definition kept_but :: "int \<Rightarrow> 'd MidiServiceController \<Rightarrow> 'd MidiServiceController \<Rightarrow> bool" where
  "kept_but d st st' \<longleftrightarrow> (\<forall>d'. d' \<noteq> d \<longrightarrow> find_ctx st' d' = find_ctx st d') \<and> pendingBleConnections st' = pendingBleConnections st"

lemma CloseDevice_parts:
  assumes "service_inv st" "c \<in> set (sc_clients st)" "c \<in> members (find_ctx st d)"
  shows "\<exists>st2. service_inv st2 \<and> sc_clients st2 = sc_clients st \<and> left_device c d st st2
     \<and> manager st2 = ports_closed drv c d (the (find_ctx st d)) (manager st) \<and> kept_but d st st2
     \<and> CloseDevice drv c d st = (if find_ctx st2 d \<noteq> None then (OH_MIDI_STATUS_OK, st2)
         else case CloseManagerDevice drv d st2 of (r, st) \<Rightarrow> (if r = OH_MIDI_STATUS_OK then OH_MIDI_STATUS_OK else OH_MIDI_STATUS_SYSTEM_ERROR, st))"
proof -
  have t: "tables_inv {} st" using assms(1) by (simp add: service_inv_def)
  obtain ctx where ctx: "find_ctx st d = Some ctx" "c \<in> set (ctx_clients ctx)"
    using assms(3) by (cases "find_ctx st d") auto
  define st1 where "st1 = LeaveDevice c d (ClosePortforDevice drv c d ctx st)"
  define st2 where "st2 = set_resource c ((resource_of st1 c)\<lparr>openDevices := set_remove d (openDevices (resource_of st1 c))\<rparr>) st1"
  have L: "tables_inv {} st2 \<and> same_people st st2 \<and> pendingBleConnections st1 = pendingBleConnections st \<and> left_device c d st st2"
    using close_then_leave [of "{}" st d ctx c, OF t ctx st1_def refl] by (simp add: st2_def)
  then have i2: "service_inv st2" using service_inv_same [OF assms(1), of st2] by (simp add: st2_def ctl_simps)
  have M: "manager st2 = ports_closed drv c d ctx (manager st)" "kept_but d st st2"
    using ClosePort_LeaveDevice_driver [OF t ctx, of drv] L by (simp_all add: st2_def st1_def ctl_simps kept_but_def)
  have E: "CloseDevice drv c d st = (if find_ctx st2 d \<noteq> None then (OH_MIDI_STATUS_OK, st2)
      else case CloseManagerDevice drv d st2 of (r, st) \<Rightarrow> (if r = OH_MIDI_STATUS_OK then OH_MIDI_STATUS_OK else OH_MIDI_STATUS_SYSTEM_ERROR, st))"
    using ctx assms(2) by (simp add: CloseDevice_def st1_def [symmetric] st2_def [symmetric] Let_def)
  show ?thesis using i2 L E M ctx(1) by (intro exI [of _ st2]) (simp add: same_people_def del: not_None_eq)
qed

text \<open>The driver's part of closing a device: the ports that only the client uses, then, when no one else has it open, the device.\<close>

definition device_closed ::
  "'d Drivers \<Rightarrow> u32 \<Rightarrow> int \<Rightarrow> 'd MidiServiceController \<Rightarrow> int \<times> ManagerCall list \<times> 'd MidiDeviceManager" where
  "device_closed drv c d st =
     (let m = ports_closed drv c d (the (find_ctx st d)) (manager st)
      in if members (find_ctx st d) = {c}
         then (case Manager_CloseDevice drv d m of (r, calls, m) \<Rightarrow>
           (if r = OH_MIDI_STATUS_OK then OH_MIDI_STATUS_OK else OH_MIDI_STATUS_SYSTEM_ERROR, calls, m))
         else (OH_MIDI_STATUS_OK, [], m))"

lemma empty_entry: "service_inv st \<Longrightarrow> find_ctx st d = None \<longleftrightarrow> members (find_ctx st d) = {}"
  using ctx_okD [of "{}" st d] unfolding service_inv_def by (cases "find_ctx st d") (auto simp: ctx_ok_def)

lemma CloseDevice_driver:
  assumes "service_inv st" "c \<in> set (sc_clients st)" "c \<in> members (find_ctx st d)" "CloseDevice drv c d st = (ret, st')"
    "device_closed drv c d st = (r, calls, m)"
  shows "ret = r \<and> manager st' = m
    \<and> (\<forall>d'. d' \<noteq> d \<longrightarrow> find_ctx st' d' = (if d' \<in> removed calls then None else find_ctx st d'))
    \<and> (\<forall>a. find_key (pendingBleConnections st') a = (if a \<in> answered calls then None else find_key (pendingBleConnections st) a))"
proof -
  obtain st2 where S: "service_inv st2" "left_device c d st st2"
      "manager st2 = ports_closed drv c d (the (find_ctx st d)) (manager st)" "kept_but d st st2"
    and E: "CloseDevice drv c d st = (if find_ctx st2 d \<noteq> None then (OH_MIDI_STATUS_OK, st2)
      else case CloseManagerDevice drv d st2 of (r, st) \<Rightarrow> (if r = OH_MIDI_STATUS_OK then OH_MIDI_STATUS_OK else OH_MIDI_STATUS_SYSTEM_ERROR, st))"
    using CloseDevice_parts [OF assms(1-3)] by blast
  have "members (find_ctx st2 d) = members (find_ctx st d) - {c}" using S(2) by (simp add: left_device_def)
  then have none: "find_ctx st2 d = None \<longleftrightarrow> members (find_ctx st d) = {c}"
    using empty_entry [OF S(1), of d] assms(3) by blast
  show ?thesis
  proof (cases "members (find_ctx st d) = {c}")
    case True
    obtain r1 calls1 m1 where M: "Manager_CloseDevice drv d (manager st2) = (r1, calls1, m1)" using prod_cases3 by blast
    note C = CloseManagerDevice_effect [OF S(1) M]
    have "(r, calls, m) = (if r1 = OH_MIDI_STATUS_OK then OH_MIDI_STATUS_OK else OH_MIDI_STATUS_SYSTEM_ERROR, calls1, m1)"
      using assms(5) M True by (simp add: device_closed_def S(3))
    moreover have "(ret, st') = (if r1 = OH_MIDI_STATUS_OK then OH_MIDI_STATUS_OK else OH_MIDI_STATUS_SYSTEM_ERROR, snd (CloseManagerDevice drv d st2))"
      using assms(4) True none C by (simp add: E split_beta)
    ultimately show ?thesis using C S(4) by (auto simp: calls_effect_def kept_but_def)
  next
    case False
    then have "(ret, st') = (OH_MIDI_STATUS_OK, st2)" using assms(4) none by (simp add: E)
    then show ?thesis using False assms(5) S(3,4) by (auto simp: device_closed_def kept_but_def answered_def removed_def)
  qed
qed

section \<open>Destroying a client\<close>

lemma CleanupDevices_driver:
  assumes "tables_inv X st" "c \<in> X" "distinct ds" "\<forall>d\<in>set ds. c \<in> members (find_ctx st d)"
  shows "manager (fold (CleanupDeviceForClient drv c) ds st)
      = fold (\<lambda>d. ports_closed drv c d (the (find_ctx st d))) ds (manager st)
    \<and> (\<forall>d. d \<notin> set ds \<longrightarrow> find_ctx (fold (CleanupDeviceForClient drv c) ds st) d = find_ctx st d)"
  using assms
proof (induction ds arbitrary: st)
  case (Cons d ds)
  obtain ctx where ctx: "find_ctx st d = Some ctx" "c \<in> set (ctx_clients ctx)"
    using Cons.prems(4) by (cases "find_ctx st d") auto
  define st1 where "st1 = CleanupDeviceForClient drv c d st"
  have 1: "manager st1 = ports_closed drv c d (the (find_ctx st d)) (manager st)" "\<And>d'. d' \<noteq> d \<Longrightarrow> find_ctx st1 d' = find_ctx st d'"
    using ClosePort_LeaveDevice_driver [OF Cons.prems(1) ctx, of drv] ctx(1) by (simp_all add: st1_def CleanupDeviceForClient_def)
  have 2: "tables_inv X st1" unfolding st1_def
    using CleanupDeviceForClient_spec [OF Cons.prems(1,2)] Cons.prems(4) by simp
  have d: "distinct ds" "d \<notin> set ds" using Cons.prems(3) by simp_all
  then have m: "\<forall>d'\<in>set ds. c \<in> members (find_ctx st1 d')" using Cons.prems(4) 1(2) by (metis list.set_intros(2))
  have "fold (\<lambda>d. ports_closed drv c d (the (find_ctx st1 d))) ds m = fold (\<lambda>d. ports_closed drv c d (the (find_ctx st d))) ds m" for m
  proof (rule fold_cong [OF refl refl])
    fix x assume "x \<in> set ds"
    then have "find_ctx st1 x = find_ctx st x" using d(2) by (intro 1(2)) auto
    then show "ports_closed drv c x (the (find_ctx st1 x)) = ports_closed drv c x (the (find_ctx st x))" by simp
  qed
  then show ?case using Cons.IH [OF 2 Cons.prems(2) d(1) m] 1 by (auto simp: st1_def [symmetric])
qed simp

text \<open>Who else waits for a Bluetooth device.\<close>

definition others_waiting :: "u32 \<Rightarrow> PendingBleConnection list option \<Rightarrow> PendingBleConnection list option" where
  "others_waiting c co = (case co of None \<Rightarrow> None
     | Some reqs \<Rightarrow> if \<forall>r\<in>set reqs. pb_clientId r = c then None else Some (filter (\<lambda>r. pb_clientId r \<noteq> c) reqs))"

lemma RemovePending_find:
  assumes "distinct (keys_of (pendingBleConnections st))"
  shows "find_key (pendingBleConnections (RemovePendingBleConnectionsForClient c st)) a = others_waiting c (find_key (pendingBleConnections st) a)"
proof -
  have "distinct (keys_of q) \<Longrightarrow> find_key (filter (\<lambda>p. snd p \<noteq> []) (map (\<lambda>(a, reqs). (a, filter (\<lambda>r. pb_clientId r \<noteq> c) reqs)) q)) a
      = others_waiting c (find_key q a)" for q :: "(string \<times> PendingBleConnection list) list"
  proof (induction q)
    case (Cons x q)
    have n: "map_of (filter (\<lambda>p. snd p \<noteq> []) (map (\<lambda>(a, reqs). (a, filter (\<lambda>r. pb_clientId r \<noteq> c) reqs)) q)) (fst x) = None"
      using Cons.prems by (auto simp: map_of_eq_None_iff intro: rev_image_eqI)
    show ?case using Cons n by (cases x) (auto simp: others_waiting_def filter_empty_conv)
  qed (simp add: others_waiting_def)
  then show ?thesis using assms by (simp add: RemovePendingBleConnectionsForClient_def)
qed

lemma without_client_driver:
  assumes "service_inv st" "c \<in> set (sc_clients st)" "CollectDevicesForClientDestruction c st = (toClose, toClean)"
    "st4 = without_client drv c toClean st"
  shows "manager st4 = fold (\<lambda>d. ports_closed drv c d (the (find_ctx st d))) toClean (manager st)
    \<and> (\<forall>d. c \<notin> members (find_ctx st d) \<longrightarrow> find_ctx st4 d = find_ctx st d)
    \<and> (\<forall>a. find_key (pendingBleConnections st4) a = others_waiting c (find_key (pendingBleConnections st) a))"
proof -
  have t: "tables_inv {} st" and p: "pending_inv st" using assms(1) by (simp_all add: service_inv_def)
  define st0 where "st0 = st\<lparr>clientCallbackObjects := set_remove c (clientCallbackObjects st), deathRecipients := set_remove c (deathRecipients st)\<rparr>"
  define st1 where "st1 = fold (CleanupDeviceForClient drv c) toClean st0"
  have f0: "find_ctx st0 = find_ctx st" "manager st0 = manager st" "pendingBleConnections st0 = pendingBleConnections st"
    by (simp_all add: st0_def find_ctx_def fun_eq_iff)
  have t0: "tables_inv {c} st0" by (rule tables_inv_cong [OF tables_inv_less [OF t]]) (simp_all add: st0_def)
  have d: "distinct toClean" "set toClean = opened c st" "\<forall>d\<in>set toClean. c \<in> members (find_ctx st0 d)"
    using devices_of [OF t assms(3)] by (simp_all add: opened_def f0)
  note D = CleanupDevices_driver [OF t0 _ d(1,3), of drv, folded st1_def, unfolded f0]
  have "pendingBleConnections st1 = pendingBleConnections st"
    using CleanupDevices_spec [OF t0 _ d(1,3), of drv] by (simp add: st1_def f0)
  moreover have "distinct (keys_of (pendingBleConnections st))" using p by (simp add: pending_inv_def)
  ultimately have P: "find_key (pendingBleConnections (RemovePendingBleConnectionsForClient c st1)) a
      = others_waiting c (find_key (pendingBleConnections st) a)" for a
    using RemovePending_find [of st1 c a] by simp
  obtain am where am: "CleanupClientResources c (uid (resource_of st c)) st1
      = st1\<lparr>clientResourceInfo := AList.delete c (clientResourceInfo st1), appClientMap := am\<rparr>"
    using CleanupClientResources_spec [of c "uid (resource_of st c)" st1] by blast
  have "manager st4 = manager st1" "find_ctx st4 = find_ctx st1"
    "pendingBleConnections st4 = pendingBleConnections (RemovePendingBleConnectionsForClient c st1)"
    by (simp_all add: assms(4) without_client_def Let_def st0_def [symmetric] st1_def [symmetric] am
        RemovePendingBleConnectionsForClient_def fun_eq_iff find_ctx_def)
  then show ?thesis using D P d(2) by (auto simp: opened_def)
qed

lemma devices_to_close:
  assumes "service_inv st" "CollectDevicesForClientDestruction c st = (toClose, toClean)"
  shows "distinct toClose" "set toClose = {d. members (find_ctx st d) = {c}}"
proof -
  have t: "tables_inv {} st" using assms(1) by (simp add: service_inv_def)
  have d: "distinct (keys_of (deviceClientContexts st))" using t by (simp add: tables_inv_def)
  have e: "toClose = map fst (filter (\<lambda>p. length (ctx_clients (snd p)) = 1)
      (filter (\<lambda>p. c \<in> set (ctx_clients (snd p))) (deviceClientContexts st)))"
    using assms(2) by (auto simp: CollectDevicesForClientDestruction_def Let_def)
  show "distinct toClose" unfolding e filter_filter by (rule distinct_map_filter [OF d])
  have one: "length (ctx_clients ctx) = 1 \<and> c \<in> set (ctx_clients ctx) \<longleftrightarrow> set (ctx_clients ctx) = {c}"
    if "find_ctx st d = Some ctx" for d ctx
  proof -
    have "card (set (ctx_clients ctx)) = length (ctx_clients ctx)"
      using ctx_okD [OF t that] by (intro distinct_card) (simp add: ctx_ok_def)
    then show ?thesis by (auto simp: card_1_singleton_iff)
  qed
  have entry: "(d, ctx) \<in> set (deviceClientContexts st) \<longleftrightarrow> find_ctx st d = Some ctx" for d ctx
    using d by (metis find_ctx_def map_of_eq_Some_iff)
  have "d \<in> set toClose \<longleftrightarrow> (\<exists>ctx. (d, ctx) \<in> set (deviceClientContexts st) \<and> length (ctx_clients ctx) = 1 \<and> c \<in> set (ctx_clients ctx))" for d
    by (force simp: e)
  then have "d \<in> set toClose \<longleftrightarrow> (\<exists>ctx. find_ctx st d = Some ctx \<and> set (ctx_clients ctx) = {c})" for d
    using one entry by blast
  then show "set toClose = {d. members (find_ctx st d) = {c}}"
    by (auto simp: members_def split: option.splits)
qed

end
