(* ===== verification/Service_Properties.thy ===== *)
theory Service_Properties
  imports Service_Drivers
begin

text \<open>
  What clients, drivers and the bus can rely on: the properties of the service's operations, over the invariant and the
  effects of the theories before, with a small service that runs through them.
\<close>

section \<open>A small service to evaluate\<close>

definition run :: "'d Drivers \<Rightarrow> 'd Request list \<Rightarrow> 'd MidiServiceController \<Rightarrow> 'd MidiServiceController" where
  "run drv reqs st = fold (\<lambda>r st. snd (serve drv r st)) reqs st"

lemma reachable_run: "reachable drv st \<Longrightarrow> reachable drv (run drv reqs st)"
proof (induction reqs arbitrary: st)
  case (Cons r reqs)
  have "service_step drv st (snd (serve drv r st))" by (rule service_step.intros) (rule prod.collapse [symmetric])
  then have "reachable drv (snd (serve drv r st))" using Cons.prems reachable.step by blast
  then show ?case using Cons.IH by (simp add: run_def)
qed (simp add: run_def)

definition demo_env :: ServiceEnv where
  "demo_env = \<lparr>env_permission = True, env_map = (\<lambda>fd n. Some (\<lambda>_. 0)),
     env_setup = \<lparr>r_eventfd = 3, r_timerfd = 4, r_epoll = 5, r_ctl_notify = 0, r_ctl_timer = 0\<rparr>, env_dup = 6\<rparr>"

text \<open>Two clients of one application have the same device open, the first one an input port of it.\<close>

definition demo_service :: "DeviceInformation list MidiServiceController" where
  "demo_service = run demo_drivers
     [DriverChange [demo_device 7], BusChange, Create True True True 5, Create True True True 5,
      Open demo_env 1 1001, Open demo_env 2 1001, OpenInput demo_env 1 1001 0] (new_MidiServiceController [])"

lemma demo_service_reachable: "reachable demo_drivers demo_service"
  unfolding demo_service_def by (rule reachable_run [OF reachable.init])

lemma demo_service_inv: "service_inv demo_service"
  by (rule reachable_inv [OF demo_service_reachable])

lemma demo_service_facts: "sc_clients demo_service = [1, 2]" "members (find_ctx demo_service 1001) = {1, 2}"
  "map device_id (devices (manager demo_service)) = [1001]"
proof -
  show "sc_clients demo_service = [1, 2]" "map device_id (devices (manager demo_service)) = [1001]" by code_simp+
  have "map_option ctx_clients (find_ctx demo_service 1001) = Some [1, 2]" by code_simp
  then show "members (find_ctx demo_service 1001) = {1, 2}" by (auto simp: members_def split: option.splits)
qed

section \<open>Every reachable state\<close>

text \<open>
  C16: whatever requests clients, drivers and the bus make, in whatever order and with whatever outcome of the system
  calls, the service's tables stay consistent: at most eight clients, at most two of one application, each
  client in the tables of its application and of its account and callbacks; a device's entry names
  only clients that exist, at least one, each once, and its ports are held only by clients that have the device open; the
  account of a client lists exactly the devices it has open and counts exactly its open ports, at most
  64; and who waits for a Bluetooth device exists.
\<close>

theorem service_invariant:
  assumes "reachable drv st"
  shows "service_inv st"
  by (rule reachable_inv [OF assms])

theorem service_invariant_witness: "service_inv demo_service \<and> sc_clients demo_service = [1, 2]"
  using service_invariant [OF demo_service_reachable] demo_service_facts(1) by simp

section \<open>Clients\<close>

text \<open>
  C17: the search for a free client identifier ends: as long as fewer clients exist than there are
  identifiers, it returns, after at most one candidate more than there are clients, the first identifier in the circle
  from 1 to \<open>MAX_CLIENTID\<close> after the current one that no client has.
\<close>

theorem client_id_found:
  assumes "length taken < unat MAX_CLIENTID"
  shows "\<exists>x k. NextClientId (length taken + 1) taken current = Some x \<and> k \<le> length taken
     \<and> unat x = (unat current + k) mod unat MAX_CLIENTID + 1 \<and> x \<notin> set taken \<and> x \<noteq> 0
     \<and> (\<forall>j<k. (unat current + j) mod unat MAX_CLIENTID + 1 \<in> unat ` set taken)"
proof -
  obtain x k where *: "NextClientId (length taken + 1) taken current = Some x" "k \<le> length taken" "unat x = candidate current k"
     "x \<notin> set taken" "candidate current ` {..<k} \<subseteq> unat ` set taken" using NextClientId_finds [OF assms] by blast
  have "x \<noteq> 0" using client_id_nonzero [OF *(3)] .
  with * show ?thesis unfolding candidate_def by blast
qed

theorem client_id_found_witness:
  "\<exists>x k. NextClientId 3 [1, 0xFFFFFFFF] 0xFFFFFFFE = Some x \<and> k \<le> 2
     \<and> unat x = (unat (0xFFFFFFFE :: u32) + k) mod unat MAX_CLIENTID + 1 \<and> x \<notin> {1, 0xFFFFFFFF} \<and> x \<noteq> 0
     \<and> (\<forall>j<k. (unat (0xFFFFFFFE :: u32) + j) mod unat MAX_CLIENTID + 1 \<in> unat ` {1 :: u32, 0xFFFFFFFF})"
proof -
  have "length [1, 0xFFFFFFFF :: u32] < unat MAX_CLIENTID" by (simp add: unat_MAX_CLIENTID)
  moreover have "length [1, 0xFFFFFFFF :: u32] = 2" "(2 :: nat) + 1 = 3" by simp_all
  ultimately show ?thesis using client_id_found [of "[1, 0xFFFFFFFF]" "0xFFFFFFFE"] by (simp only: list.set)
qed

text \<open>
  C18: a client is created exactly when the listener is valid, there is room for it in the service and
  in its application, and the stub and the death recipient can be set up; then it has an identifier that is not
  zero and that nobody has, comes last in the list of clients and of its application's, and starts with
  nothing open. Otherwise the clients are as before. No device, notification or registry entry is touched.
\<close>

theorem create_client:
  assumes "service_inv st" "CreateMidiInServer valid allocated added u st = (ret, cid, st')"
  shows "(ret = OH_MIDI_STATUS_OK \<longleftrightarrow> valid \<and> length (sc_clients st) < MAX_CLIENTS
            \<and> length (app_clients st u) < MAX_CLIENTS_PER_APP \<and> allocated \<and> added)
     \<and> (if ret = OH_MIDI_STATUS_OK
        then (\<exists>c. cid = Some c \<and> c \<noteq> 0 \<and> c \<notin> set (sc_clients st) \<and> sc_clients st' = sc_clients st @ [c]
               \<and> resource_of st' c = \<lparr>uid = u, openDevices = [], openPortCount = 0\<rparr> \<and> app_clients st' u = app_clients st u @ [c])
        else sc_clients st' = sc_clients st)
     \<and> deviceClientContexts st' = deviceClientContexts st \<and> sent st' = sent st \<and> manager st' = manager st \<and> service_inv st'"
  using CreateMidiInServer_spec [OF assms, unfolded client_room_def new_account_def] by blast

theorem create_client_witness:
  "case CreateMidiInServer True True True 8 demo_service of (ret, cid, st') \<Rightarrow>
     ret = OH_MIDI_STATUS_OK \<and> (\<exists>c. c \<notin> {1, 2} \<and> sc_clients st' = [1, 2, c])"
proof -
  obtain ret cid st' where C: "CreateMidiInServer True True True 8 demo_service = (ret, cid, st')" using prod_cases3 by blast
  have "app_clients demo_service 8 = []" by code_simp
  then show ?thesis using create_client [OF demo_service_inv C] demo_service_facts(1)
    by (auto simp: C MAX_CLIENTS_def MAX_CLIENTS_PER_APP_def)
qed

text \<open>What destroying a client leaves to the others, when the manager's calls while it closes devices were \<open>calls\<close>.\<close>

definition others_keep :: "u32 \<Rightarrow> ManagerCall list \<Rightarrow> 'd MidiServiceController \<Rightarrow> 'd MidiServiceController \<Rightarrow> bool" where
  "others_keep c calls st st' \<longleftrightarrow>
     (\<forall>d. c \<notin> members (find_ctx st d) \<longrightarrow> find_ctx st' d = (if d \<in> removed calls then None else find_ctx st d))
     \<and> (\<forall>d. members (find_ctx st' d) = (if d \<in> removed calls then {} else members (find_ctx st d) - {c}))
     \<and> (\<forall>c' d. c' \<noteq> c \<longrightarrow> ports_in c' (find_ctx st' d) = (if d \<in> removed calls then {} else ports_in c' (find_ctx st d)))
     \<and> (\<forall>a. find_key (pendingBleConnections st') a
          = (if a \<in> answered calls then None else others_waiting c (find_key (pendingBleConnections st) a)))"

lemma DestroyMidiClient_driver:
  assumes "service_inv st" "c \<in> set (sc_clients st)" "CollectDevicesForClientDestruction c st = (toClose, toClean)"
    "devices_closed drv toClose (fold (\<lambda>d. ports_closed drv c d (the (find_ctx st d))) toClean (manager st)) = (calls, m)"
    "st' = snd (DestroyMidiClient drv c st)"
  shows "manager st' = m \<and> others_keep c calls st st'"
proof -
  have t: "tables_inv {} st" and a: "app_inv st" using assms(1) by (simp_all add: service_inv_def)
  define st4 where "st4 = without_client drv c toClean st"
  note W = without_client_spec [OF assms(1-3) st4_def]
  note D = without_client_driver [OF assms(1-3) st4_def]
  define st5 where "st5 = fold (\<lambda>d st. snd (CloseManagerDevice drv d st)) toClose st4"
  have C: "manager st5 = m \<and> calls_effect calls st4 st5" unfolding st5_def
    by (rule close_devices_effect) (use W D assms(4) in simp_all)
  have "st' = (if sc_clients st5 = [] then ScheduleUnloadTask st5 else st5)"
    using assms(2,3) app_invD(4) [OF a] resource_exists [OF t assms(2)]
    by (simp add: assms(5) DestroyMidiClient_def Let_def st5_def st4_def without_client_def)
  then have "manager st' = manager st5" "find_ctx st' = find_ctx st5" "pendingBleConnections st' = pendingBleConnections st5"
    by (simp_all add: ScheduleUnloadTask_def find_ctx_def fun_eq_iff Let_def)
  then show ?thesis using C D W by (auto simp: calls_effect_def others_keep_def)
qed

text \<open>
  C19: destroying a client succeeds and leaves nothing of it: no account, no entry of its application, no callback, no
  waiting request, no open device and no open port. In the drivers it closes the ports that only this client used, then each device
  that nobody else has open, once. Nothing else changes for the others: a device that the client did not have open
  is as before, one that it had open stays open for the other clients with their ports, and the other clients'
  requests go on waiting; except for the devices that the manager reports as removed, and the requests that it answers, while
  it closes those devices. No device of which the manager reports nothing vanishes.
\<close>

theorem destroy_client:
  assumes "service_inv st" "c \<in> set (sc_clients st)" "DestroyMidiClient drv c st = (ret, st')"
  shows "service_inv st' \<and> ret = OH_MIDI_STATUS_OK \<and> sc_clients st' = set_remove c (sc_clients st)
     \<and> find_key (clientResourceInfo st') c = None \<and> (\<forall>u. c \<notin> set (app_clients st' u))
     \<and> c \<notin> set (clientCallbackObjects st') \<and> c \<notin> set (deathRecipients st')
     \<and> (\<forall>a q. find_key (pendingBleConnections st') a = Some q \<longrightarrow> c \<notin> pb_clientId ` set q)
     \<and> opened c st' = {} \<and> open_ports c st' = {}
     \<and> (\<exists>closes cleans. distinct closes \<and> set closes = {d. members (find_ctx st d) = {c}} \<and> distinct cleans \<and> set cleans = opened c st
        \<and> (case devices_closed drv closes (fold (\<lambda>d. ports_closed drv c d (the (find_ctx st d))) cleans (manager st)) of (calls, m) \<Rightarrow>
            manager st' = m \<and> others_keep c calls st st'))
     \<and> (\<forall>d. find_ctx st' d = None \<or> members (find_ctx st' d) = members (find_ctx st d) - {c}
          \<and> (\<forall>c'. c' \<noteq> c \<longrightarrow> ports_in c' (find_ctx st' d) = ports_in c' (find_ctx st d)))"
proof -
  have t: "tables_inv {} st" using assms(1) by (simp add: service_inv_def)
  obtain closes cleans where C: "CollectDevicesForClientDestruction c st = (closes, cleans)" by fastforce
  obtain calls m where D: "devices_closed drv closes (fold (\<lambda>d. ports_closed drv c d (the (find_ctx st d))) cleans (manager st)) = (calls, m)"
    by fastforce
  have "st' = snd (DestroyMidiClient drv c st)" by (simp add: assms(3))
  from DestroyMidiClient_driver [OF assms(1,2) C D this]
  have E: "case devices_closed drv closes (fold (\<lambda>d. ports_closed drv c d (the (find_ctx st d))) cleans (manager st)) of (calls, m) \<Rightarrow>
            manager st' = m \<and> others_keep c calls st st'" by (simp only: D prod.case)
  have "\<exists>closes cleans. distinct closes \<and> set closes = {d. members (find_ctx st d) = {c}} \<and> distinct cleans \<and> set cleans = opened c st
        \<and> (case devices_closed drv closes (fold (\<lambda>d. ports_closed drv c d (the (find_ctx st d))) cleans (manager st)) of (calls, m) \<Rightarrow>
            manager st' = m \<and> others_keep c calls st st')"
    by (intro exI [of _ closes] exI [of _ cleans] conjI devices_to_close [OF assms(1) C] devices_of [OF t C] E)
  then show ?thesis
    using DestroyMidiClient_spec [OF assms(1,2), of drv, unfolded client_gone_def assms(3) fst_conv snd_conv] by (elim conjE) (intro conjI)
qed

theorem destroy_client_witness:
  "case DestroyMidiClient demo_drivers 1 demo_service of (ret, st') \<Rightarrow>
     ret = OH_MIDI_STATUS_OK \<and> sc_clients st' = [2] \<and> open_ports 1 st' = {} \<and> service_inv st'"
proof -
  obtain ret st' where D: "DestroyMidiClient demo_drivers 1 demo_service = (ret, st')" by fastforce
  show ?thesis using destroy_client [OF demo_service_inv _ D] by (simp add: D demo_service_facts(1) set_remove_def del: map_of_eq_Some_iff)
qed

section \<open>Devices\<close>

lemma OpenDevice_result:
  assumes "service_inv st"
  shows "fst (OpenDevice drv env c d st) = OH_MIDI_STATUS_OK \<longleftrightarrow>
     c \<in> set (sc_clients st) \<and> \<not> (IsBluetoothDevice d st \<and> \<not> env_permission env)
     \<and> card (opened c st) < MAX_DEVICES_PER_CLIENT \<and> c \<notin> members (find_ctx st d)
     \<and> (find_ctx st d = None \<longrightarrow> fst (Manager_OpenDevice drv d (manager st)) = OH_MIDI_STATUS_OK)"
proof (cases "c \<in> set (sc_clients st)")
  case True
  have "touch_resource c st = st" using touch_client [of "{}" st c] assms True by (simp add: service_inv_def)
  then show ?thesis using open_count [OF assms True] True
    by (auto simp: OpenDevice_def Let_def status_defs split: option.split prod.split)
qed (simp add: OpenDevice_def status_defs)

lemma OpenDevice_effect:
  assumes "service_inv st" "OpenDevice drv env c d st = (ret, st')"
  shows "sent st' = sent st \<and> (\<forall>d'. members (find_ctx st' d') = members (find_ctx st d') \<union> (if ret = OH_MIDI_STATUS_OK \<and> d' = d then {c} else {}))
     \<and> (\<forall>c' d'. ports_in c' (find_ctx st' d') = ports_in c' (find_ctx st d'))"
proof (cases "c \<in> set (sc_clients st)")
  case True
  have "touch_resource c st = st" using touch_client [of "{}" st c] assms True by (simp add: service_inv_def)
  then show ?thesis using assms(2) True
    by (auto simp: OpenDevice_def Let_def status_defs open_for_def ctl_simps split: option.splits prod.splits if_splits)
qed (use assms(2) in \<open>auto simp: OpenDevice_def status_defs\<close>)

text \<open>
  C20: a client opens a device exactly when it exists, has the permission that a
  Bluetooth device needs, has fewer than sixteen devices open and not this one, and, when nobody has
  the device open yet, the manager can open it. Then the client, and only it, gains the device, and it is in its account;
  in every other case the devices' users are as before. No port is opened or closed either way.
\<close>

theorem open_device:
  assumes "service_inv st" "OpenDevice drv env c d st = (ret, st')"
  shows "(ret = OH_MIDI_STATUS_OK \<longleftrightarrow>
       c \<in> set (sc_clients st) \<and> \<not> (IsBluetoothDevice d st \<and> \<not> env_permission env)
       \<and> card (opened c st) < MAX_DEVICES_PER_CLIENT \<and> c \<notin> members (find_ctx st d)
       \<and> (find_ctx st d = None \<longrightarrow> fst (Manager_OpenDevice drv d (manager st)) = OH_MIDI_STATUS_OK))
     \<and> (\<forall>d'. members (find_ctx st' d') = members (find_ctx st d') \<union> (if ret = OH_MIDI_STATUS_OK \<and> d' = d then {c} else {}))
     \<and> (\<forall>c' d'. ports_in c' (find_ctx st' d') = ports_in c' (find_ctx st d'))
     \<and> (ret = OH_MIDI_STATUS_OK \<longrightarrow> d \<in> set (openDevices (resource_of st' c)))"
proof -
  have i: "service_inv st'" using serve_inv [OF assms(1), of drv "Open env c d"] assms(2) by (simp add: serve_def)
  have s: "sc_clients st' = sc_clients st"
    using OpenDevice_tables [OF _ assms(2), of "{}"] assms(1) by (simp add: service_inv_def same_people_def)
  have R: "ret = OH_MIDI_STATUS_OK \<longleftrightarrow> c \<in> set (sc_clients st) \<and> \<not> (IsBluetoothDevice d st \<and> \<not> env_permission env)
     \<and> card (opened c st) < MAX_DEVICES_PER_CLIENT \<and> c \<notin> members (find_ctx st d)
     \<and> (find_ctx st d = None \<longrightarrow> fst (Manager_OpenDevice drv d (manager st)) = OH_MIDI_STATUS_OK)"
    using OpenDevice_result [OF assms(1), of drv env c d] by (simp only: assms(2) fst_conv)
  note E = OpenDevice_effect [OF assms]
  have "d \<in> set (openDevices (resource_of st' c))" if "ret = OH_MIDI_STATUS_OK"
    using account [OF i, of c] that E R by (auto simp: s account_ok_def opened_def)
  then show ?thesis using R E by (intro conjI) blast+
qed

theorem open_device_witness:
  "case OpenDevice demo_drivers demo_env 2 1001 demo_service of (ret, st') \<Rightarrow>
     ret \<noteq> OH_MIDI_STATUS_OK \<and> members (find_ctx st' 1001) = {1, 2}"
proof -
  obtain ret st' where O: "OpenDevice demo_drivers demo_env 2 1001 demo_service = (ret, st')" by fastforce
  show ?thesis using open_device [OF demo_service_inv O] demo_service_facts by (simp add: O del: not_None_eq)
qed

section \<open>Ports\<close>

definition OpenPort :: "MidiPortDirection \<Rightarrow> 'd Drivers \<Rightarrow> ServiceEnv \<Rightarrow> u32 \<Rightarrow> int \<Rightarrow> u32 \<Rightarrow> 'd MidiServiceController \<Rightarrow> int \<times> 'd MidiServiceController" where
  "OpenPort dir = (case dir of INPUT \<Rightarrow> OpenInputPort | OUTPUT \<Rightarrow> OpenOutputPort)"

definition ClosePort :: "MidiPortDirection \<Rightarrow> 'd Drivers \<Rightarrow> u32 \<Rightarrow> int \<Rightarrow> u32 \<Rightarrow> 'd MidiServiceController \<Rightarrow> int \<times> 'd MidiServiceController" where
  "ClosePort dir = (case dir of INPUT \<Rightarrow> CloseInputPort | OUTPUT \<Rightarrow> CloseOutputPort)"

lemma OpenPort_spec: "tables_inv X st \<Longrightarrow> OpenPort dir drv env c d p st = (ret, st') \<Longrightarrow> port_outcome X c d (dir, p) ret st st'"
  by (cases dir) (simp_all add: OpenPort_def OpenInputPort_spec OpenOutputPort_spec)

lemma ClosePort_spec: "tables_inv X st \<Longrightarrow> c \<in> set (sc_clients st) \<Longrightarrow> close_outcome X c d {(dir, p)} st (snd (ClosePort dir drv c d p st))"
  by (cases dir) (simp_all add: ClosePort_def CloseInputPort_def CloseOutputPort_def CloseInputPortInner_spec CloseOutputPortInner_spec)

lemma open_ports_insert: "port_effect c d x st st' \<Longrightarrow> open_ports c st' = insert (d, x) (open_ports c st)"
  by (auto simp: port_effect_def open_ports_def split: if_splits)

lemma OpenPort_needs: 
  assumes "service_inv st" "OpenPort dir drv env c d p st = (OH_MIDI_STATUS_OK, st')"
  shows "c \<in> set (sc_clients st) \<and> c \<in> members (find_ctx st d)"
proof -
  have t: "tables_inv {} st" using assms(1) by (simp add: service_inv_def)
  obtain ret co st1 where G: "PortGuard env c d st = (ret, co, st1)" using prod_cases3 by blast
  show ?thesis using PortGuard_cases [OF G t] assms(2) G
    by (cases co; cases dir) (auto simp: OpenPort_def OpenInputPort_def OpenOutputPort_def split: option.splits)
qed

lemma OpenPort_driver: "service_inv st \<Longrightarrow> OpenPort dir drv env c d p st = (ret, st') \<Longrightarrow> open_driver dir drv env c d p st ret st'"
  by (cases dir) (simp_all add: OpenPort_def OpenInput_driver OpenOutput_driver)

lemma demo_port_used: "(INPUT, 0) \<in> ports_in 1 (find_ctx demo_service 1001)"
proof -
  have "map_option (\<lambda>ctx. map_option (HasClientConnection 1) (find_key (inputConnections ctx) 0)) (find_ctx demo_service 1001)
    = Some (Some True)" by code_simp
  then show ?thesis by (auto simp: in_ports_iff in_users_Some split: option.splits)
qed

text \<open>
  C21: opening an input or an output port. It succeeds exactly when the client exists, has the device open, has
  the permission that a Bluetooth device needs, has fewer than 64 ports open and not this one, the driver opens the port
  when nobody has it open yet, and the system provides what the connection needs. Then the client gains the
  port, the number of its open ports goes up by one, which its account shows, and is at most 64; nobody else's ports and
  nobody's devices change. When it fails, nothing of the service changes, and what the driver opened for it is closed
  again: the driver is asked only for a port that nobody has open, and asked to close it when anything fails after that.
\<close>

theorem open_port:
  assumes "service_inv st" "OpenPort dir drv env c d p st = (ret, st')"
  shows "(let first = port_unused (dir, p) (find_ctx st d); (r, m) = driver_opens dir drv d p (manager st)
      in (ret = OH_MIDI_STATUS_OK \<longleftrightarrow> port_allowed env c d st \<and> (dir, p) \<notin> ports_in c (find_ctx st d)
            \<and> (first \<longrightarrow> r = OH_MIDI_STATUS_OK) \<and> system_provides dir first env)
         \<and> manager st' = (if \<not> (port_allowed env c d st \<and> first) then manager st
              else if r \<noteq> OH_MIDI_STATUS_OK \<or> ret = OH_MIDI_STATUS_OK then m else driver_closes dir drv d p m))
     \<and> (if ret = OH_MIDI_STATUS_OK
     then c \<in> set (sc_clients st) \<and> c \<in> members (find_ctx st d) \<and> (dir, p) \<notin> ports_in c (find_ctx st d)
       \<and> (\<forall>d'. members (find_ctx st' d') = members (find_ctx st d'))
       \<and> (\<forall>c' d'. ports_in c' (find_ctx st' d') = ports_in c' (find_ctx st d') \<union> (if c' = c \<and> d' = d then {(dir, p)} else {}))
       \<and> card (open_ports c st') = card (open_ports c st) + 1
       \<and> unat (openPortCount (resource_of st' c)) = card (open_ports c st') \<and> card (open_ports c st') \<le> 64
     else st' = st\<lparr>manager := manager st'\<rparr>)"
proof -
  have t: "tables_inv {} st" using assms(1) by (simp add: service_inv_def)
  note P = OpenPort_spec [OF t assms(2)]
  have D: "open_driver dir drv env c d p st ret st'" using OpenPort_driver [OF assms] .
  show ?thesis
  proof (cases "ret = OH_MIDI_STATUS_OK")
    case True
    then have e: "port_effect c d (dir, p) st st'" "(dir, p) \<notin> ports_in c (find_ctx st d)" and s: "sc_clients st' = sc_clients st"
      using P by (simp_all add: port_outcome_def same_people_def)
    note n = OpenPort_needs [OF assms(1), of dir drv env c d p st'] 
    have c: "c \<in> set (sc_clients st) \<and> c \<in> members (find_ctx st d)" using n assms(2) True by simp
    have "(d, dir, p) \<notin> open_ports c st" using e(2) by (simp add: open_ports_def)
    then have k: "card (open_ports c st') = card (open_ports c st) + 1"
      by (simp add: open_ports_insert [OF e(1)] finite_open_ports)
    have "account_ok (resource_of st' c) (opened c st') (card (open_ports c st'))"
      using account [OF port_outcome_inv [OF assms(1) P], of c] c s by simp
    then show ?thesis using True e c k D by (auto simp: port_effect_def account_ok_def open_driver_def Let_def split: prod.split)
  qed (use D in \<open>auto simp: open_driver_def Let_def split: prod.split\<close>)
qed

theorem open_port_witness:
  "case OpenPort INPUT demo_drivers demo_env 2 1001 0 demo_service of (ret, st') \<Rightarrow>
     ret = OH_MIDI_STATUS_OK \<and> (INPUT, 0) \<in> ports_in 2 (find_ctx st' 1001) \<and> manager st' = manager demo_service"
proof -
  obtain ret st' where O: "OpenPort INPUT demo_drivers demo_env 2 1001 0 demo_service = (ret, st')" by fastforce
  have "fst (OpenPort INPUT demo_drivers demo_env 2 1001 0 demo_service) = 0" by code_simp
  then have r: "ret = OH_MIDI_STATUS_OK" using O by (simp add: status_defs)
  have u: "\<not> port_unused (INPUT, 0) (find_ctx demo_service 1001)" 
    using demo_port_used by (auto simp: port_unused_def)
  show ?thesis using open_port [OF demo_service_inv O] r u by (auto simp: O Let_def split: prod.splits)
qed

text \<open>
  Opening a port and closing it again, with nothing in between, leaves who has which device and which
  port open as it was.
\<close>

lemma port_roundtrip:
  assumes "service_inv st" "OpenPort dir drv env c d p st = (OH_MIDI_STATUS_OK, st1)" "ClosePort dir drv c d p st1 = (ret, st2)"
  shows "(\<forall>d'. members (find_ctx st2 d') = members (find_ctx st d')) \<and> (\<forall>c' d'. ports_in c' (find_ctx st2 d') = ports_in c' (find_ctx st d'))
     \<and> service_inv st2"
proof -
  have t: "tables_inv {} st" using assms(1) by (simp add: service_inv_def)
  note P = OpenPort_spec [OF t assms(2)]
  have c: "c \<in> set (sc_clients st1)" using OpenPort_needs [OF assms(1,2)] P by (simp add: port_outcome_def same_people_def)
  have t1: "tables_inv {} st1" using P by (simp add: port_outcome_def)
  have C: "close_outcome {} c d {(dir, p)} st1 st2" using ClosePort_spec [OF t1 c, of d dir p drv] assms(3) by simp
  have "service_inv st2" using close_outcome_inv [OF port_outcome_inv [OF assms(1) P] C] .
  then show ?thesis using P C by (auto simp: port_outcome_def port_effect_def close_outcome_def)
qed

lemma demo_open: "fst (OpenPort INPUT demo_drivers demo_env 2 1001 0 demo_service) = OH_MIDI_STATUS_OK"
  by code_simp

section \<open>Closing a device\<close>

lemma CloseDevice_users:
  assumes "service_inv st" "c \<in> set (sc_clients st)" "c \<in> members (find_ctx st d)" "CloseDevice drv c d st = (ret, st')"
  shows "service_inv st' \<and> c \<notin> members (find_ctx st' d) \<and> d \<notin> set (openDevices (resource_of st' c))
     \<and> (if members (find_ctx st d) = {c} then find_ctx st' d = None
        else ret = OH_MIDI_STATUS_OK \<and> members (find_ctx st' d) = members (find_ctx st d) - {c}
          \<and> (\<forall>c'. c' \<noteq> c \<longrightarrow> ports_in c' (find_ctx st' d) = ports_in c' (find_ctx st d)))
     \<and> (\<forall>d'. d' \<noteq> d \<longrightarrow> find_ctx st' d' = None \<or> members (find_ctx st' d') = members (find_ctx st d')
          \<and> (\<forall>c'. ports_in c' (find_ctx st' d') = ports_in c' (find_ctx st d')))"
proof -
  obtain st2 where S: "service_inv st2" "sc_clients st2 = sc_clients st" "left_device c d st st2"
    and E: "CloseDevice drv c d st = (if find_ctx st2 d \<noteq> None then (OH_MIDI_STATUS_OK, st2)
      else case CloseManagerDevice drv d st2 of (r, st) \<Rightarrow> (if r = OH_MIDI_STATUS_OK then OH_MIDI_STATUS_OK else OH_MIDI_STATUS_SYSTEM_ERROR, st))"
    using CloseDevice_parts [OF assms(1-3), of drv] by blast
  have i': "service_inv st'" using CloseDevice_inv [OF assms(1), of drv c d] by (simp add: assms(4))
  have O: "only_removes st2 st'"
    using assms(4) CloseManagerDevice_removes [OF S(1), of drv d] unfolding E by (auto split: prod.splits if_splits)
  have m2: "members (find_ctx st2 d') = members (find_ctx st d') - (if d' = d then {c} else {})"
    "ports_in c' (find_ctx st2 d') = (if c' = c \<and> d' = d then {} else ports_in c' (find_ctx st d'))" for c' d'
    using S(3) by (simp_all add: left_device_def)
  have none: "find_ctx st2 d' = None \<longleftrightarrow> members (find_ctx st2 d') = {}" for d'
    using S(1) ctx_okD [of "{}" st2 d'] unfolding service_inv_def by (cases "find_ctx st2 d'") (auto simp: ctx_ok_def)
  have rest: "find_ctx st' d' = None \<or> find_ctx st' d' = find_ctx st2 d'" for d' using O by (simp add: only_removes_def)
  have out: "c \<notin> members (find_ctx st' d)" using disjE [OF rest [of d]] m2(1) [of d]
    by (metis Diff_iff empty_iff insertI1 members_simps(1))
  have "c \<in> set (sc_clients st')" using O S(2) assms(2) by (simp add: only_removes_def same_people_def)
  then have "set (openDevices (resource_of st' c)) = opened c st'" using account [OF i'] by (simp add: account_ok_def)
  then have "d \<notin> set (openDevices (resource_of st' c))" using out by (simp add: opened_def)
  moreover have "if members (find_ctx st d) = {c} then find_ctx st' d = None
        else ret = OH_MIDI_STATUS_OK \<and> members (find_ctx st' d) = members (find_ctx st d) - {c}
          \<and> (\<forall>c'. c' \<noteq> c \<longrightarrow> ports_in c' (find_ctx st' d) = ports_in c' (find_ctx st d))"
  proof (cases "members (find_ctx st d) = {c}")
    case True
    then have "find_ctx st2 d = None" using none [of d] m2(1) [of d] by simp
    then have "find_ctx st' d = None" using rest [of d] by presburger
    then show ?thesis using True by simp
  next
    case False
    then have "members (find_ctx st2 d) \<noteq> {}"
      unfolding m2(1) using assms(3) by (simp add: subset_singleton_iff) (metis empty_iff)
    then have "find_ctx st2 d \<noteq> None" unfolding none .
    then have "CloseDevice drv c d st = (OH_MIDI_STATUS_OK, st2)" unfolding E by (rule if_P)
    then have "ret = OH_MIDI_STATUS_OK \<and> st' = st2" by (simp add: assms(4))
    then show ?thesis using False m2(1) [of d] m2(2) [of _ d] by (simp only: if_False) simp
  qed
  moreover have "find_ctx st' d' = None \<or> members (find_ctx st' d') = members (find_ctx st d')
          \<and> (\<forall>c'. ports_in c' (find_ctx st' d') = ports_in c' (find_ctx st d'))" if "d' \<noteq> d" for d'
  proof (cases "find_ctx st' d' = None")
    case False
    then have "find_ctx st' d' = find_ctx st2 d'" using rest [of d'] by argo
    then show ?thesis using m2(1) [of d'] m2(2) [of _ d'] that by simp
  qed simp
  ultimately show ?thesis using i' out by blast
qed

text \<open>
  C22: closing a device for a client that has it open: the client has it open no more, in the tables and in its account, and holds no
  port of it; the ports that only this client used are closed in the driver. When others have the device open, it stays open for exactly
  them with their ports, the manager is not asked, and the call succeeds; when nobody has, its entry goes and the manager closes
  the device, whose answer decides the result. Every other device and every waiting request is as before, but for those that
  the manager reports as removed or answers while it closes the device.
\<close>

theorem close_device:
  assumes "service_inv st" "c \<in> set (sc_clients st)" "c \<in> members (find_ctx st d)" "CloseDevice drv c d st = (ret, st')"
  shows "service_inv st' \<and> c \<notin> members (find_ctx st' d) \<and> d \<notin> set (openDevices (resource_of st' c))
     \<and> (if members (find_ctx st d) = {c} then find_ctx st' d = None
        else ret = OH_MIDI_STATUS_OK \<and> members (find_ctx st' d) = members (find_ctx st d) - {c}
          \<and> (\<forall>c'. c' \<noteq> c \<longrightarrow> ports_in c' (find_ctx st' d) = ports_in c' (find_ctx st d)))
     \<and> (case device_closed drv c d st of (r, calls, m) \<Rightarrow>
          ret = r \<and> manager st' = m
          \<and> (\<forall>d'. d' \<noteq> d \<longrightarrow> find_ctx st' d' = (if d' \<in> removed calls then None else find_ctx st d'))
          \<and> (\<forall>a. find_key (pendingBleConnections st') a = (if a \<in> answered calls then None else find_key (pendingBleConnections st) a)))"
proof -
  obtain r calls m where D: "device_closed drv c d st = (r, calls, m)" using prod_cases3 by blast
  show ?thesis using CloseDevice_users [OF assms] CloseDevice_driver [OF assms D] by (auto simp: D split: if_splits)
qed

theorem close_device_witness:
  "case CloseDevice demo_drivers 1 1001 demo_service of (ret, st') \<Rightarrow>
     ret = OH_MIDI_STATUS_OK \<and> members (find_ctx st' 1001) = {2}"
proof -
  obtain ret st' where C: "CloseDevice demo_drivers 1 1001 demo_service = (ret, st')" by fastforce
  show ?thesis using close_device [OF demo_service_inv _ _ C] by (simp add: C demo_service_facts insert_eq_iff)
qed

text \<open>
  C23: a device that the manager reports as gone is forgotten: its entry goes with every
  client and port in it, every other device is as before, the accounts fit what is still open, and every
  client is told once, in the order of the clients, after the change.
\<close>

theorem device_removed:
  assumes "service_inv st" "st' = NotifyDeviceChange REMOVED dev st"
  shows "find_ctx st' (device_id dev) = None \<and> (\<forall>d. d \<noteq> device_id dev \<longrightarrow> find_ctx st' d = find_ctx st d)
     \<and> sc_clients st' = sc_clients st
     \<and> (\<forall>c\<in>set (sc_clients st). set (openDevices (resource_of st' c)) = opened c st - {device_id dev}
          \<and> unat (openPortCount (resource_of st' c)) = card {x \<in> open_ports c st. fst x \<noteq> device_id dev})
     \<and> sent st' = sent st @ map (\<lambda>c. DeviceChanged c REMOVED (midiDeviceInfo dev)) (sc_clients st)"
proof -
  have t: "tables_inv {} st" using assms(1) by (simp add: service_inv_def)
  have i': "service_inv st'" using NotifyDeviceChange_inv [OF assms(1)] by (simp add: assms(2))
  have g: "find_ctx st' d = (if d = device_id dev then None else find_ctx st d)" "sc_clients st' = sc_clients st"
    "sent st' = sent st @ map (\<lambda>c. DeviceChanged c REMOVED (midiDeviceInfo dev)) (sc_clients st)" for d
    using NotifyDeviceChange_spec [OF t, of REMOVED dev] by (simp_all add: assms(2) device_gone_def same_people_def)
  have "opened c st' = opened c st - {device_id dev}" "open_ports c st' = {x \<in> open_ports c st. fst x \<noteq> device_id dev}" for c
    by (auto simp: opened_def open_ports_def g split: if_splits)
  then have "set (openDevices (resource_of st' c)) = opened c st - {device_id dev}
      \<and> unat (openPortCount (resource_of st' c)) = card {x \<in> open_ports c st. fst x \<noteq> device_id dev}" if "c \<in> set (sc_clients st)" for c
    using account [OF i', of c] that g(2) by (simp add: account_ok_def)
  then show ?thesis using g by simp
qed

theorem device_removed_witness:
  "find_ctx (NotifyDeviceChange REMOVED (with_id 1001 (demo_device 7)) demo_service) 1001 = None"
  using device_removed [OF demo_service_inv refl, of "with_id 1001 (demo_device 7)"] by simp

section \<open>Waiting for a Bluetooth device\<close>

lemma HandleBleOpenComplete_spec:
  assumes "service_inv st" "find_key (pendingBleConnections st) addr = Some reqs"
    "st' = HandleBleOpenComplete drv addr success d what st"
  shows "find_key (pendingBleConnections st') addr = None \<and> sent st' = sent st @ map (\<lambda>r. DeviceOpened (pb_callback r) success what) reqs
     \<and> (success \<longrightarrow> find_key (activeBleDevices st') addr = Some d
          \<and> (\<forall>d'. members (find_ctx st' d') = members (find_ctx st d') \<union> (if d' = d then pb_clientId ` set reqs else {})))"
proof -
  define st1 where "st1 = st\<lparr>pendingBleConnections := AList.delete addr (pendingBleConnections st)\<rparr>"
  have T: "TakeWaiting addr st = (reqs, st1)" using assms(2) by (simp add: TakeWaiting_def st1_def)
  have t1: "tables_inv {} st1" using assms(1) by (simp add: st1_def service_inv_def ctl_simps)
  have p: "reqs \<noteq> []" "pb_clientId ` set reqs \<subseteq> set (sc_clients st)"
    using assms(1,2) unfolding service_inv_def pending_inv_def by blast+
  obtain ok st2 where R: "RegisterBleDeviceForPendingClientsLocked addr d reqs st1 = (ok, st2)" by fastforce
  have all: "pb_clientId ` set reqs \<inter> set (sc_clients st1) = pb_clientId ` set reqs" using p(2) by (auto simp: st1_def)
  note S = Register_spec [OF t1 R, unfolded all]
  have ok: "ok" using S p(1) by simp
  have E: "st' = TellWaiting reqs success what (if success then st2 else st1)"
    using ok R T by (simp add: assms(3) HandleBleOpenComplete_def Let_def)
  have s1: "find_key (pendingBleConnections st1) addr = None" "sent st1 = sent st" "find_ctx st1 = find_ctx st"
    by (simp_all add: st1_def fun_eq_iff ctl_simps)
  show ?thesis using S s1 by (cases success) (simp_all add: E TellWaiting_def ctl_simps ble_registered_def)
qed

lemma NotifyAdd: "NotifyDeviceChange ADD dev st = send (map (\<lambda>c. DeviceChanged c ADD (midiDeviceInfo dev)) (sc_clients st)) st"
  by (simp add: NotifyDeviceChange_def CollectClientsToNotify_def)

text \<open>The device that the registry has for a driver's Bluetooth device, if it has one.\<close>

definition registered :: "DeviceInformation \<Rightarrow> 'd MidiDeviceManager \<Rightarrow> DeviceInformation option" where
  "registered devInfo m =
     find (\<lambda>dev. device_id dev = (case find_key (driverIdToMidiId m) (driverDeviceId (midiDeviceInfo devInfo), DEVICE_TYPE_BLE) of
       Some i \<Rightarrow> i | None \<Rightarrow> 0)) (devices m)"

lemma report_calls:
  assumes "connected \<or> registered devInfo man = None"
  shows "\<exists>m d what adds. (if connected then HandleBleConnect addr devInfo else HandleBleDisconnect addr devInfo) man
    = (BleOpenComplete addr connected d what # map (NotifyChange ADD) adds, m)"
proof (cases connected)
  case True
  obtain i m where G: "GetOrCreateDeviceId (driverDeviceId (midiDeviceInfo devInfo), DEVICE_TYPE_BLE) man = (i, m)" by fastforce
  show ?thesis
  proof (cases "find (\<lambda>dev. device_id dev = i) (devices m)")
    case None
    show ?thesis using True G None
      by (intro exI [of _ "m\<lparr>devices := devices m @ [with_id i devInfo]\<rparr>"] exI [of _ i] exI [of _ "midiDeviceInfo (with_id i devInfo)"]
          exI [of _ "[with_id i devInfo]"]) (simp add: HandleBleConnect_def Let_def)
  next
    case (Some dev)
    show ?thesis using True G Some
      by (intro exI [of _ m] exI [of _ i] exI [of _ "midiDeviceInfo dev"] exI [of _ "[]"]) (simp add: HandleBleConnect_def)
  qed
next
  case False
  then have "registered devInfo man = None" using assms by blast
  then show ?thesis using False
    by (auto simp: HandleBleDisconnect_def registered_def Let_def intro: exI [of _ "[]"])
qed

lemma fold_adds: "\<exists>rest. fold (HandleManagerCall drv) (map (NotifyChange ADD) ds) s = send rest s"
proof (induction ds arbitrary: s)
  case Nil
  show ?case by (rule exI [of _ "[]"]) (simp add: send_def)
next
  case (Cons a ds)
  show ?case using Cons.IH [of "NotifyDeviceChange ADD a s"] by (auto simp: HandleManagerCall_def NotifyAdd send_def)
qed

text \<open>The report that answers.\<close>

lemma ble_answered:
  assumes "service_inv st" "find_key (pendingBleConnections st) addr = Some reqs"
    "connected \<or> registered devInfo (manager st) = None" "st' = snd (serve drv (BleReport addr connected devInfo) st)"
  shows "find_key (pendingBleConnections st') addr = None
     \<and> (\<exists>what rest. sent st' = sent st @ map (\<lambda>r. DeviceOpened (pb_callback r) connected what) reqs @ rest)
     \<and> (connected \<longrightarrow> (\<exists>d. find_key (activeBleDevices st') addr = Some d \<and> (\<forall>r\<in>set reqs. pb_clientId r \<in> members (find_ctx st' d))))"
proof -
  obtain m d what adds where C: "(if connected then HandleBleConnect addr devInfo else HandleBleDisconnect addr devInfo) (manager st)
      = (BleOpenComplete addr connected d what # map (NotifyChange ADD) adds, m)"
    using report_calls [OF assms(3)] by blast
  define st1 where "st1 = HandleBleOpenComplete drv addr connected d what (st\<lparr>manager := m\<rparr>)"
  have S: "find_key (pendingBleConnections st1) addr = None \<and> sent st1 = sent st @ map (\<lambda>r. DeviceOpened (pb_callback r) connected what) reqs
     \<and> (connected \<longrightarrow> find_key (activeBleDevices st1) addr = Some d
          \<and> (\<forall>d'. members (find_ctx st1 d') = members (find_ctx (st\<lparr>manager := m\<rparr>) d') \<union> (if d' = d then pb_clientId ` set reqs else {})))"
    using HandleBleOpenComplete_spec [OF _ _ st1_def, of reqs] assms(1,2) by (simp add: service_inv_fields)
  obtain rest where "st' = send rest st1" using fold_adds [of drv adds st1] C
    by (auto simp: assms(4) serve_def with_manager_def HandleManagerCall_def st1_def)
  then show ?thesis using S by (auto simp: ctl_simps)
qed

text \<open>The report that answers nobody.\<close>

lemma ble_not_answered:
  assumes "service_inv st" "find_key (pendingBleConnections st) addr = Some reqs" "registered devInfo (manager st) = Some dev"
    "st' = snd (serve drv (BleReport addr False devInfo) st)"
  shows "find_key (pendingBleConnections st') addr = Some reqs
     \<and> sent st' = sent st @ map (\<lambda>c. DeviceChanged c REMOVED (midiDeviceInfo dev)) (sc_clients st)
     \<and> EnqueueBleConnectionRequest drv c addr cb st'
        = (OH_MIDI_STATUS_OK, st'\<lparr>pendingBleConnections := AList.update addr (reqs @ [\<lparr>pb_clientId = c, pb_callback = cb\<rparr>]) (pendingBleConnections st')\<rparr>)"
proof -
  obtain m where "HandleBleDisconnect addr devInfo (manager st) = ([NotifyChange REMOVED dev], m)"
    using assms(3) by (auto simp: HandleBleDisconnect_def registered_def Let_def)
  then have "st' = NotifyDeviceChange REMOVED dev (st\<lparr>manager := m\<rparr>)"
    by (simp add: assms(4) serve_def with_manager_def HandleManagerCall_def)
  moreover have "tables_inv {} (st\<lparr>manager := m\<rparr>)" using assms(1) by (simp add: service_inv_def ctl_simps)
  ultimately have "pendingBleConnections st' = pendingBleConnections st"
    "sent st' = sent st @ map (\<lambda>c. DeviceChanged c REMOVED (midiDeviceInfo dev)) (sc_clients st)"
    using NotifyDeviceChange_spec [of "{}" "st\<lparr>manager := m\<rparr>" REMOVED dev] by simp_all
  then show ?thesis using assms(2) by (simp add: EnqueueBleConnectionRequest_def Let_def)
qed

definition demo_waiting :: "DeviceInformation list MidiServiceController" where
  "demo_waiting = run demo_drivers [Create True True True 5, OpenBle 1 ''A'' (Some 4)] (new_MidiServiceController [])"

lemma demo_waiting_facts: "service_inv demo_waiting" "find_key (pendingBleConnections demo_waiting) ''A'' = Some [\<lparr>pb_clientId = 1, pb_callback = 4\<rparr>]"
  "sent demo_waiting = []"
proof -
  show "service_inv demo_waiting" unfolding demo_waiting_def by (rule reachable_inv [OF reachable_run [OF reachable.init]])
  have "pendingBleConnections demo_waiting = [(''A'', [\<lparr>pb_clientId = 1, pb_callback = 4\<rparr>])]" by code_simp
  then show "find_key (pendingBleConnections demo_waiting) ''A'' = Some [\<lparr>pb_clientId = 1, pb_callback = 4\<rparr>]" by simp
  show "sent demo_waiting = []" by code_simp
qed

text \<open>
  C24: who is answered when the driver reports that a Bluetooth device is connected or not. When it is connected, or when it is
  not and the registry does not have it, then nobody waits for its address any more, and every request that waited is
  answered once, in order, with the outcome, before anything else is sent; and when it is connected every client that
  waited has the device open, under the identifier that the address now stands for. When it is not connected and the registry already has the
  device, because an update of the device list found it while it was still connecting, the
  report only removes the device: the requests go on waiting, no one is told, and every later request for the address is queued
  behind them without the driver being asked again.
\<close>

theorem ble_answer:
  assumes "service_inv st" "find_key (pendingBleConnections st) addr = Some reqs" "st' = snd (serve drv (BleReport addr connected devInfo) st)"
  shows "(connected \<or> registered devInfo (manager st) = None \<longrightarrow>
       find_key (pendingBleConnections st') addr = None
       \<and> (\<exists>what rest. sent st' = sent st @ map (\<lambda>r. DeviceOpened (pb_callback r) connected what) reqs @ rest)
       \<and> (connected \<longrightarrow> (\<exists>d. find_key (activeBleDevices st') addr = Some d \<and> (\<forall>r\<in>set reqs. pb_clientId r \<in> members (find_ctx st' d)))))
     \<and> (\<forall>dev. \<not> connected \<and> registered devInfo (manager st) = Some dev \<longrightarrow>
       find_key (pendingBleConnections st') addr = Some reqs
       \<and> sent st' = sent st @ map (\<lambda>c. DeviceChanged c REMOVED (midiDeviceInfo dev)) (sc_clients st)
       \<and> EnqueueBleConnectionRequest drv c addr cb st'
          = (OH_MIDI_STATUS_OK, st'\<lparr>pendingBleConnections := AList.update addr (reqs @ [\<lparr>pb_clientId = c, pb_callback = cb\<rparr>]) (pendingBleConnections st')\<rparr>))"
proof (cases "connected \<or> registered devInfo (manager st) = None")
  case True
  then show ?thesis using ble_answered [OF assms(1,2) True assms(3)] by auto
next
  case False
  then have "st' = snd (serve drv (BleReport addr False devInfo) st)" using assms(3) by simp
  then show ?thesis using ble_not_answered [OF assms(1,2)] False by blast
qed

text \<open>A client opens a device by its address; the driver connects to it.\<close>

theorem ble_answer_witness:
  "\<exists>d what rest. sent (snd (serve demo_drivers (BleReport ''A'' True (demo_device 7)) demo_waiting)) = DeviceOpened 4 True what # rest
     \<and> 1 \<in> members (find_ctx (snd (serve demo_drivers (BleReport ''A'' True (demo_device 7)) demo_waiting)) d)"
  using ble_answer [OF demo_waiting_facts(1,2) refl, where drv = demo_drivers and connected = True and devInfo = "demo_device 7"] demo_waiting_facts(3)
  by fastforce

end
