(* ===== verification/Midi_In_Server.thy ===== *)
theory Midi_In_Server
  imports Client_Library Service_Properties
begin

text \<open>
  \<^verbatim>\<open>services/server/src/midi_in_server.cpp\<close> and \<^verbatim>\<open>midi_permission.cpp\<close>: the object that stands for a client in the
  service. The client's calls arrive at it and go on to the controller, and what the controller notifies goes through
  its callback slot to the client.
\<close>

section \<open>Permission\<close>

definition PERMISSION_GRANTED :: int where "PERMISSION_GRANTED = 0"

text \<open>\<open>verify\<close> is the answer of the access token service for the permission to use Bluetooth.\<close>

definition VerifyBluetoothPermission :: "(u32 \<Rightarrow> int) \<Rightarrow> u32 \<Rightarrow> bool" where
  "VerifyBluetoothPermission verify tokenId \<longleftrightarrow> verify tokenId = PERMISSION_GRANTED"

text \<open>A call: the token of the caller, the access token service and the system calls during the call.\<close>

record Caller =
  call_token :: u32
  call_verify :: "u32 \<Rightarrow> int"
  call_system :: ServiceEnv

definition call_env :: "Caller \<Rightarrow> ServiceEnv" where
  "call_env call = (call_system call)\<lparr>env_permission := VerifyBluetoothPermission (call_verify call) (call_token call)\<rparr>"

section \<open>The callback slot\<close>

text \<open>
  The guards are handed to the threads that notify; a guard is empty (\<open>False\<close>) or counts as an active callback until it is
  released. The record has the callback as a flag: whether there still is one.
\<close>

record CallbackSlot =
  slot_callback :: bool
  slot_closing :: bool
  activeCallbacks :: u32
  slot_destroyed :: bool

definition new_CallbackSlot :: "bool \<Rightarrow> CallbackSlot" where
  "new_CallbackSlot callback = \<lparr>slot_callback = callback, slot_closing = False, activeCallbacks = 0, slot_destroyed = False\<rparr>"

definition Acquire :: "CallbackSlot \<Rightarrow> bool \<times> CallbackSlot" where
  "Acquire slot =
     (if slot_closing slot \<or> \<not> slot_callback slot then (False, slot)
      else (True, slot\<lparr>activeCallbacks := activeCallbacks slot + 1\<rparr>))"

text \<open>The result says whether the thread that waits in \<open>CloseAndDrain\<close> is notified.\<close>

definition OnGuardReleased :: "CallbackSlot \<Rightarrow> bool \<times> CallbackSlot" where
  "OnGuardReleased slot =
     (let slot = slot\<lparr>activeCallbacks := activeCallbacks slot - 1\<rparr>
      in (slot_closing slot \<and> activeCallbacks slot = 0, slot))"

definition Guard_Release :: "bool \<Rightarrow> CallbackSlot \<Rightarrow> bool \<times> CallbackSlot" where
  "Guard_Release guard slot = (if guard \<and> \<not> slot_destroyed slot then OnGuardReleased slot else (False, slot))"

text \<open>
  \<open>CloseAndDrain\<close> up to its wait: the result says whether it waits, which it does until no callback is
  active or \<open>DRAIN_TIMEOUT_SEC\<close> have passed.
\<close>

definition CloseAndDrain :: "CallbackSlot \<Rightarrow> bool \<times> CallbackSlot" where
  "CloseAndDrain slot =
     (if slot_closing slot then (False, slot)
      else (True, slot\<lparr>slot_closing := True, slot_callback := False\<rparr>))"

definition drained :: "CallbackSlot \<Rightarrow> bool" where
  "drained slot \<longleftrightarrow> activeCallbacks slot = 0"

definition destroy_CallbackSlot :: "CallbackSlot \<Rightarrow> CallbackSlot" where
  "destroy_CallbackSlot slot = slot\<lparr>slot_destroyed := True\<rparr>"

text \<open>
  The threads on one slot: how many non-empty guards they hold, and how far the thread is that closes the slot. A step is a call of one thread;
  there are fewer than 2 ^ 32 threads.
\<close>

datatype Closer = NotClosing | Waiting | Closed | TimedOut

inductive slot_step :: "CallbackSlot \<times> nat \<times> Closer \<Rightarrow> CallbackSlot \<times> nat \<times> Closer \<Rightarrow> bool" where
  acquire: "Acquire slot = (guard, slot') \<Longrightarrow> Suc guards < 2 ^ 32 \<Longrightarrow>
     slot_step (slot, guards, closer) (slot', if guard then Suc guards else guards, closer)"
| release: "Guard_Release True slot = (notified, slot') \<Longrightarrow> slot_step (slot, Suc guards, closer) (slot', guards, closer)"
| close: "CloseAndDrain slot = (waits, slot') \<Longrightarrow> slot_step (slot, guards, closer) (slot', guards, if waits then Waiting else closer)"
| wake: "drained slot \<Longrightarrow> slot_step (slot, guards, Waiting) (slot, guards, Closed)"
| timeout: "\<not> drained slot \<Longrightarrow> slot_step (slot, guards, Waiting) (slot, guards, TimedOut)"

definition slot_reachable :: "bool \<Rightarrow> CallbackSlot \<times> nat \<times> Closer \<Rightarrow> bool" where
  "slot_reachable callback = slot_step\<^sup>*\<^sup>* (new_CallbackSlot callback, 0, NotClosing)"

section \<open>The stub of a client\<close>

record MidiInServer =
  stub_clientId :: u32
  callerTokenId :: u32
  callbackSlot :: CallbackSlot
  hasBluetoothPermission :: bool

definition new_MidiInServer :: "Caller \<Rightarrow> u32 \<Rightarrow> bool \<Rightarrow> MidiInServer" where
  "new_MidiInServer call c callback =
     \<lparr>stub_clientId = c, callerTokenId = call_token call, callbackSlot = new_CallbackSlot callback,
      hasBluetoothPermission = VerifyBluetoothPermission (call_verify call) (call_token call)\<rparr>"

definition UpdateBluetoothPermission :: "(u32 \<Rightarrow> int) \<Rightarrow> u32 option \<Rightarrow> MidiInServer \<Rightarrow> MidiInServer" where
  "UpdateBluetoothPermission verify fresh srv =
     (let token = (case fresh of Some t \<Rightarrow> t | None \<Rightarrow> callerTokenId srv)
      in srv\<lparr>callerTokenId := token, hasBluetoothPermission := VerifyBluetoothPermission verify token\<rparr>)"

definition Stub_IsBluetoothDevice :: "MidiDeviceInfo \<Rightarrow> bool" where
  "Stub_IsBluetoothDevice devInfo \<longleftrightarrow> deviceType devInfo = DEVICE_TYPE_BLE"

type_synonym 'd Served = "MidiInServer \<times> 'd MidiServiceController"

definition Stub_GetDevices :: "Caller \<Rightarrow> 'd Served \<Rightarrow> int \<times> MidiDeviceInfo list \<times> 'd Served" where
  "Stub_GetDevices call s =
     (case s of (srv, st) \<Rightarrow>
        let deviceList = GetDevices st;
            srv = UpdateBluetoothPermission (call_verify call) (Some (call_token call)) srv
        in if hasBluetoothPermission srv then (OH_MIDI_STATUS_OK, deviceList, srv, st)
           else (OH_MIDI_STATUS_OK, filter (\<lambda>d. \<not> Stub_IsBluetoothDevice d) deviceList, srv, st))"

definition Stub_GetDevicePorts :: "Caller \<Rightarrow> int \<Rightarrow> 'd Served \<Rightarrow> int \<times> MidiPortInfo list" where
  "Stub_GetDevicePorts call d s = Controller_GetDevicePorts (call_env call) d (snd s)"

definition Stub_OpenDevice :: "'d Drivers \<Rightarrow> Caller \<Rightarrow> int \<Rightarrow> 'd Served \<Rightarrow> int \<times> MidiDeviceInfo \<times> 'd Served" where
  "Stub_OpenDevice drv call d s =
     (case s of (srv, st) \<Rightarrow>
        case OpenDevice drv (call_env call) (stub_clientId srv) d st of (ret, st') \<Rightarrow> (ret, GetDevice d st, srv, st'))"

definition Stub_OpenBleDevice :: "'d Drivers \<Rightarrow> Caller \<Rightarrow> string \<Rightarrow> nat option \<Rightarrow> 'd Served \<Rightarrow> int \<times> 'd Served" where
  "Stub_OpenBleDevice drv call addr callback s =
     (case s of (srv, st) \<Rightarrow>
        let srv = UpdateBluetoothPermission (call_verify call) (Some (call_token call)) srv
        in if \<not> hasBluetoothPermission srv then (OH_MIDI_STATUS_PERMISSION_DENIED, srv, st)
           else (case OpenBleDevice drv (stub_clientId srv) addr callback st of (ret, st) \<Rightarrow> (ret, srv, st)))"

text \<open>
  The ring that opening a port hands back is the one of the connection that it has just added to the port,
  \<open>buffer = clientConnection->GetRingBuffer()\<close>.
\<close>

definition added_ring :: "'a DeviceConnection_scheme option \<Rightarrow> MidiSharedRing option" where
  "added_ring dc = (case dc of None \<Rightarrow> None | Some dc \<Rightarrow> if clients dc = [] then None else sharedRing (last (clients dc)))"

definition Stub_OpenInputPort :: "'d Drivers \<Rightarrow> Caller \<Rightarrow> int \<Rightarrow> u32 \<Rightarrow> 'd Served \<Rightarrow> int \<times> MidiSharedRing option \<times> 'd Served" where
  "Stub_OpenInputPort drv call d p s =
     (case s of (srv, st) \<Rightarrow>
        case OpenInputPort drv (call_env call) (stub_clientId srv) d p st of (ret, st) \<Rightarrow>
          (ret, if ret = OH_MIDI_STATUS_OK
                then added_ring (Option.bind (find_ctx st d) (\<lambda>ctx. find_key (inputConnections ctx) p)) else None, srv, st))"

definition Stub_OpenOutputPort :: "'d Drivers \<Rightarrow> Caller \<Rightarrow> int \<Rightarrow> u32 \<Rightarrow> 'd Served \<Rightarrow> int \<times> MidiSharedRing option \<times> 'd Served" where
  "Stub_OpenOutputPort drv call d p s =
     (case s of (srv, st) \<Rightarrow>
        case OpenOutputPort drv (call_env call) (stub_clientId srv) d p st of (ret, st) \<Rightarrow>
          (ret, if ret = OH_MIDI_STATUS_OK
                then added_ring (Option.bind (find_ctx st d) (\<lambda>ctx. find_key (outputConnections ctx) p)) else None, srv, st))"

text \<open>The calls that only add the identifier of the client.\<close>

definition on_controller :: "(u32 \<Rightarrow> 'd MidiServiceController \<Rightarrow> int \<times> 'd MidiServiceController) \<Rightarrow> 'd Served \<Rightarrow> int \<times> 'd Served" where
  "on_controller call s = (case s of (srv, st) \<Rightarrow> case call (stub_clientId srv) st of (ret, st) \<Rightarrow> (ret, srv, st))"

text \<open>
  Destroying the client drains its slot, unless the controller does not know it. The wait in between is not a
  step of this model: what the notifying threads do meanwhile is in \<open>slot_step\<close>.
\<close>

definition Stub_DestroyMidiClient :: "'d Drivers \<Rightarrow> 'd Served \<Rightarrow> int \<times> 'd Served" where
  "Stub_DestroyMidiClient drv s =
     (case s of (srv, st) \<Rightarrow>
        case DestroyMidiClient drv (stub_clientId srv) st of (ret, st') \<Rightarrow>
          (ret, if stub_clientId srv \<in> set (sc_clients st) then srv\<lparr>callbackSlot := snd (CloseAndDrain (callbackSlot srv))\<rparr> else srv, st'))"

text \<open>The stub as the client's proxy sees it; what the parcels do to a ring is in \<open>Shared_Ring\<close>.\<close>

definition in_server :: "'d Drivers \<Rightarrow> Caller \<Rightarrow> 'd Served IpcMidiInServer" where
  "in_server drv call =
     \<lparr>ipc_GetDevices = Stub_GetDevices call,
      ipc_GetDevicePorts = Stub_GetDevicePorts call,
      ipc_OpenDevice = Stub_OpenDevice drv call,
      ipc_OpenBleDevice = (\<lambda>addr callback. Stub_OpenBleDevice drv call addr (Some callback)),
      ipc_CloseDevice = (\<lambda>d. on_controller (\<lambda>c. CloseDevice drv c d)),
      ipc_OpenInputPort = Stub_OpenInputPort drv call,
      ipc_OpenOutputPort = Stub_OpenOutputPort drv call,
      ipc_FlushOutputPort = (\<lambda>d p. on_controller (\<lambda>c. FlushOutputPort c d p)),
      ipc_CloseInputPort = (\<lambda>d p. on_controller (\<lambda>c. CloseInputPort drv c d p)),
      ipc_CloseOutputPort = (\<lambda>d p. on_controller (\<lambda>c. CloseOutputPort drv c d p)),
      ipc_DestroyMidiClient = Stub_DestroyMidiClient drv\<rparr>"

text \<open>
  The stub is made by the controller when it creates the client; before that there is none, and the one in the state is arbitrary.
\<close>

definition create_in_server ::
  "'d Drivers \<Rightarrow> Caller \<Rightarrow> bool \<Rightarrow> bool \<Rightarrow> bool \<Rightarrow> u32 \<Rightarrow> 'd Served \<Rightarrow> int \<times> u32 option \<times> 'd Served IpcMidiInServer option \<times> 'd Served" where
  "create_in_server drv call valid allocated added callingUid s =
     (case s of (srv, st) \<Rightarrow>
        case CreateMidiInServer valid allocated added callingUid st of (ret, c, st) \<Rightarrow>
          if ret = OH_MIDI_STATUS_OK then (ret, c, Some (in_server drv call), new_MidiInServer call (the c) True, st)
          else (ret, c, None, srv, st))"

section \<open>Notifications\<close>

text \<open>
  \<open>tell\<close> is the call on the client's listener, on a state of its own; it runs between the two changes of the slot.
\<close>

definition with_guard :: "(MidiInServer \<Rightarrow> 'l \<Rightarrow> MidiInServer \<times> 'l) \<Rightarrow> MidiInServer \<Rightarrow> 'l \<Rightarrow> MidiInServer \<times> 'l" where
  "with_guard body srv l =
     (case Acquire (callbackSlot srv) of (guard, slot) \<Rightarrow>
        let srv = srv\<lparr>callbackSlot := slot\<rparr>
        in if \<not> guard then (srv, l)
           else (case body srv l of (srv, l) \<Rightarrow> (srv\<lparr>callbackSlot := snd (Guard_Release guard (callbackSlot srv))\<rparr>, l)))"

definition Stub_NotifyDeviceChange ::
  "(u32 \<Rightarrow> int) \<Rightarrow> (DeviceChangeType \<Rightarrow> MidiDeviceInfo \<Rightarrow> 'l \<Rightarrow> 'l) \<Rightarrow> DeviceChangeType \<Rightarrow> MidiDeviceInfo \<Rightarrow> MidiInServer \<Rightarrow> 'l \<Rightarrow> MidiInServer \<times> 'l" where
  "Stub_NotifyDeviceChange verify tell change devInfo =
     with_guard (\<lambda>srv l.
       let srv = UpdateBluetoothPermission verify None srv
       in if \<not> hasBluetoothPermission srv \<and> Stub_IsBluetoothDevice devInfo then (srv, l)
          else (srv, tell change devInfo l))"

definition Stub_NotifyError :: "(int \<Rightarrow> 'l \<Rightarrow> 'l) \<Rightarrow> int \<Rightarrow> MidiInServer \<Rightarrow> 'l \<Rightarrow> MidiInServer \<times> 'l" where
  "Stub_NotifyError tell code = with_guard (\<lambda>srv l. (srv, tell code l))"

section \<open>The stub keeps the contract of the proxy\<close>

definition fresh_ring :: "MidiSharedRing option \<Rightarrow> bool" where
  "fresh_ring r \<longleftrightarrow> (\<exists>ring. r = Some ring \<and> ring_queue ring [] \<and> capacity ring = DEFAULT_RING_BUFFER_SIZE
     \<and> ring\<lparr>readPosition := 0, writePosition := 0, flushFlag := 0, notifyFd := map_option (\<lambda>_. 0) (notifyFd ring)\<rparr> = ring)"

lemma fresh_ring_Some: "fresh_ring r \<Longrightarrow> r \<noteq> None"
  by (auto simp: fresh_ring_def)

lemma CreateRingBuffer_ring:
  "CreateRingBuffer f fd (new_ClientConnection c d p) = (OH_MIDI_STATUS_OK, conn) \<Longrightarrow> fresh_ring (sharedRing conn)"
proof -
  assume C: "CreateRingBuffer f fd (new_ClientConnection c d p) = (OH_MIDI_STATUS_OK, conn)"
  obtain ring where r: "sharedRing conn = Some ring" "ring_queue ring []" "capacity ring = DEFAULT_RING_BUFFER_SIZE"
    using CreateRingBuffer_inv [OF C] by (auto simp: conn_inv_def)
  have "readPosition ring = 0" "writePosition ring = 0" "flushFlag ring = 0" "map_option (\<lambda>_. 0) (notifyFd ring) = notifyFd ring"
    using C r(1) by (auto simp: CreateRingBuffer_def CreateFromLocal_def Init_def status_defs split: option.splits if_splits)
  then show ?thesis using r by (simp add: fresh_ring_def)
qed

lemma AddClientConnection_ring:
  "AddClientConnection f c d dc = (OH_MIDI_STATUS_OK, dc') \<Longrightarrow> fresh_ring (added_ring (Some dc'))"
  "AddClientConnectionForOutput f fd c d dco = (OH_MIDI_STATUS_OK, dco') \<Longrightarrow> fresh_ring (added_ring (Some dco'))"
  using CreateRingBuffer_ring
  by (auto simp: AddClientConnection_def AddClientConnectionForOutput_def added_ring_def status_defs split: if_splits prod.splits)

lemma find_set_ctx: "find_ctx (set_ctx d ctx st) d = Some ctx" "find_ctx (count_port c st) d = find_ctx st d"
  by (simp_all add: find_ctx_def set_ctx_def count_port_def set_resource_def Let_def)

lemma PortGuard_status: "PortGuard env c d st = (status, None, st') \<Longrightarrow> status \<noteq> OH_MIDI_STATUS_OK"
  by (auto simp: PortGuard_def Let_def status_defs split: if_splits option.splits)

lemma port_failures: "OH_MIDI_STATUS_TOO_MANY_OPEN_PORTS \<noteq> OH_MIDI_STATUS_OK" "OH_MIDI_STATUS_PORT_ALREADY_OPEN \<noteq> OH_MIDI_STATUS_OK"
  by (simp_all add: status_defs)

lemma input_port_ring:
  assumes "ConnectToExistingInputPort env c d p ctx conn st = (OH_MIDI_STATUS_OK, st')
     \<or> CreateNewInputPortConnection drv env c d p ctx st = (OH_MIDI_STATUS_OK, st')"
  shows "\<exists>ctx' dc. find_ctx st' d = Some ctx' \<and> find_key (inputConnections ctx') p = Some dc \<and> fresh_ring (added_ring (Some dc))"
  using assms by (auto simp: port_failures ConnectToExistingInputPort_def CreateNewInputPortConnection_def find_set_ctx Let_def
      dest: AddClientConnection_ring(1) split: prod.splits if_splits)

lemma output_port_ring:
  assumes "ConnectToExistingOutputPort env c d p ctx conn st = (OH_MIDI_STATUS_OK, st')
     \<or> CreateNewOutputPortConnection drv env c d p ctx st = (OH_MIDI_STATUS_OK, st')"
  shows "\<exists>ctx' dc. find_ctx st' d = Some ctx' \<and> find_key (outputConnections ctx') p = Some dc \<and> fresh_ring (added_ring (Some dc))"
  using assms by (auto simp: port_failures ConnectToExistingOutputPort_def CreateNewOutputPortConnection_def find_set_ctx Let_def
      dest: AddClientConnection_ring(2) split: prod.splits if_splits)

lemma OpenInputPort_ring:
  assumes "OpenInputPort drv env c d p st = (OH_MIDI_STATUS_OK, st')"
  shows "fresh_ring (added_ring (Option.bind (find_ctx st' d) (\<lambda>ctx. find_key (inputConnections ctx) p)))"
proof -
  obtain status co st1 where G: "PortGuard env c d st = (status, co, st1)" using prod_cases3 by blast
  then obtain ctx where "co = Some ctx" using assms PortGuard_status [of env c d st status st1] by (cases co) (auto simp: OpenInputPort_def)
  then show ?thesis using assms G input_port_ring [of env c d p ctx "the (find_key (inputConnections ctx) p)" st1 st' drv]
    by (cases "find_key (inputConnections ctx) p") (auto simp: OpenInputPort_def)
qed

lemma OpenOutputPort_ring:
  assumes "OpenOutputPort drv env c d p st = (OH_MIDI_STATUS_OK, st')"
  shows "fresh_ring (added_ring (Option.bind (find_ctx st' d) (\<lambda>ctx. find_key (outputConnections ctx) p)))"
proof -
  obtain status co st1 where G: "PortGuard env c d st = (status, co, st1)" using prod_cases3 by blast
  then obtain ctx where "co = Some ctx" using assms PortGuard_status [of env c d st status st1] by (cases co) (auto simp: OpenOutputPort_def)
  then show ?thesis using assms G output_port_ring [of env c d p ctx "the (find_key (outputConnections ctx) p)" st1 st' drv]
    by (cases "find_key (outputConnections ctx) p") (auto simp: OpenOutputPort_def)
qed

interpretation stub: midi_service "in_server drv call" for drv call
  by unfold_locales
    (auto simp: in_server_def Stub_OpenInputPort_def Stub_OpenOutputPort_def dest: OpenInputPort_ring [THEN fresh_ring_Some] OpenOutputPort_ring [THEN fresh_ring_Some] split: prod.splits)

section \<open>Closing the slot\<close>

definition slot_inv :: "CallbackSlot \<times> nat \<times> Closer \<Rightarrow> bool" where
  "slot_inv w \<longleftrightarrow> (case w of (slot, guards, closer) \<Rightarrow>
     guards < 2 ^ 32 \<and> activeCallbacks slot = of_nat guards \<and> \<not> slot_destroyed slot
     \<and> (slot_closing slot \<longleftrightarrow> closer \<noteq> NotClosing) \<and> (closer = Closed \<longrightarrow> guards = 0))"

inductive_cases slot_stepE: "slot_step w w'"

lemma unat_guards: "guards < 2 ^ 32 \<Longrightarrow> unat (of_nat guards :: u32) = guards"
  by (simp add: unat_of_nat)

lemma slot_step_inv: "slot_step w w' \<Longrightarrow> slot_inv w \<Longrightarrow> slot_inv w'"
proof (induction rule: slot_step.induct)
  case (acquire slot guard slot' guards closer)
  then show ?case by (auto simp: slot_inv_def Acquire_def split: if_splits)
next
  case (release slot notified slot' guards closer)
  then show ?case by (auto simp: slot_inv_def Guard_Release_def OnGuardReleased_def Let_def)
next
  case (close slot waits slot' guards closer)
  then show ?case by (auto simp: slot_inv_def CloseAndDrain_def split: if_splits)
next
  case (wake slot guards)
  then show ?case using unat_guards [of guards] by (auto simp: slot_inv_def drained_def)
next
  case (timeout slot guards)
  then show ?case by (simp add: slot_inv_def)
qed

lemma slot_reachable_inv: "slot_reachable callback w \<Longrightarrow> slot_inv w"
  unfolding slot_reachable_def
proof (induction rule: rtranclp_induct)
  case base
  show ?case by (simp add: slot_inv_def new_CallbackSlot_def)
next
  case (step w w')
  then show ?case by (intro slot_step_inv [OF step.hyps(2)])
qed

text \<open>
  C35: whatever the threads do, a callback slot counts exactly the guards that are held. Once it is being closed, no new guard is
  handed out, and the thread that gives back the last one wakes the closing thread; and when that thread goes on without having timed out,
  nobody holds a guard, so that no notification reaches the client any more. A second call of \<open>CloseAndDrain\<close>
  does not wait, whatever guards are still held.
\<close>

theorem slot_drained:
  assumes "slot_reachable callback (slot, guards, closer)"
  shows "unat (activeCallbacks slot) = guards \<and> (closer = Closed \<longrightarrow> guards = 0)
     \<and> (closer \<noteq> NotClosing \<longrightarrow> Acquire slot = (False, slot) \<and> CloseAndDrain slot = (False, slot)
          \<and> (guards = 1 \<longrightarrow> (case Guard_Release True slot of (notified, slot') \<Rightarrow> notified \<and> drained slot')))"
proof -
  have i: "slot_inv (slot, guards, closer)" by (rule slot_reachable_inv [OF assms])
  then have "unat (activeCallbacks slot) = guards" using unat_guards [of guards] by (simp add: slot_inv_def)
  then show ?thesis using i
    by (auto simp: slot_inv_def Acquire_def CloseAndDrain_def Guard_Release_def OnGuardReleased_def drained_def)
qed

text \<open>A notification is under way while the client is destroyed.\<close>

lemma demo_slot: "slot_reachable True (\<lparr>slot_callback = False, slot_closing = True, activeCallbacks = 1, slot_destroyed = False\<rparr>, 1, Waiting)"
proof -
  let ?s = "\<lambda>cb cl n. \<lparr>slot_callback = cb, slot_closing = cl, activeCallbacks = n, slot_destroyed = False\<rparr>"
  have "slot_step (?s True False 0, 0, NotClosing) (?s True False 1, 1, NotClosing)"
    using slot_step.acquire [of "?s True False 0" True "?s True False 1" 0 NotClosing] by (simp add: Acquire_def)
  moreover have "slot_step (?s True False 1, 1, NotClosing) (?s False True 1, 1, Waiting)"
    using slot_step.close [of "?s True False 1" True "?s False True 1" 1 NotClosing] by (simp add: CloseAndDrain_def)
  ultimately show ?thesis unfolding slot_reachable_def new_CallbackSlot_def by (meson rtranclp.rtrancl_refl rtranclp.rtrancl_into_rtrancl)
qed

theorem slot_drained_witness:
  "fst (Guard_Release True \<lparr>slot_callback = False, slot_closing = True, activeCallbacks = 1, slot_destroyed = False\<rparr>)"
  using slot_drained [OF demo_slot] by (simp split: prod.splits)

end
