(* ===== verification/Client_Properties.thy ===== *)
theory Client_Properties
  imports Client_Invariant Midi_In_Server
begin

text \<open>
  What an application can rely on: the codes of the interface, the results of calls on live handles, the lists of
  devices, and what becomes of the handle of a device that is gone. The witnesses run on a client of the small service of
  \<open>Service_Properties\<close>, connected through the stub.
\<close>

section \<open>The statuses of the interface\<close>

definition documented :: "int \<Rightarrow> bool" where
  "documented r \<longleftrightarrow> r = OH_MIDI_STATUS_OK \<or> OH_MIDI_STATUS_GENERIC_INVALID_ARGUMENT \<le> r \<and> r \<le> OH_MIDI_STATUS_SYSTEM_ERROR"

lemma documented_constants [simp]:
  "documented OH_MIDI_STATUS_OK" "documented OH_MIDI_STATUS_GENERIC_INVALID_ARGUMENT" "documented OH_MIDI_STATUS_GENERIC_IPC_FAILURE"
  "documented OH_MIDI_STATUS_INVALID_CLIENT" "documented OH_MIDI_STATUS_INVALID_DEVICE_HANDLE" "documented OH_MIDI_STATUS_INVALID_PORT"
  "documented OH_MIDI_STATUS_TIMEOUT" "documented OH_MIDI_STATUS_PORT_ALREADY_OPEN" "documented OH_MIDI_STATUS_SYSTEM_ERROR"
  by (simp_all add: documented_def status_defs)

lemma documented_codes [simp]: "documented (GetMidiStatusCode r)" "documented (GetStatusCode c)"
  by (auto simp: documented_def GetMidiStatusCode_def GetStatusCode_def status_defs split: MidiStatusCode.splits)

lemma GetMidiStatusCode_id: "documented r \<Longrightarrow> r \<noteq> OH_MIDI_STATUS_SYSTEM_ERROR \<Longrightarrow> GetMidiStatusCode r = r"
  by (auto simp: documented_def GetMidiStatusCode_def status_defs)

lemmas service_client_defs = MidiServiceClient_GetDevices_def MidiServiceClient_GetDevicePorts_def MidiServiceClient_OpenDevice_def
  MidiServiceClient_OpenBleDevice_def MidiServiceClient_CloseDevice_def MidiServiceClient_OpenInputPort_def
  MidiServiceClient_OpenOutputPort_def MidiServiceClient_FlushOutputPort_def MidiServiceClient_CloseInputPort_def
  MidiServiceClient_CloseOutputPort_def MidiServiceClient_DestroyMidiClient_def

lemma service_client_documented [simp]:
  "documented (fst (MidiServiceClient_GetDevices sc s))" "documented (fst (MidiServiceClient_GetDevicePorts sc d s))"
  "documented (fst (MidiServiceClient_OpenDevice sc d s))" "documented (fst (MidiServiceClient_OpenBleDevice sc addr cb s))"
  "documented (fst (MidiServiceClient_CloseDevice sc d s))" "documented (fst (MidiServiceClient_OpenInputPort sc d p s))"
  "documented (fst (MidiServiceClient_OpenOutputPort sc d p s))" "documented (fst (MidiServiceClient_FlushOutputPort sc d p s))"
  "documented (fst (MidiServiceClient_CloseInputPort sc d p s))" "documented (fst (MidiServiceClient_CloseOutputPort sc d p s))"
  "documented (fst (MidiServiceClient_DestroyMidiClient calls sc s))"
  by (simp_all add: service_client_defs split: option.split prod.split)

lemma documented_prod: "documented (fst x) \<Longrightarrow> x = (r, y) \<Longrightarrow> documented r"
  by simp

lemmas service_client_eq = service_client_documented [THEN documented_prod]

lemma Send_documented: "Send heap events n w port = Some (r, x) \<Longrightarrow> documented r"
  by (auto simp: Send_def Let_def split: option.splits if_splits prod.splits)

lemma SendLoop_documented: "SendLoop fuel env round start es n w ring = Some (r, x) \<Longrightarrow> documented r"
  by (induction fuel arbitrary: round w ring) (auto simp: Let_def split: if_splits prod.splits)

lemma SendSysEx_documented: "SendSysEx fuel env start p bytes n port = Some (r, x) \<Longrightarrow> documented r"
  by (auto simp: SendSysEx_def SendSysExPackets_def Let_def dest: SendLoop_documented split: option.splits if_splits)

lemma device_documented:
  "documented (fst (Device_CloseDevice sc dev s))" "documented (fst (Device_OpenInputPort sc descriptor callback dev s))"
  "documented (fst (Device_OpenOutputPort sc descriptor dev s))" "documented (fst (Device_FlushOutputPort sc p dev s))"
  "documented (fst (Device_CloseOutputPort sc p dev s))"
  by (auto simp: Device_CloseDevice_def Device_OpenInputPort_def Device_OpenOutputPort_def Device_FlushOutputPort_def
      Device_CloseOutputPort_def Let_def dest: service_client_eq split: option.split prod.split)

lemma Device_CloseInputPort_documented: "Device_CloseInputPort sc caller p dev s = Some (r, x) \<Longrightarrow> documented r"
  by (auto simp: Device_CloseInputPort_def Let_def dest: service_client_eq split: option.splits prod.splits if_splits)

lemma on_device_documented:
  assumes "\<And>dev r x. call dev = Some (r, x) \<Longrightarrow> documented r"
  shows "case on_device device call nothing cp s of None \<Rightarrow> True | Some (r, _) \<Rightarrow> documented r"
  using assms by (auto simp: on_device_def split: option.split)


lemmas device_eq = device_documented [THEN documented_prod]

lemma Device_Send_documented: "Device_Send heap p events n w dev = Some (r, x) \<Longrightarrow> documented r"
  by (auto simp: Device_Send_def dest: Send_documented split: option.splits if_splits)

lemma Device_SendSysEx_documented: "Device_SendSysEx fuel env start p bytes n dev = Some (r, x) \<Longrightarrow> documented r"
  by (auto simp: Device_SendSysEx_def dest: SendSysEx_documented split: option.splits if_splits)

lemma GetMidiStatusCode_cases:
  "GetMidiStatusCode r = (if documented r \<and> r \<noteq> OH_MIDI_STATUS_SYSTEM_ERROR then r else OH_MIDI_STATUS_GENERIC_IPC_FAILURE)"
  by (auto simp: documented_def GetMidiStatusCode_def status_defs)

lemma CloseDevice_documented: "case OH_MIDIClient_CloseDevice caller device client s of None \<Rightarrow> True | Some (r, _) \<Rightarrow> documented r"
  by (auto simp: OH_MIDIClient_CloseDevice_def CloseAndRemoveDevice_def Let_def dest: device_eq split: option.split prod.split)

lemma Destroy_documented: "case OH_MIDIClient_Destroy caller calls client s of None \<Rightarrow> True | Some (r, _) \<Rightarrow> documented r"
  by (auto simp: OH_MIDIClient_Destroy_def Client_DestroyMidiClient_def Let_def dest: service_client_eq split: option.split prod.split)

text \<open>What the service answers to a function of the client, as the application gets it.\<close>

definition service_answer :: "('s IpcMidiInServer \<Rightarrow> int) \<Rightarrow> 's MidiClientPrivate \<Rightarrow> int" where
  "service_answer f cp = (case msc_ipc (cp_service cp) of None \<Rightarrow> OH_MIDI_STATUS_GENERIC_IPC_FAILURE
     | Some ipc \<Rightarrow> if documented (f ipc) \<and> f ipc \<noteq> OH_MIDI_STATUS_SYSTEM_ERROR then f ipc else OH_MIDI_STATUS_GENERIC_IPC_FAILURE)"

lemma answers_pass:
  "fst (OH_MIDIClient_GetDeviceInfos True room True (Some cp) s) = service_answer (\<lambda>ipc. fst (ipc_GetDevices ipc s)) cp"
  "fst (OH_MIDIClient_GetPortCount d (Some k) (Some cp) s) = service_answer (\<lambda>ipc. fst (ipc_GetDevicePorts ipc d s)) cp"
  "fst (OH_MIDIClient_GetPortInfos d True room True (Some cp) s) = service_answer (\<lambda>ipc. fst (ipc_GetDevicePorts ipc d s)) cp"
  "fst (OH_MIDIClient_OpenDevice h d True (Some cp) s) = service_answer (\<lambda>ipc. fst (ipc_OpenDevice ipc d s)) cp"
  "fst (OH_MIDIClient_OpenBLEDevice (Some a) (Some f) (Some cp) s) = service_answer (\<lambda>ipc. fst (ipc_OpenBleDevice ipc a f s)) cp"
  by (auto simp: OH_MIDIClient_GetDeviceInfos_def OH_MIDIClient_GetPortCount_def OH_MIDIClient_GetPortInfos_def OH_MIDIClient_OpenDevice_def
      OH_MIDIClient_OpenBLEDevice_def Client_GetDevices_def Client_GetDevicePorts_def Client_OpenDevice_def Client_OpenBleDevice_def
      service_client_defs service_answer_def GetMidiStatusCode_cases Let_def split: option.split prod.split)

lemma create_passes:
  "fst (OH_MIDIClient_Create calls create out callbacks s) =
     (if \<not> out then OH_MIDI_STATUS_GENERIC_INVALID_ARGUMENT
      else if \<not> (has_samgr calls \<and> has_object calls \<and> has_interface calls) then OH_MIDI_STATUS_GENERIC_IPC_FAILURE
      else (case create s of (ret, _, proxy, _) \<Rightarrow> if ret = OH_MIDI_STATUS_OK \<and> proxy = None then OH_MIDI_STATUS_GENERIC_IPC_FAILURE else ret))"
  by (auto simp: OH_MIDIClient_Create_def CreateMidiClient_def Client_Init_def MidiServiceClient_Init_def Let_def status_defs split: prod.split)


section \<open>A client on the stub\<close>

lemma CreateMidiInServer_id: "CreateMidiInServer valid allocated added u st = (ret, None, st') \<Longrightarrow> ret \<noteq> OH_MIDI_STATUS_OK"
  by (auto simp: CreateMidiInServer_def Let_def status_defs simp del: NextClientId.simps split: if_splits option.splits)

lemma ipc_failure: "OH_MIDI_STATUS_GENERIC_IPC_FAILURE \<noteq> OH_MIDI_STATUS_OK"
  by (simp add: status_defs)

lemma create_on_stub:
  assumes "OH_MIDIClient_Create calls (create_in_server drv call valid allocated added u) out callbacks s = (OH_MIDI_STATUS_OK, Some cp, srv, st)"
  shows "msc_ipc (cp_service cp) = Some (in_server drv call) \<and> stub_clientId srv = cp_clientId cp"
proof -
  obtain ret c ipc s1 where C: "create_in_server drv call valid allocated added u s = (ret, c, ipc, s1)" using prod_cases4 by blast
  then have "ret = OH_MIDI_STATUS_OK \<longrightarrow> c \<noteq> None \<and> ipc = Some (in_server drv call) \<and> stub_clientId (fst s1) = the c"
    using CreateMidiInServer_id [of valid allocated added u "snd s"] by (cases c) (auto simp: create_in_server_def new_MidiInServer_def split: prod.splits if_splits)
  then show ?thesis using assms
    by (auto simp: OH_MIDIClient_Create_def CreateMidiClient_def Client_Init_def MidiServiceClient_Init_def C ipc_failure Let_def split: if_splits)
qed

lemma created_reachable:
  assumes "OH_MIDIClient_Create calls (create_in_server drv call valid allocated added u) out callbacks s = (OH_MIDI_STATUS_OK, Some cp, s')"
  shows "client_reachable cp"
proof (rule client_reachable.created [OF assms])
  fix ipc assume "msc_ipc (cp_service cp) = Some ipc"
  moreover have "msc_ipc (cp_service cp) = Some (in_server drv call)"
    using create_on_stub [of calls drv call valid allocated added u out callbacks s cp "fst s'" "snd s'"] assms by simp
  ultimately show "midi_service ipc" using stub.midi_service_axioms by auto
qed

section \<open>A client of the small service\<close>

definition demo_call :: Caller where
  "demo_call = \<lparr>call_token = 0, call_verify = (\<lambda>_. 0), call_system = demo_env\<rparr>"

definition demo_created :: "int \<times> DeviceInformation list Served MidiClientPrivate option \<times> DeviceInformation list Served" where
  "demo_created = OH_MIDIClient_Create \<lparr>has_samgr = True, has_object = True, has_interface = True\<rparr>
     (create_in_server demo_drivers demo_call True True True 8) True (True, True) (new_MidiInServer demo_call 0 False, demo_service)"

definition demo_opened :: "int \<times> nat option \<times> DeviceInformation list Served MidiClientPrivate option \<times> DeviceInformation list Served" where
  "demo_opened = (case demo_created of (_, cp, s) \<Rightarrow> OH_MIDIClient_OpenDevice 1 1001 True cp s)"

definition demo_app :: "DeviceInformation list Served MidiClientPrivate" where
  "demo_app = the (fst (snd (snd demo_opened)))"

definition demo_served :: "DeviceInformation list Served" where
  "demo_served = snd (snd (snd demo_opened))"

lemma demo_created_values:
  "case demo_created of (ret, cp, s) \<Rightarrow> ret = 0 \<and> map_option (length \<circ> cp_deviceHandlers) cp = Some 0"
  by code_simp

lemma demo_created_client: obtains cp s where "demo_created = (OH_MIDI_STATUS_OK, Some cp, s)" "cp_deviceHandlers cp = []"
  using demo_created_values that by (auto simp: status_defs split: prod.splits)

lemma demo_opened_values:
  "case demo_opened of (ret, dev, client, srv, st) \<Rightarrow>
     (case client of None \<Rightarrow> False | Some cp \<Rightarrow>
        map fst (cp_deviceHandlers cp) = [1] \<and> map (dp_deviceId \<circ> snd) (cp_deviceHandlers cp) = [1001]
        \<and> list_all (\<lambda>p. dp_isValid (snd p) \<and> dp_outputPortsMap (snd p) = []) (cp_deviceHandlers cp)
        \<and> cp_onDeviceChange cp \<and> \<not> cp_destroyed cp)
     \<and> stub_clientId srv = 3 \<and> callerTokenId srv = 0
     \<and> \<not> slot_closing (callbackSlot srv) \<and> slot_callback (callbackSlot srv) \<and> \<not> slot_destroyed (callbackSlot srv)"
  by code_simp

lemma demo_app_facts:
  "map fst (cp_deviceHandlers demo_app) = [1]" "map (dp_deviceId \<circ> snd) (cp_deviceHandlers demo_app) = [1001]"
  "list_all (\<lambda>p. dp_isValid (snd p) \<and> dp_outputPortsMap (snd p) = []) (cp_deviceHandlers demo_app)"
  "cp_onDeviceChange demo_app" "\<not> cp_destroyed demo_app" "stub_clientId (fst demo_served) = 3" "callerTokenId (fst demo_served) = 0"
  "\<not> slot_closing (callbackSlot (fst demo_served))" "slot_callback (callbackSlot (fst demo_served))" "\<not> slot_destroyed (callbackSlot (fst demo_served))"
proof -
  obtain ret dev client srv st where O: "demo_opened = (ret, dev, client, srv, st)" using prod_cases5 by blast
  have "demo_app = the client" "fst demo_served = srv" by (simp_all add: demo_app_def demo_served_def O)
  then show "map fst (cp_deviceHandlers demo_app) = [1]" "map (dp_deviceId \<circ> snd) (cp_deviceHandlers demo_app) = [1001]"
    "list_all (\<lambda>p. dp_isValid (snd p) \<and> dp_outputPortsMap (snd p) = []) (cp_deviceHandlers demo_app)"
    "cp_onDeviceChange demo_app" "\<not> cp_destroyed demo_app" "stub_clientId (fst demo_served) = 3" "callerTokenId (fst demo_served) = 0"
    "\<not> slot_closing (callbackSlot (fst demo_served))" "slot_callback (callbackSlot (fst demo_served))" "\<not> slot_destroyed (callbackSlot (fst demo_served))"
    using demo_opened_values by (auto simp: O split: option.splits)
qed

lemma demo_app_reachable: "client_reachable demo_app"
proof -
  obtain cp s where cp: "demo_created = (OH_MIDI_STATUS_OK, Some cp, s)" "cp_deviceHandlers cp = []" by (rule demo_created_client)
  have r: "client_reachable cp" by (rule created_reachable [OF cp(1) [unfolded demo_created_def]])
  obtain ret' dev client' s' where O: "OH_MIDIClient_OpenDevice 1 1001 True (Some cp) s = (ret', dev, client', s')" using prod_cases4 by blast
  then obtain cp' where cp': "client' = Some cp'" by (auto simp: OH_MIDIClient_OpenDevice_def split: prod.splits)
  have "demo_app = cp'" using O by (simp add: demo_app_def demo_opened_def cp(1) cp')
  then show ?thesis using client_reachable.step [OF r client_step.open_device [OF _ O [unfolded cp']]] cp(2)
    by (simp add: free_handle_def)
qed

lemma demo_app_stub:
  "msc_ipc (cp_service demo_app) = Some (in_server demo_drivers demo_call)" "service_inv (snd demo_served)"
proof -
  obtain cp s where "demo_created = (OH_MIDI_STATUS_OK, Some cp, s)" by (rule demo_created_client)
  then obtain srv st where cp: "demo_created = (OH_MIDI_STATUS_OK, Some cp, srv, st)" by (cases s) simp
  have ipc: "msc_ipc (cp_service cp) = Some (in_server demo_drivers demo_call)"
    using create_on_stub cp [unfolded demo_created_def] by blast
  have st: "st = snd (serve demo_drivers (Create True True True 8) demo_service)"
    using cp by (auto simp: demo_created_def serve_def OH_MIDIClient_Create_def CreateMidiClient_def Client_Init_def
        MidiServiceClient_Init_def create_in_server_def Let_def split: prod.splits if_splits)
  obtain i ret' st' where O: "OpenDevice demo_drivers (call_env demo_call) (stub_clientId srv) 1001 st = (ret', st')" "i = GetDevice 1001 st" by fastforce
  have "demo_app = (if GetMidiStatusCode ret' = OH_MIDI_STATUS_OK then AddDeviceHandler 1 (new_MidiDevicePrivate (ConvertToDeviceInformation i)) cp else cp)"
    "demo_served = (srv, st')"
    by (simp_all add: demo_app_def demo_served_def demo_opened_def cp OH_MIDIClient_OpenDevice_def Client_OpenDevice_def
        MidiServiceClient_OpenDevice_def ipc in_server_def Stub_OpenDevice_def O)
  note D = this
  have "service_inv st'"
    using serve_inv [OF serve_inv [OF demo_service_inv, of demo_drivers "Create True True True 8"], of demo_drivers "Open (call_env demo_call) (stub_clientId srv) 1001"] O(1)
    by (simp add: st [symmetric]) (simp add: serve_def)
  then show "service_inv (snd demo_served)" by (simp add: D(2))
  show "msc_ipc (cp_service demo_app) = Some (in_server demo_drivers demo_call)" by (simp add: D(1) ipc AddDeviceHandler_def)
qed

section \<open>Live handles\<close>

lemma open_codes: "OH_MIDI_STATUS_PORT_ALREADY_OPEN \<noteq> OH_MIDI_STATUS_OK" "OH_MIDI_STATUS_SYSTEM_ERROR \<noteq> OH_MIDI_STATUS_OK"
  by (simp_all add: status_defs)

text \<open>The port in whose callback a call is made is open, on the device behind the handle.\<close>

definition in_callback_of :: "nat \<Rightarrow> u32 \<Rightarrow> Thread \<Rightarrow> 's MidiClientPrivate \<Rightarrow> bool" where
  "in_callback_of h p caller cp \<longleftrightarrow> caller = Some (h, p)
     \<and> (\<exists>dev port. find_key (cp_deviceHandlers cp) h = Some dev \<and> find_key (dp_inputPortsMap dev) p = Some (Some port))"

lemma Stop_itself:
  assumes "client_ok cp" "find_key (cp_deviceHandlers cp) h = Some dev" "find_key (dp_inputPortsMap dev) p = Some (Some port)"
  shows "StopReceiverThread (port_thread caller h = Some p) port = None \<longleftrightarrow> caller = Some (h, p)"
  using input_entry_ok [OF client_dev_ok [OF assms(1,2)] assms(3)]
  by (auto simp: StopReceiverThread_def input_ok_def port_thread_def Let_def split: option.split)

lemma CloseAllPorts_itself:
  assumes "client_ok cp" "find_key (cp_deviceHandlers cp) h = Some dev"
  shows "CloseAllPorts (port_thread caller h) dev = None \<longleftrightarrow> (\<exists>p. in_callback_of h p caller cp)"
proof -
  have d: "distinct (keys_of (dp_inputPortsMap dev))" using client_dev_ok [OF assms] by (simp add: dev_ok_def)
  have m: "(p, e) \<in> set (dp_inputPortsMap dev) \<longleftrightarrow> find_key (dp_inputPortsMap dev) p = Some e" for p e
    using d by (metis map_of_eq_Some_iff)
  have "CloseAllPorts (port_thread caller h) dev = None \<longleftrightarrow>
      (\<exists>p port. (p, Some port) \<in> set (dp_inputPortsMap dev) \<and> StopReceiverThread (port_thread caller h = Some p) port = None)"
    by (auto simp: CloseAllPorts_def list_all_iff simp del: not_None_eq split: option.splits prod.splits) (metis option.exhaust)
  then have "CloseAllPorts (port_thread caller h) dev = None \<longleftrightarrow>
      (\<exists>p port. find_key (dp_inputPortsMap dev) p = Some (Some port) \<and> StopReceiverThread (port_thread caller h = Some p) port = None)"
    unfolding m .
  also have "\<dots> \<longleftrightarrow> (\<exists>p port. find_key (dp_inputPortsMap dev) p = Some (Some port) \<and> caller = Some (h, p))"
    using Stop_itself [OF assms] by blast
  finally show ?thesis using assms(2) by (auto simp: in_callback_of_def)
qed

lemma CloseInputPort_itself:
  assumes "client_ok cp" "find_key (cp_deviceHandlers cp) h = Some dev"
  shows "OH_MIDIDevice_CloseInputPort caller (Some h) p cp s = None \<longleftrightarrow> in_callback_of h p caller cp"
proof (cases "find_key (dp_inputPortsMap dev) p")
  case (Some entry)
  show ?thesis
  proof (cases entry)
    case port: (Some port)
    have "OH_MIDIDevice_CloseInputPort caller (Some h) p cp s = None \<longleftrightarrow> StopReceiverThread (port_thread caller h = Some p) port = None"
      using assms(2) Some port
      by (simp add: OH_MIDIDevice_CloseInputPort_def on_device_def Device_CloseInputPort_def Let_def split: option.split prod.split)
    then show ?thesis using Stop_itself [OF assms] assms(2) Some port by (simp add: in_callback_of_def)
  qed (use assms(2) Some in \<open>simp add: OH_MIDIDevice_CloseInputPort_def on_device_def Device_CloseInputPort_def in_callback_of_def\<close>)
qed (use assms(2) in \<open>simp add: OH_MIDIDevice_CloseInputPort_def on_device_def Device_CloseInputPort_def in_callback_of_def\<close>)

lemma CloseDevice_itself:
  assumes "client_ok cp"
  shows "OH_MIDIClient_CloseDevice caller (Some h) (Some cp) s = None \<longleftrightarrow> (\<exists>p. in_callback_of h p caller cp)"
proof (cases "find_key (cp_deviceHandlers cp) h")
  case (Some dev)
  show ?thesis unfolding CloseAllPorts_itself [OF assms Some, of caller, symmetric]
    using Some by (auto simp: OH_MIDIClient_CloseDevice_def CloseAndRemoveDevice_def Let_def split: option.splits prod.splits)
qed (simp add: OH_MIDIClient_CloseDevice_def CloseAndRemoveDevice_def in_callback_of_def)

lemma Destroy_itself:
  assumes "client_ok cp"
  shows "OH_MIDIClient_Destroy caller calls (Some cp) s = None \<longleftrightarrow> (\<exists>h p. in_callback_of h p caller cp)"
proof -
  obtain ret cp' s' where D: "Client_DestroyMidiClient calls cp s = (ret, cp', s')" using prod_cases3 by blast
  then have l: "cp_deviceHandlers cp' = cp_deviceHandlers cp" by (auto simp: Client_DestroyMidiClient_def Let_def split: prod.splits)
  have d: "distinct (keys_of (cp_deviceHandlers cp))" using assms by (simp add: client_ok_def)
  have m: "(h, dev) \<in> set (cp_deviceHandlers cp) \<longleftrightarrow> find_key (cp_deviceHandlers cp) h = Some dev" for h dev
    using d by (metis map_of_eq_Some_iff)
  have "OH_MIDIClient_Destroy caller calls (Some cp) s = None \<longleftrightarrow>
      (\<exists>h dev. (h, dev) \<in> set (cp_deviceHandlers cp) \<and> CloseAllPorts (port_thread caller h) dev = None)"
    by (auto simp: OH_MIDIClient_Destroy_def D l list_all_iff simp del: not_None_eq) (metis not_None_eq)
  then have "OH_MIDIClient_Destroy caller calls (Some cp) s = None \<longleftrightarrow>
      (\<exists>h dev. find_key (cp_deviceHandlers cp) h = Some dev \<and> CloseAllPorts (port_thread caller h) dev = None)"
    unfolding m .
  also have "\<dots> \<longleftrightarrow> (\<exists>h dev p. find_key (cp_deviceHandlers cp) h = Some dev \<and> in_callback_of h p caller cp)"
    using CloseAllPorts_itself [OF assms] by blast
  finally show ?thesis by (auto simp: in_callback_of_def)
qed



section \<open>A device that is gone\<close>

definition tell_client ::
  "DeviceChangeType \<Rightarrow> MidiDeviceInfo \<Rightarrow> AppCall list \<times> 's MidiClientPrivate \<Rightarrow> AppCall list \<times> 's MidiClientPrivate" where
  "tell_client change devInfo l =
     (case l of (calls, cp) \<Rightarrow> (case Client_NotifyDeviceChange (change_number change) devInfo cp of (_, new, cp) \<Rightarrow> (calls @ new, cp)))"

lemma find_first_device:
  assumes "distinct (keys_of ps)" "find_key ps h = Some dev" "dp_deviceId dev = d" "\<forall>x\<in>set ps. dp_deviceId (snd x) = d \<longrightarrow> fst x = h"
  shows "find_key (first_device d f ps) = (find_key ps)(h \<mapsto> f dev)"
  using assms
proof (induction ps)
  case (Cons x ps)
  show ?case
  proof (cases "dp_deviceId (snd x) = d")
    case True
    then show ?thesis using Cons.prems by (cases x) auto
  next
    case False
    then have "fst x \<noteq> h" using Cons.prems(2,3) by (cases x) (auto simp del: map_of_eq_Some_iff split: if_splits)
    then show ?thesis using False Cons by (cases x) (auto simp del: map_of_eq_Some_iff simp: fun_eq_iff)
  qed
qed simp

lemma change_number_removed: "change_number REMOVED = OH_MIDI_DEVICE_CHANGE_ACTION_DISCONNECTED"
  by (simp add: change_number_def OH_MIDI_DEVICE_CHANGE_ACTION_DISCONNECTED_def)

lemma notify_passes:
  assumes "\<not> slot_closing (callbackSlot srv)" "slot_callback (callbackSlot srv)" "\<not> slot_destroyed (callbackSlot srv)"
    "deviceType devInfo \<noteq> DEVICE_TYPE_BLE \<or> VerifyBluetoothPermission verify (callerTokenId srv)"
  shows "case Stub_NotifyDeviceChange verify tell change devInfo srv l of (srv', l') \<Rightarrow>
     l' = tell change devInfo l \<and> callbackSlot srv' = callbackSlot srv"
  using assms
  by (auto simp: Stub_NotifyDeviceChange_def with_guard_def Acquire_def UpdateBluetoothPermission_def Stub_IsBluetoothDevice_def
      Guard_Release_def OnGuardReleased_def Let_def)

lemma notify_filtered:
  assumes "deviceType devInfo = DEVICE_TYPE_BLE" "\<not> VerifyBluetoothPermission verify (callerTokenId srv)"
  shows "snd (Stub_NotifyDeviceChange verify tell change devInfo srv l) = l"
  using assms
  by (auto simp: Stub_NotifyDeviceChange_def with_guard_def UpdateBluetoothPermission_def Stub_IsBluetoothDevice_def Let_def split: prod.splits)

lemma gone_find:
  "find_key (dp_inputPortsMap (TombstoneAllPorts (SetInValid dev))) p = map_option (\<lambda>_. None) (find_key (dp_inputPortsMap dev) p)"
  "find_key (dp_outputPortsMap (TombstoneAllPorts (SetInValid dev))) p = map_option (\<lambda>_. None) (find_key (dp_outputPortsMap dev) p)"
  "\<not> dp_isValid (TombstoneAllPorts (SetInValid dev))" "dp_deviceId (TombstoneAllPorts (SetInValid dev)) = dp_deviceId dev"
  by (simp_all add: TombstoneAllPorts_def SetInValid_def split_beta map_of_map)

lemma gone_close:
  "Device_CloseOutputPort sc p (TombstoneAllPorts (SetInValid dev)) s =
     (if find_key (dp_outputPortsMap dev) p = None then (OH_MIDI_STATUS_INVALID_PORT, TombstoneAllPorts (SetInValid dev), s)
      else (OH_MIDI_STATUS_OK, (TombstoneAllPorts (SetInValid dev))\<lparr>dp_outputPortsMap :=
        AList.delete p (dp_outputPortsMap (TombstoneAllPorts (SetInValid dev)))\<rparr>, s))"
  "Device_CloseInputPort sc caller p (TombstoneAllPorts (SetInValid dev)) s =
     Some (if find_key (dp_inputPortsMap dev) p = None then (OH_MIDI_STATUS_INVALID_PORT, TombstoneAllPorts (SetInValid dev), s)
      else (OH_MIDI_STATUS_OK, (TombstoneAllPorts (SetInValid dev))\<lparr>dp_inputPortsMap :=
        AList.delete p (dp_inputPortsMap (TombstoneAllPorts (SetInValid dev)))\<rparr>, s))"
  by (simp_all add: Device_CloseOutputPort_def Device_CloseInputPort_def gone_find Let_def split: option.split)

lemma gone_close_all: "\<exists>dev'. CloseAllPorts caller (TombstoneAllPorts (SetInValid dev)) = Some dev' \<and> \<not> dp_isValid dev'"
  by (auto simp: CloseAllPorts_def TombstoneAllPorts_def SetInValid_def list_all_iff)

lemma disconnect_handlers:
  assumes "client_reachable cp" "find_key (cp_deviceHandlers cp) h = Some dev"
    "\<forall>x\<in>set (cp_deviceHandlers cp). dp_deviceId (snd x) = dp_deviceId dev \<longrightarrow> fst x = h"
  shows "find_key (cp_deviceHandlers (HandleDeviceDisconnect (dp_deviceId dev) cp))
     = (find_key (cp_deviceHandlers cp))(h \<mapsto> TombstoneAllPorts (SetInValid dev))"
proof -
  have "distinct (keys_of (cp_deviceHandlers cp))" using client_reachable_ok [OF assms(1)] by (simp add: client_ok_def)
  from find_first_device [OF this assms(2) refl assms(3)] show ?thesis by (simp add: HandleDeviceDisconnect_def fun_eq_iff)
qed

text \<open>A port of a device that is gone can be closed once, on both sides and on every thread.\<close>

lemma gone_close_once:
  assumes "find_key (cp_deviceHandlers cp) h = Some (TombstoneAllPorts (SetInValid dev))"
  shows "\<exists>cp1 cp2. OH_MIDIDevice_CloseOutputPort (Some h) p cp s
       = Some (if find_key (dp_outputPortsMap dev) p = None then OH_MIDI_STATUS_INVALID_PORT else OH_MIDI_STATUS_OK, (), cp1, s)
     \<and> OH_MIDIDevice_CloseOutputPort (Some h) p cp1 s = Some (OH_MIDI_STATUS_INVALID_PORT, (), cp2, s)"
    "\<exists>cp1 cp2. OH_MIDIDevice_CloseInputPort caller (Some h) p cp s
       = Some (if find_key (dp_inputPortsMap dev) p = None then OH_MIDI_STATUS_INVALID_PORT else OH_MIDI_STATUS_OK, (), cp1, s)
     \<and> OH_MIDIDevice_CloseInputPort caller (Some h) p cp1 s = Some (OH_MIDI_STATUS_INVALID_PORT, (), cp2, s)"
proof -
  let ?dev = "TombstoneAllPorts (SetInValid dev)"
  obtain d1 where C: "Device_CloseOutputPort (cp_service cp) p ?dev s
      = (if find_key (dp_outputPortsMap dev) p = None then OH_MIDI_STATUS_INVALID_PORT else OH_MIDI_STATUS_OK, d1, s)"
      "find_key (dp_outputPortsMap d1) p = None"
    unfolding gone_close by (cases "find_key (dp_outputPortsMap dev) p = None") (simp_all add: gone_find)
  show "\<exists>cp1 cp2. OH_MIDIDevice_CloseOutputPort (Some h) p cp s
       = Some (if find_key (dp_outputPortsMap dev) p = None then OH_MIDI_STATUS_INVALID_PORT else OH_MIDI_STATUS_OK, (), cp1, s)
     \<and> OH_MIDIDevice_CloseOutputPort (Some h) p cp1 s = Some (OH_MIDI_STATUS_INVALID_PORT, (), cp2, s)"
    using assms C by (simp add: OH_MIDIDevice_CloseOutputPort_def on_device_def Device_CloseOutputPort_def [of "cp_service cp" p d1])
  obtain d2 where I: "Device_CloseInputPort (cp_service cp) (Option.bind (Some h) (port_thread caller)) p ?dev s
      = Some (if find_key (dp_inputPortsMap dev) p = None then OH_MIDI_STATUS_INVALID_PORT else OH_MIDI_STATUS_OK, d2, s)"
      "find_key (dp_inputPortsMap d2) p = None"
    unfolding gone_close by (cases "find_key (dp_inputPortsMap dev) p = None") (simp_all add: gone_find)
  show "\<exists>cp1 cp2. OH_MIDIDevice_CloseInputPort caller (Some h) p cp s
       = Some (if find_key (dp_inputPortsMap dev) p = None then OH_MIDI_STATUS_INVALID_PORT else OH_MIDI_STATUS_OK, (), cp1, s)
     \<and> OH_MIDIDevice_CloseInputPort caller (Some h) p cp1 s = Some (OH_MIDI_STATUS_INVALID_PORT, (), cp2, s)"
    using assms I by (simp add: OH_MIDIDevice_CloseInputPort_def on_device_def Device_CloseInputPort_def [of "cp_service cp" _ p d2])
qed

text \<open>The functions without a test of the validity ask the service.\<close>

lemma gone_asks:
  assumes "find_key (cp_deviceHandlers cp) h = Some (TombstoneAllPorts (SetInValid dev))"
  shows "fst (the (OH_MIDIDevice_FlushOutputPort (Some h) p cp s))
      = (if find_key (dp_outputPortsMap dev) p = None then OH_MIDI_STATUS_INVALID_PORT
         else fst (MidiServiceClient_FlushOutputPort (cp_service cp) (dp_deviceId dev) p s))"
    "find_key (dp_inputPortsMap dev) (pd_portIndex descriptor) \<noteq> None \<Longrightarrow>
      OH_MIDIDevice_OpenInputPort (Some h) descriptor True cp s = Some (OH_MIDI_STATUS_PORT_ALREADY_OPEN, (), cp, s)"
    "find_key (dp_outputPortsMap dev) (pd_portIndex descriptor) \<noteq> None \<Longrightarrow>
      OH_MIDIDevice_OpenOutputPort (Some h) descriptor cp s = Some (OH_MIDI_STATUS_PORT_ALREADY_OPEN, (), cp, s)"
    "find_key (dp_inputPortsMap dev) (pd_portIndex descriptor) = None \<Longrightarrow>
      MidiServiceClient_OpenInputPort (cp_service cp) (dp_deviceId dev) (pd_portIndex descriptor) s = (ret, buffer, s1) \<Longrightarrow> ret \<noteq> OH_MIDI_STATUS_OK \<Longrightarrow>
      OH_MIDIDevice_OpenInputPort (Some h) descriptor True cp s = Some (ret, (), cp, s1)"
    "find_key (dp_outputPortsMap dev) (pd_portIndex descriptor) = None \<Longrightarrow>
      MidiServiceClient_OpenOutputPort (cp_service cp) (dp_deviceId dev) (pd_portIndex descriptor) s = (ret, buffer, s1) \<Longrightarrow> ret \<noteq> OH_MIDI_STATUS_OK \<Longrightarrow>
      OH_MIDIDevice_OpenOutputPort (Some h) descriptor cp s = Some (ret, (), cp, s1)"
proof -
  have k: "has_key (dp_inputPortsMap (TombstoneAllPorts (SetInValid dev))) q \<longleftrightarrow> find_key (dp_inputPortsMap dev) q \<noteq> None"
    "has_key (dp_outputPortsMap (TombstoneAllPorts (SetInValid dev))) q \<longleftrightarrow> find_key (dp_outputPortsMap dev) q \<noteq> None" for q
    by (simp_all add: gone_find del: not_None_eq)
  note defs = OH_MIDIDevice_FlushOutputPort_def Device_FlushOutputPort_def OH_MIDIDevice_OpenInputPort_def Device_OpenInputPort_def
    OH_MIDIDevice_OpenOutputPort_def Device_OpenOutputPort_def on_device_def
  show "fst (the (OH_MIDIDevice_FlushOutputPort (Some h) p cp s))
      = (if find_key (dp_outputPortsMap dev) p = None then OH_MIDI_STATUS_INVALID_PORT
         else fst (MidiServiceClient_FlushOutputPort (cp_service cp) (dp_deviceId dev) p s))"
    using assms k by (auto simp: defs gone_find split: prod.split)
qed (use assms in \<open>auto simp: OH_MIDIDevice_OpenInputPort_def Device_OpenInputPort_def OH_MIDIDevice_OpenOutputPort_def
     Device_OpenOutputPort_def on_device_def gone_find update_triv Let_def\<close>)


lemma demo_app_handle:
  obtains dev where "cp_deviceHandlers demo_app = [(1, dev)]" "dp_deviceId dev = 1001" "dp_isValid dev" "dp_outputPortsMap dev = []"
proof -
  obtain x where x: "cp_deviceHandlers demo_app = [x]" using demo_app_facts(1) by (cases "cp_deviceHandlers demo_app") auto
  show ?thesis by (rule that [of "snd x"]) (use demo_app_facts x in \<open>cases x; simp\<close>)+
qed


section \<open>The list of devices\<close>

lemma copy_text_length: "0 < room \<Longrightarrow> length (copy_text room t) < room"
  by (simp add: copy_text_def Let_def)

text \<open>
  C36: the functions that list the devices. When the service answers, the count is the number of the devices it names and the array gets
  the first of them, as many as fit, with names and addresses that fit into their fields; on the service of this model these
  are all devices of the registry, without the Bluetooth devices if the caller has no permission for them. When the service does not
  answer, the count function reports success all the same and leaves the counter as it was, and the other one reports the failure and, as the number of
  entries it has written, the room of the array, although it has written none.
\<close>

theorem device_list:
  assumes "MidiServiceClient_GetDevices (cp_service cp) s = (ret, devs, s')"
  shows "OH_MIDIClient_GetDeviceCount (Some n) (Some cp) s
        = (OH_MIDI_STATUS_OK, Some (if ret = OH_MIDI_STATUS_OK then length devs else n), s')
     \<and> OH_MIDIClient_GetDeviceInfos True room True (Some cp) s
        = (if ret = OH_MIDI_STATUS_OK
           then (OH_MIDI_STATUS_OK, map ConvertToDeviceInformation (take room devs), Some (min room (length devs)), s')
           else (ret, [], Some room, s'))
     \<and> (\<forall>d\<in>set devs. length (odi_deviceName (ConvertToDeviceInformation d)) < 256 \<and> length (odi_deviceAddress (ConvertToDeviceInformation d)) < 64)
     \<and> (msc_ipc (cp_service cp) = Some (in_server drv call) \<longrightarrow>
          ret = OH_MIDI_STATUS_OK \<and> snd s' = snd s
          \<and> devs = filter (\<lambda>d. VerifyBluetoothPermission (call_verify call) (call_token call) \<or> deviceType d \<noteq> DEVICE_TYPE_BLE) (GetDevices (snd s)))"
proof (intro conjI)
  show "OH_MIDIClient_GetDeviceCount (Some n) (Some cp) s
      = (OH_MIDI_STATUS_OK, Some (if ret = OH_MIDI_STATUS_OK then length devs else n), s')"
    by (simp add: OH_MIDIClient_GetDeviceCount_def Client_GetDevices_def assms)
  show "OH_MIDIClient_GetDeviceInfos True room True (Some cp) s
      = (if ret = OH_MIDI_STATUS_OK
         then (OH_MIDI_STATUS_OK, map ConvertToDeviceInformation (take room devs), Some (min room (length devs)), s')
         else (ret, [], Some room, s'))"
    by (simp add: OH_MIDIClient_GetDeviceInfos_def Client_GetDevices_def assms Let_def min_def)
  show "\<forall>d\<in>set devs. length (odi_deviceName (ConvertToDeviceInformation d)) < 256 \<and> length (odi_deviceAddress (ConvertToDeviceInformation d)) < 64"
    by (simp add: ConvertToDeviceInformation_def copy_text_length)
  show "msc_ipc (cp_service cp) = Some (in_server drv call) \<longrightarrow>
      ret = OH_MIDI_STATUS_OK \<and> snd s' = snd s
      \<and> devs = filter (\<lambda>d. VerifyBluetoothPermission (call_verify call) (call_token call) \<or> deviceType d \<noteq> DEVICE_TYPE_BLE) (GetDevices (snd s))"
    using assms by (auto simp: MidiServiceClient_GetDevices_def in_server_def Stub_GetDevices_def UpdateBluetoothPermission_def
        Stub_IsBluetoothDevice_def GetMidiStatusCode_def Let_def status_defs split: prod.splits if_splits)
qed

theorem device_list_witness:
  "OH_MIDIClient_GetDeviceCount (Some 7) (Some new_MidiClientPrivate) demo_served = (OH_MIDI_STATUS_OK, Some 7, demo_served)"
proof -
  have "MidiServiceClient_GetDevices (cp_service new_MidiClientPrivate) demo_served = (OH_MIDI_STATUS_GENERIC_IPC_FAILURE, [], demo_served)"
    by (simp add: MidiServiceClient_GetDevices_def new_MidiClientPrivate_def new_MidiServiceClient_def)
  from device_list [OF this, where n = 7] show ?thesis by (simp add: status_defs)
qed

end
