(* ===== verification/Client_Session.thy ===== *)
theory Client_Session
  imports Client_Properties
begin

text \<open>
  The way of a port from the application through the library, the stub and the controller and back: what both sides hold while it is open, and what
  is left when it is closed.
\<close>

section \<open>A port from both sides\<close>

lemma fresh_ring_parcel:
  assumes "fresh_ring (Some ring)"
  shows "\<forall>map_memory dataFd eventFd. 2 < dataFd \<and> 2 < eventFd \<and> map_memory dataFd (64 + unat (capacity ring)) = Some (mapping_of ring)
     \<longrightarrow> Unmarshalling map_memory (Marshalling dataFd eventFd ring) = Some ring"
proof (intro allI impI)
  fix map_memory :: "int \<Rightarrow> nat \<Rightarrow> (nat \<Rightarrow> u32) option" and dataFd eventFd :: int
  assume *: "2 < dataFd \<and> 2 < eventFd \<and> map_memory dataFd (64 + unat (capacity ring)) = Some (mapping_of ring)"
  have c: "0 < capacity ring" "64 + unat (capacity ring) < 8192"
    and f: "ring\<lparr>readPosition := 0, writePosition := 0, flushFlag := 0, notifyFd := map_option (\<lambda>_. 0) (notifyFd ring)\<rparr> = ring"
    using assms by (simp_all add: fresh_ring_def DEFAULT_RING_BUFFER_SIZE_def)
  show "Unmarshalling map_memory (Marshalling dataFd eventFd ring) = Some ring"
    using marshalling_rebuilds [OF c, of dataFd eventFd map_memory] * f by simp
qed

definition App_OpenPort ::
  "MidiPortDirection \<Rightarrow> nat option \<Rightarrow> OH_MIDIPortDescriptor \<Rightarrow> 's MidiClientPrivate \<Rightarrow> 's \<Rightarrow> (int \<times> unit \<times> 's MidiClientPrivate \<times> 's) option" where
  "App_OpenPort dir device descriptor cp s =
     (case dir of INPUT \<Rightarrow> OH_MIDIDevice_OpenInputPort device descriptor True cp s
      | OUTPUT \<Rightarrow> OH_MIDIDevice_OpenOutputPort device descriptor cp s)"

text \<open>A port is closed on a thread of the application, not in a callback.\<close>

definition App_ClosePort ::
  "MidiPortDirection \<Rightarrow> nat option \<Rightarrow> u32 \<Rightarrow> 's MidiClientPrivate \<Rightarrow> 's \<Rightarrow> (int \<times> unit \<times> 's MidiClientPrivate \<times> 's) option" where
  "App_ClosePort dir device p cp s =
     (case dir of INPUT \<Rightarrow> OH_MIDIDevice_CloseInputPort None device p cp s | OUTPUT \<Rightarrow> OH_MIDIDevice_CloseOutputPort device p cp s)"

definition app_ring :: "MidiPortDirection \<Rightarrow> MidiDevicePrivate \<Rightarrow> u32 \<Rightarrow> MidiSharedRing option" where
  "app_ring dir dev p =
     (case dir of
        INPUT \<Rightarrow> Option.bind (find_key (dp_inputPortsMap dev) p) (\<lambda>e. Option.bind e ip_ring)
      | OUTPUT \<Rightarrow> Option.bind (find_key (dp_outputPortsMap dev) p) (\<lambda>e. Option.bind e op_ring))"

definition service_ring :: "MidiPortDirection \<Rightarrow> 'd MidiServiceController \<Rightarrow> int \<Rightarrow> u32 \<Rightarrow> MidiSharedRing option" where
  "service_ring dir st d p =
     (case dir of
        INPUT \<Rightarrow> added_ring (Option.bind (find_ctx st d) (\<lambda>ctx. find_key (inputConnections ctx) p))
      | OUTPUT \<Rightarrow> added_ring (Option.bind (find_ctx st d) (\<lambda>ctx. find_key (outputConnections ctx) p)))"

lemma OpenPort_ring:
  "OpenPort dir drv env c d p st = (OH_MIDI_STATUS_OK, st') \<Longrightarrow> fresh_ring (service_ring dir st' d p)"
  by (cases dir) (simp_all add: OpenPort_def service_ring_def OpenInputPort_ring OpenOutputPort_ring)

lemma open_failures: "OH_MIDI_STATUS_PORT_ALREADY_OPEN \<noteq> OH_MIDI_STATUS_OK" "OH_MIDI_STATUS_SYSTEM_ERROR \<noteq> OH_MIDI_STATUS_OK"
  by (simp_all add: status_defs)

lemma opens_input_port:
  assumes "msc_ipc sc = Some (in_server drv call)" "MidiServiceClient_OpenInputPort sc d p (srv, st) = (OH_MIDI_STATUS_OK, buffer, s1)"
  shows "\<exists>st1. s1 = (srv, st1) \<and> OpenPort INPUT drv (call_env call) (stub_clientId srv) d p st = (OH_MIDI_STATUS_OK, st1)
     \<and> buffer = service_ring INPUT st1 d p"
  using assms by (auto simp: MidiServiceClient_OpenInputPort_def in_server_def Stub_OpenInputPort_def OpenPort_def service_ring_def
      dest!: GetMidiStatusCode_ok split: prod.splits)

lemma opens_output_port:
  assumes "msc_ipc sc = Some (in_server drv call)" "MidiServiceClient_OpenOutputPort sc d p (srv, st) = (OH_MIDI_STATUS_OK, buffer, s1)"
  shows "\<exists>st1. s1 = (srv, st1) \<and> OpenPort OUTPUT drv (call_env call) (stub_clientId srv) d p st = (OH_MIDI_STATUS_OK, st1)
     \<and> buffer = service_ring OUTPUT st1 d p"
  using assms by (auto simp: MidiServiceClient_OpenOutputPort_def in_server_def Stub_OpenOutputPort_def OpenPort_def service_ring_def
      dest!: GetMidiStatusCode_ok split: prod.splits)

lemma delete_update: "k \<notin> fst ` set m \<Longrightarrow> AList.delete k (AList.update k v m) = m"
  by (induction m) (auto simp: AList.delete_eq)

lemma closes_port:
  assumes "msc_ipc sc = Some (in_server drv call)"
  shows "MidiServiceClient_CloseInputPort sc d p (srv, st)
      = (case ClosePort INPUT drv (stub_clientId srv) d p st of (ret, st2) \<Rightarrow> (GetMidiStatusCode ret, srv, st2))"
    "MidiServiceClient_CloseOutputPort sc d p (srv, st)
      = (case ClosePort OUTPUT drv (stub_clientId srv) d p st of (ret, st2) \<Rightarrow> (GetMidiStatusCode ret, srv, st2))"
  using assms by (simp_all add: MidiServiceClient_CloseInputPort_def MidiServiceClient_CloseOutputPort_def in_server_def
      on_controller_def ClosePort_def split: prod.split)

lemma input_session:
  assumes "Device_OpenInputPort sc descriptor True dev (srv, st) = (OH_MIDI_STATUS_OK, dev1, s1)" "msc_ipc sc = Some (in_server drv call)"
    "dp_isValid dev"
  shows "\<exists>st1. s1 = (srv, st1) \<and> OpenPort INPUT drv (call_env call) (stub_clientId srv) (dp_deviceId dev) (pd_portIndex descriptor) st = (OH_MIDI_STATUS_OK, st1)
     \<and> app_ring INPUT dev1 (pd_portIndex descriptor) = service_ring INPUT st1 (dp_deviceId dev) (pd_portIndex descriptor)
     \<and> Device_CloseInputPort sc None (pd_portIndex descriptor) dev1 (srv, st1)
        = (case ClosePort INPUT drv (stub_clientId srv) (dp_deviceId dev) (pd_portIndex descriptor) st1 of (ret, st2) \<Rightarrow> Some (GetMidiStatusCode ret, dev, srv, st2))"
proof -
  let ?p = "pd_portIndex descriptor"
  obtain ret buffer s2 where I: "MidiServiceClient_OpenInputPort sc (dp_deviceId dev) ?p (srv, st) = (ret, buffer, s2)" using prod_cases3 by blast
  then have ret: "ret = OH_MIDI_STATUS_OK" and k: "?p \<notin> fst ` set (dp_inputPortsMap dev)" and s2: "s2 = s1"
    and "\<exists>port. dev1 = dev\<lparr>dp_inputPortsMap := AList.update ?p (Some port) (dp_inputPortsMap dev)\<rparr> \<and> ip_ring port = buffer"
    using assms(1) by (auto simp: Device_OpenInputPort_def open_failures StartReceiverThread_def map_of_eq_None_iff Let_def split: if_splits prod.splits)
  then obtain port where port: "dev1 = dev\<lparr>dp_inputPortsMap := AList.update ?p (Some port) (dp_inputPortsMap dev)\<rparr>" "ip_ring port = buffer" by blast
  obtain st1 where st1: "s1 = (srv, st1)" "OpenPort INPUT drv (call_env call) (stub_clientId srv) (dp_deviceId dev) ?p st = (OH_MIDI_STATUS_OK, st1)"
     "buffer = service_ring INPUT st1 (dp_deviceId dev) ?p"
    using opens_input_port [OF assms(2) I [unfolded ret s2]] by blast
  have "StopReceiverThread False port \<noteq> None" by (simp add: StopReceiverThread_def Let_def del: not_None_eq)
  then have "Device_CloseInputPort sc None ?p dev1 (srv, st1)
      = (case ClosePort INPUT drv (stub_clientId srv) (dp_deviceId dev) ?p st1 of (ret, st2) \<Rightarrow> Some (GetMidiStatusCode ret, dev, srv, st2))"
    using assms(3) by (auto simp: Device_CloseInputPort_def port(1) closes_port [OF assms(2)] delete_update [OF k] split: prod.split)
  then show ?thesis using st1 port by (simp add: app_ring_def)
qed

lemma output_session:
  assumes "Device_OpenOutputPort sc descriptor dev (srv, st) = (OH_MIDI_STATUS_OK, dev1, s1)" "msc_ipc sc = Some (in_server drv call)"
    "dp_isValid dev"
  shows "\<exists>st1. s1 = (srv, st1) \<and> OpenPort OUTPUT drv (call_env call) (stub_clientId srv) (dp_deviceId dev) (pd_portIndex descriptor) st = (OH_MIDI_STATUS_OK, st1)
     \<and> app_ring OUTPUT dev1 (pd_portIndex descriptor) = service_ring OUTPUT st1 (dp_deviceId dev) (pd_portIndex descriptor)
     \<and> Device_CloseOutputPort sc (pd_portIndex descriptor) dev1 (srv, st1)
        = (case ClosePort OUTPUT drv (stub_clientId srv) (dp_deviceId dev) (pd_portIndex descriptor) st1 of (ret, st2) \<Rightarrow> (GetMidiStatusCode ret, dev, srv, st2))"
proof -
  let ?p = "pd_portIndex descriptor"
  obtain ret buffer s2 where I: "MidiServiceClient_OpenOutputPort sc (dp_deviceId dev) ?p (srv, st) = (ret, buffer, s2)" using prod_cases3 by blast
  then have ret: "ret = OH_MIDI_STATUS_OK" and k: "?p \<notin> fst ` set (dp_outputPortsMap dev)" and s2: "s2 = s1"
    and "\<exists>port. dev1 = dev\<lparr>dp_outputPortsMap := AList.update ?p (Some port) (dp_outputPortsMap dev)\<rparr> \<and> op_ring port = buffer"
    using assms(1) by (auto simp: Device_OpenOutputPort_def open_failures map_of_eq_None_iff Let_def split: if_splits prod.splits)
  then obtain port where port: "dev1 = dev\<lparr>dp_outputPortsMap := AList.update ?p (Some port) (dp_outputPortsMap dev)\<rparr>" "op_ring port = buffer" by blast
  obtain st1 where st1: "s1 = (srv, st1)" "OpenPort OUTPUT drv (call_env call) (stub_clientId srv) (dp_deviceId dev) ?p st = (OH_MIDI_STATUS_OK, st1)"
     "buffer = service_ring OUTPUT st1 (dp_deviceId dev) ?p"
    using opens_output_port [OF assms(2) I [unfolded ret s2]] by blast
  have "Device_CloseOutputPort sc ?p dev1 (srv, st1)
      = (case ClosePort OUTPUT drv (stub_clientId srv) (dp_deviceId dev) ?p st1 of (ret, st2) \<Rightarrow> (GetMidiStatusCode ret, dev, srv, st2))"
    using assms(3) by (simp add: Device_CloseOutputPort_def port(1) closes_port [OF assms(2)] delete_update [OF k] split: prod.split)
  then show ?thesis using st1 port by (simp add: app_ring_def)
qed

lemma App_Port_session:
  assumes "App_OpenPort dir (Some h) descriptor cp (srv, st) = Some (OH_MIDI_STATUS_OK, (), cp1, s1)"
    "msc_ipc (cp_service cp) = Some (in_server drv call)" "find_key (cp_deviceHandlers cp) h = Some dev" "dp_isValid dev"
  shows "\<exists>dev1 st1. s1 = (srv, st1) \<and> find_key (cp_deviceHandlers cp1) h = Some dev1
     \<and> OpenPort dir drv (call_env call) (stub_clientId srv) (dp_deviceId dev) (pd_portIndex descriptor) st = (OH_MIDI_STATUS_OK, st1)
     \<and> app_ring dir dev1 (pd_portIndex descriptor) = service_ring dir st1 (dp_deviceId dev) (pd_portIndex descriptor)
     \<and> App_ClosePort dir (Some h) (pd_portIndex descriptor) cp1 (srv, st1)
        = (case ClosePort dir drv (stub_clientId srv) (dp_deviceId dev) (pd_portIndex descriptor) st1 of (ret, st2) \<Rightarrow> Some (GetMidiStatusCode ret, (), cp, srv, st2))"
proof (cases dir)
  case INPUT
  obtain dev1 where O: "Device_OpenInputPort (cp_service cp) descriptor True dev (srv, st) = (OH_MIDI_STATUS_OK, dev1, s1)"
     "cp1 = cp\<lparr>cp_deviceHandlers := AList.update h dev1 (cp_deviceHandlers cp)\<rparr>"
    using assms(1,3) INPUT by (auto simp: App_OpenPort_def OH_MIDIDevice_OpenInputPort_def on_device_def split: prod.splits)
  from input_session [OF O(1) assms(2,4)] show ?thesis using INPUT assms(3)
    by (auto simp: App_ClosePort_def OH_MIDIDevice_CloseInputPort_def port_thread_def on_device_def O(2) update_last update_triv split: prod.split)
next
  case OUTPUT
  obtain dev1 where O: "Device_OpenOutputPort (cp_service cp) descriptor dev (srv, st) = (OH_MIDI_STATUS_OK, dev1, s1)"
     "cp1 = cp\<lparr>cp_deviceHandlers := AList.update h dev1 (cp_deviceHandlers cp)\<rparr>"
    using assms(1,3) OUTPUT by (auto simp: App_OpenPort_def OH_MIDIDevice_OpenOutputPort_def on_device_def split: prod.splits)
  from output_session [OF O(1) assms(2,4)] show ?thesis using OUTPUT assms(3)
    by (auto simp: App_ClosePort_def OH_MIDIDevice_CloseOutputPort_def on_device_def O(2) update_last update_triv split: prod.split)
qed

text \<open>
  C32: the application opens a port of a device that it has open, through the library, the stub and the controller, and closes it again. While it is
  open, exactly this port is added to the ports that the service has for this client, and the
  application's port holds the ring of the service's connection, which is an empty queue of events and is what the
  library rebuilds from its parcel, over the same memory. Afterwards the client's
  devices and ports are exactly as before, and so is who has which device and port open in the service.
\<close>

theorem client_port_session:
  assumes "service_inv st" "msc_ipc (cp_service cp) = Some (in_server drv call)"
    "find_key (cp_deviceHandlers cp) h = Some dev" "dp_isValid dev" "pd_portIndex descriptor = p"
    "App_OpenPort dir (Some h) descriptor cp (srv, st) = Some (OH_MIDI_STATUS_OK, (), cp1, srv1, st1)"
  shows "service_inv st1 \<and> srv1 = srv
     \<and> (\<forall>c d. ports_in c (find_ctx st1 d) = ports_in c (find_ctx st d) \<union> (if c = stub_clientId srv \<and> d = dp_deviceId dev then {(dir, p)} else {}))
     \<and> (\<exists>dev1 ring. find_key (cp_deviceHandlers cp1) h = Some dev1 \<and> app_ring dir dev1 p = Some ring
          \<and> service_ring dir st1 (dp_deviceId dev) p = Some ring \<and> ring_queue ring []
          \<and> (\<forall>map_memory dataFd eventFd. 2 < dataFd \<and> 2 < eventFd \<and> map_memory dataFd (64 + unat (capacity ring)) = Some (mapping_of ring)
               \<longrightarrow> Unmarshalling map_memory (Marshalling dataFd eventFd ring) = Some ring))
     \<and> (\<exists>ret st2. App_ClosePort dir (Some h) p cp1 (srv1, st1) = Some (ret, (), cp, srv, st2) \<and> service_inv st2
          \<and> (\<forall>d. members (find_ctx st2 d) = members (find_ctx st d)) \<and> (\<forall>c d. ports_in c (find_ctx st2 d) = ports_in c (find_ctx st d)))"
proof -
  obtain dev1 where S: "srv1 = srv" "find_key (cp_deviceHandlers cp1) h = Some dev1"
    "OpenPort dir drv (call_env call) (stub_clientId srv) (dp_deviceId dev) p st = (OH_MIDI_STATUS_OK, st1)"
    "app_ring dir dev1 p = service_ring dir st1 (dp_deviceId dev) p"
    "App_ClosePort dir (Some h) p cp1 (srv, st1)
        = (case ClosePort dir drv (stub_clientId srv) (dp_deviceId dev) p st1 of (ret, st2) \<Rightarrow> Some (GetMidiStatusCode ret, (), cp, srv, st2))"
    using App_Port_session [OF assms(6,2-4)] assms(5) by auto
  have P: "port_outcome {} (stub_clientId srv) (dp_deviceId dev) (dir, p) OH_MIDI_STATUS_OK st st1"
    using OpenPort_spec [OF _ S(3), of "{}"] assms(1) by (simp add: service_inv_def)
  obtain ret st2 where C: "ClosePort dir drv (stub_clientId srv) (dp_deviceId dev) p st1 = (ret, st2)" by fastforce
  note R = port_roundtrip [OF assms(1) S(3) C]
  have i: "service_inv st1" by (rule port_outcome_inv [OF assms(1) P])
  have e: "\<forall>c d. ports_in c (find_ctx st1 d) = ports_in c (find_ctx st d) \<union> (if c = stub_clientId srv \<and> d = dp_deviceId dev then {(dir, p)} else {})"
    using P by (simp add: port_outcome_def port_effect_def)
  obtain ring where r: "service_ring dir st1 (dp_deviceId dev) p = Some ring" "ring_queue ring []"
    and fresh: "fresh_ring (Some ring)"
    using OpenPort_ring [OF S(3)] by (auto simp: fresh_ring_def)
  note m = fresh_ring_parcel [OF fresh]
  have k: "App_ClosePort dir (Some h) p cp1 (srv1, st1) = Some (GetMidiStatusCode ret, (), cp, srv, st2)" using S(1,5) C by simp
  show ?thesis using i e r m k R S(1,2,4) by metis
qed

theorem client_port_session_witness:
  "\<exists>cp1 srv1 st1 ring. App_OpenPort INPUT (Some 1) \<lparr>pd_portIndex = 0, pd_protocol = 1\<rparr> demo_app demo_served = Some (OH_MIDI_STATUS_OK, (), cp1, srv1, st1)
     \<and> service_ring INPUT st1 1001 0 = Some ring \<and> ring_queue ring [] \<and> (INPUT, 0) \<in> ports_in 3 (find_ctx st1 1001)"
proof -
  let ?d = "\<lparr>pd_portIndex = 0, pd_protocol = 1\<rparr> :: OH_MIDIPortDescriptor"
  obtain dev where d: "cp_deviceHandlers demo_app = [(1, dev)]" "dp_deviceId dev = 1001" "dp_isValid dev" using demo_app_handle by blast
  then have h: "find_key (cp_deviceHandlers demo_app) 1 = Some dev" by simp
  have "map_option fst (App_OpenPort INPUT (Some 1) ?d demo_app demo_served) = Some 0" by code_simp
  then obtain cp1 srv1 st1 where O: "App_OpenPort INPUT (Some 1) ?d demo_app (fst demo_served, snd demo_served) = Some (OH_MIDI_STATUS_OK, (), cp1, srv1, st1)"
    by (auto simp: status_defs)
  from client_port_session [OF demo_app_stub(2,1) h d(3) _ O, of 0] show ?thesis
    using O d(2) demo_app_facts(6) by auto
qed

end
