(* ===== verification/Unload_Timer.thy ===== *)
theory Unload_Timer
  imports Service_Properties
begin

text \<open>
  The thread that unloads a service without clients (\<^verbatim>\<open>services/server/src/midi_service_controller.cpp\<close>,
  \<open>CancelUnloadTask\<close> and \<open>ScheduleUnloadTask\<close>): the flags of the controller together with the thread itself,
  which waits, decides and calls on its own, between the requests of the clients.
\<close>

section \<open>What the other requests leave alone\<close>

definition unload_view :: "'d MidiServiceController \<Rightarrow> bool \<times> bool \<times> u32 list" where
  "unload_view st = (isUnloadPending st, unloadCancelled st, sc_clients st)"

lemma view_tables [simp]:
  "unload_view (set_ctx d ctx st) = unload_view st" "unload_view (erase_ctx d st) = unload_view st"
  "unload_view (set_resource c r st) = unload_view st" "unload_view (touch_resource c st) = unload_view st"
  "unload_view (send ns st) = unload_view st" "unload_view (st\<lparr>manager := m\<rparr>) = unload_view st"
  "unload_view (st\<lparr>activeBleDevices := a\<rparr>) = unload_view st" "unload_view (st\<lparr>pendingBleConnections := b\<rparr>) = unload_view st"
  "unload_view (open_for c d st) = unload_view st" "unload_view (count_port c st) = unload_view st"
  "unload_view (uncount_port c st) = unload_view st" "unload_view (RemoveFromActiveBleDevices d st) = unload_view st"
  by (simp_all add: unload_view_def set_ctx_def erase_ctx_def set_resource_def touch_resource_def send_def open_for_def
      count_port_def uncount_port_def RemoveFromActiveBleDevices_def Let_def)

lemma view_fold: "(\<And>x s. unload_view (f x s) = unload_view s) \<Longrightarrow> unload_view (fold f xs st) = unload_view st"
  by (induction xs arbitrary: st) simp_all

lemma view_OpenDevice [simp]: "unload_view (snd (OpenDevice drv env c d st)) = unload_view st"
  by (simp add: OpenDevice_def Let_def split: option.split prod.split)

lemma view_CleanupClients [simp]: "unload_view (CleanupClients cs d ctx st) = unload_view st"
  by (induction cs arbitrary: ctx st) (simp_all add: CleanupClientResourceForDevice_def split: prod.split option.split)

lemma view_Notify [simp]: "unload_view (NotifyDeviceChange change dev st) = unload_view st" "unload_view (NotifyError code st) = unload_view st"
  by (simp_all add: NotifyDeviceChange_def NotifyError_def CleanupDeviceContext_def Let_def split: option.split)

lemma view_TakeWaiting: "TakeWaiting addr st = (reqs, st') \<Longrightarrow> unload_view st' = unload_view st"
  by (auto simp: TakeWaiting_def split: option.splits)

lemma view_CallWhileClosing [simp]: "unload_view (HandleCallWhileClosing call st) = unload_view st"
  using view_TakeWaiting by (auto simp: HandleCallWhileClosing_def TellWaiting_def split: ManagerCall.split prod.split)

lemma view_CloseManagerDevice [simp]: "unload_view (snd (CloseManagerDevice drv d st)) = unload_view st"
  by (simp add: CloseManagerDevice_def view_fold split: prod.split)

lemma view_Register: "RegisterBleDeviceForPendingClientsLocked addr d reqs st = (ok, st') \<Longrightarrow> unload_view st' = unload_view st"
  by (auto simp: RegisterBleDeviceForPendingClientsLocked_def Let_def view_fold split: if_splits option.splits)

lemma view_HandleBleOpenComplete [simp]: "unload_view (HandleBleOpenComplete drv addr success d i st) = unload_view st"
  using view_TakeWaiting view_Register
  by (fastforce simp: HandleBleOpenComplete_def TellWaiting_def Let_def split: prod.split)

lemma view_OpenBleDevice [simp]: "unload_view (snd (OpenBleDevice drv c addr cb st)) = unload_view st"
  by (simp add: OpenBleDevice_def TryAttachToActiveBleDevice_def EnqueueBleConnectionRequest_def Let_def split: option.split prod.split)

lemma view_PortGuard: "PortGuard env c d st = (status, co, st') \<Longrightarrow> unload_view st' = unload_view st"
  by (auto simp: PortGuard_def Let_def split: if_splits option.splits)

lemma view_OpenPort [simp]: "unload_view (snd (OpenInputPort drv env c d p st)) = unload_view st"
  "unload_view (snd (OpenOutputPort drv env c d p st)) = unload_view st"
  using view_PortGuard
  by (fastforce simp: OpenInputPort_def OpenOutputPort_def ConnectToExistingInputPort_def CreateNewInputPortConnection_def
      ConnectToExistingOutputPort_def CreateNewOutputPortConnection_def Let_def split: option.split prod.split)+

lemma view_ClosePort [simp]: "unload_view (snd (CloseInputPortInner drv c d p st)) = unload_view st"
  "unload_view (snd (CloseOutputPortInner drv c d p st)) = unload_view st"
  by (simp_all add: CloseInputPortInner_def CloseOutputPortInner_def Let_def split: option.split prod.split)

lemma view_LeaveDevice [simp]: "unload_view (LeaveDevice c d st) = unload_view st" "unload_view (ClosePortforDevice drv c d ctx st) = unload_view st"
  by (simp_all add: LeaveDevice_def ClosePortforDevice_def view_fold Let_def split: option.split)

lemma view_CloseDevice [simp]: "unload_view (snd (CloseDevice drv c d st)) = unload_view st"
  by (simp add: CloseDevice_def Let_def prod.case_eq_if split: option.split)

definition other_request :: "'d Request \<Rightarrow> bool" where
  "other_request req = (case req of Create _ _ _ _ \<Rightarrow> False | Destroy _ \<Rightarrow> False | _ \<Rightarrow> True)"

lemma view_serve: "other_request req \<Longrightarrow> unload_view (snd (serve drv req st)) = unload_view st"
  by (cases req) (simp_all add: other_request_def serve_def CloseInputPort_def CloseOutputPort_def FlushOutputPort_def with_manager_def
      HandleManagerCall_def view_fold split: prod.split option.split ManagerCall.split)

lemma view_CleanupDeviceForClient [simp]: "unload_view (CleanupDeviceForClient drv c d st) = unload_view st"
  by (simp add: CleanupDeviceForClient_def split: option.split)

lemma view_CleanupClientResources [simp]:
  "unload_view (CleanupClientResources c u st) = unload_view st" "unload_view (RemovePendingBleConnectionsForClient c st) = unload_view st"
  by (simp_all add: CleanupClientResources_def RemovePendingBleConnectionsForClient_def unload_view_def Let_def split: option.split)

lemma view_Destroy:
  assumes "c \<in> set (sc_clients st)"
  shows "unload_view (snd (DestroyMidiClient drv c st))
     = (if set_remove c (sc_clients st) = [] then (True, False, []) else (isUnloadPending st, unloadCancelled st, set_remove c (sc_clients st)))"
proof -
  obtain toClose toClean where D: "CollectDevicesForClientDestruction c st = (toClose, toClean)" by fastforce
  define clientUid where "clientUid = (case find_key (clientResourceInfo st) c of Some r \<Rightarrow> uid r | None \<Rightarrow> 0)"
  define st1 where "st1 = (if c \<in> set (deathRecipients st)
      then st\<lparr>clientCallbackObjects := set_remove c (clientCallbackObjects st), deathRecipients := set_remove c (deathRecipients st)\<rparr> else st)"
  define st2 where "st2 = RemovePendingBleConnectionsForClient c (CleanupClientResources c clientUid (fold (CleanupDeviceForClient drv c) toClean st1))"
  define st3 where "st3 = fold (\<lambda>d st. snd (CloseManagerDevice drv d st)) toClose (st2\<lparr>sc_clients := set_remove c (sc_clients st2)\<rparr>)"
  have "unload_view st2 = unload_view st" by (simp add: st2_def st1_def view_fold) (simp add: unload_view_def)
  then have "unload_view (st2\<lparr>sc_clients := set_remove c (sc_clients st2)\<rparr>)
      = (isUnloadPending st, unloadCancelled st, set_remove c (sc_clients st))" by (simp add: unload_view_def)
  then have v: "unload_view st3 = (isUnloadPending st, unloadCancelled st, set_remove c (sc_clients st))" by (simp add: st3_def view_fold)
  have "snd (DestroyMidiClient drv c st) = (if sc_clients st3 = [] then ScheduleUnloadTask st3 else st3)"
    using assms by (simp add: DestroyMidiClient_def D Let_def clientUid_def [symmetric] st1_def [symmetric] st2_def [symmetric] st3_def [symmetric])
  then show ?thesis using v by (simp add: unload_view_def ScheduleUnloadTask_def Let_def)
qed

section \<open>The thread\<close>

text \<open>
  The thread waits until its time is over or the cancel flag is set (\<open>TimerWaiting\<close>); when its time is over first it has decided to
  unload (\<open>TimerFired\<close>), calls the system ability manager and ends (\<open>ThreadEnded\<close>), but it can still be joined. \<open>NoThread\<close>: joined, or never started.
\<close>

datatype UnloadThread = NoThread | TimerWaiting | TimerFired | ThreadEnded

text \<open>\<open>uw_unloads\<close> records the clients that existed at each call of \<open>UnloadSystemAbility\<close>.\<close>

record 'd UnloadWorld =
  uw_service :: "'d MidiServiceController"
  uw_thread :: UnloadThread
  uw_unloads :: "u32 list list"

text \<open>
  Setting the cancel flag, notifying and joining: a thread that still waits ends without a call, one that has decided to unload
  does so before the join returns. The caller holds the lock of the tables, so that nothing else happens meanwhile.
\<close>

definition JoinUnloadThread :: "u32 list \<Rightarrow> 'd UnloadWorld \<Rightarrow> 'd UnloadWorld" where
  "JoinUnloadThread existing w =
     w\<lparr>uw_thread := NoThread, uw_unloads := uw_unloads w @ (if uw_thread w = TimerFired then [existing] else [])\<rparr>"

definition CancelUnload :: "'d UnloadWorld \<Rightarrow> 'd UnloadWorld" where
  "CancelUnload w =
     (if \<not> isUnloadPending (uw_service w) then w
      else (JoinUnloadThread (sc_clients (uw_service w)) w)\<lparr>uw_service := CancelUnloadTask (uw_service w)\<rparr>)"

text \<open>
  \<open>was_pending\<close> is the flag before. Assigning a new thread over one that has not been joined ends the process: \<open>None\<close>.
\<close>

definition StartUnloadThread :: "bool \<Rightarrow> 'd UnloadWorld \<Rightarrow> 'd UnloadWorld option" where
  "StartUnloadThread was_pending w =
     (let w = (if was_pending then JoinUnloadThread (sc_clients (uw_service w)) w else w)
      in if uw_thread w \<noteq> NoThread then None else Some (w\<lparr>uw_thread := TimerWaiting\<rparr>))"

definition Unload_Create :: "'d Drivers \<Rightarrow> bool \<Rightarrow> bool \<Rightarrow> bool \<Rightarrow> u32 \<Rightarrow> 'd UnloadWorld \<Rightarrow> 'd UnloadWorld" where
  "Unload_Create drv valid allocated added u w =
     (let w = (if valid then CancelUnload w else w)
      in w\<lparr>uw_service := snd (serve drv (Create valid allocated added u) (uw_service w))\<rparr>)"

definition Unload_Destroy :: "'d Drivers \<Rightarrow> u32 \<Rightarrow> 'd UnloadWorld \<Rightarrow> 'd UnloadWorld option" where
  "Unload_Destroy drv c w =
     (case serve drv (Destroy c) (uw_service w) of (status, st) \<Rightarrow>
        let w' = w\<lparr>uw_service := st\<rparr>
        in if status = OH_MIDI_STATUS_OK \<and> sc_clients st = [] then StartUnloadThread (isUnloadPending (uw_service w)) w' else Some w')"

inductive unload_step :: "'d Drivers \<Rightarrow> 'd UnloadWorld \<Rightarrow> 'd UnloadWorld \<Rightarrow> bool" for drv where
  request: "other_request req \<Longrightarrow> unload_step drv w (w\<lparr>uw_service := snd (serve drv req (uw_service w))\<rparr>)"
| create: "unload_step drv w (Unload_Create drv valid allocated added u w)"
| destroy: "Unload_Destroy drv c w = Some w' \<Longrightarrow> unload_step drv w w'"
| timeout: "uw_thread w = TimerWaiting \<Longrightarrow> \<not> unloadCancelled (uw_service w) \<Longrightarrow> unload_step drv w (w\<lparr>uw_thread := TimerFired\<rparr>)"
| cancelled: "uw_thread w = TimerWaiting \<Longrightarrow> unloadCancelled (uw_service w) \<Longrightarrow> unload_step drv w (w\<lparr>uw_thread := ThreadEnded\<rparr>)"
| unload: "uw_thread w = TimerFired \<Longrightarrow>
     unload_step drv w (w\<lparr>uw_thread := ThreadEnded, uw_unloads := uw_unloads w @ [sc_clients (uw_service w)]\<rparr>)"

definition new_UnloadWorld :: "'d \<Rightarrow> 'd UnloadWorld" where
  "new_UnloadWorld d = \<lparr>uw_service = new_MidiServiceController d, uw_thread = NoThread, uw_unloads = []\<rparr>"

definition unload_reachable :: "'d Drivers \<Rightarrow> 'd UnloadWorld \<Rightarrow> bool" where
  "unload_reachable drv w \<longleftrightarrow> (\<exists>d. (unload_step drv)\<^sup>*\<^sup>* (new_UnloadWorld d) w)"

section \<open>Its invariant\<close>

definition unload_inv :: "'d UnloadWorld \<Rightarrow> bool" where
  "unload_inv w \<longleftrightarrow> service_inv (uw_service w) \<and> (isUnloadPending (uw_service w) \<longleftrightarrow> uw_thread w \<noteq> NoThread)
     \<and> (uw_thread w \<noteq> NoThread \<longrightarrow> sc_clients (uw_service w) = [])
     \<and> (uw_thread w = TimerWaiting \<longrightarrow> \<not> unloadCancelled (uw_service w)) \<and> (\<forall>cs\<in>set (uw_unloads w). cs = [])"

lemma unload_inv_service: "unload_inv w \<Longrightarrow> service_inv (uw_service w)"
  by (simp add: unload_inv_def)

lemma view_Create:
  assumes "\<not> isUnloadPending st"
  shows "isUnloadPending (snd (serve drv (Create valid allocated added u) st)) = False"
  using assms by (auto simp: serve_def CreateMidiInServer_def CancelUnloadTask_def set_resource_def Let_def split: option.split prod.split
      simp del: NextClientId.simps)

lemma CancelUnload_inv:
  assumes "unload_inv w"
  shows "unload_inv (CancelUnload w) \<and> uw_thread (CancelUnload w) = NoThread \<and> sc_clients (uw_service (CancelUnload w)) = sc_clients (uw_service w)"
proof (cases "isUnloadPending (uw_service w)")
  case True
  have "service_inv (CancelUnloadTask (uw_service w))" by (intro CancelUnloadTask_inv unload_inv_service assms)
  moreover have "sc_clients (CancelUnloadTask st) = sc_clients st" for st by (simp add: CancelUnloadTask_def)
  ultimately show ?thesis using assms True by (auto simp: unload_inv_def CancelUnload_def JoinUnloadThread_def CancelUnloadTask_def)
qed (use assms in \<open>simp add: CancelUnload_def unload_inv_def\<close>)

lemma Unload_Create_inv:
  assumes "unload_inv w"
  shows "unload_inv (Unload_Create drv valid allocated added u w)"
proof (cases valid)
  case False
  then have "serve drv (Create valid allocated added u) st = (OH_MIDI_STATUS_SYSTEM_ERROR, st)" for st :: "'a MidiServiceController"
    by (simp add: serve_def CreateMidiInServer_def)
  then show ?thesis using assms False by (simp add: Unload_Create_def)
next
  case True
  let ?w = "CancelUnload w"
  have c: "unload_inv ?w" "uw_thread ?w = NoThread" using CancelUnload_inv [OF assms] by blast+
  have "service_inv (snd (serve drv (Create valid allocated added u) (uw_service ?w)))" by (intro serve_inv unload_inv_service c(1))
  moreover have "\<not> isUnloadPending (uw_service ?w)" using c by (simp add: unload_inv_def)
  ultimately show ?thesis using c view_Create [of "uw_service ?w" drv valid allocated added u] True
    by (simp add: Unload_Create_def unload_inv_def Let_def)
qed

lemma Unload_Destroy_parts:
  assumes "unload_inv w"
  shows "\<exists>w'. Unload_Destroy drv c w = Some w' \<and> unload_inv w' \<and> (sc_clients (uw_service w) = [c] \<longrightarrow> uw_thread w' = TimerWaiting)"
proof (cases "c \<in> set (sc_clients (uw_service w))")
  case False
  then have "serve drv (Destroy c) (uw_service w) = (OH_MIDI_STATUS_INVALID_CLIENT, uw_service w)" by (simp add: serve_def DestroyMidiClient_def)
  then show ?thesis using assms False by (auto simp: Unload_Destroy_def status_defs)
next
  case True
  let ?st = "snd (serve drv (Destroy c) (uw_service w))"
  have t: "uw_thread w = NoThread" "\<not> isUnloadPending (uw_service w)" using assms True by (auto simp: unload_inv_def)
  have i: "service_inv ?st" by (intro serve_inv unload_inv_service assms)
  have s: "fst (serve drv (Destroy c) (uw_service w)) = OH_MIDI_STATUS_OK"
    using True by (simp add: serve_def DestroyMidiClient_def Let_def split: prod.split)
  have v: "unload_view ?st = (if set_remove c (sc_clients (uw_service w)) = [] then (True, False, [])
      else (isUnloadPending (uw_service w), unloadCancelled (uw_service w), set_remove c (sc_clients (uw_service w))))"
    using view_Destroy [OF True] by (simp add: serve_def)
  show ?thesis
  proof (cases "sc_clients ?st = []")
    case True
    then have "isUnloadPending ?st" "\<not> unloadCancelled ?st" using v by (auto simp: unload_view_def split: if_splits)
    then show ?thesis using True i s t assms
      by (simp add: Unload_Destroy_def StartUnloadThread_def unload_inv_def prod.case_eq_if)
  next
    case False
    then have "\<not> isUnloadPending ?st" "sc_clients (uw_service w) \<noteq> [c]" using v t(2) by (auto simp: unload_view_def set_remove_def split: if_splits)
    then show ?thesis using False i t assms by (simp add: Unload_Destroy_def unload_inv_def prod.case_eq_if)
  qed
qed

lemma unload_step_inv: "unload_step drv w w' \<Longrightarrow> unload_inv w \<Longrightarrow> unload_inv w'"
proof (induction rule: unload_step.induct)
  case (request req w)
  have "service_inv (snd (serve drv req (uw_service w)))" by (intro serve_inv unload_inv_service request.prems)
  then show ?case using request.prems view_serve [OF request.hyps, of drv "uw_service w"]
    by (simp add: unload_inv_def unload_view_def)
next
  case (create w valid allocated added u)
  then show ?case by (rule Unload_Create_inv)
next
  case (destroy c w w')
  then show ?case using Unload_Destroy_parts [of w drv c] by auto
qed (auto simp: unload_inv_def)

lemma unload_reachable_inv: "unload_reachable drv w \<Longrightarrow> unload_inv w"
proof -
  assume "unload_reachable drv w"
  then obtain d where "(unload_step drv)\<^sup>*\<^sup>* (new_UnloadWorld d) w" by (auto simp: unload_reachable_def)
  then show ?thesis
  proof (induction rule: rtranclp_induct)
    case base
    have "service_inv (new_MidiServiceController d)" by (rule reachable_inv [where drv = "[]"]) (rule reachable.init)
    then show ?case by (simp add: unload_inv_def new_UnloadWorld_def new_MidiServiceController_def)
  next
    case (step w w')
    then show ?case by (intro unload_step_inv [OF step.hyps(2)])
  qed
qed

section \<open>When the service is unloaded\<close>

lemma create_room:
  assumes "service_inv st" "sc_clients st = []" "CreateMidiInServer True True added u st = (ret, cid, st')"
  shows "(added \<longrightarrow> sc_clients st' \<noteq> []) \<and> (\<not> added \<longrightarrow> sc_clients st' = [])"
proof -
  have "app_inv st" using assms(1) by (simp add: service_inv_def)
  then have "set (app_clients st u) = {}" using app_clientsD(3) [of st _ u] assms(2) by fastforce
  then show ?thesis using CreateMidiInServer_spec [OF assms(1,3)] assms(2)
    by (auto simp: client_room_def MAX_CLIENTS_def MAX_CLIENTS_PER_APP_def split: if_splits)
qed

lemma created_while_armed:
  assumes "unload_inv w" "uw_thread w \<noteq> NoThread"
  shows "uw_thread (Unload_Create drv True True added u w) = NoThread
     \<and> (sc_clients (uw_service (Unload_Create drv True True added u w)) = [] \<longleftrightarrow> \<not> added)
     \<and> uw_unloads (Unload_Create drv True True added u w) = uw_unloads w @ (if uw_thread w = TimerFired then [[]] else [])"
proof -
  let ?w = "CancelUnload w"
  have c: "unload_inv ?w" "uw_thread ?w = NoThread" "sc_clients (uw_service ?w) = []"
    using CancelUnload_inv [OF assms(1)] assms by (auto simp: unload_inv_def)
  obtain ret cid st where C: "CreateMidiInServer True True added u (uw_service ?w) = (ret, cid, st)" using prod_cases3 by blast
  have "isUnloadPending (uw_service w)" "sc_clients (uw_service w) = []" using assms by (auto simp: unload_inv_def)
  then have "uw_unloads ?w = uw_unloads w @ (if uw_thread w = TimerFired then [[]] else [])"
    by (simp add: CancelUnload_def JoinUnloadThread_def)
  then show ?thesis using create_room [OF unload_inv_service [OF c(1)] c(3) C] c(2)
    by (auto simp: Unload_Create_def serve_def C)
qed

text \<open>
  C38: the thread that unloads an idle service, in every order of requests and of its own steps. It exists only while no client does, so that the
  service asks to be unloaded only then, and a thread is never started over one that has not been joined, which would end the
  process; while it exists the service has no client. Two orders go wrong all the same. A client that is created
  when the thread has just decided gets the service that is being unloaded. And a creation that fails after it has
  stopped the thread leaves a service without clients and without a thread, which stays loaded.
\<close>

theorem unload_idle:
  assumes "unload_reachable drv w"
  shows "(\<forall>cs\<in>set (uw_unloads w). cs = []) \<and> (sc_clients (uw_service w) \<noteq> [] \<longrightarrow> uw_thread w = NoThread)
     \<and> Unload_Destroy drv c w \<noteq> None
     \<and> (sc_clients (uw_service w) = [c] \<longrightarrow> (\<exists>w'. Unload_Destroy drv c w = Some w' \<and> uw_thread w' = TimerWaiting))
     \<and> (uw_thread w = TimerFired \<longrightarrow> (let w' = Unload_Create drv True True True u w in
          uw_unloads w' = uw_unloads w @ [[]] \<and> sc_clients (uw_service w') \<noteq> []))
     \<and> (uw_thread w \<noteq> NoThread \<longrightarrow> (let w' = Unload_Create drv True True False u w in
          uw_thread w' = NoThread \<and> sc_clients (uw_service w') = []))"
proof -
  have i: "unload_inv w" by (rule unload_reachable_inv [OF assms])
  obtain w' where d: "Unload_Destroy drv c w = Some w'" "sc_clients (uw_service w) = [c] \<longrightarrow> uw_thread w' = TimerWaiting"
    using Unload_Destroy_parts [OF i, of drv c] by blast
  have "\<forall>cs\<in>set (uw_unloads w). cs = []" "sc_clients (uw_service w) \<noteq> [] \<longrightarrow> uw_thread w = NoThread"
    using i by (auto simp: unload_inv_def)
  then show ?thesis using d created_while_armed [OF i, of drv] by (simp add: Let_def)
qed

text \<open>The only client is destroyed and the time is over.\<close>

definition demo_idle :: "DeviceInformation list UnloadWorld" where
  "demo_idle = (the (Unload_Destroy demo_drivers 1 (Unload_Create demo_drivers True True True 5 (new_UnloadWorld []))))\<lparr>uw_thread := TimerFired\<rparr>"

lemma demo_idle_reachable: "unload_reachable demo_drivers demo_idle"
proof -
  let ?w1 = "Unload_Create demo_drivers True True True 5 (new_UnloadWorld [])"
  have "case Unload_Destroy demo_drivers 1 ?w1 of None \<Rightarrow> False
     | Some w \<Rightarrow> (case uw_thread w of TimerWaiting \<Rightarrow> \<not> unloadCancelled (uw_service w) | _ \<Rightarrow> False)" by code_simp
  then obtain w2 where w2: "Unload_Destroy demo_drivers 1 ?w1 = Some w2" "uw_thread w2 = TimerWaiting" "\<not> unloadCancelled (uw_service w2)"
    by (auto split: option.splits UnloadThread.splits)
  have "(unload_step demo_drivers)\<^sup>*\<^sup>* (new_UnloadWorld []) w2"
    using unload_step.create unload_step.destroy [OF w2(1)] by (meson rtranclp.rtrancl_refl rtranclp.rtrancl_into_rtrancl)
  then have "(unload_step demo_drivers)\<^sup>*\<^sup>* (new_UnloadWorld []) (w2\<lparr>uw_thread := TimerFired\<rparr>)"
    using unload_step.timeout [OF w2(2,3)] by (rule rtranclp.rtrancl_into_rtrancl)
  then show ?thesis by (auto simp: unload_reachable_def demo_idle_def w2(1))
qed

theorem unload_idle_witness:
  "uw_thread demo_idle = TimerFired \<and> sc_clients (uw_service (Unload_Create demo_drivers True True True 7 demo_idle)) \<noteq> []
   \<and> uw_thread (Unload_Create demo_drivers True True False 7 demo_idle) = NoThread"
proof -
  have "uw_thread demo_idle = TimerFired" by (simp add: demo_idle_def)
  then show ?thesis using unload_idle [OF demo_idle_reachable, where u = 7] by (simp add: Let_def)
qed

end
