(* ===== verification/Unique_Fd.thy ===== *)
theory Unique_Fd
  imports Shared_Ring
begin

text \<open>
  \<open>UniqueFd\<close> of \<^verbatim>\<open>frameworks/native/midiutils\<close>: the object that owns a file descriptor and closes it. The C library records
  for each open descriptor the tag of its owner (0 for none) and reports every change or close by someone else; a tag is made from the address of the owning
  object. What the library keeps for the process is the record \<open>Process\<close>, with the number of its reports.
\<close>

section \<open>Descriptors of a process\<close>

text \<open>
  \<open>fd_table\<close> holds the open descriptors with the tags of their owners, and \<open>fd_file\<close> the file that a descriptor leads to;
  \<open>mappings\<close> is the number of mapped regions.
\<close>

record Process =
  fd_table :: "(int \<times> nat) list"
  fd_file :: "int \<Rightarrow> nat"
  fdsan_errors :: nat
  mappings :: nat

definition fdsan_exchange_owner_tag :: "int \<Rightarrow> nat \<Rightarrow> nat \<Rightarrow> Process \<Rightarrow> Process" where
  "fdsan_exchange_owner_tag fd expected tag p =
     (if find_key (fd_table p) fd = Some expected then p\<lparr>fd_table := AList.update fd tag (fd_table p)\<rparr>
      else p\<lparr>fdsan_errors := fdsan_errors p + 1\<rparr>)"

definition fdsan_close_with_tag :: "int \<Rightarrow> nat \<Rightarrow> Process \<Rightarrow> Process" where
  "fdsan_close_with_tag fd tag p =
     (if find_key (fd_table p) fd = Some tag then p\<lparr>fd_table := AList.delete fd (fd_table p)\<rparr>
      else p\<lparr>fd_table := AList.delete fd (fd_table p), fdsan_errors := fdsan_errors p + 1\<rparr>)"

text \<open>A system call that opens a descriptor without an owner; a negative result is a failure.\<close>

definition sys_open :: "int \<Rightarrow> nat \<Rightarrow> Process \<Rightarrow> Process" where
  "sys_open fd f p = (if fd < 0 then p else p\<lparr>fd_table := (fd, 0) # fd_table p, fd_file := (fd_file p)(fd := f)\<rparr>)"

section \<open>The owner\<close>

record UniqueFd =
  ufd_tag :: nat
  ufd_fd :: int

definition Valid :: "UniqueFd \<Rightarrow> bool" where
  "Valid u \<longleftrightarrow> ufd_fd u \<ge> 0"

text \<open>An object at an address that has the tag.\<close>

definition no_fd :: "nat \<Rightarrow> UniqueFd" where
  "no_fd tag = \<lparr>ufd_tag = tag, ufd_fd = -1\<rparr>"

definition UniqueFd_Reset :: "int \<Rightarrow> UniqueFd \<Rightarrow> Process \<Rightarrow> UniqueFd \<times> Process" where
  "UniqueFd_Reset fd u p =
     (let (u, p) = (if ufd_fd u \<ge> 0 then (u\<lparr>ufd_fd := -1\<rparr>, fdsan_close_with_tag (ufd_fd u) (ufd_tag u) p) else (u, p))
      in if fd \<ge> 0 then (u\<lparr>ufd_fd := fd\<rparr>, fdsan_exchange_owner_tag fd 0 (ufd_tag u) p) else (u, p))"

definition new_UniqueFd :: "nat \<Rightarrow> int \<Rightarrow> Process \<Rightarrow> UniqueFd \<times> Process" where
  "new_UniqueFd tag fd p = UniqueFd_Reset fd (no_fd tag) p"

definition destroy_UniqueFd :: "UniqueFd \<Rightarrow> Process \<Rightarrow> Process" where
  "destroy_UniqueFd u p = snd (UniqueFd_Reset (-1) u p)"

text \<open>Moving: the new object, what is left of the other one, and the process.\<close>

definition move_UniqueFd :: "nat \<Rightarrow> UniqueFd \<Rightarrow> Process \<Rightarrow> UniqueFd \<times> UniqueFd \<times> Process" where
  "move_UniqueFd tag other p =
     (let u = \<lparr>ufd_tag = tag, ufd_fd = ufd_fd other\<rparr>;
          p = (if ufd_fd u \<ge> 0 then fdsan_exchange_owner_tag (ufd_fd u) (ufd_tag other) tag p else p)
      in (u, other\<lparr>ufd_fd := -1\<rparr>, p))"

text \<open>Two objects are the same when they have the same address.\<close>

definition assign_UniqueFd :: "UniqueFd \<Rightarrow> UniqueFd \<Rightarrow> Process \<Rightarrow> UniqueFd \<times> UniqueFd \<times> Process" where
  "assign_UniqueFd u other p =
     (if ufd_tag u = ufd_tag other then (u, other, p)
      else (case UniqueFd_Reset (-1) u p of (u, p) \<Rightarrow> move_UniqueFd (ufd_tag u) other p))"

section \<open>Ownership\<close>

text \<open>
  The open descriptors are those that the owners hold, with their tags, and those in \<open>plain\<close>, which nobody owns; and nothing has been
  reported.
\<close>

definition fd_inv :: "Process \<Rightarrow> (int \<times> nat) set \<Rightarrow> int set \<Rightarrow> bool" where
  "fd_inv p held plain \<longleftrightarrow> fdsan_errors p = 0 \<and> distinct (keys_of (fd_table p))
     \<and> set (fd_table p) = held \<union> (\<lambda>fd. (fd, 0)) ` plain \<and> (\<forall>(fd, tag)\<in>held. tag \<noteq> 0)"

definition holds :: "UniqueFd \<Rightarrow> (int \<times> nat) set" where
  "holds u = (if Valid u then {(ufd_fd u, ufd_tag u)} else {})"

lemma holds_simps [simp]: "holds (no_fd tag) = {}" "holds (u\<lparr>ufd_fd := -1\<rparr>) = {}" "ufd_tag (no_fd tag) = tag"
  by (simp_all add: holds_def Valid_def no_fd_def)

lemma set_update_key:
  assumes "distinct (keys_of xs)" "find_key xs k = Some v"
  shows "set (AList.update k w xs) = insert (k, w) (set xs - {(k, v)})"
  using assms by (induction xs) (auto split: if_splits simp: rev_image_eqI)

lemma set_delete_key:
  assumes "distinct (keys_of xs)" "find_key xs k = Some v"
  shows "set (AList.delete k xs) = set xs - {(k, v)}"
proof -
  have "b = v" if "(k, b) \<in> set xs" for b using that assms by (metis map_of_eq_Some_iff option.inject)
  then show ?thesis by (auto simp: AList.delete_eq)
qed

lemma fd_inv_find: "fd_inv p held plain \<Longrightarrow> find_key (fd_table p) fd = Some tag \<longleftrightarrow> (fd, tag) \<in> held \<union> (\<lambda>fd. (fd, 0)) ` plain"
  by (simp add: fd_inv_def)

lemma fd_inv_open:
  assumes "fd_inv p held plain" "fd \<ge> 0 \<longrightarrow> fd \<notin> set (keys_of (fd_table p))"
  shows "fd_inv (sys_open fd f p) held (plain \<union> (if fd \<ge> 0 then {fd} else {}))"
  using assms by (auto simp: fd_inv_def sys_open_def)

lemma fd_inv_close:
  assumes "fd_inv p (insert (fd, tag) held) plain" "(fd, tag) \<notin> held"
  shows "fd_inv (fdsan_close_with_tag fd tag p) held plain"
proof -
  have f: "find_key (fd_table p) fd = Some tag" using assms(1) fd_inv_find by blast
  have d: "distinct (keys_of (fd_table p))" using assms(1) by (simp add: fd_inv_def)
  have "tag \<noteq> 0" using assms(1) by (simp add: fd_inv_def)
  then show ?thesis using assms f d set_delete_key [OF d f]
    by (auto simp: fd_inv_def fdsan_close_with_tag_def distinct_delete)
qed

lemma fd_inv_exchange:
  assumes "fd_inv p held plain" "fd \<in> plain" "tag \<noteq> 0"
  shows "fd_inv (fdsan_exchange_owner_tag fd 0 tag p) (insert (fd, tag) held) (plain - {fd})"
proof -
  have f: "find_key (fd_table p) fd = Some 0" using assms(1,2) fd_inv_find by blast
  then show ?thesis using assms set_update_key [OF _ f, of tag]
    by (auto simp: fd_inv_def fdsan_exchange_owner_tag_def distinct_update)
qed

lemma fd_inv_transfer:
  assumes "fd_inv p (insert (fd, t) held) plain" "(fd, t) \<notin> held" "tag \<noteq> 0"
  shows "fd_inv (fdsan_exchange_owner_tag fd t tag p) (insert (fd, tag) held) plain"
proof -
  have f: "find_key (fd_table p) fd = Some t" using assms(1) fd_inv_find by blast
  have "t \<noteq> 0" using assms(1) by (simp add: fd_inv_def)
  then show ?thesis using assms set_update_key [OF _ f, of tag] f
    by (auto simp: fd_inv_def fdsan_exchange_owner_tag_def distinct_update)
qed

section \<open>What the operations of an owner do\<close>

definition same_world :: "Process \<Rightarrow> Process \<Rightarrow> bool" where
  "same_world p p' \<longleftrightarrow> fd_file p' = fd_file p \<and> mappings p' = mappings p"

lemma fdsan_world [simp]:
  "fd_file (fdsan_exchange_owner_tag fd expected tag p) = fd_file p" "mappings (fdsan_exchange_owner_tag fd expected tag p) = mappings p"
  "fd_file (fdsan_close_with_tag fd tag p) = fd_file p" "mappings (fdsan_close_with_tag fd tag p) = mappings p"
  by (simp_all add: fdsan_exchange_owner_tag_def fdsan_close_with_tag_def)

lemma Reset_inv:
  assumes "fd_inv p (holds u \<union> H) P" "holds u \<inter> H = {}" "ufd_tag u \<noteq> 0" "fd \<ge> 0 \<Longrightarrow> fd \<in> P" "UniqueFd_Reset fd u p = (u', p')"
  shows "fd_inv p' (holds u' \<union> H) (if fd \<ge> 0 then P - {fd} else P)"
    "u' = u\<lparr>ufd_fd := (if fd \<ge> 0 then fd else if Valid u then -1 else ufd_fd u)\<rparr>" "same_world p p'"
proof -
  define p1 where "p1 = (if Valid u then fdsan_close_with_tag (ufd_fd u) (ufd_tag u) p else p)"
  have 1: "fd_inv p1 H P"
  proof (cases "Valid u")
    case True
    then show ?thesis using assms(1,2) by (auto simp: p1_def holds_def intro: fd_inv_close)
  qed (use assms(1) in \<open>simp add: p1_def holds_def\<close>)
  have r: "(u', p') = (if fd \<ge> 0 then (u\<lparr>ufd_fd := fd\<rparr>, fdsan_exchange_owner_tag fd 0 (ufd_tag u) p1)
      else (u\<lparr>ufd_fd := (if Valid u then -1 else ufd_fd u)\<rparr>, p1))"
    using assms(5) by (auto simp: UniqueFd_Reset_def p1_def Valid_def)
  then show "u' = u\<lparr>ufd_fd := (if fd \<ge> 0 then fd else if Valid u then -1 else ufd_fd u)\<rparr>" "same_world p p'"
    by (auto simp: same_world_def p1_def split: if_splits)
  show "fd_inv p' (holds u' \<union> H) (if fd \<ge> 0 then P - {fd} else P)"
    using 1 r fd_inv_exchange [OF 1 assms(4,3)] by (auto simp: holds_def Valid_def)
qed

lemma new_UniqueFd_inv:
  assumes "fd_inv p H P" "tag \<noteq> 0" "fd \<ge> 0" "fd \<in> P"
  shows "\<exists>p'. new_UniqueFd tag fd p = (\<lparr>ufd_tag = tag, ufd_fd = fd\<rparr>, p') \<and> fd_inv p' (insert (fd, tag) H) (P - {fd}) \<and> same_world p p'"
proof -
  obtain u' p' where r: "UniqueFd_Reset fd (no_fd tag) p = (u', p')" by fastforce
  have "fd_inv p (holds (no_fd tag) \<union> H) P" "holds (no_fd tag) \<inter> H = {}" "ufd_tag (no_fd tag) \<noteq> 0" using assms by simp_all
  note R = Reset_inv [OF this _ r]
  show ?thesis using R assms(3,4) r by (auto simp: new_UniqueFd_def no_fd_def holds_def Valid_def)
qed

lemma destroy_UniqueFd_inv:
  assumes "fd_inv p (holds u \<union> H) P" "holds u \<inter> H = {}" "ufd_tag u \<noteq> 0"
  shows "fd_inv (destroy_UniqueFd u p) H P" "same_world p (destroy_UniqueFd u p)"
proof -
  obtain u' p' where r: "UniqueFd_Reset (-1) u p = (u', p')" by fastforce
  note R = Reset_inv [OF assms _ r]
  have "holds u' = {}" using R(2) by (auto simp: holds_def Valid_def)
  then show "fd_inv (destroy_UniqueFd u p) H P" "same_world p (destroy_UniqueFd u p)"
    using R by (simp_all add: destroy_UniqueFd_def r)
qed

lemma move_UniqueFd_inv:
  assumes "fd_inv p (holds other \<union> H) P" "holds other \<inter> H = {}" "tag \<noteq> 0" "move_UniqueFd tag other p = (u, other', p')"
  shows "fd_inv p' (holds u \<union> H) P" "u = \<lparr>ufd_tag = tag, ufd_fd = ufd_fd other\<rparr>" "other' = other\<lparr>ufd_fd := -1\<rparr>" "same_world p p'"
proof -
  show u: "u = \<lparr>ufd_tag = tag, ufd_fd = ufd_fd other\<rparr>" "other' = other\<lparr>ufd_fd := -1\<rparr>" "same_world p p'"
    using assms(4) by (auto simp: move_UniqueFd_def same_world_def Let_def)
  show "fd_inv p' (holds u \<union> H) P"
  proof (cases "Valid other")
    case True
    then show ?thesis using assms u by (auto simp: move_UniqueFd_def Let_def holds_def Valid_def intro: fd_inv_transfer)
  next
    case False
    then show ?thesis using assms u by (auto simp: move_UniqueFd_def Let_def holds_def Valid_def)
  qed
qed

section \<open>Any sequence of operations\<close>

text \<open>
  The live objects of a process. A new object has an address that no live object has; a descriptor is given to one object only (the precondition that the
  header states); the system opens a descriptor only under a number that is free. An object cannot be moved into its own place.
\<close>

inductive fd_step :: "Process \<times> UniqueFd list \<Rightarrow> Process \<times> UniqueFd list \<Rightarrow> bool" where
  opened: "fd \<notin> set (keys_of (fd_table p)) \<Longrightarrow> fd_step (p, us) (sys_open fd f p, us)"
| created: "tag \<noteq> 0 \<Longrightarrow> tag \<notin> ufd_tag ` set us \<Longrightarrow> fd < 0 \<or> find_key (fd_table p) fd = Some 0 \<Longrightarrow> new_UniqueFd tag fd p = (u, p')
     \<Longrightarrow> fd_step (p, us) (p', u # us)"
| reset: "i < length us \<Longrightarrow> fd < 0 \<or> find_key (fd_table p) fd = Some 0 \<Longrightarrow> UniqueFd_Reset fd (us ! i) p = (u, p') \<Longrightarrow> fd_step (p, us) (p', us[i := u])"
| moved: "i < length us \<Longrightarrow> tag \<noteq> 0 \<Longrightarrow> tag \<notin> ufd_tag ` set us \<Longrightarrow> move_UniqueFd tag (us ! i) p = (u, other, p')
     \<Longrightarrow> fd_step (p, us) (p', u # us[i := other])"
| assigned: "i < length us \<Longrightarrow> j < length us \<Longrightarrow> assign_UniqueFd (us ! i) (us ! j) p = (u, other, p')
     \<Longrightarrow> fd_step (p, us) (p', us[i := u, j := other])"
| destroyed: "i < length us \<Longrightarrow> fd_step (p, us) (destroy_UniqueFd (us ! i) p, take i us @ drop (Suc i) us)"

definition new_Process :: Process where
  "new_Process = \<lparr>fd_table = [(0, 0), (1, 0), (2, 0)], fd_file = (\<lambda>_. 0), fdsan_errors = 0, mappings = 0\<rparr>"

definition fd_reachable :: "Process \<Rightarrow> UniqueFd list \<Rightarrow> bool" where
  "fd_reachable p us \<longleftrightarrow> fd_step\<^sup>*\<^sup>* (new_Process, []) (p, us)"

text \<open>The live objects hold all descriptors of the table that have an owner.\<close>

definition all_held :: "UniqueFd list \<Rightarrow> (int \<times> nat) set" where
  "all_held us = (\<Union>u\<in>set us. holds u)"

definition without :: "nat \<Rightarrow> 'a list \<Rightarrow> 'a list" where
  "without i xs = take i xs @ drop (Suc i) xs"

definition owners_inv :: "Process \<Rightarrow> UniqueFd list \<Rightarrow> bool" where
  "owners_inv p us \<longleftrightarrow> distinct (map ufd_tag us) \<and> 0 \<notin> ufd_tag ` set us \<and> (\<exists>P. fd_inv p (all_held us) P)"

lemma set_without: "i < length xs \<Longrightarrow> set xs = insert (xs ! i) (set (without i xs))"
  by (subst id_take_nth_drop [of i xs]) (auto simp: without_def)

lemma all_held_split: "i < length us \<Longrightarrow> all_held us = holds (us ! i) \<union> all_held (without i us)"
  by (simp add: all_held_def set_without)

lemma all_held_update: "i < length us \<Longrightarrow> all_held (us[i := u]) = holds u \<union> all_held (without i us)"
  by (auto simp: all_held_def upd_conv_take_nth_drop without_def)

lemma all_held_Cons [simp]: "all_held (u # us) = holds u \<union> all_held us" "all_held [] = {}"
  by (simp_all add: all_held_def)

lemma tags_without:
  assumes "distinct (map ufd_tag us)" "i < length us"
  shows "distinct (map ufd_tag (without i us))" "ufd_tag (us ! i) \<notin> ufd_tag ` set (without i us)"
    "holds (us ! i) \<inter> all_held (without i us) = {}"
proof -
  have "distinct (map ufd_tag (take i us @ us ! i # drop (Suc i) us))" using assms id_take_nth_drop [of i us] by simp
  then show t: "distinct (map ufd_tag (without i us))" "ufd_tag (us ! i) \<notin> ufd_tag ` set (without i us)"
    by (auto simp: without_def)
  then show "holds (us ! i) \<inter> all_held (without i us) = {}" by (force simp: all_held_def holds_def split: if_splits)
qed

lemma owner_tag: "0 \<notin> ufd_tag ` set us \<Longrightarrow> i < length us \<Longrightarrow> ufd_tag (us ! i) \<noteq> 0"
  by (metis image_eqI nth_mem)

lemma tags_update: "i < length us \<Longrightarrow> ufd_tag u = ufd_tag (us ! i) \<Longrightarrow> map ufd_tag (us[i := u]) = map ufd_tag us"
  by (simp add: map_update list_update_same_conv)

lemma fd_inv_plain: "fd_inv p held P \<Longrightarrow> find_key (fd_table p) fd = Some 0 \<Longrightarrow> fd \<in> P"
  by (auto simp: fd_inv_def)

lemma Reset_owners:
  assumes "owners_inv p us" "i < length us" "fd < 0 \<or> find_key (fd_table p) fd = Some 0" "UniqueFd_Reset fd (us ! i) p = (u, p')"
  shows "owners_inv p' (us[i := u])" "ufd_tag u = ufd_tag (us ! i)" "fd < 0 \<Longrightarrow> holds u = {}"
proof -
  obtain P where I: "fd_inv p (holds (us ! i) \<union> all_held (without i us)) P"
    using assms(1,2) by (auto simp: owners_inv_def all_held_split)
  have d: "distinct (map ufd_tag us)" "0 \<notin> ufd_tag ` set us" using assms(1) by (auto simp: owners_inv_def)
  have "fd \<ge> 0 \<Longrightarrow> fd \<in> P" using assms(3) fd_inv_plain [OF I] by auto
  note R = Reset_inv [OF I tags_without(3) [OF d(1) assms(2)] owner_tag [OF d(2) assms(2)] this assms(4)]
  show t: "ufd_tag u = ufd_tag (us ! i)" using R(2) by simp
  show "fd < 0 \<Longrightarrow> holds u = {}" using R(2) by (simp add: holds_def Valid_def)
  have "ufd_tag ` set (us[i := u]) = ufd_tag ` set us" using tags_update [OF assms(2) t] by (metis list.set_map)
  then show "owners_inv p' (us[i := u])"
    using R(1) d t tags_update [OF assms(2) t] by (auto simp: owners_inv_def all_held_update [OF assms(2)])
qed

lemma move_owners:
  assumes "owners_inv p us" "i < length us" "tag \<noteq> 0" "move_UniqueFd tag (us ! i) p = (u, other, p')"
  shows "\<exists>P. fd_inv p' (holds u \<union> all_held (us[i := other])) P" "ufd_tag other = ufd_tag (us ! i)" "ufd_tag u = tag" "holds other = {}"
proof -
  obtain P where I: "fd_inv p (holds (us ! i) \<union> all_held (without i us)) P"
    using assms(1,2) by (auto simp: owners_inv_def all_held_split)
  have d: "distinct (map ufd_tag us)" using assms(1) by (auto simp: owners_inv_def)
  note R = move_UniqueFd_inv [OF I tags_without(3) [OF d(1) assms(2)] assms(3,4)]
  show "ufd_tag other = ufd_tag (us ! i)" "ufd_tag u = tag" "holds other = {}" using R(2,3) by simp_all
  then show "\<exists>P. fd_inv p' (holds u \<union> all_held (us[i := other])) P" using R(1) by (auto simp: all_held_update [OF assms(2)])
qed

lemma assign_owners:
  assumes "owners_inv p us" "i < length us" "j < length us" "assign_UniqueFd (us ! i) (us ! j) p = (u, other, p')"
  shows "owners_inv p' (us[i := u, j := other])"
proof (cases "ufd_tag (us ! i) = ufd_tag (us ! j)")
  case True
  then have "i = j" using assms(1-3) by (auto simp: owners_inv_def distinct_conv_nth)
  then show ?thesis using assms True by (auto simp: assign_UniqueFd_def)
next
  case False
  then have ij: "i \<noteq> j" by auto
  obtain u1 p1 where R: "UniqueFd_Reset (-1) (us ! i) p = (u1, p1)" by fastforce
  let ?us = "us[i := u1]"
  note R1 = Reset_owners [OF assms(1,2) _ R]
  have i: "owners_inv p1 ?us" "ufd_tag u1 = ufd_tag (us ! i)" "holds u1 = {}" using R1 by simp_all
  have "move_UniqueFd (ufd_tag u1) (?us ! j) p1 = (u, other, p')"
    using assms(4) False R ij by (simp add: assign_UniqueFd_def)
  moreover have "ufd_tag u1 \<noteq> 0" using i(2) owner_tag [OF _ assms(2)] assms(1) by (simp add: owners_inv_def)
  ultimately obtain P where m: "fd_inv p' (holds u \<union> all_held (?us[j := other])) P" "ufd_tag other = ufd_tag (?us ! j)" "ufd_tag u = ufd_tag u1"
    using move_owners [OF i(1)] assms(3) by (metis length_list_update)
  let ?vs = "?us[j := other]"
  have v: "?vs ! i = u1" using ij assms(2) by simp
  have "all_held ?vs = all_held (without i ?vs)" using all_held_split [of i ?vs] assms(2) v i(3) by simp
  then have e: "fd_inv p' (all_held (?vs[i := u])) P" using m(1) all_held_update [of i ?vs u] assms(2) by simp
  have "map ufd_tag (?vs[i := u]) = map ufd_tag us"
    using ij i(2) m(2,3) assms(2,3) by (simp add: map_update list_update_same_conv) (metis list_update_id nth_map map_update)
  then have "owners_inv p' (?vs[i := u])"
    using e assms(1) unfolding owners_inv_def by (metis list.set_map)
  moreover have "?vs[i := u] = us[i := u, j := other]" using ij by (simp add: list_update_swap)
  ultimately show ?thesis by simp
qed

lemma fd_step_inv: "fd_step s s' \<Longrightarrow> owners_inv (fst s) (snd s) \<Longrightarrow> owners_inv (fst s') (snd s')"
proof (induction rule: fd_step.induct)
  case (opened fd p us f)
  then show ?case using fd_inv_open [of p _ _ fd f] by (auto simp: owners_inv_def)
next
  case (created tag us fd p u p')
  then obtain P where I: "fd_inv p (holds (no_fd tag) \<union> all_held us) P" "distinct (map ufd_tag us)" "0 \<notin> ufd_tag ` set us"
    by (auto simp: owners_inv_def)
  have "fd \<ge> 0 \<Longrightarrow> fd \<in> P" using created(3) fd_inv_plain [OF I(1)] by auto
  moreover have "UniqueFd_Reset fd (no_fd tag) p = (u, p')" using created(4) by (simp add: new_UniqueFd_def)
  ultimately show ?case using Reset_inv [OF I(1), of fd u p'] I(2,3) created(1,2)
    by (cases "fd \<ge> 0") (auto simp: owners_inv_def holds_def Valid_def no_fd_def)
next
  case (reset i us fd p u p')
  then show ?case using Reset_owners by simp
next
  case (moved i us tag p u other p')
  then have m: "owners_inv p us" "map ufd_tag (us[i := other]) = map ufd_tag us" "\<exists>P. fd_inv p' (holds u \<union> all_held (us[i := other])) P" "ufd_tag u = tag"
    using move_owners [of p us i tag u other p'] tags_update [of i us other] by auto
  moreover have "ufd_tag ` set (us[i := other]) = ufd_tag ` set us" using m(2) by (metis list.set_map)
  ultimately show ?case using moved by (auto simp: owners_inv_def)
next
  case (assigned i us j p u other p')
  then show ?case using assign_owners by simp
next
  case (destroyed i us p)
  then obtain P where I: "fd_inv p (holds (us ! i) \<union> all_held (without i us)) P" "distinct (map ufd_tag us)" "0 \<notin> ufd_tag ` set us"
    by (auto simp: owners_inv_def all_held_split)
  then have "fd_inv (destroy_UniqueFd (us ! i) p) (all_held (without i us)) P"
    using tags_without(3) owner_tag destroyed(1) by (intro destroy_UniqueFd_inv)
  moreover have "0 \<notin> ufd_tag ` set (without i us)" using I(3) set_without [OF destroyed(1)] by auto
  ultimately show ?case using tags_without(1) [OF I(2) destroyed(1)] by (auto simp: owners_inv_def without_def)
qed

lemma fd_reachable_inv: "fd_reachable p us \<Longrightarrow> owners_inv p us"
proof -
  have "owners_inv (fst s) (snd s)" if "fd_step\<^sup>*\<^sup>* (new_Process, []) s" for s
    using that
  proof (induction rule: rtranclp_induct)
    case base
    have "fd_inv new_Process {} {0, 1, 2}" by (auto simp: fd_inv_def new_Process_def)
    then show ?case by (auto simp: owners_inv_def)
  qed (rule fd_step_inv)
  then show "fd_reachable p us \<Longrightarrow> owners_inv p us" by (force simp: fd_reachable_def)
qed

text \<open>
  C39: after any sequence of operations on owners of file descriptors, nothing has been reported: no descriptor was closed or taken over by anyone but its
  owner. An object that holds a descriptor holds an open one, which carries its tag; every open descriptor that has a
  tag is held by exactly one live object; and destroying an object closes what it holds and nothing else.
\<close>

theorem fd_owners:
  assumes "fd_reachable p us"
  shows "fdsan_errors p = 0 \<and> distinct (keys_of (fd_table p))
     \<and> (\<forall>u\<in>set us. Valid u \<longrightarrow> find_key (fd_table p) (ufd_fd u) = Some (ufd_tag u))
     \<and> (\<forall>fd tag. find_key (fd_table p) fd = Some tag \<longrightarrow> tag \<noteq> 0 \<longrightarrow> (\<exists>!u. u \<in> set us \<and> Valid u \<and> ufd_fd u = fd))
     \<and> (\<forall>u\<in>set us. set (fd_table (destroy_UniqueFd u p)) = set (fd_table p) - holds u \<and> fdsan_errors (destroy_UniqueFd u p) = 0)"
proof -
  obtain P where I: "fd_inv p (all_held us) P" and d: "distinct (map ufd_tag us)" and z: "0 \<notin> ufd_tag ` set us"
    using fd_reachable_inv [OF assms] by (auto simp: owners_inv_def)
  have held: "find_key (fd_table p) (ufd_fd u) = Some (ufd_tag u)" if "u \<in> set us" "Valid u" for u
    using that fd_inv_find [OF I] by (auto simp: all_held_def holds_def)
  have one: "\<exists>!u. u \<in> set us \<and> Valid u \<and> ufd_fd u = fd" if f: "find_key (fd_table p) fd = Some tag" "tag \<noteq> 0" for fd tag
  proof -
    have "(fd, tag) \<in> all_held us" using f fd_inv_find [OF I] by auto
    then obtain u where u: "u \<in> set us" "Valid u" "ufd_fd u = fd" "ufd_tag u = tag"
      by (auto simp: all_held_def holds_def split: if_splits)
    have "v = u" if "v \<in> set us" "Valid v" "ufd_fd v = fd" for v
    proof -
      have "ufd_tag v = ufd_tag u" using held [OF that(1,2)] held [OF u(1,2)] that(3) u(3) by simp
      then show "v = u" using d u(1) that(1) by (metis (mono_tags, lifting) distinct_map inj_onD)
    qed
    then show ?thesis using u by blast
  qed
  have "set (fd_table (destroy_UniqueFd u p)) = set (fd_table p) - holds u \<and> fdsan_errors (destroy_UniqueFd u p) = 0" if u: "u \<in> set us" for u
  proof -
    obtain i where i: "i < length us" "us ! i = u" using u unfolding in_set_conv_nth by blast
    have J: "fd_inv p (holds u \<union> all_held (without i us)) P" using I unfolding all_held_split [OF i(1)] i(2) .
    have e: "holds u \<inter> all_held (without i us) = {}" using tags_without(3) [OF d i(1)] unfolding i(2) .
    have t: "ufd_tag u \<noteq> 0" using owner_tag [OF z i(1)] unfolding i(2) .
    have "fd_inv (destroy_UniqueFd u p) (all_held (without i us)) P"
      by (rule destroy_UniqueFd_inv [OF J e t])
    moreover have "holds u \<inter> (\<lambda>fd. (fd, 0)) ` P = {}" using t by (auto simp: holds_def)
    ultimately show ?thesis using J e by (auto simp: fd_inv_def)
  qed
  then show ?thesis using I held one by (simp add: fd_inv_def)
qed

text \<open>A descriptor that is opened, given to an object and moved to another one.\<close>

theorem fd_owners_witness:
  "\<exists>p u v. fd_reachable p [v, u] \<and> Valid v \<and> \<not> Valid u \<and> fdsan_errors p = 0 \<and> find_key (fd_table p) 3 = Some 20"
proof -
  define p1 where "p1 = sys_open 3 7 new_Process"
  obtain u p2 where u: "new_UniqueFd 10 3 p1 = (u, p2)" by fastforce
  obtain v w p3 where v: "move_UniqueFd 20 u p2 = (v, w, p3)" by (metis prod_cases3)
  have s: "u = \<lparr>ufd_tag = 10, ufd_fd = 3\<rparr>" "v = \<lparr>ufd_tag = 20, ufd_fd = 3\<rparr>" "w = \<lparr>ufd_tag = 10, ufd_fd = -1\<rparr>"
    using u v by (auto simp: new_UniqueFd_def UniqueFd_Reset_def no_fd_def move_UniqueFd_def Let_def)
  have "fd_step (new_Process, []) (p1, [])" unfolding p1_def by (rule fd_step.opened) (simp add: new_Process_def)
  moreover have "fd_step (p1, []) (p2, [u])" by (rule fd_step.created [OF _ _ _ u]) (simp_all add: p1_def sys_open_def)
  moreover have "fd_step (p2, [u]) (p3, [v, w])"
    using fd_step.moved [of 0 "[u]" 20 p2 v w p3] v s(1) by simp
  ultimately have r: "fd_reachable p3 [v, w]"
    unfolding fd_reachable_def by (meson rtranclp.rtrancl_refl rtranclp.rtrancl_into_rtrancl)
  have "Valid v" "\<not> Valid w" "ufd_fd v = 3" "ufd_tag v = 20" by (simp_all add: s Valid_def)
  then show ?thesis using r fd_owners [OF r] by (metis list.set_intros(1))
qed

end
