(* ===== verification/Shared_Memory.thy ===== *)
theory Shared_Memory
  imports Unique_Fd Ring_Queue Device_Connection
begin

text \<open>
  The objects of \<^verbatim>\<open>services/common/src/midi_shared_ring.cpp\<close> that own descriptors and mappings: the shared memory, and the ring
  with its memory and its notification descriptor. \<open>Shared_Ring\<close> describes what is in a ring; here the same functions are followed through the
  table of descriptors, and a refinement relates the two.

  What the operating system answers during one call is a record, as every answer is used once. \<open>r_dup\<close> and \<open>r_create\<close> are the
  results of duplicating the descriptor of the memory and of creating a new one, which leads to \<open>r_newfile\<close>; \<open>r_contents\<close> is what lies
  in a file of a given size, or \<open>None\<close> when it cannot be mapped; \<open>r_seek\<close> is the size that \<open>lseek\<close> finds. The files behind the
  descriptors in a parcel are \<open>r_dataFile\<close> and \<open>r_eventFile\<close>. Reading a descriptor from a parcel opens it.
\<close>

section \<open>Shared memory\<close>

record MemoryCalls =
  r_dup :: int
  r_create :: int
  r_newfile :: nat
  r_contents :: "nat \<Rightarrow> nat \<Rightarrow> (nat \<Rightarrow> u32) option"
  r_seek :: int
  r_dataFile :: nat
  r_eventFile :: nat
  r_alloc :: bool

record MidiSharedMemory =
  sm_base :: "(nat \<Rightarrow> u32) option"
  sm_fd :: UniqueFd
  sm_size :: nat
  sm_name :: string

definition new_SharedMemory :: "nat \<Rightarrow> nat \<Rightarrow> string \<Rightarrow> MidiSharedMemory" where
  "new_SharedMemory tag sz name = \<lparr>sm_base = None, sm_fd = no_fd tag, sm_size = sz, sm_name = name\<rparr>"

definition SharedMemory_of_fd :: "MemoryCalls \<Rightarrow> nat \<Rightarrow> int \<Rightarrow> nat \<Rightarrow> string \<Rightarrow> Process \<Rightarrow> MidiSharedMemory \<times> Process" where
  "SharedMemory_of_fd os tag fd sz name p =
     (let m = new_SharedMemory tag sz name; dupFd = r_dup os; p = sys_open dupFd (fd_file p fd) p
      in if dupFd \<ge> 0 then (case UniqueFd_Reset dupFd (sm_fd m) p of (u, p) \<Rightarrow> (m\<lparr>sm_fd := u\<rparr>, p)) else (m, p))"

definition SharedMemory_Init :: "MemoryCalls \<Rightarrow> MidiSharedMemory \<Rightarrow> Process \<Rightarrow> int \<times> MidiSharedMemory \<times> Process" where
  "SharedMemory_Init os m p =
     (if \<not> (sm_size m > 0 \<and> sm_size m < unat MAX_MMAP_BUFFER_SIZE) then (OH_MIDI_STATUS_GENERIC_INVALID_ARGUMENT, m, p)
      else
        let newFd = r_create os;
            (m, p) = (if Valid (sm_fd m) \<or> newFd < 0 then (m, p)
                      else (case UniqueFd_Reset newFd (sm_fd m) (sys_open newFd (r_newfile os) p) of (u, p) \<Rightarrow> (m\<lparr>sm_fd := u\<rparr>, p)))
        in if \<not> Valid (sm_fd m) then (OH_MIDI_STATUS_SYSTEM_ERROR, m, p)
           else (case r_contents os (fd_file p (ufd_fd (sm_fd m))) (sm_size m) of
                   None \<Rightarrow> (OH_MIDI_STATUS_SYSTEM_ERROR, m, p)
                 | Some base \<Rightarrow> (OH_MIDI_STATUS_OK, m\<lparr>sm_base := Some base\<rparr>, p\<lparr>mappings := mappings p + 1\<rparr>)))"

definition SharedMemory_Close :: "MidiSharedMemory \<Rightarrow> Process \<Rightarrow> MidiSharedMemory \<times> Process" where
  "SharedMemory_Close m p =
     (let (m, p) = (if sm_base m \<noteq> None then (m\<lparr>sm_base := None, sm_size := 0\<rparr>, p\<lparr>mappings := mappings p - 1\<rparr>) else (m, p))
      in if Valid (sm_fd m) then (case UniqueFd_Reset (-1) (sm_fd m) p of (u, p) \<Rightarrow> (m\<lparr>sm_fd := u\<rparr>, p)) else (m, p))"

definition destroy_SharedMemory :: "MidiSharedMemory \<Rightarrow> Process \<Rightarrow> Process" where
  "destroy_SharedMemory m p = (case SharedMemory_Close m p of (m, p) \<Rightarrow> destroy_UniqueFd (sm_fd m) p)"

definition SharedMemory_CreateFromLocal :: "MemoryCalls \<Rightarrow> nat \<Rightarrow> nat \<Rightarrow> string \<Rightarrow> Process \<Rightarrow> MidiSharedMemory option \<times> Process" where
  "SharedMemory_CreateFromLocal os tag sz name p =
     (case SharedMemory_Init os (new_SharedMemory tag sz name) p of (rc, m, p) \<Rightarrow>
        if rc \<noteq> OH_MIDI_STATUS_OK then (None, destroy_SharedMemory m p) else (Some m, p))"

definition SharedMemory_CreateFromRemote ::
  "MemoryCalls \<Rightarrow> nat \<Rightarrow> int \<Rightarrow> nat \<Rightarrow> string \<Rightarrow> Process \<Rightarrow> MidiSharedMemory option \<times> Process" where
  "SharedMemory_CreateFromRemote os tag fd sz name p =
     (if \<not> fd > MINFD then (None, p)
      else (case SharedMemory_of_fd os tag fd sz name p of (m, p) \<Rightarrow>
             case SharedMemory_Init os m p of (rc, m, p) \<Rightarrow>
               if rc \<noteq> OH_MIDI_STATUS_OK then (None, destroy_SharedMemory m p) else (Some m, p)))"

text \<open>What a memory writes into a parcel, and the values in the order in which they are read.\<close>

record MemoryParcel =
  mp_fd :: int
  mp_size :: u64
  mp_name :: string

definition SharedMemory_Marshalling :: "MidiSharedMemory \<Rightarrow> MemoryParcel option" where
  "SharedMemory_Marshalling m =
     (if \<not> (sm_size m > 0 \<and> sm_size m < unat MAX_MMAP_BUFFER_SIZE) then None
      else Some \<lparr>mp_fd = ufd_fd (sm_fd m), mp_size = word_of_nat (sm_size m), mp_name = sm_name m\<rparr>)"

text \<open>A \<open>ScopedFd\<close>, at the tag \<open>ts\<close>, is destroyed on every way out.\<close>

definition ScopedFd :: "nat \<Rightarrow> int \<Rightarrow> Process \<Rightarrow> UniqueFd \<times> Process" where
  "ScopedFd ts fd p = (if fd > MINFD then UniqueFd_Reset fd (no_fd ts) p else (no_fd ts, p))"

definition SharedMemory_Unmarshalling ::
  "MemoryCalls \<Rightarrow> nat \<Rightarrow> nat \<Rightarrow> MemoryParcel \<Rightarrow> Process \<Rightarrow> MidiSharedMemory option \<times> Process" where
  "SharedMemory_Unmarshalling os ts tag parcel p =
     (let fd = mp_fd parcel; p = sys_open fd (r_dataFile os) p
      in if \<not> fd > MINFD then (None, p)
         else (case ScopedFd ts fd p of (scoped, p) \<Rightarrow>
           if \<not> (mp_size parcel > 0 \<and> mp_size parcel < ucast MAX_MMAP_BUFFER_SIZE) then (None, destroy_UniqueFd scoped p)
           else if \<not> r_seek os = int (unat (mp_size parcel)) then (None, destroy_UniqueFd scoped p)
           else if \<not> r_alloc os then (None, destroy_UniqueFd scoped p)
           else (case SharedMemory_of_fd os tag fd (unat (mp_size parcel)) (mp_name parcel) p of (m, p) \<Rightarrow>
                  case SharedMemory_Init os m p of (rc, m, p) \<Rightarrow>
                    if rc \<noteq> OH_MIDI_STATUS_OK \<or> sm_base m = None
                    then (None, destroy_UniqueFd scoped (destroy_SharedMemory m p))
                    else (Some m, destroy_UniqueFd scoped p))))"

section \<open>The ring\<close>

record RingObject =
  ro_ring :: MidiSharedRing
  ro_memory :: MidiSharedMemory
  ro_notify :: "UniqueFd option"

definition destroy_notify :: "UniqueFd option \<Rightarrow> Process \<Rightarrow> Process" where
  "destroy_notify notify p = (case notify of None \<Rightarrow> p | Some u \<Rightarrow> destroy_UniqueFd u p)"

text \<open>The caller keeps the notification descriptor when there is no result.\<close>

definition Ring_Init :: "MemoryCalls \<Rightarrow> nat \<Rightarrow> int \<Rightarrow> u32 \<Rightarrow> UniqueFd option \<Rightarrow> Process \<Rightarrow> int \<times> RingObject option \<times> Process" where
  "Ring_Init os tag dataFd cap notify p =
     (if \<not> (cap \<le> MAX_MMAP_BUFFER_SIZE - SIZEOF_CONTROL) then (OH_MIDI_STATUS_GENERIC_INVALID_ARGUMENT, None, p)
      else if \<not> (totalMemorySize cap \<le> MAX_MMAP_BUFFER_SIZE) then (OH_MIDI_STATUS_GENERIC_INVALID_ARGUMENT, None, p)
      else
        (case (if dataFd = OH_INVALID_FD then SharedMemory_CreateFromLocal os tag (unat (totalMemorySize cap)) ''midi_shared_buffer'' p
               else SharedMemory_CreateFromRemote os tag dataFd (unat (totalMemorySize cap)) ''midi_shared_buffer'' p) of
           (None, p) \<Rightarrow> (OH_MIDI_STATUS_SYSTEM_ERROR, None, p)
         | (Some m, p) \<Rightarrow>
             (OH_MIDI_STATUS_OK,
              Some \<lparr>ro_ring = \<lparr>capacity = cap, readPosition = 0, writePosition = 0, futexObj = the (sm_base m) 12, flushFlag = 0,
                                ring_mem = (\<lambda>off. the (sm_base m) (off + 64)), notifyFd = map_option (\<lambda>_. 0) notify\<rparr>,
                    ro_memory = m, ro_notify = notify\<rparr>, p)))"

definition destroy_Ring :: "RingObject \<Rightarrow> Process \<Rightarrow> Process" where
  "destroy_Ring ro p = destroy_SharedMemory (ro_memory ro) (destroy_notify (ro_notify ro) p)"

text \<open>\<open>tg\<close>, \<open>tn\<close> and \<open>tm\<close> are the tags of the guard, of the notification descriptor and of the memory's descriptor.\<close>

definition ReadNotifyFd :: "MemoryCalls \<Rightarrow> nat \<Rightarrow> RingParcel \<Rightarrow> Process \<Rightarrow> UniqueFd option option \<times> Process" where
  "ReadNotifyFd os tn parcel p =
     (if \<not> p_hasNotifyFd parcel then (Some None, p)
      else
        let eventFd = p_eventFd parcel; p = sys_open eventFd (r_eventFile os) p
        in if eventFd \<le> MINFD then (None, p)
           else (case new_UniqueFd tn eventFd p of (u, p) \<Rightarrow> (Some (Some u), p)))"

definition Ring_Unmarshalling :: "MemoryCalls \<Rightarrow> nat \<Rightarrow> nat \<Rightarrow> nat \<Rightarrow> RingParcel \<Rightarrow> Process \<Rightarrow> RingObject option \<times> Process" where
  "Ring_Unmarshalling os tg tn tm parcel p =
     (let ringSize = p_ringSize parcel; dataFd = p_dataFd parcel
      in if \<not> (ringSize > 0 \<and> ringSize \<le> MAX_MMAP_BUFFER_SIZE - SIZEOF_CONTROL) then (None, p)
         else
           let p = sys_open dataFd (r_dataFile os) p
           in if \<not> dataFd > MINFD then (None, p)
              else (case new_UniqueFd tg dataFd p of (guard, p) \<Rightarrow>
                case ReadNotifyFd os tn parcel p of
                  (None, p) \<Rightarrow> (None, destroy_UniqueFd guard p)
                | (Some notify, p) \<Rightarrow>
                    if \<not> r_alloc os then (None, destroy_UniqueFd guard (destroy_notify notify p))
                    else (case Ring_Init os tm (ufd_fd guard) ringSize notify p of
                            (rc, None, p) \<Rightarrow> (None, destroy_UniqueFd guard (destroy_notify notify p))
                          | (rc, Some ro, p) \<Rightarrow> (Some ro, destroy_UniqueFd guard p))))"

section \<open>The ring of a connection\<close>

text \<open>\<open>ClientConnectionInServer::CreateRingBuffer\<close>; the ring's data area is cleared.\<close>

definition Connection_CreateRingBuffer :: "MemoryCalls \<Rightarrow> nat \<Rightarrow> nat \<Rightarrow> int \<Rightarrow> Process \<Rightarrow> int \<times> RingObject option \<times> Process" where
  "Connection_CreateRingBuffer os tn tm fd p =
     (let (notify, p) = (if fd \<ge> 0 then (case new_UniqueFd tn fd p of (u, p) \<Rightarrow> (Some u, p)) else (None, p))
      in case Ring_Init os tm OH_INVALID_FD DEFAULT_RING_BUFFER_SIZE notify p of
           (rc, None, p) \<Rightarrow> (OH_MIDI_STATUS_SYSTEM_ERROR, None, destroy_notify notify p)
         | (rc, Some ro, p) \<Rightarrow>
             (OH_MIDI_STATUS_OK,
              Some (ro\<lparr>ro_ring := (ro_ring ro)\<lparr>ring_mem := (\<lambda>off. if off < unat (capacity (ro_ring ro)) then 0 else ring_mem (ro_ring ro) off)\<rparr>\<rparr>), p))"

text \<open>Adding a client to an output port: \<open>fd\<close> is the result of duplicating the notification descriptor of the port.\<close>

definition Output_AddRing :: "MemoryCalls \<Rightarrow> nat \<Rightarrow> nat \<Rightarrow> int \<Rightarrow> Process \<Rightarrow> int \<times> RingObject option \<times> Process" where
  "Output_AddRing os tn tm fd p =
     (let p = sys_open fd (r_eventFile os) p
      in if \<not> fd \<ge> 0 then (OH_MIDI_STATUS_SYSTEM_ERROR, None, p)
         else (case Connection_CreateRingBuffer os tn tm fd p of (rc, ro, p) \<Rightarrow>
                if rc \<noteq> OH_MIDI_STATUS_OK then (OH_MIDI_STATUS_SYSTEM_ERROR, None, p) else (OH_MIDI_STATUS_OK, ro, p)))"


section \<open>What memory does to the table\<close>

definition fresh :: "Process \<Rightarrow> int \<Rightarrow> bool" where
  "fresh p fd \<longleftrightarrow> (fd \<ge> 0 \<longrightarrow> fd \<notin> set (keys_of (fd_table p)))"

lemma fd_inv_keys: "fd_inv p H P \<Longrightarrow> set (keys_of (fd_table p)) = fst ` H \<union> P"
  by (simp add: fd_inv_def image_Un image_image)

lemma plain_not_held:
  assumes "fd_inv p H P" "fd \<in> P"
  shows "(fd, tag) \<notin> H"
proof
  assume h: "(fd, tag) \<in> H"
  then have "find_key (fd_table p) fd = Some tag" "find_key (fd_table p) fd = Some 0"
    using fd_inv_find [OF assms(1)] assms(2) by auto
  moreover have "tag \<noteq> 0" using h assms(1) by (auto simp: fd_inv_def)
  ultimately show False by simp
qed

lemma fresh_not_held:
  assumes "fd_inv p H P" "fresh p fd" "fd \<ge> 0"
  shows "(fd, tag) \<notin> H \<and> fd \<notin> P"
proof -
  have "fd \<notin> fst ` H \<union> P" using assms(2,3) fd_inv_keys [OF assms(1)] unfolding fresh_def by blast
  then show ?thesis by force
qed

lemma own_opened:
  assumes "fd_inv p H P" "fresh p fd" "fd \<ge> 0" "tag \<noteq> 0"
  shows "\<exists>p'. UniqueFd_Reset fd (no_fd tag) (sys_open fd f p) = (\<lparr>ufd_tag = tag, ufd_fd = fd\<rparr>, p') \<and> fd_inv p' (insert (fd, tag) H) P
     \<and> fd_file p' = (fd_file p)(fd := f) \<and> mappings p' = mappings p"
proof -
  let ?p = "sys_open fd f p"
  have n: "fd \<notin> P" using fresh_not_held [OF assms(1-3)] by blast
  have "fd_inv ?p H (insert fd P)" using fd_inv_open [OF assms(1), of fd f] assms(2,3) by (simp add: fresh_def)
  from new_UniqueFd_inv [OF this assms(4,3)] obtain p'
    where "new_UniqueFd tag fd ?p = (\<lparr>ufd_tag = tag, ufd_fd = fd\<rparr>, p')" "fd_inv p' (insert (fd, tag) H) (insert fd P - {fd})" "same_world ?p p'"
    by auto
  then show ?thesis using n assms(3) by (auto simp: new_UniqueFd_def same_world_def sys_open_def)
qed

text \<open>A memory whose descriptor is one of those that are accounted for.\<close>

definition memory_inv :: "Process \<Rightarrow> MidiSharedMemory \<Rightarrow> (int \<times> nat) set \<Rightarrow> int set \<Rightarrow> bool" where
  "memory_inv p m H P \<longleftrightarrow> fd_inv p (holds (sm_fd m) \<union> H) P \<and> holds (sm_fd m) \<inter> H = {} \<and> ufd_tag (sm_fd m) \<noteq> 0"

lemma new_SharedMemory_inv: "fd_inv p H P \<Longrightarrow> tag \<noteq> 0 \<Longrightarrow> memory_inv p (new_SharedMemory tag sz name) H P"
  by (simp add: memory_inv_def new_SharedMemory_def)

lemma SharedMemory_of_fd_inv:
  assumes "fd_inv p H P" "tag \<noteq> 0" "fresh p (r_dup os)" "SharedMemory_of_fd os tag fd sz name p = (m, p')"
  shows "memory_inv p' m H P \<and> sm_base m = None \<and> sm_size m = sz \<and> mappings p' = mappings p
     \<and> (if r_dup os \<ge> 0 then Valid (sm_fd m) \<and> fd_file p' (ufd_fd (sm_fd m)) = fd_file p fd else \<not> Valid (sm_fd m) \<and> p' = p)"
proof (cases "r_dup os \<ge> 0")
  case True
  then show ?thesis using own_opened [OF assms(1,3) True assms(2), of "fd_file p fd"] assms(4) fresh_not_held [OF assms(1,3) True, of tag] assms(2)
    by (auto simp: SharedMemory_of_fd_def new_SharedMemory_def memory_inv_def holds_def Valid_def Let_def)
next
  case False
  then show ?thesis using assms new_SharedMemory_inv [OF assms(1,2)]
    by (auto simp: SharedMemory_of_fd_def sys_open_def Let_def new_SharedMemory_def no_fd_def Valid_def)
qed

lemma fd_inv_mappings [simp]: "fd_inv (p\<lparr>mappings := n\<rparr>) H P = fd_inv p H P"
  by (simp add: fd_inv_def)

text \<open>The file that a memory maps: that of its descriptor, or the one it creates when it has none.\<close>

definition maps_file :: "MemoryCalls \<Rightarrow> MidiSharedMemory \<Rightarrow> Process \<Rightarrow> nat option" where
  "maps_file os m p = (if Valid (sm_fd m) then Some (fd_file p (ufd_fd (sm_fd m))) else if r_create os \<ge> 0 then Some (r_newfile os) else None)"

definition mapped :: "MemoryCalls \<Rightarrow> nat \<Rightarrow> nat option \<Rightarrow> (nat \<Rightarrow> u32) option" where
  "mapped os sz f = (if 0 < sz \<and> sz < unat MAX_MMAP_BUFFER_SIZE then Option.bind f (\<lambda>f. r_contents os f sz) else None)"

lemma SharedMemory_Init_inv:
  assumes "memory_inv p m H P" "sm_base m = None" "\<not> Valid (sm_fd m) \<Longrightarrow> fresh p (r_create os) \<and> sm_fd m = no_fd tag"
    "SharedMemory_Init os m p = (rc, m', p')"
  shows "memory_inv p' m' H P \<and> mappings p' = mappings p + (if sm_base m' = None then 0 else 1)
     \<and> (rc = OH_MIDI_STATUS_OK \<longleftrightarrow> sm_base m' \<noteq> None) \<and> (sm_base m' \<noteq> None \<longrightarrow> Valid (sm_fd m'))
     \<and> sm_base m' = mapped os (sm_size m) (maps_file os m p)"
proof (cases "0 < sm_size m \<and> sm_size m < unat MAX_MMAP_BUFFER_SIZE \<and> (Valid (sm_fd m) \<or> r_create os \<ge> 0)")
  case False
  then have "rc \<noteq> OH_MIDI_STATUS_OK" "m' = m" "p' = p"
    using assms(4) by (auto simp: SharedMemory_Init_def status_defs Let_def split: if_splits)
  moreover have "mapped os (sm_size m) (maps_file os m p) = None" using False by (auto simp: mapped_def maps_file_def)
  ultimately show ?thesis using assms(1,2) by simp
next
  case True
  have "\<exists>m1 p1 f. memory_inv p1 m1 H P \<and> Valid (sm_fd m1) \<and> mappings p1 = mappings p \<and> sm_size m1 = sm_size m \<and> sm_base m1 = None
      \<and> maps_file os m p = Some f \<and> fd_file p1 (ufd_fd (sm_fd m1)) = f
      \<and> (if Valid (sm_fd m) \<or> r_create os < 0 then (m, p)
         else (case UniqueFd_Reset (r_create os) (sm_fd m) (sys_open (r_create os) (r_newfile os) p) of (u, p) \<Rightarrow> (m\<lparr>sm_fd := u\<rparr>, p))) = (m1, p1)"
  proof (cases "Valid (sm_fd m)")
    case False
    then have c: "r_create os \<ge> 0" "sm_fd m = no_fd tag" "fresh p (r_create os)" using True assms(3) by auto
    have f: "fd_inv p H P" "tag \<noteq> 0" using assms(1) c(2) by (simp_all add: memory_inv_def)
    obtain p1 where r: "UniqueFd_Reset (r_create os) (no_fd tag) (sys_open (r_create os) (r_newfile os) p) = (\<lparr>ufd_tag = tag, ufd_fd = r_create os\<rparr>, p1)"
        "fd_inv p1 (insert (r_create os, tag) H) P" "fd_file p1 = (fd_file p)(r_create os := r_newfile os)" "mappings p1 = mappings p"
      using own_opened [OF f(1) c(3,1) f(2)] by blast
    show ?thesis using r False c f(2) assms(2) fresh_not_held [OF f(1) c(3,1), of tag]
      by (intro exI [of _ "m\<lparr>sm_fd := \<lparr>ufd_tag = tag, ufd_fd = r_create os\<rparr>\<rparr>"] exI [of _ p1] exI [of _ "r_newfile os"])
        (simp add: memory_inv_def holds_def Valid_def maps_file_def)
  qed (use assms(1,2) in \<open>simp add: maps_file_def\<close>)
  then obtain m1 p1 f where 1: "memory_inv p1 m1 H P" "Valid (sm_fd m1)" "mappings p1 = mappings p" "sm_size m1 = sm_size m" "sm_base m1 = None"
      "maps_file os m p = Some f" "fd_file p1 (ufd_fd (sm_fd m1)) = f"
      "(if Valid (sm_fd m) \<or> r_create os < 0 then (m, p)
         else (case UniqueFd_Reset (r_create os) (sm_fd m) (sys_open (r_create os) (r_newfile os) p) of (u, p) \<Rightarrow> (m\<lparr>sm_fd := u\<rparr>, p))) = (m1, p1)" by blast
  have "SharedMemory_Init os m p = (case r_contents os f (sm_size m) of None \<Rightarrow> (OH_MIDI_STATUS_SYSTEM_ERROR, m1, p1)
      | Some base \<Rightarrow> (OH_MIDI_STATUS_OK, m1\<lparr>sm_base := Some base\<rparr>, p1\<lparr>mappings := mappings p1 + 1\<rparr>))"
    unfolding SharedMemory_Init_def Let_def 1(8) using True 1(2,4,7) by simp
  then show ?thesis using assms(4) 1(1-3,5,6) True
    by (auto simp: memory_inv_def mapped_def status_defs split: option.splits)
qed

lemma destroy_SharedMemory_inv:
  assumes "memory_inv p m H P"
  shows "fd_inv (destroy_SharedMemory m p) H P \<and> mappings (destroy_SharedMemory m p) = (if sm_base m = None then mappings p else mappings p - 1)
     \<and> fd_file (destroy_SharedMemory m p) = fd_file p"
proof -
  define p1 where "p1 = (if sm_base m = None then p else p\<lparr>mappings := mappings p - 1\<rparr>)"
  have i: "fd_inv p1 (holds (sm_fd m) \<union> H) P" using assms by (auto simp: memory_inv_def p1_def fd_inv_def)
  have d: "holds (sm_fd m) \<inter> H = {}" "ufd_tag (sm_fd m) \<noteq> 0" using assms by (auto simp: memory_inv_def)
  note D = destroy_UniqueFd_inv [OF i d]
  obtain u2 p2 where r: "UniqueFd_Reset (-1) (sm_fd m) p1 = (u2, p2)" by fastforce
  have "\<not> ufd_fd u2 \<ge> 0" using r by (auto simp: UniqueFd_Reset_def split: if_splits)
  then have r2: "UniqueFd_Reset (-1) u2 p2 = (u2, p2)" by (simp add: UniqueFd_Reset_def)
  have "destroy_SharedMemory m p = destroy_UniqueFd (sm_fd m) p1"
    using r r2 by (cases "sm_base m = None"; cases "Valid (sm_fd m)")
      (auto simp: destroy_SharedMemory_def SharedMemory_Close_def p1_def destroy_UniqueFd_def)
  then show ?thesis using D by (simp add: same_world_def p1_def)
qed


text \<open>What a function that makes a memory leaves: either everything is as before, or there is one more descriptor and one more mapping, both the memory's.\<close>

definition made :: "Process \<Rightarrow> (int \<times> nat) set \<Rightarrow> int set \<Rightarrow> MidiSharedMemory option \<times> Process \<Rightarrow> bool" where
  "made p H P r \<longleftrightarrow>
     (case r of (None, p') \<Rightarrow> fd_inv p' H P \<and> mappings p' = mappings p
      | (Some m, p') \<Rightarrow> memory_inv p' m H P \<and> Valid (sm_fd m) \<and> sm_base m \<noteq> None \<and> mappings p' = mappings p + 1)"

lemma finish_made:
  assumes "memory_inv p1 m H P" "sm_base m = None" "mappings p1 = mappings p" "\<not> Valid (sm_fd m) \<Longrightarrow> fresh p1 (r_create os) \<and> sm_fd m = no_fd tag"
    "SharedMemory_Init os m p1 = (rc, m', p')"
  shows "made p H P (if rc \<noteq> OH_MIDI_STATUS_OK then (None, destroy_SharedMemory m' p') else (Some m', p'))"
    "rc = OH_MIDI_STATUS_OK \<longleftrightarrow> sm_base m' \<noteq> None" "sm_base m' = mapped os (sm_size m) (maps_file os m p1)"
proof -
  note I = SharedMemory_Init_inv [OF assms(1,2,4,5)]
  then show "rc = OH_MIDI_STATUS_OK \<longleftrightarrow> sm_base m' \<noteq> None" "sm_base m' = mapped os (sm_size m) (maps_file os m p1)" by simp_all
  have "memory_inv p' m' H P" using I by simp
  from destroy_SharedMemory_inv [OF this] show "made p H P (if rc \<noteq> OH_MIDI_STATUS_OK then (None, destroy_SharedMemory m' p') else (Some m', p'))"
    using I assms(3) by (auto simp: made_def)
qed

lemma CreateFromLocal_made:
  assumes "fd_inv p H P" "tag \<noteq> 0" "fresh p (r_create os)"
  shows "made p H P (SharedMemory_CreateFromLocal os tag sz name p)"
    "Option.bind (fst (SharedMemory_CreateFromLocal os tag sz name p)) sm_base = mapped os sz (if r_create os \<ge> 0 then Some (r_newfile os) else None)"
proof -
  let ?m = "new_SharedMemory tag sz name"
  obtain rc m' p' where I: "SharedMemory_Init os ?m p = (rc, m', p')" using prod_cases3 by blast
  have n: "sm_base ?m = None" "sm_fd ?m = no_fd tag" "sm_size ?m = sz" "\<not> Valid (no_fd tag)" by (simp_all add: new_SharedMemory_def Valid_def no_fd_def)
  note F = finish_made [OF new_SharedMemory_inv [OF assms(1,2)] n(1) refl _ I, of tag]
  show "made p H P (SharedMemory_CreateFromLocal os tag sz name p)"
    using F(1) assms(3) n by (auto simp: SharedMemory_CreateFromLocal_def I)
  show "Option.bind (fst (SharedMemory_CreateFromLocal os tag sz name p)) sm_base = mapped os sz (if r_create os \<ge> 0 then Some (r_newfile os) else None)"
    using F(2,3) assms(3) n by (auto simp: SharedMemory_CreateFromLocal_def I maps_file_def)
qed

text \<open>A memory that is made from a descriptor maps that descriptor's file, or, when it cannot be duplicated, a new file.\<close>

definition remote_file :: "MemoryCalls \<Rightarrow> nat \<Rightarrow> nat option" where
  "remote_file os f = (if r_dup os \<ge> 0 then Some f else if r_create os \<ge> 0 then Some (r_newfile os) else None)"

lemma SharedMemory_of_fd_made:
  assumes "fd_inv p H P" "tag \<noteq> 0" "fresh p (r_dup os)" "fresh p (r_create os)" "SharedMemory_of_fd os tag fd sz name p = (m, p1)"
    "SharedMemory_Init os m p1 = (rc, m', p')"
  shows "made p H P (if rc \<noteq> OH_MIDI_STATUS_OK then (None, destroy_SharedMemory m' p') else (Some m', p'))"
    "rc = OH_MIDI_STATUS_OK \<longleftrightarrow> sm_base m' \<noteq> None" "sm_base m' = mapped os sz (remote_file os (fd_file p fd))"
proof -
  note M = SharedMemory_of_fd_inv [OF assms(1-3,5)]
  have v: "fresh p1 (r_create os) \<and> sm_fd m = no_fd tag" if "\<not> Valid (sm_fd m)"
    using that M assms(4,5) by (auto simp: SharedMemory_of_fd_def new_SharedMemory_def Let_def split: if_splits)
  have c: "memory_inv p1 m H P" "sm_base m = None" "mappings p1 = mappings p" using M by auto
  note F = finish_made [OF c v assms(6)]
  have "maps_file os m p1 = remote_file os (fd_file p fd)" "sm_size m = sz" using M by (auto simp: maps_file_def remote_file_def)
  then show "made p H P (if rc \<noteq> OH_MIDI_STATUS_OK then (None, destroy_SharedMemory m' p') else (Some m', p'))"
    "rc = OH_MIDI_STATUS_OK \<longleftrightarrow> sm_base m' \<noteq> None" "sm_base m' = mapped os sz (remote_file os (fd_file p fd))" using F by simp_all
qed

lemma CreateFromRemote_made:
  assumes "fd_inv p H P" "tag \<noteq> 0" "fresh p (r_dup os)" "fresh p (r_create os)"
  shows "made p H P (SharedMemory_CreateFromRemote os tag fd sz name p)"
    "Option.bind (fst (SharedMemory_CreateFromRemote os tag fd sz name p)) sm_base = (if fd > MINFD then mapped os sz (remote_file os (fd_file p fd)) else None)"
proof -
  obtain m p1 where 1: "SharedMemory_of_fd os tag fd sz name p = (m, p1)" by fastforce
  obtain rc m' p' where 2: "SharedMemory_Init os m p1 = (rc, m', p')" using prod_cases3 by blast
  note F = SharedMemory_of_fd_made [OF assms 1 2]
  show "made p H P (SharedMemory_CreateFromRemote os tag fd sz name p)"
    using F(1) assms(1) by (simp add: SharedMemory_CreateFromRemote_def 1 2) (simp add: made_def)
  show "Option.bind (fst (SharedMemory_CreateFromRemote os tag fd sz name p)) sm_base = (if fd > MINFD then mapped os sz (remote_file os (fd_file p fd)) else None)"
    using F(2,3) by (auto simp: SharedMemory_CreateFromRemote_def 1 2)
qed

section \<open>What a ring does to the table\<close>

definition notify_held :: "UniqueFd option \<Rightarrow> (int \<times> nat) set" where
  "notify_held notify = (case notify of None \<Rightarrow> {} | Some u \<Rightarrow> holds u)"

text \<open>What the functions on rings read in the mapping of a descriptor, as \<open>Shared_Ring\<close> takes it from the outside.\<close>

definition map_of_calls :: "MemoryCalls \<Rightarrow> Process \<Rightarrow> int \<Rightarrow> nat \<Rightarrow> (nat \<Rightarrow> u32) option" where
  "map_of_calls os p fd sz =
     (if fd = OH_INVALID_FD then Option.bind (if r_create os \<ge> 0 then Some (r_newfile os) else None) (\<lambda>f. r_contents os f sz)
      else Option.bind (remote_file os (fd_file p fd)) (\<lambda>f. r_contents os f sz))"

lemma Ring_Init_made:
  assumes "fd_inv p H P" "tag \<noteq> 0" "fresh p (r_dup os)" "fresh p (r_create os)" "Ring_Init os tag dataFd cap notify p = (rc, ro, p')"
  shows "made p H P (map_option ro_memory ro, p')"
    "(case ro of None \<Rightarrow> rc \<noteq> OH_MIDI_STATUS_OK | Some r \<Rightarrow> rc = OH_MIDI_STATUS_OK \<and> ro_notify r = notify)"
    "Init (map_of_calls os p) dataFd cap (map_option (\<lambda>_. 0) notify) = (rc, map_option ro_ring ro)"
proof -
  let ?sz = "unat (totalMemorySize cap)" and ?name = "''midi_shared_buffer''"
  define r where "r = (if dataFd = OH_INVALID_FD then SharedMemory_CreateFromLocal os tag ?sz ?name p else SharedMemory_CreateFromRemote os tag dataFd ?sz ?name p)"
  have m: "made p H P r" using CreateFromLocal_made(1) [OF assms(1,2,4)] CreateFromRemote_made(1) [OF assms(1-4)] by (simp add: r_def)
  have b: "Option.bind (fst r) sm_base
      = (if dataFd = OH_INVALID_FD then MidiSharedMemory_Init (map_of_calls os p) dataFd (totalMemorySize cap)
         else MidiSharedMemory_CreateFromRemote (map_of_calls os p) dataFd (totalMemorySize cap))"
    using CreateFromLocal_made(2) [OF assms(1,2,4)] CreateFromRemote_made(2) [OF assms(1-4)]
    by (simp add: r_def MidiSharedMemory_Init_def MidiSharedMemory_CreateFromRemote_def map_of_calls_def mapped_def word_less_nat_alt)
  obtain rm p1 where r: "r = (rm, p1)" by fastforce
  have n: "rm = None \<longleftrightarrow> Option.bind rm sm_base = None" using m by (cases rm) (auto simp: made_def r)
  have k: "made p H P (None, p)" using assms(1) by (simp add: made_def)
  note D = assms(5) [unfolded Ring_Init_def r_def [symmetric] r]
  show "made p H P (map_option ro_memory ro, p')"
    using D m k by (auto simp: r split: if_splits option.splits)
  show "(case ro of None \<Rightarrow> rc \<noteq> OH_MIDI_STATUS_OK | Some r \<Rightarrow> rc = OH_MIDI_STATUS_OK \<and> ro_notify r = notify)"
    using D by (auto simp: status_defs split: if_splits option.splits)
  show "Init (map_of_calls os p) dataFd cap (map_option (\<lambda>_. 0) notify) = (rc, map_option ro_ring ro)"
    unfolding Init_def b [symmetric] r fst_conv using D n by (cases rm) (auto split: if_splits)
qed


text \<open>The descriptors that the system hands out during one call are free and not handed out twice, except for those that are never both used.\<close>

definition calls_ok :: "MemoryCalls \<Rightarrow> RingParcel \<Rightarrow> Process \<Rightarrow> bool" where
  "calls_ok os parcel p \<longleftrightarrow>
     (\<forall>fd\<in>{p_dataFd parcel, p_eventFd parcel, r_dup os, r_create os}. fresh p fd)
     \<and> (p_dataFd parcel \<ge> 0 \<longrightarrow> p_dataFd parcel \<notin> {p_eventFd parcel, r_dup os, r_create os})
     \<and> (p_eventFd parcel \<ge> 0 \<longrightarrow> p_eventFd parcel \<notin> {r_dup os, r_create os})"

text \<open>The file that the ring of a parcel maps.\<close>

definition parcel_memory :: "MemoryCalls \<Rightarrow> int \<Rightarrow> nat \<Rightarrow> (nat \<Rightarrow> u32) option" where
  "parcel_memory os fd sz = Option.bind (remote_file os (r_dataFile os)) (\<lambda>f. r_contents os f sz)"

text \<open>A descriptor of the parcel that the code refuses without closing it: it was read, and is 0, 1 or 2.\<close>

definition left_open :: "RingParcel \<Rightarrow> int set" where
  "left_open parcel =
     (let ringSize = p_ringSize parcel
      in if \<not> (ringSize > 0 \<and> ringSize \<le> MAX_MMAP_BUFFER_SIZE - SIZEOF_CONTROL) then {}
         else if p_dataFd parcel \<le> MINFD then {p_dataFd parcel} \<inter> {0..}
         else if p_hasNotifyFd parcel \<and> p_eventFd parcel \<le> MINFD then {p_eventFd parcel} \<inter> {0..} else {})"

lemma destroy_notify_inv:
  assumes "fd_inv p (notify_held notify \<union> H) P" "notify_held notify \<inter> H = {}" "\<forall>u. notify = Some u \<longrightarrow> ufd_tag u \<noteq> 0"
  shows "fd_inv (destroy_notify notify p) H P" "mappings (destroy_notify notify p) = mappings p"
  using assms destroy_UniqueFd_inv by (auto simp: destroy_notify_def notify_held_def same_world_def split: option.splits)

lemma new_UniqueFd_opened:
  assumes "fd_inv p H P" "fresh p fd" "fd \<ge> 0" "tag \<noteq> 0"
  obtains p' where "new_UniqueFd tag fd (sys_open fd f p) = (\<lparr>ufd_tag = tag, ufd_fd = fd\<rparr>, p')" "fd_inv p' (insert (fd, tag) H) P"
    "(fd, tag) \<notin> H" "fd_file p' = (fd_file p)(fd := f)" "mappings p' = mappings p"
  using own_opened [OF assms, of f] fresh_not_held [OF assms(1-3)] by (auto simp: new_UniqueFd_def)

lemma fresh_insert: "fd_inv p H P \<Longrightarrow> fd_inv p' (insert (fd, tag) H) P \<Longrightarrow> fresh p n \<Longrightarrow> n \<noteq> fd \<Longrightarrow> fresh p' n"
  unfolding fresh_def by (simp only: fd_inv_keys) auto

lemma ReadNotifyFd_inv:
  assumes "fd_inv p H P" "tn \<noteq> 0" "fresh p (p_eventFd parcel)" "ReadNotifyFd os tn parcel p = (r, p')"
  shows "case r of
       None \<Rightarrow> p_hasNotifyFd parcel \<and> p_eventFd parcel \<le> MINFD \<and> fd_inv p' H (P \<union> ({p_eventFd parcel} \<inter> {0..}))
     | Some notify \<Rightarrow> notify = (if p_hasNotifyFd parcel then Some \<lparr>ufd_tag = tn, ufd_fd = p_eventFd parcel\<rparr> else None)
         \<and> \<not> (p_hasNotifyFd parcel \<and> p_eventFd parcel \<le> MINFD) \<and> fd_inv p' (notify_held notify \<union> H) P \<and> notify_held notify \<inter> H = {}"
    "mappings p' = mappings p" "\<forall>fd. fd \<noteq> p_eventFd parcel \<longrightarrow> fd_file p' fd = fd_file p fd"
proof -
  consider "\<not> p_hasNotifyFd parcel" | "p_hasNotifyFd parcel" "p_eventFd parcel \<le> MINFD" | "p_hasNotifyFd parcel" "p_eventFd parcel > MINFD" by linarith
  then have "(case r of
       None \<Rightarrow> p_hasNotifyFd parcel \<and> p_eventFd parcel \<le> MINFD \<and> fd_inv p' H (P \<union> ({p_eventFd parcel} \<inter> {0..}))
     | Some notify \<Rightarrow> notify = (if p_hasNotifyFd parcel then Some \<lparr>ufd_tag = tn, ufd_fd = p_eventFd parcel\<rparr> else None)
         \<and> \<not> (p_hasNotifyFd parcel \<and> p_eventFd parcel \<le> MINFD) \<and> fd_inv p' (notify_held notify \<union> H) P \<and> notify_held notify \<inter> H = {})
     \<and> mappings p' = mappings p \<and> (\<forall>fd. fd \<noteq> p_eventFd parcel \<longrightarrow> fd_file p' fd = fd_file p fd)"
  proof cases
    case 1
    then show ?thesis using assms by (auto simp: ReadNotifyFd_def notify_held_def)
  next
    case 2
    then show ?thesis using assms fd_inv_open [OF assms(1), of "p_eventFd parcel" "r_eventFile os"]
      by (cases "p_eventFd parcel \<ge> 0") (auto simp: ReadNotifyFd_def fresh_def sys_open_def Let_def)
  next
    case 3
    then have "p_eventFd parcel \<ge> 0" by (simp add: MINFD_def)
    obtain p1 where "new_UniqueFd tn (p_eventFd parcel) (sys_open (p_eventFd parcel) (r_eventFile os) p) = (\<lparr>ufd_tag = tn, ufd_fd = p_eventFd parcel\<rparr>, p1)"
        "fd_inv p1 (insert (p_eventFd parcel, tn) H) P" "(p_eventFd parcel, tn) \<notin> H" "fd_file p1 = (fd_file p)(p_eventFd parcel := r_eventFile os)"
        "mappings p1 = mappings p"
      by (rule new_UniqueFd_opened [OF assms(1,3) \<open>p_eventFd parcel \<ge> 0\<close> assms(2)])
    then show ?thesis
      using 3 assms(4) \<open>p_eventFd parcel \<ge> 0\<close> by (auto simp: ReadNotifyFd_def notify_held_def holds_def Valid_def Let_def)
  qed
  then show "case r of
       None \<Rightarrow> p_hasNotifyFd parcel \<and> p_eventFd parcel \<le> MINFD \<and> fd_inv p' H (P \<union> ({p_eventFd parcel} \<inter> {0..}))
     | Some notify \<Rightarrow> notify = (if p_hasNotifyFd parcel then Some \<lparr>ufd_tag = tn, ufd_fd = p_eventFd parcel\<rparr> else None)
         \<and> \<not> (p_hasNotifyFd parcel \<and> p_eventFd parcel \<le> MINFD) \<and> fd_inv p' (notify_held notify \<union> H) P \<and> notify_held notify \<inter> H = {}"
    "mappings p' = mappings p" "\<forall>fd. fd \<noteq> p_eventFd parcel \<longrightarrow> fd_file p' fd = fd_file p fd" by blast+
qed


lemma Init_cong: "(\<And>sz. f fd sz = g fd sz) \<Longrightarrow> Init f fd cap n = Init g fd cap n"
  by (cases "fd = OH_INVALID_FD") (simp_all add: Init_def MidiSharedMemory_CreateFromRemote_def MidiSharedMemory_Init_def)

lemma fresh_notify:
  assumes "fd_inv p2 H P" "fd_inv p3 (notify_held notify \<union> H) P" "fresh p2 n" "\<forall>u. notify = Some u \<longrightarrow> ufd_fd u \<noteq> n"
  shows "fresh p3 n"
  using assms(3,4) unfolding fresh_def fd_inv_keys [OF assms(1)] fd_inv_keys [OF assms(2)]
  by (auto simp: notify_held_def holds_def split: option.splits if_splits)

text \<open>What is left when a ring was made, or not: \<open>n\<close> is the number of mappings before.\<close>

definition ring_made :: "nat \<Rightarrow> (int \<times> nat) set \<Rightarrow> int set \<Rightarrow> UniqueFd option \<Rightarrow> RingObject option \<times> Process \<Rightarrow> bool" where
  "ring_made n H P notify r \<longleftrightarrow>
     (case r of (None, p) \<Rightarrow> fd_inv p H P \<and> mappings p = n
      | (Some ro, p) \<Rightarrow> memory_inv p (ro_memory ro) (notify_held notify \<union> H) P \<and> notify_held notify \<inter> H = {} \<and> mappings p = n + 1
          \<and> Valid (sm_fd (ro_memory ro)) \<and> sm_base (ro_memory ro) \<noteq> None \<and> ro_notify ro = notify)"

lemma guarded_Init:
  assumes "fd_inv p (notify_held notify \<union> insert (fd, tg) H) P" "notify_held notify \<inter> insert (fd, tg) H = {}" "(fd, tg) \<notin> H" "fd \<ge> 0"
    "\<forall>u. notify = Some u \<longrightarrow> ufd_tag u \<noteq> 0" "tg \<noteq> 0" "tm \<noteq> 0" "fresh p (r_dup os)" "fresh p (r_create os)"
    "r = (if \<not> r_alloc os then (None, destroy_UniqueFd \<lparr>ufd_tag = tg, ufd_fd = fd\<rparr> (destroy_notify notify p))
          else (case Ring_Init os tm fd cap notify p of
                  (rc, None, p) \<Rightarrow> (None, destroy_UniqueFd \<lparr>ufd_tag = tg, ufd_fd = fd\<rparr> (destroy_notify notify p))
                | (rc, Some ro, p) \<Rightarrow> (Some ro, destroy_UniqueFd \<lparr>ufd_tag = tg, ufd_fd = fd\<rparr> p)))"
  shows "ring_made (mappings p) H P notify r"
    "r_alloc os \<longrightarrow> map_option ro_ring (fst r) = snd (Init (map_of_calls os p) fd cap (map_option (\<lambda>_. 0) notify))"
proof -
  let ?g = "\<lparr>ufd_tag = tg, ufd_fd = fd\<rparr>" and ?K = "notify_held notify \<union> insert (fd, tg) H"
  have g: "holds ?g = {(fd, tg)}" using assms(4) by (simp add: holds_def Valid_def)
  have fail: "ring_made (mappings q) H P notify (None, destroy_UniqueFd ?g (destroy_notify notify q))" if "fd_inv q ?K P" for q
    using destroy_notify_inv [OF that assms(2,5)] destroy_UniqueFd_inv [of "destroy_notify notify q" ?g H P] g assms(3,6)
    by (simp add: ring_made_def same_world_def)
  obtain rc ro p1 where R: "Ring_Init os tm fd cap notify p = (rc, ro, p1)" using prod_cases3 by blast
  note I = Ring_Init_made [OF assms(1,7-9) R]
  have ok: "ring_made (mappings p) H P notify (Some ro', destroy_UniqueFd ?g p1)" if ro: "ro = Some ro'" for ro'
  proof -
    let ?J = "holds (sm_fd (ro_memory ro')) \<union> (notify_held notify \<union> H)"
    have m: "memory_inv p1 (ro_memory ro') ?K P" "Valid (sm_fd (ro_memory ro'))" "sm_base (ro_memory ro') \<noteq> None" "mappings p1 = mappings p + 1"
      "ro_notify ro' = notify" using I(1,2) ro by (auto simp: made_def)
    have "fd_inv p1 (holds ?g \<union> ?J) P" "holds ?g \<inter> ?J = {}"
      using m(1) g assms(2,3) by (auto simp: memory_inv_def Un_assoc insert_commute)
    then have "fd_inv (destroy_UniqueFd ?g p1) ?J P" "same_world p1 (destroy_UniqueFd ?g p1)"
      using destroy_UniqueFd_inv [of p1 ?g ?J P] assms(6) by simp_all
    then show ?thesis using m assms(2) by (auto simp: ring_made_def memory_inv_def same_world_def)
  qed
  show "ring_made (mappings p) H P notify r"
  proof (cases "r_alloc os \<and> ro \<noteq> None")
    case True
    then show ?thesis using ok assms(10) R by auto
  next
    case False
    have "ro = None \<Longrightarrow> fd_inv p1 ?K P \<and> mappings p1 = mappings p" using I(1) by (simp add: made_def)
    then show ?thesis using False fail [OF assms(1)] fail [of p1] assms(10) R by (cases "r_alloc os") auto
  qed
  show "r_alloc os \<longrightarrow> map_option ro_ring (fst r) = snd (Init (map_of_calls os p) fd cap (map_option (\<lambda>_. 0) notify))"
    using assms(10) R I(3) by (cases ro) auto
qed

lemma Ring_Unmarshalling_guarded:
  assumes "fd_inv p H P" "tg \<noteq> 0" "tn \<noteq> 0" "tm \<noteq> 0" "calls_ok os parcel p"
    "notify = (if p_hasNotifyFd parcel then Some \<lparr>ufd_tag = tn, ufd_fd = p_eventFd parcel\<rparr> else None)"
    and 3: "p_ringSize parcel > 0" "p_ringSize parcel \<le> MAX_MMAP_BUFFER_SIZE - SIZEOF_CONTROL" "p_dataFd parcel > MINFD"
  shows "ring_made (mappings p) H (P \<union> left_open parcel) notify (Ring_Unmarshalling os tg tn tm parcel p)
    \<and> (r_alloc os \<longrightarrow> map_option ro_ring (fst (Ring_Unmarshalling os tg tn tm parcel p)) = Unmarshalling (parcel_memory os) parcel)"
proof -
  let ?cap = "p_ringSize parcel" and ?fd = "p_dataFd parcel" and ?ev = "p_eventFd parcel" and ?R = "Ring_Unmarshalling os tg tn tm parcel p"
  let ?p1 = "sys_open ?fd (r_dataFile os) p"
  have fr: "fresh p ?fd" "fresh p ?ev" "fresh p (r_dup os)" "fresh p (r_create os)" "?fd \<noteq> ?ev" "?fd \<noteq> r_dup os" "?fd \<noteq> r_create os" "?fd \<ge> 0"
    "?ev \<ge> 0 \<Longrightarrow> r_dup os \<noteq> ?ev \<and> r_create os \<noteq> ?ev"
    using assms(5) 3(3) by (auto simp: calls_ok_def MINFD_def)
  let ?g = "\<lparr>ufd_tag = tg, ufd_fd = ?fd\<rparr>"
  obtain p2 where p2: "new_UniqueFd tg ?fd ?p1 = (?g, p2)" "fd_inv p2 (insert (?fd, tg) H) P"
    "(?fd, tg) \<notin> H" "fd_file p2 = (fd_file p)(?fd := r_dataFile os)" "mappings p2 = mappings p"
    by (rule new_UniqueFd_opened [OF assms(1) fr(1,8) assms(2)])
  obtain rn p3 where rn: "ReadNotifyFd os tn parcel p2 = (rn, p3)" by fastforce
  note N = ReadNotifyFd_inv [OF p2(2) assms(3) fresh_insert [OF assms(1) p2(2) fr(2) fr(5) [symmetric]] rn]
  show ?thesis
  proof (cases rn)
    case None
    then have n: "p_hasNotifyFd parcel" "?ev \<le> MINFD" "fd_inv p3 (insert (?fd, tg) H) (P \<union> ({?ev} \<inter> {0..}))" using N(1) by simp_all
    have "?R = (None, destroy_UniqueFd ?g p3)" using 3 None by (simp add: Ring_Unmarshalling_def Let_def p2(1) rn)
    moreover have "fd_inv (destroy_UniqueFd ?g p3) H (P \<union> ({?ev} \<inter> {0..})) \<and> same_world p3 (destroy_UniqueFd ?g p3)"
      using destroy_UniqueFd_inv [of p3 ?g H "P \<union> ({?ev} \<inter> {0..})"] n(3) fr(8) p2(3) assms(2) by (simp add: holds_def Valid_def)
    ultimately show ?thesis using 3 n N(2) p2(5) by (simp add: left_open_def Let_def same_world_def ring_made_def Unmarshalling_def)
  next
    case (Some n)
    then have n: "n = notify" "\<not> (p_hasNotifyFd parcel \<and> ?ev \<le> MINFD)" "fd_inv p3 (notify_held n \<union> insert (?fd, tg) H) P"
      "notify_held n \<inter> insert (?fd, tg) H = {}" using N(1) unfolding Some option.case assms(6) by blast+
    have ev: "\<forall>u. notify = Some u \<longrightarrow> ufd_fd u = ?ev \<and> ?ev \<ge> 0 \<and> ufd_tag u = tn" using n(2) by (auto simp: assms(6) MINFD_def)
    have fr3: "fresh p3 x" if "fresh p x" "x \<noteq> ?fd" "?ev \<ge> 0 \<longrightarrow> x \<noteq> ?ev" for x
      using fresh_notify [OF p2(2) n(3) fresh_insert [OF assms(1) p2(2) that(1,2)]] ev that(3) n(1) by auto
    have tags: "\<forall>u. n = Some u \<longrightarrow> ufd_tag u \<noteq> 0" using ev n(1) assms(3) by auto
    have f3: "fresh p3 (r_dup os)" "fresh p3 (r_create os)" using fr3 fr by auto
    have eq: "?R = (if \<not> r_alloc os then (None, destroy_UniqueFd ?g (destroy_notify n p3))
        else (case Ring_Init os tm ?fd ?cap n p3 of
                (rc, None, p) \<Rightarrow> (None, destroy_UniqueFd ?g (destroy_notify n p))
              | (rc, Some ro, p) \<Rightarrow> (Some ro, destroy_UniqueFd ?g p)))"
      using 3 Some by (simp add: Ring_Unmarshalling_def Let_def p2(1) rn)
    note G = guarded_Init [OF n(3,4) p2(3) fr(8) tags assms(2,4) f3 eq]
    have "fd_file p3 ?fd = r_dataFile os" using N(3) fr(5) p2(4) by simp
    then have "map_of_calls os p3 ?fd sz = parcel_memory os ?fd sz" for sz
      using fr(8) by (simp add: map_of_calls_def parcel_memory_def OH_INVALID_FD_def)
    then have "snd (Init (map_of_calls os p3) ?fd ?cap (map_option (\<lambda>_. 0) n)) = Unmarshalling (parcel_memory os) parcel"
      using 3 n(1,2) Init_cong [of "map_of_calls os p3" ?fd "parcel_memory os"] by (auto simp: Unmarshalling_def Let_def assms(6))
    moreover have "left_open parcel = {}" using 3 n(2) by (auto simp: left_open_def Let_def)
    ultimately show ?thesis using G n(1) N(2) p2(5) by simp
  qed
qed

lemma Ring_Unmarshalling_made:
  assumes "fd_inv p H P" "tg \<noteq> 0" "tn \<noteq> 0" "tm \<noteq> 0" "calls_ok os parcel p"
    "notify = (if p_hasNotifyFd parcel then Some \<lparr>ufd_tag = tn, ufd_fd = p_eventFd parcel\<rparr> else None)"
  shows "ring_made (mappings p) H (P \<union> left_open parcel) notify (Ring_Unmarshalling os tg tn tm parcel p)"
    "r_alloc os \<longrightarrow> map_option ro_ring (fst (Ring_Unmarshalling os tg tn tm parcel p)) = Unmarshalling (parcel_memory os) parcel"
proof -
  let ?cap = "p_ringSize parcel" and ?fd = "p_dataFd parcel" and ?ev = "p_eventFd parcel" and ?R = "Ring_Unmarshalling os tg tn tm parcel p"
  consider "\<not> (?cap > 0 \<and> ?cap \<le> MAX_MMAP_BUFFER_SIZE - SIZEOF_CONTROL)"
    | "?cap > 0" "?cap \<le> MAX_MMAP_BUFFER_SIZE - SIZEOF_CONTROL" "?fd \<le> MINFD"
    | "?cap > 0" "?cap \<le> MAX_MMAP_BUFFER_SIZE - SIZEOF_CONTROL" "?fd > MINFD" by fastforce
  then have "ring_made (mappings p) H (P \<union> left_open parcel) notify ?R \<and> (r_alloc os \<longrightarrow> map_option ro_ring (fst ?R) = Unmarshalling (parcel_memory os) parcel)"
  proof cases
    case 1
    then show ?thesis using assms(1) by (auto simp: Ring_Unmarshalling_def left_open_def Unmarshalling_def Let_def ring_made_def)
  next
    case 2
    then show ?thesis using assms(1,5) fd_inv_open [OF assms(1), of ?fd "r_dataFile os"]
      by (cases "?fd \<ge> 0") (auto simp: Ring_Unmarshalling_def left_open_def Unmarshalling_def Let_def sys_open_def calls_ok_def fresh_def ring_made_def)
  next
    case 3
    then show ?thesis using Ring_Unmarshalling_guarded [OF assms] by simp
  qed
  then show "ring_made (mappings p) H (P \<union> left_open parcel) notify ?R"
    "r_alloc os \<longrightarrow> map_option ro_ring (fst ?R) = Unmarshalling (parcel_memory os) parcel" by blast+
qed

text \<open>Destroying a ring closes its descriptors and unmaps its memory.\<close>

lemma destroy_Ring_inv:
  assumes "ring_made n H P notify (Some ro, p)" "\<forall>u. notify = Some u \<longrightarrow> ufd_tag u \<noteq> 0"
  shows "fd_inv (destroy_Ring ro p) H P \<and> mappings (destroy_Ring ro p) = n"
proof -
  let ?m = "sm_fd (ro_memory ro)" and ?q = "destroy_notify notify p"
  have m: "memory_inv p (ro_memory ro) (notify_held notify \<union> H) P" "notify_held notify \<inter> H = {}" "mappings p = n + 1" "sm_base (ro_memory ro) \<noteq> None"
    "ro_notify ro = notify" using assms(1) by (simp_all add: ring_made_def)
  have "fd_inv p (notify_held notify \<union> (holds ?m \<union> H)) P" "notify_held notify \<inter> (holds ?m \<union> H) = {}"
    using m(1,2) by (auto simp: memory_inv_def Un_left_commute)
  then have "fd_inv ?q (holds ?m \<union> H) P" "mappings ?q = mappings p" using destroy_notify_inv [OF _ _ assms(2)] by simp_all
  then have "memory_inv ?q (ro_memory ro) H P" using m(1) by (auto simp: memory_inv_def)
  then show ?thesis using destroy_SharedMemory_inv [of ?q "ro_memory ro" H P] m(3-5) \<open>mappings ?q = mappings p\<close> by (simp add: destroy_Ring_def)
qed


text \<open>The other functions that make a memory or a ring: nothing is left behind when they fail.\<close>

lemma SharedMemory_Unmarshalling_made:
  assumes "fd_inv p H P" "ts \<noteq> 0" "tag \<noteq> 0" "fresh p (mp_fd parcel)" "fresh p (r_dup os)" "fresh p (r_create os)"
    "mp_fd parcel > MINFD" "mp_fd parcel \<notin> {r_dup os, r_create os}"
  shows "made p H P (SharedMemory_Unmarshalling os ts tag parcel p)"
proof -
  let ?fd = "mp_fd parcel"
  let ?g = "\<lparr>ufd_tag = ts, ufd_fd = ?fd\<rparr>"
  have fd: "?fd \<ge> 0" using assms(7) by (simp add: MINFD_def)
  obtain p2 where p2: "new_UniqueFd ts ?fd (sys_open ?fd (r_dataFile os) p) = (?g, p2)" "fd_inv p2 (insert (?fd, ts) H) P"
    "(?fd, ts) \<notin> H" "mappings p2 = mappings p"
    by (rule new_UniqueFd_opened [OF assms(1,4) fd assms(2)])
  have g: "holds ?g = {(?fd, ts)}" using fd by (simp add: holds_def Valid_def)
  have s: "ScopedFd ts ?fd (sys_open ?fd (r_dataFile os) p) = (?g, p2)" using p2(1) assms(7) by (simp add: ScopedFd_def new_UniqueFd_def)
  have fin: "made p H P (r, destroy_UniqueFd ?g q)" if "made p2 (insert (?fd, ts) H) P (r, q)" for r q
  proof (cases r)
    case None
    then have "fd_inv q (holds ?g \<union> H) P" "mappings q = mappings p2" using that g by (simp_all add: made_def)
    then show ?thesis using destroy_UniqueFd_inv [of q ?g H P] g p2(3,4) assms(2) None by (simp add: made_def same_world_def)
  next
    case (Some m)
    then have m: "memory_inv q m (insert (?fd, ts) H) P" "Valid (sm_fd m)" "sm_base m \<noteq> None" "mappings q = mappings p2 + 1"
      using that by (simp_all add: made_def)
    have "fd_inv q (holds ?g \<union> (holds (sm_fd m) \<union> H)) P" "holds ?g \<inter> (holds (sm_fd m) \<union> H) = {}"
      using m(1) g p2(3) by (auto simp: memory_inv_def)
    then have "fd_inv (destroy_UniqueFd ?g q) (holds (sm_fd m) \<union> H) P" "mappings (destroy_UniqueFd ?g q) = mappings q"
      using destroy_UniqueFd_inv [of q ?g] assms(2) by (simp_all add: same_world_def)
    then show ?thesis using m p2(4) Some by (auto simp: made_def memory_inv_def)
  qed
  have none: "made p2 (insert (?fd, ts) H) P (None, p2)" using p2(2) by (simp add: made_def)
  obtain m p3 where 1: "SharedMemory_of_fd os tag ?fd (unat (mp_size parcel)) (mp_name parcel) p2 = (m, p3)" by fastforce
  obtain rc m' p4 where 2: "SharedMemory_Init os m p3 = (rc, m', p4)" using prod_cases3 by blast
  have "fresh p2 (r_dup os)" "fresh p2 (r_create os)" using fresh_insert [OF assms(1) p2(2)] assms(5,6,8) by auto
  note M = SharedMemory_of_fd_made [OF p2(2) assms(3) this 1 2]
  have "made p H P (if rc \<noteq> OH_MIDI_STATUS_OK \<or> sm_base m' = None then (None, destroy_UniqueFd ?g (destroy_SharedMemory m' p4))
      else (Some m', destroy_UniqueFd ?g p4))"
  proof (cases "rc = OH_MIDI_STATUS_OK")
    case True
    then show ?thesis using fin [of "Some m'" p4] M(1,2) by auto
  next
    case False
    then show ?thesis using fin [of None "destroy_SharedMemory m' p4"] M(1) by simp
  qed
  then show ?thesis using fin [OF none] assms(7)
    by (simp add: SharedMemory_Unmarshalling_def Let_def s 1 2)
qed

lemma Output_AddRing_made:
  assumes "fd_inv p H P" "tn \<noteq> 0" "tm \<noteq> 0" "fresh p fd" "fresh p (r_dup os)" "fresh p (r_create os)" "fd \<notin> {r_dup os, r_create os}"
    "Output_AddRing os tn tm fd p = (rc, ro, p')"
  shows "ring_made (mappings p) H P (Some \<lparr>ufd_tag = tn, ufd_fd = fd\<rparr>) (ro, p') \<and> (rc = OH_MIDI_STATUS_OK \<longleftrightarrow> ro \<noteq> None)"
proof (cases "fd \<ge> 0")
  case False
  then show ?thesis using assms(1,8) by (auto simp: Output_AddRing_def sys_open_def ring_made_def status_defs)
next
  case True
  let ?u = "\<lparr>ufd_tag = tn, ufd_fd = fd\<rparr>"
  obtain p2 where p2: "new_UniqueFd tn fd (sys_open fd (r_eventFile os) p) = (?u, p2)" "fd_inv p2 (insert (fd, tn) H) P" "(fd, tn) \<notin> H" "mappings p2 = mappings p"
    by (rule new_UniqueFd_opened [OF assms(1,4) True assms(2)])
  have u: "holds ?u = {(fd, tn)}" using True by (simp add: holds_def Valid_def)
  have fr: "fresh p2 (r_dup os)" "fresh p2 (r_create os)" using fresh_insert [OF assms(1) p2(2)] assms(5-7) by auto
  obtain rc2 ro2 p3 where R: "Ring_Init os tm OH_INVALID_FD DEFAULT_RING_BUFFER_SIZE (Some ?u) p2 = (rc2, ro2, p3)" using prod_cases3 by blast
  note I = Ring_Init_made [OF p2(2) assms(3) fr R]
  show ?thesis
  proof (cases ro2)
    case None
    then have "fd_inv p3 (notify_held (Some ?u) \<union> H) P" "mappings p3 = mappings p2" using I(1) u by (simp_all add: made_def notify_held_def)
    then show ?thesis using None assms(2,8) True u p2 R destroy_notify_inv [of p3 "Some ?u" H P]
      by (simp add: Output_AddRing_def Connection_CreateRingBuffer_def Let_def ring_made_def notify_held_def status_defs)
  next
    case (Some r)
    then show ?thesis using I(1,2) assms(8) True u p2 R
      by (auto simp: Output_AddRing_def Connection_CreateRingBuffer_def Let_def ring_made_def made_def notify_held_def status_defs)
  qed
qed

text \<open>The operation on the tables and the one on the descriptors agree: the same result, and the ring of the new client is the one that was made.\<close>

lemma Output_AddRing_refines:
  assumes "fd_inv p H P" "tn \<noteq> 0" "tm \<noteq> 0" "fresh p fd" "fresh p (r_dup os)" "fresh p (r_create os)" "fd \<notin> {r_dup os, r_create os}"
    "Output_AddRing os tn tm fd p = (rc, ro, p')"
  shows "AddClientConnectionForOutput (map_of_calls os p) fd cid handle dc
    = (rc, case ro of None \<Rightarrow> dc
        | Some r \<Rightarrow> dc\<lparr>clients := clients dc @ [(new_ClientConnection cid handle (info_portIndex (info dc)))\<lparr>sharedRing := Some (ro_ring r)\<rparr>]\<rparr>)"
proof (cases "fd \<ge> 0")
  case False
  then show ?thesis using assms(8) by (auto simp: Output_AddRing_def AddClientConnectionForOutput_def sys_open_def Let_def)
next
  case True
  let ?u = "\<lparr>ufd_tag = tn, ufd_fd = fd\<rparr>"
  obtain p2 where p2: "new_UniqueFd tn fd (sys_open fd (r_eventFile os) p) = (?u, p2)" "fd_inv p2 (insert (fd, tn) H) P"
    by (rule new_UniqueFd_opened [OF assms(1,4) True assms(2)])
  have fr: "fresh p2 (r_dup os)" "fresh p2 (r_create os)" using fresh_insert [OF assms(1) p2(2)] assms(5-7) by auto
  obtain rc2 ro2 p3 where R: "Ring_Init os tm OH_INVALID_FD DEFAULT_RING_BUFFER_SIZE (Some ?u) p2 = (rc2, ro2, p3)" using prod_cases3 by blast
  note I = Ring_Init_made [OF p2(2) assms(3) fr R]
  have c: "CreateFromLocal (map_of_calls os p) DEFAULT_RING_BUFFER_SIZE (Some 0) = map_option ro_ring ro2"
    using I(3) Init_cong [of "map_of_calls os p" OH_INVALID_FD "map_of_calls os p2"] by (simp add: CreateFromLocal_def map_of_calls_def)
  show ?thesis
    using True p2(1) R c assms(8) I(2)
    by (auto simp: Output_AddRing_def Connection_CreateRingBuffer_def AddClientConnectionForOutput_def CreateRingBuffer_def Let_def status_defs
        split: option.splits)
qed

section \<open>A ring from a parcel\<close>

text \<open>
  C40: a ring that is rebuilt from an untrusted parcel, in any reachable state of the process. What the function does with descriptors and mappings refines what
  \<open>Shared_Ring\<close> says of it: the ring is the one described there over the memory behind the descriptor, has exactly the declared
  capacity, lies within the largest mapping and is empty. Nothing is reported, and nothing leaks: on failure the table is as before, except for a descriptor 0, 1 or
  2 that was read from the parcel and refused without being closed; on success it has gained the descriptor of the ring's
  memory and that of its notification, and destroying the ring gives everything back. When the descriptor of the parcel cannot
  be duplicated the ring is made over a new memory that nobody else maps, and success is reported.
\<close>

theorem ring_descriptors:
  assumes "fd_reachable p us" "0 \<notin> {tg, tn, tm}" "calls_ok os parcel p" "Ring_Unmarshalling os tg tn tm parcel p = (ro, p')"
  shows "fdsan_errors p' = 0
     \<and> (r_alloc os \<longrightarrow> map_option ro_ring ro = Unmarshalling (parcel_memory os) parcel)
     \<and> (ro = None \<longrightarrow> set (fd_table p') = set (fd_table p) \<union> (\<lambda>fd. (fd, 0)) ` left_open parcel \<and> mappings p' = mappings p)
     \<and> (\<forall>r. ro = Some r \<longrightarrow>
          capacity (ro_ring r) = p_ringSize parcel \<and> 64 + unat (capacity (ro_ring r)) < 8192 \<and> (24 < unat (capacity (ro_ring r)) \<longrightarrow> ring_queue (ro_ring r) [])
          \<and> set (fd_table p') = set (fd_table p) \<union> holds (sm_fd (ro_memory r)) \<union> notify_held (ro_notify r) \<and> Valid (sm_fd (ro_memory r))
          \<and> (p_hasNotifyFd parcel \<longrightarrow> notify_held (ro_notify r) = {(p_eventFd parcel, tn)})
          \<and> set (fd_table (destroy_Ring r p')) = set (fd_table p) \<and> mappings (destroy_Ring r p') = mappings p \<and> fdsan_errors (destroy_Ring r p') = 0)
     \<and> (r_dup os < 0 \<and> r_create os \<ge> 0 \<longrightarrow> parcel_memory os fd sz = r_contents os (r_newfile os) sz)"
proof -
  obtain P where I: "fd_inv p (all_held us) P" using fd_reachable_inv [OF assms(1)] by (auto simp: owners_inv_def)
  let ?n = "if p_hasNotifyFd parcel then Some \<lparr>ufd_tag = tn, ufd_fd = p_eventFd parcel\<rparr> else None"
  have t: "tg \<noteq> 0" "tn \<noteq> 0" "tm \<noteq> 0" using assms(2) by auto
  note M = Ring_Unmarshalling_made [OF I t assms(3) refl, unfolded assms(4) fst_conv]
  have table: "fd_inv q H P' \<Longrightarrow> set (fd_table q) = H \<union> (\<lambda>fd. (fd, 0)) ` P' \<and> fdsan_errors q = 0" for q H P' by (simp add: fd_inv_def)
  have T: "set (fd_table p) = all_held us \<union> (\<lambda>fd. (fd, 0)) ` P" using table [OF I] by simp
  have f: "r_dup os < 0 \<and> r_create os \<ge> 0 \<longrightarrow> parcel_memory os fd sz = r_contents os (r_newfile os) sz"
    by (simp add: parcel_memory_def remote_file_def)
  show ?thesis
  proof (cases ro)
    case None
    then have "fd_inv p' (all_held us) (P \<union> left_open parcel)" "mappings p' = mappings p" using M(1) by (simp_all add: ring_made_def)
    then show ?thesis using table [of p'] T M(2) f None by (auto simp: image_Un)
  next
    case (Some r)
    then have alloc: "r_alloc os" using assms(4) by (auto simp: Ring_Unmarshalling_def Let_def split: if_splits option.splits prod.splits)
    have u: "Unmarshalling (parcel_memory os) parcel = Some (ro_ring r)" using M(2) alloc Some by simp
    have lo: "left_open parcel = {}" using u by (auto simp: Unmarshalling_def left_open_def Let_def split: if_splits)
    have m: "ring_made (mappings p) (all_held us) P ?n (Some r, p')" using M(1) Some lo by simp
    then have "fd_inv p' (holds (sm_fd (ro_memory r)) \<union> (notify_held ?n \<union> all_held us)) P" "Valid (sm_fd (ro_memory r))" "ro_notify r = ?n"
      by (simp_all add: ring_made_def memory_inv_def)
    moreover have "p_hasNotifyFd parcel \<longrightarrow> notify_held ?n = {(p_eventFd parcel, tn)}"
      using u by (auto simp: notify_held_def holds_def Valid_def MINFD_def Unmarshalling_def Let_def split: if_splits)
    moreover have "fd_inv (destroy_Ring r p') (all_held us) P \<and> mappings (destroy_Ring r p') = mappings p"
      using destroy_Ring_inv [OF m] t(2) by simp
    ultimately show ?thesis using table [of p'] table [of "destroy_Ring r p'"] T M(2) f Some unmarshalling_safe [OF u] by auto
  qed
qed

text \<open>A ring with a notification descriptor, in a new process.\<close>

definition demo_calls :: MemoryCalls where
  "demo_calls = \<lparr>r_dup = 7, r_create = 8, r_newfile = 9, r_contents = (\<lambda>_ _. Some (\<lambda>_. 0)), r_seek = 0, r_dataFile = 3, r_eventFile = 4, r_alloc = True\<rparr>"

theorem ring_descriptors_witness:
  "\<exists>r p'. Ring_Unmarshalling demo_calls 10 20 30 \<lparr>p_ringSize = 2048, p_dataFd = 5, p_hasNotifyFd = True, p_eventFd = 6\<rparr> new_Process = (Some r, p')
     \<and> ring_queue (ro_ring r) [] \<and> fdsan_errors p' = 0 \<and> notify_held (ro_notify r) = {(6, 20)}
     \<and> set (fd_table (destroy_Ring r p')) = set (fd_table new_Process)"
proof -
  let ?parcel = "\<lparr>p_ringSize = 2048, p_dataFd = 5, p_hasNotifyFd = True, p_eventFd = 6\<rparr>"
  have c: "calls_ok demo_calls ?parcel new_Process" by (auto simp: calls_ok_def demo_calls_def fresh_def new_Process_def)
  have n: "fd_reachable new_Process []" by (simp add: fd_reachable_def)
  obtain ro p' where R: "Ring_Unmarshalling demo_calls 10 20 30 ?parcel new_Process = (ro, p')" by fastforce
  note D = ring_descriptors [OF n _ c R]
  have "Unmarshalling (parcel_memory demo_calls) ?parcel \<noteq> None"
    by (simp add: Unmarshalling_def Init_def MidiSharedMemory_CreateFromRemote_def MidiSharedMemory_Init_def parcel_memory_def remote_file_def demo_calls_def
        MINFD_def OH_INVALID_FD_def MAX_MMAP_BUFFER_SIZE_def SIZEOF_CONTROL_def totalMemorySize_def)
  moreover have "map_option ro_ring ro = Unmarshalling (parcel_memory demo_calls) ?parcel" using D by (simp add: demo_calls_def)
  ultimately obtain r where r: "ro = Some r" by auto
  show ?thesis using D R r by auto
qed

end
