(* ===== verification/Info_Parcel.thy ===== *)
theory Info_Parcel
  imports Midi_Types
begin

text \<open>
  The functions of \<^verbatim>\<open>interfaces/midi_info.h\<close> that write a port or a device into a parcel and read one back. The parcel belongs to
  the system: \<open>Parcel\<close> is a record of its functions over any state. The results of the writing functions are
  not looked at by the code and are left out.
\<close>

section \<open>The parcel\<close>

record 'p Parcel =
  WriteInt32 :: "int \<Rightarrow> 'p \<Rightarrow> 'p"
  WriteInt64 :: "int \<Rightarrow> 'p \<Rightarrow> 'p"
  WriteUint64 :: "u64 \<Rightarrow> 'p \<Rightarrow> 'p"
  WriteString :: "string \<Rightarrow> 'p \<Rightarrow> 'p"
  ReadInt32 :: "'p \<Rightarrow> int \<times> 'p"
  ReadInt64 :: "'p \<Rightarrow> int \<times> 'p"
  ReadUint64 :: "'p \<Rightarrow> u64 \<times> 'p"
  ReadString :: "'p \<Rightarrow> string \<times> 'p"

text \<open>What is documented of a parcel with room: what is written is read back in order, by the functions of the same type.\<close>

datatype ParcelItem = Int32 int | Int64 int | Uint64 u64 | Text string

definition parcel_ok :: "'p Parcel \<Rightarrow> ('p \<Rightarrow> ParcelItem list) \<Rightarrow> bool" where
  "parcel_ok io content \<longleftrightarrow>
     (\<forall>p i. content (WriteInt32 io i p) = content p @ [Int32 i]) \<and> (\<forall>p i. content (WriteInt64 io i p) = content p @ [Int64 i])
     \<and> (\<forall>p i. content (WriteUint64 io i p) = content p @ [Uint64 i]) \<and> (\<forall>p s. content (WriteString io s p) = content p @ [Text s])
     \<and> (\<forall>p i rest. content p = Int32 i # rest \<longrightarrow> fst (ReadInt32 io p) = i \<and> content (snd (ReadInt32 io p)) = rest)
     \<and> (\<forall>p i rest. content p = Int64 i # rest \<longrightarrow> fst (ReadInt64 io p) = i \<and> content (snd (ReadInt64 io p)) = rest)
     \<and> (\<forall>p i rest. content p = Uint64 i # rest \<longrightarrow> fst (ReadUint64 io p) = i \<and> content (snd (ReadUint64 io p)) = rest)
     \<and> (\<forall>p s rest. content p = Text s # rest \<longrightarrow> fst (ReadString io p) = s \<and> content (snd (ReadString io p)) = rest)"

section \<open>Enumerations\<close>

definition of_PortDirection :: "PortDirection \<Rightarrow> int" where
  "of_PortDirection dir = (case dir of PORT_DIRECTION_INPUT \<Rightarrow> 0 | PORT_DIRECTION_OUTPUT \<Rightarrow> 1)"

definition of_DeviceType :: "DeviceType \<Rightarrow> int" where
  "of_DeviceType t = (case t of DEVICE_TYPE_USB \<Rightarrow> 0 | DEVICE_TYPE_BLE \<Rightarrow> 1)"

definition of_TransportProtocol :: "TransportProtocol \<Rightarrow> int" where
  "of_TransportProtocol t = (case t of PROTOCOL_1_0 \<Rightarrow> 1 | PROTOCOL_2_0 \<Rightarrow> 2)"

text \<open>The casts back; \<open>None\<close>: the result is no enumerator.\<close>

definition to_PortDirection :: "int \<Rightarrow> PortDirection option" where
  "to_PortDirection i = (if i = 0 then Some PORT_DIRECTION_INPUT else if i = 1 then Some PORT_DIRECTION_OUTPUT else None)"

definition to_DeviceType :: "int \<Rightarrow> DeviceType option" where
  "to_DeviceType i = (if i = 0 then Some DEVICE_TYPE_USB else if i = 1 then Some DEVICE_TYPE_BLE else None)"

definition to_TransportProtocol :: "int \<Rightarrow> TransportProtocol option" where
  "to_TransportProtocol i = (if i = 1 then Some PROTOCOL_1_0 else if i = 2 then Some PROTOCOL_2_0 else None)"

lemma enum_casts [simp]: "to_PortDirection (of_PortDirection dir) = Some dir" "to_DeviceType (of_DeviceType t) = Some t"
  "to_TransportProtocol (of_TransportProtocol u) = Some u"
  by (cases dir; cases t; cases u;
      simp add: to_PortDirection_def of_PortDirection_def to_DeviceType_def of_DeviceType_def to_TransportProtocol_def of_TransportProtocol_def)+

section \<open>Ports and devices\<close>

definition PortInfo_Marshalling :: "'p Parcel \<Rightarrow> MidiPortInfo \<Rightarrow> 'p \<Rightarrow> bool \<times> 'p" where
  "PortInfo_Marshalling io i p =
     (let p = WriteInt64 io (portId i) p;
          p = WriteString io (port_name i) p;
          p = WriteInt32 io (of_PortDirection (direction i)) p;
          p = WriteInt32 io (of_TransportProtocol (port_transportProtocol i)) p
      in (True, p))"

definition DeviceInfo_Marshalling :: "'p Parcel \<Rightarrow> MidiDeviceInfo \<Rightarrow> 'p \<Rightarrow> bool \<times> 'p" where
  "DeviceInfo_Marshalling io i p =
     (let p = WriteInt64 io (deviceId i) p;
          p = WriteInt64 io (driverDeviceId i) p;
          p = WriteInt32 io (of_DeviceType (deviceType i)) p;
          p = WriteInt32 io (of_TransportProtocol (transportProtocol i)) p;
          p = WriteString io (address i) p;
          p = WriteString io (deviceName i) p;
          p = WriteUint64 io (productId i) p;
          p = WriteUint64 io (vendorId i) p
      in (True, p))"

text \<open>Reading ends without a result when there is no memory, and with a value that has no name when a cast does not give an enumerator.\<close>

datatype 'a Unmarshalled = NullPtr | NotAnEnumerator | Got 'a

definition PortInfo_Unmarshalling :: "'p Parcel \<Rightarrow> bool \<Rightarrow> 'p \<Rightarrow> MidiPortInfo Unmarshalled \<times> 'p" where
  "PortInfo_Unmarshalling io alloc p =
     (if \<not> alloc then (NullPtr, p)
      else
        let (i, p) = ReadInt64 io p; (name, p) = ReadString io p; (dir, p) = ReadInt32 io p; (protocol, p) = ReadInt32 io p
        in (case (to_PortDirection dir, to_TransportProtocol protocol) of
              (Some dir, Some protocol) \<Rightarrow> Got \<lparr>portId = i, port_name = name, direction = dir, port_transportProtocol = protocol\<rparr>
            | _ \<Rightarrow> NotAnEnumerator, p))"

definition DeviceInfo_Unmarshalling :: "'p Parcel \<Rightarrow> bool \<Rightarrow> 'p \<Rightarrow> MidiDeviceInfo Unmarshalled \<times> 'p" where
  "DeviceInfo_Unmarshalling io alloc p =
     (if \<not> alloc then (NullPtr, p)
      else
        let (i, p) = ReadInt64 io p; (drv, p) = ReadInt64 io p; (t, p) = ReadInt32 io p; (protocol, p) = ReadInt32 io p;
            (addr, p) = ReadString io p; (name, p) = ReadString io p; (product, p) = ReadUint64 io p; (vendor, p) = ReadUint64 io p
        in (case (to_DeviceType t, to_TransportProtocol protocol) of
              (Some t, Some protocol) \<Rightarrow>
                Got \<lparr>deviceId = i, driverDeviceId = drv, deviceType = t, transportProtocol = protocol, address = addr,
                     deviceName = name, productId = product, vendorId = vendor\<rparr>
            | _ \<Rightarrow> NotAnEnumerator, p))"

section \<open>Round trips\<close>

lemma parcel_okD:
  assumes "parcel_ok io content"
  shows "content (WriteInt32 io i p) = content p @ [Int32 i]" "content (WriteInt64 io j p) = content p @ [Int64 j]"
    "content (WriteUint64 io u p) = content p @ [Uint64 u]" "content (WriteString io s p) = content p @ [Text s]"
    "content p = Int32 i # rest \<Longrightarrow> \<exists>q. ReadInt32 io p = (i, q) \<and> content q = rest"
    "content p = Int64 i # rest \<Longrightarrow> \<exists>q. ReadInt64 io p = (i, q) \<and> content q = rest"
    "content p = Uint64 u # rest \<Longrightarrow> \<exists>q. ReadUint64 io p = (u, q) \<and> content q = rest"
    "content p = Text s # rest \<Longrightarrow> \<exists>q. ReadString io p = (s, q) \<and> content q = rest"
  using assms unfolding parcel_ok_def by (simp_all add: prod_eq_iff)

text \<open>What a port and a device look like in a parcel: \<open>t\<close>, \<open>dir\<close> and \<open>protocol\<close> are the numbers of the enumerations.\<close>

definition port_items :: "MidiPortInfo \<Rightarrow> int \<Rightarrow> int \<Rightarrow> ParcelItem list" where
  "port_items i dir protocol = [Int64 (portId i), Text (port_name i), Int32 dir, Int32 protocol]"

definition device_items :: "MidiDeviceInfo \<Rightarrow> int \<Rightarrow> int \<Rightarrow> ParcelItem list" where
  "device_items i t protocol = [Int64 (deviceId i), Int64 (driverDeviceId i), Int32 t, Int32 protocol,
     Text (address i), Text (deviceName i), Uint64 (productId i), Uint64 (vendorId i)]"

lemma PortInfo_written:
  assumes "parcel_ok io content" "PortInfo_Marshalling io i p = (ok, q)"
  shows "ok \<and> content q = content p @ port_items i (of_PortDirection (direction i)) (of_TransportProtocol (port_transportProtocol i))"
  using assms(2) by (auto simp: PortInfo_Marshalling_def port_items_def Let_def parcel_okD(1-4) [OF assms(1)])

lemma DeviceInfo_written:
  assumes "parcel_ok io content" "DeviceInfo_Marshalling io i p = (ok, q)"
  shows "ok \<and> content q = content p @ device_items i (of_DeviceType (deviceType i)) (of_TransportProtocol (transportProtocol i))"
  using assms(2) by (auto simp: DeviceInfo_Marshalling_def device_items_def Let_def parcel_okD(1-4) [OF assms(1)])

lemma PortInfo_read:
  assumes "parcel_ok io content" "content p = port_items i dir protocol @ rest"
  shows "\<exists>q. content q = rest \<and> PortInfo_Unmarshalling io True p =
     (case (to_PortDirection dir, to_TransportProtocol protocol) of
        (Some dir, Some protocol) \<Rightarrow> Got (i\<lparr>direction := dir, port_transportProtocol := protocol\<rparr>)
      | _ \<Rightarrow> NotAnEnumerator, q)"
proof -
  note R = parcel_okD(5-8) [OF assms(1)]
  obtain p1 where 1: "ReadInt64 io p = (portId i, p1)" "content p1 = [Text (port_name i), Int32 dir, Int32 protocol] @ rest"
    using R(2) assms(2) by (force simp: port_items_def)
  obtain p2 where 2: "ReadString io p1 = (port_name i, p2)" "content p2 = [Int32 dir, Int32 protocol] @ rest" using R(4) 1(2) by force
  obtain p3 where 3: "ReadInt32 io p2 = (dir, p3)" "content p3 = [Int32 protocol] @ rest" using R(1) 2(2) by force
  obtain p4 where 4: "ReadInt32 io p3 = (protocol, p4)" "content p4 = rest" using R(1) 3(2) by force
  show ?thesis by (rule exI [of _ p4]) (simp add: PortInfo_Unmarshalling_def Let_def 1(1) 2(1) 3(1) 4 split: option.split)
qed

lemma DeviceInfo_read:
  assumes "parcel_ok io content" "content p = device_items i t protocol @ rest"
  shows "\<exists>q. content q = rest \<and> DeviceInfo_Unmarshalling io True p =
     (case (to_DeviceType t, to_TransportProtocol protocol) of
        (Some t, Some protocol) \<Rightarrow> Got (i\<lparr>deviceType := t, transportProtocol := protocol\<rparr>)
      | _ \<Rightarrow> NotAnEnumerator, q)"
proof -
  note R = parcel_okD(5-8) [OF assms(1)]
  let ?items = "\<lambda>n. drop n (device_items i t protocol) @ rest"
  obtain p1 where 1: "ReadInt64 io p = (deviceId i, p1)" "content p1 = ?items 1" using R(2) assms(2) by (force simp: device_items_def)
  obtain p2 where 2: "ReadInt64 io p1 = (driverDeviceId i, p2)" "content p2 = ?items 2" using R(2) 1(2) by (force simp: device_items_def)
  obtain p3 where 3: "ReadInt32 io p2 = (t, p3)" "content p3 = ?items 3" using R(1) 2(2) by (force simp: device_items_def)
  obtain p4 where 4: "ReadInt32 io p3 = (protocol, p4)" "content p4 = ?items 4" using R(1) 3(2) by (force simp: device_items_def)
  obtain p5 where 5: "ReadString io p4 = (address i, p5)" "content p5 = ?items 5" using R(4) 4(2) by (force simp: device_items_def)
  obtain p6 where 6: "ReadString io p5 = (deviceName i, p6)" "content p6 = ?items 6" using R(4) 5(2) by (force simp: device_items_def)
  obtain p7 where 7: "ReadUint64 io p6 = (productId i, p7)" "content p7 = ?items 7" using R(3) 6(2) by (force simp: device_items_def)
  obtain p8 where 8: "ReadUint64 io p7 = (vendorId i, p8)" "content p8 = rest" using R(3) 7(2) by (force simp: device_items_def)
  show ?thesis by (rule exI [of _ p8])
      (simp add: DeviceInfo_Unmarshalling_def Let_def 1(1) 2(1) 3(1) 4(1) 5(1) 6(1) 7(1) 8 split: option.split)
qed

text \<open>
  A device and a port that are written into an empty parcel are read back as they were, and nothing is left. The reader of a parcel that someone else
  wrote gets a value that is no enumerator when a number is out of range: nothing checks it.
\<close>

lemma info_parcels:
  assumes "parcel_ok io content" "content p = []"
  shows "\<exists>q. DeviceInfo_Unmarshalling io True (snd (DeviceInfo_Marshalling io dev p)) = (Got dev, q) \<and> content q = []"
    "\<exists>q. PortInfo_Unmarshalling io True (snd (PortInfo_Marshalling io port p)) = (Got port, q) \<and> content q = []"
    "content r = device_items dev t protocol \<Longrightarrow> t \<notin> {0, 1} \<or> protocol \<notin> {1, 2} \<Longrightarrow> fst (DeviceInfo_Unmarshalling io True r) = NotAnEnumerator"
proof -
  obtain ok q where q: "DeviceInfo_Marshalling io dev p = (ok, q)" by fastforce
  then show "\<exists>q. DeviceInfo_Unmarshalling io True (snd (DeviceInfo_Marshalling io dev p)) = (Got dev, q) \<and> content q = []"
    using DeviceInfo_read [OF assms(1), of q dev "of_DeviceType (deviceType dev)" "of_TransportProtocol (transportProtocol dev)" "[]"]
      DeviceInfo_written [OF assms(1) q] assms(2) by auto
  obtain ok' q' where q': "PortInfo_Marshalling io port p = (ok', q')" by fastforce
  then show "\<exists>q. PortInfo_Unmarshalling io True (snd (PortInfo_Marshalling io port p)) = (Got port, q) \<and> content q = []"
    using PortInfo_read [OF assms(1), of q' port "of_PortDirection (direction port)" "of_TransportProtocol (port_transportProtocol port)" "[]"]
      PortInfo_written [OF assms(1) q'] assms(2) by auto
  show "fst (DeviceInfo_Unmarshalling io True r) = NotAnEnumerator" if "content r = device_items dev t protocol" "t \<notin> {0, 1} \<or> protocol \<notin> {1, 2}"
    using DeviceInfo_read [OF assms(1), of r dev t protocol "[]"] that
    by (auto simp: to_DeviceType_def to_TransportProtocol_def split: option.splits if_splits)
qed

end
