(* ===== verification/Output_Thread.thy ===== *)
theory Output_Thread
  imports Device_Delivery
begin

text \<open>
  The thread of an output port (\<^verbatim>\<open>services/server/src/midi_device_connection.cpp\<close>, \<open>ThreadMain\<close>): it waits
  for the counter of the notifications or for the timer, empties both and handles what there is. What \<open>epoll_wait\<close> returns in each round comes from the
  outside, with what the other threads do to the port until then.
\<close>

section \<open>The loop\<close>

text \<open>The counter of a notification descriptor: reading it sets it to 0, and the next reading fails.\<close>

definition DrainEventFd :: "DeviceConnectionForOutput \<Rightarrow> DeviceConnectionForOutput" where
  "DrainEventFd dc = (if notifyEventFd dc = None then dc else dc\<lparr>wakeups := 0\<rparr>)"

text \<open>A round: a signal interrupted the wait, or it failed, or the thread was woken; then the readings of the clocks.\<close>

datatype Poll = Interrupted | PollFailed | Woken "nat \<Rightarrow> int" int int

record Round =
  rd_others :: "DeviceConnectionForOutput \<Rightarrow> DeviceConnectionForOutput"
  rd_poll :: Poll

text \<open>The result says whether the thread has ended; otherwise it waits.\<close>

primrec PollLoop :: "Round list \<Rightarrow> DeviceConnectionForOutput \<Rightarrow> bool \<times> DeviceConnectionForOutput" where
  "PollLoop [] dc = (\<not> running dc, dc)"
| "PollLoop (r # rs) dc =
     (if \<not> running dc then (True, dc)
      else
        let dc = rd_others r dc
        in (case rd_poll r of
              Interrupted \<Rightarrow> PollLoop rs dc
            | PollFailed \<Rightarrow> (True, dc)
            | Woken clock t nowMs \<Rightarrow> PollLoop rs (HandleWakeupOnce clock t nowMs (DrainEventFd dc))))"

definition ThreadMain :: "int \<Rightarrow> Round list \<Rightarrow> DeviceConnectionForOutput \<Rightarrow> bool \<times> DeviceConnectionForOutput" where
  "ThreadMain now rs dc = PollLoop rs (UpdateNextTimer now dc)"

section \<open>What a round leaves alone\<close>

text \<open>The flag and the descriptors of the port.\<close>

definition thread_view :: "DeviceConnectionForOutput \<Rightarrow> bool \<times> int option \<times> int option \<times> int option" where
  "thread_view dc = (running dc, notifyEventFd dc, epollFd dc, timerFd dc)"

lemma view_updates [simp]:
  "thread_view (dc\<lparr>clients := cs\<rparr>) = thread_view dc" "thread_view (dc\<lparr>timer := t\<rparr>) = thread_view dc"
  "thread_view (dc\<lparr>wakeups := n\<rparr>) = thread_view dc" "thread_view (DrainEventFd dc) = thread_view dc"
  "thread_view (WakeWorkerByEventFd dc) = thread_view dc"
  by (simp_all add: thread_view_def DrainEventFd_def WakeWorkerByEventFd_def)

lemma view_flush [simp]: "thread_view (FlushSendCacheToDriver nowMs dc) = thread_view dc"
  by (simp add: thread_view_def FlushSendCacheToDriver_def)

lemma view_append [simp]: "thread_view (snd (TryAppendToSendCache ts ws dc)) = thread_view dc"
  by (simp add: thread_view_def TryAppendToSendCache_def Let_def)

lemma view_append_or_flush [simp]: "thread_view (AppendOrFlush nowMs ts ws dc) = thread_view dc"
  using view_append [of ts ws dc] view_append [of ts ws "FlushSendCacheToDriver nowMs dc"]
    view_append [of ts ws "FlushSendCacheToDriver nowMs (snd (TryAppendToSendCache ts ws dc))"]
  by (auto simp: AppendOrFlush_def SendToDriver_def prod.case_eq_if)

lemma view_drain_ring: "DrainRingLoop left nowMs conn ring dc = (conn', ring', dc') \<Longrightarrow> thread_view dc' = thread_view dc"
proof (induction left arbitrary: conn ring dc)
  case (Suc left)
  obtain status ev ring1 where P: "PeekNext ring = (status, ev, ring1)" using prod_cases3 by blast
  obtain ok1 ring2 dc2 where R: "ConsumeRealtimeEvent nowMs ring1 ev dc = (ok1, ring2, dc2)" using prod_cases3 by blast
  obtain ok3 conn3 ring3 where N: "ConsumeNonRealtimeEvent conn ring1 ev = (ok3, conn3, ring3)" using prod_cases3 by blast
  have "thread_view dc2 = thread_view dc" using R by (auto simp: ConsumeRealtimeEvent_def Let_def split: prod.splits if_splits)
  then show ?case using Suc by (auto simp: P R N split: if_splits)
qed simp

lemma view_drain_single: "DrainSingleClientRing nowMs conn dc = (conn', dc') \<Longrightarrow> thread_view dc' = thread_view dc"
  using view_drain_ring by (auto simp: DrainSingleClientRing_def split: option.splits prod.splits)

lemma view_drain_clients: "DrainClients nowMs cs dc = (cs', dc') \<Longrightarrow> thread_view dc' = thread_view dc"
proof (induction cs arbitrary: cs' dc dc')
  case (Cons c cs)
  obtain c1 dc1 where 1: "DrainSingleClientRing nowMs c dc = (c1, dc1)" by fastforce
  obtain cs2 dc2 where 2: "DrainClients nowMs cs dc1 = (cs2, dc2)" by fastforce
  show ?case using Cons.prems Cons.IH [OF 2] view_drain_single [OF 1] by (simp add: 1 2)
qed simp

lemma view_collect: "thread_view (CollectLoop fuel clock k nowMs dc) = thread_view dc"
  by (induction fuel arbitrary: k dc) (simp_all add: Let_def split: option.split prod.split)

lemma view_wakeup [simp]: "thread_view (HandleWakeupOnce clock t nowMs dc) = thread_view dc"
proof -
  obtain cs dc1 where D: "DrainClients nowMs (clients dc) dc = (cs, dc1)" by fastforce
  have "thread_view (DrainAllClientsRings nowMs dc) = thread_view dc"
    using view_drain_clients [OF D] by (simp add: DrainAllClientsRings_def D)
  moreover have "thread_view (UpdateNextTimer u dc) = thread_view dc" for u dc
    by (simp add: UpdateNextTimer_def Let_def split: option.split prod.split)
  ultimately show ?thesis by (simp add: HandleWakeupOnce_def CollectDueEventsFromClientHeaps_def view_collect Let_def)
qed

lemma running_of_view: "running dc = fst (thread_view dc)"
  by (simp add: thread_view_def)

lemma running_wakeup [simp]: "running (HandleWakeupOnce clock t nowMs dc) = running dc" "running (DrainEventFd dc) = running dc"
  by (simp_all add: running_of_view)

section \<open>How the thread ends\<close>

lemma PollLoop_append: "PollLoop (rs @ ss) dc = (case PollLoop rs dc of (ended, dc') \<Rightarrow> if ended then (True, dc') else PollLoop ss dc')"
proof (induction rs arbitrary: dc)
  case Nil
  show ?case by (cases ss) simp_all
next
  case (Cons r rs)
  show ?case by (cases "running dc"; cases "rd_poll r") (simp_all add: Let_def Cons)
qed

text \<open>
  Stopping a port wakes its thread, and whatever the thread did before, it has ended after this round: the caller's join returns. What was written before the stop is still
  handled, in that round.
\<close>

lemma thread_stops:
  assumes "running dc" "rd_poll r = Woken clock t nowMs" "rd_others r = snd \<circ> Stop"
  shows "PollLoop (r # rs) dc = (True, HandleWakeupOnce clock t nowMs (DrainEventFd (snd (Stop dc))))"
    "\<not> running (snd (PollLoop (r # rs) dc))" "notifyEventFd dc \<noteq> None \<Longrightarrow> 0 < wakeups (rd_others r dc)"
proof -
  have "\<not> running (snd (Stop dc))" by (simp add: Stop_def running_of_view) (simp add: thread_view_def)
  then have "\<not> running (HandleWakeupOnce clock t nowMs (DrainEventFd (snd (Stop dc))))" by simp
  then show "PollLoop (r # rs) dc = (True, HandleWakeupOnce clock t nowMs (DrainEventFd (snd (Stop dc))))"
    "\<not> running (snd (PollLoop (r # rs) dc))"
    using assms by (cases rs; simp add: Let_def)+
  show "0 < wakeups (rd_others r dc)" if "notifyEventFd dc \<noteq> None" using assms(1,3) that by (auto simp: Stop_def WakeWorkerByEventFd_def)
qed

text \<open>
  When a wait fails the thread ends and the flag stays set. From then on nobody handles the port: starting it again does nothing and reports
  success, as does everything that adds clients to it.
\<close>

lemma failed_wait:
  assumes "running dc" "rd_poll r = PollFailed" "running (rd_others r dc)"
  shows "PollLoop (r # rs) dc = (True, rd_others r dc)" "Start os (rd_others r dc) = (OH_MIDI_STATUS_OK, rd_others r dc)"
  using assms by (simp_all add: Start_def)

text \<open>The thread goes on as long as waits are interrupted or end with work, and the flag is set.\<close>

lemma thread_goes_on:
  assumes "running dc" "\<forall>r\<in>set rs. rd_poll r \<noteq> PollFailed \<and> (\<forall>dc. running (rd_others r dc) = running dc)"
  shows "\<not> fst (PollLoop rs dc) \<and> running (snd (PollLoop rs dc))"
  using assms
proof (induction rs arbitrary: dc)
  case (Cons r rs)
  then show ?case by (cases "rd_poll r") (simp_all add: Let_def)
qed simp

text \<open>So a port that is stopped at any time is left by its thread.\<close>

lemma thread_ends:
  assumes "running dc" "\<forall>r\<in>set rs. rd_poll r \<noteq> PollFailed \<and> (\<forall>dc. running (rd_others r dc) = running dc)"
    "rd_others r = snd \<circ> Stop" "rd_poll r = Woken clock t nowMs"
  shows "fst (PollLoop (rs @ r # ss) dc) \<and> \<not> running (snd (PollLoop (rs @ r # ss) dc))"
proof -
  obtain dc' where P: "PollLoop rs dc = (False, dc')" "running dc'" using thread_goes_on [OF assms(1,2)] by (cases "PollLoop rs dc") auto
  have "PollLoop (rs @ r # ss) dc = PollLoop (r # ss) dc'" using P(1) unfolding PollLoop_append by simp
  then show ?thesis using thread_stops(1,2) [OF P(2) assms(4,3)] by simp
qed

end
