(* ===== verification/Usb_Driver.thy ===== *)
theory Usb_Driver
  imports Device_Manager
begin

text \<open>
  \<^verbatim>\<open>services/server/src/midi_device_usb.cpp\<close>: the driver over the hardware interface. The interface is not part of the
  repository: it is a record of functions on a state \<open>'h\<close>, absent when it could not be obtained.
  \<^verbatim>\<open>StringToNum\<close> of \<^verbatim>\<open>midi_utils.h\<close>, which reads the identifiers of a device, is here too.
\<close>

section \<open>Numbers from strings\<close>

definition BASE_DECIMAL :: nat where "BASE_DECIMAL = 10"
definition BASE_HEXADECIMAL :: nat where "BASE_HEXADECIMAL = 16"
definition PREFIX_LENGTH :: nat where "PREFIX_LENGTH = 2"

text \<open>
  \<open>std::from_chars\<close> for an unsigned 64 bit integer: the longest run of digits, no sign, no prefix. The result is whether it
  succeeded, the rest of the string, and the value, which stays as it was when there is no digit or the number is too large.
\<close>

definition digit_value :: "nat \<Rightarrow> char \<Rightarrow> nat option" where
  "digit_value base c =
     (let k = of_char c :: nat;
          v = (if 48 \<le> k \<and> k \<le> 57 then k - 48 else if 97 \<le> k \<and> k \<le> 122 then k - 87
               else if 65 \<le> k \<and> k \<le> 90 then k - 55 else base)
      in if v < base then Some v else None)"

definition digits_value :: "nat \<Rightarrow> string \<Rightarrow> nat" where
  "digits_value base = foldl (\<lambda>n c. n * base + the (digit_value base c)) 0"

definition from_chars :: "string \<Rightarrow> u64 \<Rightarrow> nat \<Rightarrow> bool \<times> string \<times> u64" where
  "from_chars s out base =
     (let digits = takeWhile (\<lambda>c. digit_value base c \<noteq> None) s;
          rest = dropWhile (\<lambda>c. digit_value base c \<noteq> None) s;
          n = digits_value base digits
      in if digits = [] then (False, s, out)
         else if n < 2 ^ 64 then (True, rest, word_of_nat n) else (False, rest, out))"

definition StringToNum :: "string \<Rightarrow> u64 \<Rightarrow> nat \<Rightarrow> bool \<times> u64" where
  "StringToNum str out base =
     (if str = [] then (False, out)
      else
        let dat = (if base = BASE_HEXADECIMAL \<and> length str \<ge> PREFIX_LENGTH \<and> str ! 0 = CHR ''0''
                        \<and> (str ! 1 = CHR ''x'' \<or> str ! 1 = CHR ''X'')
                   then drop PREFIX_LENGTH str else str)
        in if dat = [] then (False, out)
           else (case from_chars dat out base of (ec, rest, n) \<Rightarrow> (ec \<and> rest = [], n)))"

definition StringToDecNum :: "string \<Rightarrow> u64 \<Rightarrow> bool \<times> u64" where
  "StringToDecNum str out = StringToNum str out BASE_DECIMAL"

definition StringToHexNum :: "string \<Rightarrow> u64 \<Rightarrow> bool \<times> u64" where
  "StringToHexNum str out = StringToNum str out BASE_HEXADECIMAL"

section \<open>The hardware interface\<close>

text \<open>What the driver uses of the interface's own structures. The numbers of the enumerations are those that the code compares with.\<close>

record HdiPortInfo =
  hp_portId :: int
  hp_name :: string
  hp_direction :: int

record HdiDeviceInfo =
  hd_deviceId :: int
  hd_protocol :: int
  hd_deviceName :: string
  hd_productId :: string
  hd_vendorId :: string
  hd_ports :: "HdiPortInfo list"

record HdiMessage =
  hm_timestamp :: int
  hm_data :: "u32 list"

record 'h IMidiInterface =
  hdi_GetDeviceList :: "'h \<Rightarrow> int \<times> HdiDeviceInfo list"
  hdi_OpenDevice :: "int \<Rightarrow> 'h \<Rightarrow> int \<times> 'h"
  hdi_CloseDevice :: "int \<Rightarrow> 'h \<Rightarrow> int \<times> 'h"
  hdi_OpenInputPort :: "int \<Rightarrow> u32 \<Rightarrow> 'h \<Rightarrow> int \<times> 'h"
  hdi_CloseInputPort :: "int \<Rightarrow> u32 \<Rightarrow> 'h \<Rightarrow> int \<times> 'h"
  hdi_OpenOutputPort :: "int \<Rightarrow> u32 \<Rightarrow> 'h \<Rightarrow> int \<times> 'h"
  hdi_CloseOutputPort :: "int \<Rightarrow> u32 \<Rightarrow> 'h \<Rightarrow> int \<times> 'h"
  hdi_SendMidiMessages :: "int \<Rightarrow> u32 \<Rightarrow> HdiMessage list \<Rightarrow> 'h \<Rightarrow> int \<times> 'h"

definition direction_of :: "int \<Rightarrow> PortDirection option" where
  "direction_of n = (if n = 0 then Some PORT_DIRECTION_INPUT else if n = 1 then Some PORT_DIRECTION_OUTPUT else None)"

definition protocol_of :: "int \<Rightarrow> TransportProtocol option" where
  "protocol_of n = (if n = 1 then Some PROTOCOL_1_0 else if n = 2 then Some PROTOCOL_2_0 else None)"

section \<open>The driver\<close>

text \<open>The devices are converted after their protocol was checked, so that it is an argument here.\<close>

definition Usb_ConvertToDeviceInformation :: "TransportProtocol \<Rightarrow> HdiDeviceInfo \<Rightarrow> MidiPortInfo list" where
  "Usb_ConvertToDeviceInformation protocol device =
     List.map_filter (\<lambda>port.
       case direction_of (hp_direction port) of
         None \<Rightarrow> None
       | Some dir \<Rightarrow> Some \<lparr>portId = hp_portId port, port_name = hp_name port, direction = dir, port_transportProtocol = protocol\<rparr>)
     (hd_ports device)"

definition usb_device :: "TransportProtocol \<Rightarrow> HdiDeviceInfo \<Rightarrow> DeviceInformation" where
  "usb_device protocol device =
     \<lparr>midiDeviceInfo = default_MidiDeviceInfo\<lparr>
        driverDeviceId := hd_deviceId device, deviceType := DEVICE_TYPE_USB, transportProtocol := protocol, address := [],
        deviceName := hd_deviceName device,
        productId := snd (StringToHexNum (hd_productId device) 0), vendorId := snd (StringToHexNum (hd_vendorId device) 0)\<rparr>,
      portInfos = Usb_ConvertToDeviceInformation protocol device\<rparr>"

definition Usb_GetRegisteredDevices :: "'h IMidiInterface option \<Rightarrow> 'h \<Rightarrow> DeviceInformation list" where
  "Usb_GetRegisteredDevices midiHdi h =
     (case midiHdi of
        None \<Rightarrow> []
      | Some hdi \<Rightarrow>
          (case hdi_GetDeviceList hdi h of (ret, deviceList) \<Rightarrow>
             if ret \<noteq> OH_MIDI_STATUS_OK then []
             else List.map_filter (\<lambda>device. map_option (\<lambda>p. usb_device p device) (protocol_of (hd_protocol device))) deviceList))"

text \<open>What the remaining operations share: the check for the interface and its answer.\<close>

definition with_hdi :: "('h IMidiInterface \<Rightarrow> 'h \<Rightarrow> int \<times> 'h) \<Rightarrow> 'h IMidiInterface option \<Rightarrow> 'h \<Rightarrow> int \<times> 'h" where
  "with_hdi f midiHdi h = (case midiHdi of None \<Rightarrow> (OH_MIDI_STATUS_SYSTEM_ERROR, h) | Some hdi \<Rightarrow> f hdi h)"

definition usb_driver :: "'h IMidiInterface option \<Rightarrow> 'h MidiDeviceDriver" where
  "usb_driver midiHdi =
     \<lparr>drv_GetRegisteredDevices = Usb_GetRegisteredDevices midiHdi,
      drv_OpenDevice = (\<lambda>i. with_hdi (\<lambda>hdi. hdi_OpenDevice hdi i) midiHdi),
      drv_OpenBleDevice = (\<lambda>addr h. (- 1, h)),
      drv_CloseDevice = (\<lambda>i h. case with_hdi (\<lambda>hdi. hdi_CloseDevice hdi i) midiHdi h of (ret, h) \<Rightarrow> (ret, [], h)),
      drv_OpenInputPort = (\<lambda>i p. with_hdi (\<lambda>hdi. hdi_OpenInputPort hdi i p) midiHdi),
      drv_OpenOutputPort = (\<lambda>i p. with_hdi (\<lambda>hdi. hdi_OpenOutputPort hdi i p) midiHdi),
      drv_CloseInputPort = (\<lambda>i p. with_hdi (\<lambda>hdi. hdi_CloseInputPort hdi i p) midiHdi),
      drv_CloseOutputPort = (\<lambda>i p. with_hdi (\<lambda>hdi. hdi_CloseOutputPort hdi i p) midiHdi)\<rparr>"

text \<open>
  The words of an event are read without a check of the pointer: \<open>None\<close> when that is undefined.
\<close>

definition usb_message :: "MidiEventInner \<Rightarrow> HdiMessage option" where
  "usb_message event =
     map_option (\<lambda>words. \<lparr>hm_timestamp = sint (timestamp event), hm_data = words\<rparr>)
       (if ev_length event = 0 then Some [] else map_option (\<lambda>p. read_words p (ev_length event)) (ev_data event))"

definition Usb_HandleUmpInput ::
  "'h IMidiInterface option \<Rightarrow> int \<Rightarrow> u32 \<Rightarrow> MidiEventInner list \<Rightarrow> 'h \<Rightarrow> (int \<times> 'h) option" where
  "Usb_HandleUmpInput midiHdi i portIndex es h =
     (case midiHdi of
        None \<Rightarrow> Some (OH_MIDI_STATUS_SYSTEM_ERROR, h)
      | Some hdi \<Rightarrow>
          map_option (\<lambda>messages. hdi_SendMidiMessages hdi i portIndex messages h) (those (map usb_message es)))"

text \<open>
  The callback of an input port: what it is called with, if it is called. The words of an event lie in the message, with
  \<open>beyond\<close> behind them.
\<close>

definition OnMidiDataReceived :: "(nat \<Rightarrow> u32) \<Rightarrow> HdiMessage list \<Rightarrow> MidiEventInner list option" where
  "OnMidiDataReceived beyond messages =
     (let events = map (\<lambda>m. \<lparr>timestamp = word_of_int (hm_timestamp m), ev_length = length (hm_data m), ev_data = Some (ptr_to (hm_data m) beyond)\<rparr>)
                     (filter (\<lambda>m. hm_data m \<noteq> []) messages)
      in if events = [] then None else Some events)"

section \<open>Reading a number that was printed\<close>

text \<open>The digits of a number in lower case, without leading zeros.\<close>

fun hex :: "nat \<Rightarrow> string" where
  "hex n = (if n < 16 then [] else hex (n div 16)) @ [''0123456789abcdef'' ! (n mod 16)]"

declare hex.simps [simp del]

lemma hex_digit_value: "k < 16 \<Longrightarrow> digit_value 16 (''0123456789abcdef'' ! k) = Some k"
proof -
  have "\<forall>k\<in>set [0..<16]. digit_value 16 (''0123456789abcdef'' ! k) = Some k"
    by (simp add: upt_rec digit_value_def of_char_def)
  then show "k < 16 \<Longrightarrow> digit_value 16 (''0123456789abcdef'' ! k) = Some k" by simp
qed

lemma digits_value_snoc: "digits_value base (ds @ [c]) = digits_value base ds * base + the (digit_value base c)"
  by (simp add: digits_value_def)

lemma hex_value: "digits_value 16 (hex n) = n \<and> (\<forall>c\<in>set (hex n). digit_value 16 c \<noteq> None) \<and> hex n \<noteq> []"
proof (induction n rule: hex.induct)
  case (1 n)
  have d: "digit_value 16 (''0123456789abcdef'' ! (n mod 16)) = Some (n mod 16)" by (rule hex_digit_value) simp
  show ?case
  proof (cases "n < 16")
    case True
    then have "hex n = [] @ [''0123456789abcdef'' ! (n mod 16)]" by (subst hex.simps) simp
    then show ?thesis using d True by (simp only: digits_value_snoc) (simp add: digits_value_def)
  next
    case False
    then have "hex n = hex (n div 16) @ [''0123456789abcdef'' ! (n mod 16)]" by (subst hex.simps) simp
    then show ?thesis using d False 1 by (simp only: digits_value_snoc) auto
  qed
qed

lemma from_chars_digits:
  assumes "ds \<noteq> []" "\<forall>c\<in>set ds. digit_value base c \<noteq> None" "stop = [] \<or> digit_value base (hd stop) = None"
  shows "from_chars (ds @ stop) out base
     = (digits_value base ds < 2 ^ 64, stop, if digits_value base ds < 2 ^ 64 then word_of_nat (digits_value base ds) else out)"
proof -
  have "takeWhile (\<lambda>c. digit_value base c \<noteq> None) stop = []" "dropWhile (\<lambda>c. digit_value base c \<noteq> None) stop = stop"
    using assms(3) by (cases stop; auto)+
  then show ?thesis using assms(1,2) by (simp add: from_chars_def takeWhile_append2 dropWhile_append2)
qed

lemma not_digit_x: "digit_value 16 CHR ''x'' = None" "digit_value 16 CHR ''X'' = None"
  by code_simp+

text \<open>With or without a prefix, and with what follows the number: neither a digit nor an \<open>x\<close> right behind it.\<close>

definition ends_number :: "string \<Rightarrow> bool" where
  "ends_number stop = (case stop of [] \<Rightarrow> True | c # _ \<Rightarrow> digit_value 16 c = None \<and> c \<noteq> CHR ''x'' \<and> c \<noteq> CHR ''X'')"

lemma StringToHexNum_hex:
  assumes "pre \<in> {[], ''0x'', ''0X''}" "ends_number stop"
  shows "StringToHexNum (pre @ hex n @ stop) out = (n < 2 ^ 64 \<and> stop = [], if n < 2 ^ 64 then word_of_nat n else out)"
proof -
  have h: "digits_value 16 (hex n) = n" "\<forall>c\<in>set (hex n). digit_value 16 c \<noteq> None" "hex n \<noteq> []" using hex_value [of n] by auto
  have f: "from_chars (hex n @ stop) out 16 = (n < 2 ^ 64, stop, if n < 2 ^ 64 then word_of_nat n else out)"
    using from_chars_digits [OF h(3,2), of stop out] assms(2)
    by (cases stop) (simp_all add: h(1) ends_number_def)
  show ?thesis
  proof (cases "pre = []")
    case True
    have "\<not> (2 \<le> length (hex n @ stop) \<and> ((hex n @ stop) ! 1 = CHR ''x'' \<or> (hex n @ stop) ! 1 = CHR ''X''))"
    proof (cases "1 < length (hex n)")
      case True
      then have "digit_value 16 (hex n ! 1) \<noteq> None" using h(2) nth_mem by blast
      then show ?thesis using True not_digit_x by (metis nth_append)
    next
      case False
      then show ?thesis using h(3) assms(2) by (cases "hex n"; cases stop; simp add: ends_number_def)
    qed
    then show ?thesis using True f h(3)
      by (auto simp: StringToHexNum_def StringToNum_def BASE_HEXADECIMAL_def PREFIX_LENGTH_def)
  next
    case False
    then have "drop 2 (pre @ hex n @ stop) = hex n @ stop" "(pre @ hex n @ stop) ! 0 = CHR ''0''"
      "(pre @ hex n @ stop) ! 1 = CHR ''x'' \<or> (pre @ hex n @ stop) ! 1 = CHR ''X''" "2 \<le> length (pre @ hex n @ stop)"
      using assms(1) by auto
    then show ?thesis using f h(3)
      by (auto simp: StringToHexNum_def StringToNum_def Let_def BASE_HEXADECIMAL_def PREFIX_LENGTH_def)
  qed
qed

section \<open>The devices that the driver reports\<close>

text \<open>How a device of the interface appears in the service.\<close>

definition port_shown :: "HdiPortInfo \<Rightarrow> MidiPortInfo \<Rightarrow> bool" where
  "port_shown port p \<longleftrightarrow> portId p = hp_portId port \<and> port_name p = hp_name port \<and> direction_of (hp_direction port) = Some (direction p)"

definition device_shown :: "HdiDeviceInfo \<Rightarrow> DeviceInformation \<Rightarrow> bool" where
  "device_shown device dev \<longleftrightarrow>
     driverDeviceId (midiDeviceInfo dev) = hd_deviceId device \<and> deviceType (midiDeviceInfo dev) = DEVICE_TYPE_USB
     \<and> address (midiDeviceInfo dev) = [] \<and> deviceName (midiDeviceInfo dev) = hd_deviceName device
     \<and> protocol_of (hd_protocol device) = Some (transportProtocol (midiDeviceInfo dev))
     \<and> list_all2 port_shown (filter (\<lambda>port. hp_direction port \<in> {0, 1}) (hd_ports device)) (portInfos dev)
     \<and> (\<forall>p\<in>set (portInfos dev). port_transportProtocol p = transportProtocol (midiDeviceInfo dev))"

lemma list_all2_map_filter:
  "(\<And>x. x \<in> set xs \<Longrightarrow> P x \<longleftrightarrow> f x \<noteq> None) \<Longrightarrow> (\<And>x y. x \<in> set xs \<Longrightarrow> f x = Some y \<Longrightarrow> R x y)
   \<Longrightarrow> list_all2 R (filter P xs) (List.map_filter f xs)"
  by (induction xs) (auto simp: map_filter_simps split: option.splits)

lemma usb_ports_shown:
  "list_all2 port_shown (filter (\<lambda>port. hp_direction port \<in> {0, 1}) (hd_ports device)) (Usb_ConvertToDeviceInformation protocol device)"
  unfolding Usb_ConvertToDeviceInformation_def
  by (rule list_all2_map_filter) (auto simp: port_shown_def direction_of_def split: if_splits)

lemma usb_device_shown: "protocol_of (hd_protocol device) = Some protocol \<Longrightarrow> device_shown device (usb_device protocol device)"
  using usb_ports_shown [of device protocol]
  by (auto simp: device_shown_def usb_device_def Usb_ConvertToDeviceInformation_def map_filter_def split: option.splits)

lemma usb_devices_shown:
  assumes "hdi_GetDeviceList hdi h = (OH_MIDI_STATUS_OK, deviceList)"
  shows "list_all2 device_shown (filter (\<lambda>device. hd_protocol device \<in> {1, 2}) deviceList) (Usb_GetRegisteredDevices (Some hdi) h)"
  unfolding Usb_GetRegisteredDevices_def option.case assms prod.case
  by (simp, rule list_all2_map_filter) (auto simp: protocol_of_def usb_device_shown)

text \<open>
  A text that stands for a number: an optional prefix, the digits, and anything that ends them.
\<close>

definition reads_as :: "string \<Rightarrow> nat \<Rightarrow> bool" where
  "reads_as s n \<longleftrightarrow> (\<exists>pre stop. s = pre @ hex n @ stop \<and> pre \<in> {[], ''0x'', ''0X''} \<and> ends_number stop)"

lemma reads_as_value: "reads_as s n \<Longrightarrow> snd (StringToHexNum s 0) = (if n < 2 ^ 64 then word_of_nat n else 0)"
  unfolding reads_as_def by (elim exE conjE) (simp only: StringToHexNum_hex snd_conv)

definition ids_shown :: "HdiDeviceInfo \<Rightarrow> DeviceInformation \<Rightarrow> bool" where
  "ids_shown device dev \<longleftrightarrow>
     (\<forall>n. reads_as (hd_productId device) n \<longrightarrow> productId (midiDeviceInfo dev) = (if n < 2 ^ 64 then word_of_nat n else 0))
     \<and> (\<forall>n. reads_as (hd_vendorId device) n \<longrightarrow> vendorId (midiDeviceInfo dev) = (if n < 2 ^ 64 then word_of_nat n else 0))"

lemma usb_device_ids: "ids_shown device (usb_device protocol device)"
  by (simp add: ids_shown_def usb_device_def reads_as_value)

lemma usb_ids_shown:
  assumes "hdi_GetDeviceList hdi h = (OH_MIDI_STATUS_OK, deviceList)"
  shows "list_all2 ids_shown (filter (\<lambda>device. hd_protocol device \<in> {1, 2}) deviceList) (Usb_GetRegisteredDevices (Some hdi) h)"
  unfolding Usb_GetRegisteredDevices_def option.case assms prod.case
  by (simp, rule list_all2_map_filter) (auto simp: protocol_of_def usb_device_ids)

text \<open>
  C37: the devices that the USB driver reports are those of the hardware interface with a protocol of the two that exist, in order, each with
  its name and number, with type USB and no address, and with exactly those of its ports that are an input or an output. The
  product and the vendor identifier are the numbers that the texts of the interface begin with in hexadecimal, with or without
  a prefix, and 0 for a number that does not fit; what follows the number is ignored. There is no device when the interface is missing or reports an error.
\<close>

theorem usb_devices:
  assumes "hdi_GetDeviceList hdi h = (ret, deviceList)"
  shows "drv_GetRegisteredDevices (usb_driver None) h = []
     \<and> (ret \<noteq> OH_MIDI_STATUS_OK \<longrightarrow> drv_GetRegisteredDevices (usb_driver (Some hdi)) h = [])
     \<and> (ret = OH_MIDI_STATUS_OK \<longrightarrow>
          (let shown = filter (\<lambda>device. hd_protocol device \<in> {1, 2}) deviceList;
               devs = drv_GetRegisteredDevices (usb_driver (Some hdi)) h
           in list_all2 device_shown shown devs \<and> list_all2 ids_shown shown devs))"
proof -
  have d: "drv_GetRegisteredDevices (usb_driver midiHdi) h = Usb_GetRegisteredDevices midiHdi h" for midiHdi :: "'a IMidiInterface option"
    by (simp add: usb_driver_def)
  have "Usb_GetRegisteredDevices None h = []" "ret \<noteq> OH_MIDI_STATUS_OK \<longrightarrow> Usb_GetRegisteredDevices (Some hdi) h = []"
    by (simp_all add: Usb_GetRegisteredDevices_def assms)
  then show ?thesis using assms unfolding d Let_def by (blast intro: usb_devices_shown usb_ids_shown)
qed

text \<open>A device with an input port, a port of an unknown direction and a product identifier, and a device with an unknown protocol.\<close>

definition demo_hdi :: "unit IMidiInterface" where
  "demo_hdi =
     \<lparr>hdi_GetDeviceList = (\<lambda>h. (0,
        [\<lparr>hd_deviceId = 3, hd_protocol = 2, hd_deviceName = ''Piano'', hd_productId = ''0x1f'', hd_vendorId = ''a0 '',
          hd_ports = [\<lparr>hp_portId = 0, hp_name = ''In'', hp_direction = 0\<rparr>, \<lparr>hp_portId = 1, hp_name = ''?'', hp_direction = 2\<rparr>]\<rparr>,
         \<lparr>hd_deviceId = 4, hd_protocol = 3, hd_deviceName = ''Drum'', hd_productId = '''', hd_vendorId = '''', hd_ports = []\<rparr>])),
      hdi_OpenDevice = (\<lambda>i h. (0, h)), hdi_CloseDevice = (\<lambda>i h. (0, h)),
      hdi_OpenInputPort = (\<lambda>i p h. (0, h)), hdi_CloseInputPort = (\<lambda>i p h. (0, h)),
      hdi_OpenOutputPort = (\<lambda>i p h. (0, h)), hdi_CloseOutputPort = (\<lambda>i p h. (0, h)),
      hdi_SendMidiMessages = (\<lambda>i p ms h. (0, h))\<rparr>"

theorem usb_devices_witness:
  "\<exists>dev. drv_GetRegisteredDevices (usb_driver (Some demo_hdi)) () = [dev] \<and> driverDeviceId (midiDeviceInfo dev) = 3
     \<and> productId (midiDeviceInfo dev) = 0x1F \<and> vendorId (midiDeviceInfo dev) = 0xA0 \<and> length (portInfos dev) = 1"
proof -
  have h: "hex 31 = ''1f''" "hex 160 = ''a0''" by code_simp+
  have n: "digit_value 16 CHR '' '' = None" by code_simp
  have p: "reads_as ''0x1f'' 31" unfolding reads_as_def by (intro exI [of _ "''0x''"] exI [of _ "[]"]) (simp add: h ends_number_def)
  have v: "reads_as ''a0 '' 160" unfolding reads_as_def by (intro exI [of _ "[]"] exI [of _ "'' ''"]) (simp add: h n ends_number_def)
  show ?thesis using usb_devices [of demo_hdi "()" OH_MIDI_STATUS_OK] p v
    by (auto simp: demo_hdi_def OH_MIDI_STATUS_OK_def Let_def list_all2_Cons1 device_shown_def ids_shown_def)
qed

section \<open>Events on their way\<close>

definition carried :: "MidiEventInner \<Rightarrow> u64 \<times> u32 list option" where
  "carried e = (timestamp e, map_option (\<lambda>p. read_words p (ev_length e)) (ev_data e))"

lemma usb_message_parts:
  assumes "usb_message e = Some m"
  shows "word_of_int (hm_timestamp m) = timestamp e" "hm_data m = [] \<longleftrightarrow> ev_length e = 0"
    "ev_length e \<noteq> 0 \<Longrightarrow> carried e = (timestamp e, Some (hm_data m))"
proof -
  have "length (hm_data m) = ev_length e" "word_of_int (hm_timestamp m) = timestamp e"
    "ev_length e \<noteq> 0 \<longrightarrow> carried e = (timestamp e, Some (hm_data m))"
    using assms by (auto simp: usb_message_def carried_def split: if_splits)
  then show "word_of_int (hm_timestamp m) = timestamp e" "hm_data m = [] \<longleftrightarrow> ev_length e = 0"
    "ev_length e \<noteq> 0 \<Longrightarrow> carried e = (timestamp e, Some (hm_data m))" by (simp_all flip: length_0_conv)
qed

lemma usb_messages_carried:
  assumes "those (map usb_message es) = Some messages"
  shows "map (\<lambda>m. (word_of_int (hm_timestamp m), Some (hm_data m))) (filter (\<lambda>m. hm_data m \<noteq> []) messages)
       = map carried (filter (\<lambda>e. ev_length e \<noteq> 0) es)"
  using assms
proof (induction es arbitrary: messages)
  case (Cons e es)
  then obtain m ms where m: "usb_message e = Some m" "those (map usb_message es) = Some ms" "messages = m # ms"
    by (auto split: option.splits)
  then show ?case using Cons.IH [OF m(2)] usb_message_parts [OF m(1)] by (cases "ev_length e = 0") simp_all
qed simp

text \<open>
  The messages that are sent for events give, when the interface hands them to the callback of an input port, the events again, with their
  words and their timestamps, those without words left out.
\<close>

lemma usb_events:
  assumes "those (map usb_message es) = Some messages"
  shows "map carried (case OnMidiDataReceived beyond messages of None \<Rightarrow> [] | Some evs \<Rightarrow> evs)
       = map carried (filter (\<lambda>e. ev_length e \<noteq> 0) es)"
proof -
  have "map carried (case OnMidiDataReceived beyond messages of None \<Rightarrow> [] | Some evs \<Rightarrow> evs)
      = map (\<lambda>m. (word_of_int (hm_timestamp m), Some (hm_data m))) (filter (\<lambda>m. hm_data m \<noteq> []) messages)"
    by (simp add: OnMidiDataReceived_def Let_def carried_def)
  then show ?thesis using usb_messages_carried [OF assms] by simp
qed

end
