(* ===== verification/Text_Dump.thy ===== *)
theory Text_Dump
  imports Service_Controller Midi_Utils Usb_Driver
begin

text \<open>
  \<^verbatim>\<open>services/server/src/midi_server_dump.cpp\<close> and the functions of the controller that it calls: the text that shows
  the state of the service. The code appends to a string that all functions share; here each function returns what it appends.
  \<open>nowMs\<close> is the reading of the clock.
\<close>

section \<open>Numbers and lists\<close>

definition nl :: string where "nl = [CHR 0x0A]"

definition quoted :: "string \<Rightarrow> string" where
  "quoted s = [CHR 0x22] @ s @ [CHR 0x22]"

definition to_string :: "int \<Rightarrow> string" where
  "to_string i = (if i < 0 then ''-'' @ decimal (nat (- i)) else decimal (nat i))"

text \<open>
  \<open>std::to_string\<close> of a number of milliseconds divided by 1000.0: six digits behind the point. The division in double precision is
  within half a unit of the sixth digit while there are fewer than 2 to the 42 milliseconds (139 years).
\<close>

definition seconds :: "int \<Rightarrow> string" where
  "seconds ms =
     (let n = nat \<bar>ms\<bar>; r = n mod 1000
      in (if ms < 0 then ''-'' else []) @ decimal (n div 1000) @ ''.''
         @ concat (map decimal [r div 100, r div 10 mod 10, r mod 10]) @ ''000'')"

text \<open>The loops that put a comma before every element but the first.\<close>

definition comma_list :: "string list \<Rightarrow> string" where
  "comma_list xs = concat (case xs of [] \<Rightarrow> [] | y # ys \<Rightarrow> y # map (\<lambda>s. '', '' @ s) ys)"

section \<open>Clients\<close>

definition DumpSingleClientInfo :: "u32 \<Rightarrow> 'd MidiServiceController \<Rightarrow> string" where
  "DumpSingleClientInfo c st =
     ''  Client '' @ decimal (unat c) @ '':'' @ nl
     @ (case find_key (clientResourceInfo st) c of
          None \<Rightarrow> []
        | Some r \<Rightarrow>
            ''    - UID: '' @ decimal (unat (uid r)) @ nl
            @ ''    - Open Devices: ['' @ comma_list (map to_string (openDevices r)) @ '']'' @ nl
            @ ''    - Open Ports: '' @ decimal (unat (openPortCount r)) @ nl @ nl)"

definition DumpResourceLimits :: string where
  "DumpResourceLimits =
     ''Resource Limits:'' @ nl
     @ ''  MAX_CLIENTS: '' @ decimal MAX_CLIENTS @ nl
     @ ''  MAX_CLIENTS_PER_APP: '' @ decimal MAX_CLIENTS_PER_APP @ nl
     @ ''  MAX_DEVICES_PER_CLIENT: '' @ decimal MAX_DEVICES_PER_CLIENT @ nl
     @ ''  MAX_PORTS_PER_CLIENT: '' @ decimal (unat MAX_PORTS_PER_CLIENT) @ nl"

definition DumpClientInfo :: "'d MidiServiceController \<Rightarrow> string" where
  "DumpClientInfo st =
     ''[Client Information]'' @ nl
     @ ''- '' @ decimal (length (sc_clients st)) @ '' Client(s) connected:'' @ nl @ nl
     @ concat (map (\<lambda>c. DumpSingleClientInfo c st) (sc_clients st))
     @ DumpResourceLimits"

text \<open>The set of the clients of a device holds signed numbers.\<close>

definition DumpDeviceOpenStatus :: "int \<Rightarrow> 'd MidiServiceController \<Rightarrow> string" where
  "DumpDeviceOpenStatus d st =
     (case find_ctx st d of
        None \<Rightarrow> ''    - Opened by: (none)'' @ nl
      | Some ctx \<Rightarrow>
          ''    - Opened by '' @ decimal (length (ctx_clients ctx)) @ '' client(s): [''
          @ comma_list (map (\<lambda>c. to_string (sint c)) (ctx_clients ctx)) @ '']'' @ nl)"

section \<open>Ports\<close>

definition DumpSinglePort :: "int \<Rightarrow> u32 \<Rightarrow> string \<Rightarrow> 'a DeviceConnection_scheme \<Rightarrow> string" where
  "DumpSinglePort nowMs p portName conn =
     ''    - Port '' @ decimal (unat p) @ '': '' @ ''active''
     @ (if portName \<noteq> [] then '' '' @ quoted portName else []) @ nl
     @ (let clientIds = GetConnectedClientIds conn
        in ''      Opened by: '' @ decimal (length clientIds) @ '' client(s) [''
           @ comma_list (map (\<lambda>c. decimal (unat c)) clientIds) @ '']'' @ nl)
     @ (let s = GetStats nowMs conn
        in ''      Events: '' @ decimal (unat (eventCount s))
           @ '' (over '' @ seconds (statsDurationMs s) @ ''s)'' @ nl
           @ ''      Bytes: '' @ decimal (unat (byteCount s)) @ nl)"

text \<open>Both overloads of \<open>DumpPortList\<close> have the same body.\<close>

definition DumpPortList ::
  "int \<Rightarrow> string \<Rightarrow> int \<Rightarrow> (u32 \<times> 'a DeviceConnection_scheme) list \<Rightarrow> 'd MidiDeviceManager \<Rightarrow> string" where
  "DumpPortList nowMs label d ports m =
     ''  '' @ label @ '':'' @ nl
     @ (if ports = [] then ''    (none)'' @ nl
        else let infos = snd (GetDevicePorts d m)
             in concat (map (\<lambda>(p, conn).
                  DumpSinglePort nowMs p (case find (\<lambda>i. portId i = int (unat p)) infos of None \<Rightarrow> [] | Some i \<Rightarrow> port_name i) conn) ports))"

definition device_title :: "int \<Rightarrow> 'd MidiDeviceManager \<Rightarrow> string" where
  "device_title d m =
     ''Device '' @ to_string d @ '' ('' @ GetEncryptStr (deviceName (midiDeviceInfo (GetDeviceForDeviceId d m))) @ ''):'' @ nl"

definition DumpDevicePortMapping :: "int \<Rightarrow> int \<Rightarrow> DeviceClientContext \<Rightarrow> 'd MidiDeviceManager \<Rightarrow> string" where
  "DumpDevicePortMapping nowMs d ctx m =
     nl @ device_title d m
     @ DumpPortList nowMs ''Input Ports'' d (inputConnections ctx) m
     @ DumpPortList nowMs ''Output Ports'' d (outputConnections ctx) m"

definition DumpPortMapping :: "int \<Rightarrow> 'd MidiServiceController \<Rightarrow> string" where
  "DumpPortMapping nowMs st =
     ''[Port Mapping]'' @ nl
     @ concat (map (\<lambda>(d, ctx). DumpDevicePortMapping nowMs d ctx (manager st)) (deviceClientContexts st))"

section \<open>Statistics\<close>

record DeviceStatisticsTotals =
  inputEvents :: u64
  outputEvents :: u64
  inputBytes :: u64
  outputBytes :: u64

text \<open>The loop over the connections of one direction.\<close>

definition port_totals :: "int \<Rightarrow> (u32 \<times> 'a DeviceConnection_scheme) list \<Rightarrow> u64 \<times> u64" where
  "port_totals nowMs ports =
     fold (\<lambda>(p, conn) (n, b). let s = GetStats nowMs conn in (n + eventCount s, b + byteCount s)) ports (0, 0)"

definition DumpDeviceStatistics ::
  "int \<Rightarrow> int \<Rightarrow> DeviceClientContext \<Rightarrow> 'd MidiDeviceManager \<Rightarrow> DeviceStatisticsTotals \<Rightarrow> string \<times> DeviceStatisticsTotals" where
  "DumpDeviceStatistics nowMs d ctx m totals =
     (case (port_totals nowMs (inputConnections ctx), port_totals nowMs (outputConnections ctx)) of ((inE, inB), (outE, outB)) \<Rightarrow>
        (''  '' @ device_title d m
         @ ''    Input Events: '' @ decimal (unat inE) @ nl
         @ ''    Output Events: '' @ decimal (unat outE) @ nl
         @ ''    Input Bytes: '' @ decimal (unat inB) @ nl
         @ ''    Output Bytes: '' @ decimal (unat outB) @ nl @ nl,
         totals\<lparr>inputEvents := inputEvents totals + inE, outputEvents := outputEvents totals + outE,
                inputBytes := inputBytes totals + inB, outputBytes := outputBytes totals + outB\<rparr>))"

primrec DumpAllStatistics ::
  "int \<Rightarrow> (int \<times> DeviceClientContext) list \<Rightarrow> 'd MidiDeviceManager \<Rightarrow> DeviceStatisticsTotals \<Rightarrow> string \<times> DeviceStatisticsTotals" where
  "DumpAllStatistics nowMs [] m totals = ([], totals)"
| "DumpAllStatistics nowMs (x # xs) m totals =
     (case DumpDeviceStatistics nowMs (fst x) (snd x) m totals of (s, totals) \<Rightarrow>
        case DumpAllStatistics nowMs xs m totals of (s', totals) \<Rightarrow> (s @ s', totals))"

definition DumpStatistics :: "int \<Rightarrow> 'd MidiServiceController \<Rightarrow> string" where
  "DumpStatistics nowMs st =
     (case DumpAllStatistics nowMs (deviceClientContexts st) (manager st) \<lparr>inputEvents = 0, outputEvents = 0, inputBytes = 0, outputBytes = 0\<rparr> of
        (s, totals) \<Rightarrow>
          ''[Traffic Statistics]'' @ nl @ nl @ ''Per-Device Statistics:'' @ nl @ s
          @ ''System Totals:'' @ nl
          @ ''  Total Input Events: '' @ decimal (unat (inputEvents totals)) @ nl
          @ ''  Total Output Events: '' @ decimal (unat (outputEvents totals)) @ nl
          @ ''  Total Input Bytes: '' @ decimal (unat (inputBytes totals)) @ nl
          @ ''  Total Output Bytes: '' @ decimal (unat (outputBytes totals)) @ nl)"

section \<open>Devices\<close>

definition DeviceTypeToString :: "DeviceType \<Rightarrow> string" where
  "DeviceTypeToString t = (case t of DEVICE_TYPE_USB \<Rightarrow> ''USB'' | DEVICE_TYPE_BLE \<Rightarrow> ''BLE'')"

definition ProtocolToString :: "TransportProtocol \<Rightarrow> string" where
  "ProtocolToString p = (case p of PROTOCOL_1_0 \<Rightarrow> ''MIDI 1.0'' | PROTOCOL_2_0 \<Rightarrow> ''MIDI 2.0'')"

definition PortDirectionToString :: "PortDirection \<Rightarrow> string" where
  "PortDirectionToString dir = (case dir of PORT_DIRECTION_INPUT \<Rightarrow> ''INPUT'' | PORT_DIRECTION_OUTPUT \<Rightarrow> ''OUTPUT'')"

definition port_line :: "MidiPortInfo \<Rightarrow> string" where
  "port_line port =
     ''      - Port '' @ to_string (portId port) @ '': '' @ PortDirectionToString (direction port)
     @ '' ('' @ ProtocolToString (port_transportProtocol port) @ '') '' @ quoted (port_name port) @ nl"

definition device_text :: "ServiceEnv \<Rightarrow> 'd MidiServiceController \<Rightarrow> nat \<Rightarrow> MidiDeviceInfo \<Rightarrow> string" where
  "device_text env st i device =
     ''  Device '' @ decimal (i + 1) @ '':'' @ nl
     @ ''    - Device ID: '' @ to_string (deviceId device) @ nl
     @ ''    - Name: '' @ GetEncryptStr (deviceName device) @ nl
     @ ''    - Type: '' @ DeviceTypeToString (deviceType device) @ nl
     @ ''    - Address: '' @ GetEncryptStr (address device) @ nl
     @ ''    - Protocol: '' @ ProtocolToString (transportProtocol device) @ nl
     @ ''    - Product ID: 0x'' @ decimal (unat (productId device)) @ nl
     @ ''    - Vendor ID: 0x'' @ decimal (unat (vendorId device)) @ nl
     @ DumpDeviceOpenStatus (deviceId device) st
     @ (let infos = snd (Controller_GetDevicePorts env (deviceId device) st)
        in ''    - Ports ('' @ decimal (length infos) @ ''):'' @ nl @ concat (map port_line infos))
     @ nl"

definition DeviceListDump :: "ServiceEnv \<Rightarrow> 'd MidiServiceController \<Rightarrow> string" where
  "DeviceListDump env st =
     (let ds = GetDevices st
      in ''[Device List]'' @ nl
         @ ''- '' @ decimal (length ds) @ '' Device(s) available:'' @ nl @ nl
         @ concat (map (\<lambda>i. device_text env st i (ds ! i)) [0..<length ds]))"

section \<open>Commands\<close>

definition HelpInfoDump :: string where
  "HelpInfoDump =
     ''MIDI Service Dump Commands:'' @ nl
     @ ''  -h  | Help information'' @ nl
     @ ''  -d  | Dump device list and open status'' @ nl
     @ ''  -c  | Dump client information'' @ nl
     @ ''  -p  | Dump port mapping and open status'' @ nl
     @ ''  -s  | Dump traffic statistics'' @ nl
     @ nl @ ''Usage: hidumper -s <MIDI_SERVICE_ID> -a '' @ quoted ''<command>'' @ nl
     @ ''Example: hidumper -s <MIDI_SERVICE_ID> -a '' @ quoted ''-d -c'' @ nl"

definition DumpServiceStatus :: "'d MidiServiceController \<Rightarrow> string" where
  "DumpServiceStatus st =
     ''[Service Status]'' @ nl @ ''  Service State: Running'' @ nl
     @ ''  Total Devices: '' @ decimal (length (GetDevices st)) @ nl"

definition AllInfoDump :: "int \<Rightarrow> ServiceEnv \<Rightarrow> 'd MidiServiceController \<Rightarrow> string" where
  "AllInfoDump nowMs env st =
     replicate 16 (CHR ''='') @ '' MIDI Service Dump '' @ replicate 16 (CHR ''='') @ nl @ nl
     @ DumpServiceStatus st @ nl @ DeviceListDump env st @ nl @ DumpClientInfo st @ nl
     @ DumpPortMapping nowMs st @ nl @ DumpStatistics nowMs st
     @ nl @ replicate 50 (CHR ''='') @ nl"

text \<open>Arguments are strings of 16 bit units. The table of the commands; the controller always exists.\<close>

definition dumpFuncMap :: "int \<Rightarrow> ServiceEnv \<Rightarrow> 'd MidiServiceController \<Rightarrow> (u16 list \<times> string) list" where
  "dumpFuncMap nowMs env st =
     map (\<lambda>(k, s). (map (\<lambda>c. word_of_nat (of_char c)) k, s))
       [(''-h'', HelpInfoDump), (''-d'', DeviceListDump env st), (''-c'', DumpClientInfo st),
        (''-p'', DumpPortMapping nowMs st), (''-s'', DumpStatistics nowMs st)]"

definition UnknownParameterDump :: "u16 list \<Rightarrow> string" where
  "UnknownParameterDump para =
     ''Unknown parameter: '' @ map (\<lambda>c. char_of (unat c)) (filter (\<lambda>c. c < 0x80) para) @ nl @ nl @ HelpInfoDump"

primrec DumpArguments :: "(u16 list \<times> string) list \<Rightarrow> u16 list list \<Rightarrow> string" where
  "DumpArguments table [] = []"
| "DumpArguments table (para # argQue) =
     (case find_key table para of
        Some s \<Rightarrow> s @ DumpArguments table argQue
      | None \<Rightarrow> UnknownParameterDump para)"

definition HandleDump :: "int \<Rightarrow> ServiceEnv \<Rightarrow> u16 list list \<Rightarrow> 'd MidiServiceController \<Rightarrow> string" where
  "HandleDump nowMs env argQue st =
     (if argQue = [] then AllInfoDump nowMs env st else DumpArguments (dumpFuncMap nowMs env st) argQue)"

section \<open>The totals\<close>

text \<open>A number of all ports of one direction, added up with the wrap-around of 64 bits.\<close>

definition sum_ports :: "('b \<Rightarrow> u64) \<Rightarrow> (u32 \<times> 'b) list \<Rightarrow> u64" where
  "sum_ports f ports = (\<Sum>(p, conn)\<leftarrow>ports. f conn)"

lemma GetStats_counts [simp]:
  "eventCount (GetStats nowMs conn) = eventCount (stats conn)" "byteCount (GetStats nowMs conn) = byteCount (stats conn)"
  by (simp_all add: GetStats_def Let_def)

lemma port_totals_sum:
  "port_totals nowMs ports = (sum_ports (\<lambda>conn. eventCount (stats conn)) ports, sum_ports (\<lambda>conn. byteCount (stats conn)) ports)"
proof -
  have "fold (\<lambda>(p, conn) (n, b). let s = GetStats nowMs conn in (n + eventCount s, b + byteCount s)) ports (n0, b0)
      = (n0 + sum_ports (\<lambda>conn. eventCount (stats conn)) ports, b0 + sum_ports (\<lambda>conn. byteCount (stats conn)) ports)" for n0 b0
    by (induction ports arbitrary: n0 b0) (auto simp: sum_ports_def Let_def algebra_simps)
  then show ?thesis by (simp add: port_totals_def)
qed

definition sum_devices :: "(DeviceClientContext \<Rightarrow> u64) \<Rightarrow> (int \<times> DeviceClientContext) list \<Rightarrow> u64" where
  "sum_devices f ctxs = (\<Sum>(d, ctx)\<leftarrow>ctxs. f ctx)"

abbreviation (input) events_of_ports :: "(u32 \<times> 'a DeviceConnection_scheme) list \<Rightarrow> u64" where
  "events_of_ports \<equiv> sum_ports (\<lambda>conn. eventCount (stats conn))"

abbreviation (input) bytes_of_ports :: "(u32 \<times> 'a DeviceConnection_scheme) list \<Rightarrow> u64" where
  "bytes_of_ports \<equiv> sum_ports (\<lambda>conn. byteCount (stats conn))"

lemma DumpAllStatistics_totals:
  "snd (DumpAllStatistics nowMs ctxs m totals)
   = totals\<lparr>inputEvents := inputEvents totals + sum_devices (\<lambda>ctx. events_of_ports (inputConnections ctx)) ctxs,
            outputEvents := outputEvents totals + sum_devices (\<lambda>ctx. events_of_ports (outputConnections ctx)) ctxs,
            inputBytes := inputBytes totals + sum_devices (\<lambda>ctx. bytes_of_ports (inputConnections ctx)) ctxs,
            outputBytes := outputBytes totals + sum_devices (\<lambda>ctx. bytes_of_ports (outputConnections ctx)) ctxs\<rparr>"
proof (induction ctxs arbitrary: totals)
  case (Cons x ctxs)
  then show ?case
    by (simp add: DumpDeviceStatistics_def port_totals_sum sum_devices_def prod.case_eq_if algebra_simps)
qed (simp add: sum_devices_def)

text \<open>The totals at the end of the statistics are the sums over all ports of all devices.\<close>

lemma dump_totals:
  "\<exists>s. DumpStatistics nowMs st = s @ ''System Totals:'' @ nl
     @ ''  Total Input Events: '' @ decimal (unat (sum_devices (\<lambda>ctx. events_of_ports (inputConnections ctx)) (deviceClientContexts st))) @ nl
     @ ''  Total Output Events: '' @ decimal (unat (sum_devices (\<lambda>ctx. events_of_ports (outputConnections ctx)) (deviceClientContexts st))) @ nl
     @ ''  Total Input Bytes: '' @ decimal (unat (sum_devices (\<lambda>ctx. bytes_of_ports (inputConnections ctx)) (deviceClientContexts st))) @ nl
     @ ''  Total Output Bytes: '' @ decimal (unat (sum_devices (\<lambda>ctx. bytes_of_ports (outputConnections ctx)) (deviceClientContexts st))) @ nl"
  unfolding DumpStatistics_def prod.case_eq_if DumpAllStatistics_totals
  by (rule exI [where x = "''[Traffic Statistics]'' @ nl @ nl @ ''Per-Device Statistics:'' @ nl @ _"]) simp

section \<open>The commands\<close>

text \<open>Known commands are answered in order; the first unknown one is named, explained, and ends the text.\<close>

lemma dump_commands:
  assumes "\<forall>para\<in>set paras. has_key table para"
  shows "DumpArguments table (paras @ rest) = concat (map (\<lambda>para. the (find_key table para)) paras) @ DumpArguments table rest"
  using assms by (induction paras) auto

section \<open>The identifiers\<close>

lemma decimal_digit: "k < 10 \<Longrightarrow> digit_value 16 (''0123456789'' ! k) = Some k"
proof -
  have "\<forall>k\<in>set [0..<10]. digit_value 16 (''0123456789'' ! k) = Some k"
    by (simp add: upt_rec digit_value_def of_char_def)
  then show "k < 10 \<Longrightarrow> digit_value 16 (''0123456789'' ! k) = Some k" by simp
qed

text \<open>The decimal digits of a number, read in base 16.\<close>

fun decimal_as_hex :: "nat \<Rightarrow> nat" where
  "decimal_as_hex n = (if n < 10 then n else decimal_as_hex (n div 10) * 16 + n mod 10)"

declare decimal_as_hex.simps [simp del]

lemma decimal_as_hex_ge: "n \<le> decimal_as_hex n \<and> (10 \<le> n \<longrightarrow> n < decimal_as_hex n)"
proof (induction n rule: decimal_as_hex.induct)
  case (1 n)
  show ?case
  proof (cases "n < 10")
    case False
    then have "n div 10 \<le> decimal_as_hex (n div 10)" "0 < n div 10" using 1 by auto
    moreover have "decimal_as_hex n = decimal_as_hex (n div 10) * 16 + n mod 10" using False by (subst decimal_as_hex.simps) simp
    moreover have "n = n div 10 * 10 + n mod 10" by simp
    ultimately show ?thesis by linarith
  qed (subst decimal_as_hex.simps, simp)
qed

lemma decimal_hex: "decimal n = hex (decimal_as_hex n)"
proof (induction n rule: decimal.induct)
  case (1 n)
  have d: "''0123456789abcdef'' ! (n mod 10) = ''0123456789'' ! (n mod 10)"
  proof -
    have "\<forall>k\<in>set [0..<10]. ''0123456789abcdef'' ! k = ''0123456789'' ! k" by (simp add: upt_rec)
    then show ?thesis by simp
  qed
  show ?case
  proof (cases "n < 10")
    case True
    then have "decimal_as_hex n = n" by (subst decimal_as_hex.simps) simp
    then show ?thesis using True d by (subst decimal.simps, subst hex.simps) simp
  next
    case False
    then have e: "decimal_as_hex n = decimal_as_hex (n div 10) * 16 + n mod 10" by (subst decimal_as_hex.simps) simp
    have r: "n mod 10 < 16" using mod_less_divisor [of 10 n] by linarith
    have "0 < n div 10" using False by (simp add: div_greater_zero_iff)
    then have "16 \<le> decimal_as_hex n" using decimal_as_hex_ge [of "n div 10"] unfolding e by linarith
    moreover have "decimal_as_hex n div 16 = decimal_as_hex (n div 10)" "decimal_as_hex n mod 16 = n mod 10"
      using r by (simp_all add: e)
    ultimately show ?thesis using 1 False d by (subst decimal.simps, subst hex.simps) simp
  qed
qed

text \<open>
  The dump prints an identifier in decimal behind a hexadecimal prefix: read back as what it looks like, it is larger
  than the identifier, unless that has one digit.
\<close>

lemma dump_identifier:
  "StringToHexNum (''0x'' @ decimal n) out
     = (decimal_as_hex n < 2 ^ 64, if decimal_as_hex n < 2 ^ 64 then word_of_nat (decimal_as_hex n) else out)
   \<and> (10 \<le> n \<longrightarrow> n < decimal_as_hex n)"
  using StringToHexNum_hex [of "''0x''" "[]" "decimal_as_hex n" out] decimal_as_hex_ge [of n]
  by (simp add: decimal_hex ends_number_def)

end
