(* ===== verification/Ble_Encoder.thy ===== *)
theory Ble_Encoder
  imports Ump_Processor
begin

text \<open>
  \<^verbatim>\<open>services/common/src/ble_midi_encoder.cpp\<close>: the framing of MIDI 1.0 bytes as a BLE MIDI packet,
  with a header byte and a timestamp byte before each status byte.
\<close>

definition TIMESTAMP_MASK :: u16 where
  "TIMESTAMP_MASK = 0x1FFF"

definition headerByte :: "u16 \<Rightarrow> u8" where
  "headerByte ts = ucast (0x80 OR (drop_bit 7 ts AND 0x3F))"

definition timestampByte :: "u16 \<Rightarrow> u8" where
  "timestampByte ts = ucast (0x80 OR (ts AND 0x7F))"

text \<open>The loop over the bytes of an event, from index \<open>i\<close> on.\<close>

primrec EncodeBytes :: "u8 \<Rightarrow> nat \<Rightarrow> u8 list \<Rightarrow> u8 list" where
  "EncodeBytes tsByte i [] = []"
| "EncodeBytes tsByte i (byte # rest) =
     (if i > 0 \<and> byte AND 0x80 \<noteq> 0 then [tsByte] else []) @ [byte] @ EncodeBytes tsByte (i + 1) rest"

definition EncodeEvent :: "u8 list option \<Rightarrow> u16 \<Rightarrow> u8 list" where
  "EncodeEvent midiData timestampMs =
     (case midiData of
        None \<Rightarrow> []
      | Some bytes \<Rightarrow>
          if bytes = [] then []
          else
            let ts = timestampMs AND TIMESTAMP_MASK
            in [headerByte ts] @ [timestampByte ts] @ EncodeBytes (timestampByte ts) 0 bytes)"

primrec EncodeEventsLoop :: "bool \<Rightarrow> (u8 list \<times> u16) list \<Rightarrow> u8 list" where
  "EncodeEventsLoop firstEvent [] = []"
| "EncodeEventsLoop firstEvent (event # events) =
     (let bytes = fst event; timestampMs = snd event
      in if bytes = [] then EncodeEventsLoop firstEvent events
         else
           let ts = timestampMs AND TIMESTAMP_MASK
           in (if firstEvent then [headerByte ts] else []) @ [timestampByte ts]
              @ EncodeBytes (timestampByte ts) 0 bytes @ EncodeEventsLoop False events)"

definition EncodeEvents :: "(u8 list \<times> u16) list \<Rightarrow> u8 list" where
  "EncodeEvents events = (if events = [] then [] else EncodeEventsLoop True events)"

section \<open>The encoding as a stamped stream\<close>

lemma EncodeBytes_stamp: "0 < i \<Longrightarrow> EncodeBytes t i bs = stamp t bs"
  by (induction bs arbitrary: i) (auto simp: stamp_def and_0x80)

lemma timestampByte_status [simp]: "0x80 \<le> timestampByte ts"
proof -
  have "bit (timestampByte ts) 7"
    unfolding timestampByte_def by (simp add: bit_simps)
  then show ?thesis by (simp add: bit_7_iff)
qed

lemma EncodeBytes_first:
  "bs \<noteq> [] \<Longrightarrow> 0x80 \<le> hd bs \<Longrightarrow> t # EncodeBytes t 0 bs = stamp t bs"
  by (cases bs) (simp_all add: EncodeBytes_stamp stamp_def [where bs = "_ # _"] stamp_def [symmetric])

lemma ProcessBytes_EncodeEvents:
  assumes "\<forall>e\<in>set events. fst e = [] \<or> 0x80 \<le> hd (fst e)"
  shows "ProcessBytes st (EncodeEventsLoop False events) = run ParseByte st (concat (map fst events))"
  using assms
proof (induction events arbitrary: st)
  case (Cons e events)
  let ?t = "timestampByte (snd e AND TIMESTAMP_MASK)"
  show ?case
  proof (cases "fst e = []")
    case False
    then have "EncodeEventsLoop False (e # events) = stamp ?t (fst e) @ EncodeEventsLoop False events"
      using Cons.prems by (simp add: Let_def flip: EncodeBytes_first)
    then show ?thesis using Cons by (simp add: ProcessBytes_stamp run_append del: EncodeEventsLoop.simps)
  qed (use Cons in \<open>simp add: Let_def\<close>)
qed simp

lemma EncodeEvent_single: "EncodeEvents [(bs, ts)] = EncodeEvent (Some bs) ts"
  by (simp add: EncodeEvents_def EncodeEvent_def)

lemma EncodeEvent_back:
  assumes "bs \<noteq> []" "0x80 \<le> hd bs"
  shows "ProcessBytes st (tl (EncodeEvent (Some bs) ts)) = run ParseByte st bs"
proof -
  let ?t = "timestampByte (ts AND TIMESTAMP_MASK)"
  have "tl (EncodeEvent (Some bs) ts) = stamp ?t bs @ []"
    using assms by (simp add: EncodeEvent_def Let_def flip: EncodeBytes_first)
  then show ?thesis using ProcessBytes_stamp [OF timestampByte_status, of st "ts AND TIMESTAMP_MASK" bs "[]"] by (simp add: case_prod_beta)
qed

lemma continuation_misread:
  assumes "proc_ok st" "timestampByte (ts AND TIMESTAMP_MASK) < 0xC0" "d1 < 0x80" "d2 < 0x80"
  shows "packets_words (snd (ProcessBytes st (tl (EncodeEvent (Some [d1, d2]) ts))))
     = [short_word (proc_group st) (timestampByte (ts AND TIMESTAMP_MASK)) [d1, d2]]"
proof -
  let ?t = "timestampByte (ts AND TIMESTAMP_MASK)"
  have t: "0x80 \<le> ?t" "?t < 0xF0" using assms(2) by (simp_all add: order_less_trans [OF assms(2)])
  have n: "\<not> 0x80 \<le> d1" "\<not> 0x80 \<le> d2" using assms(3,4) by simp_all
  have "tl (EncodeEvent (Some [d1, d2]) ts) = [?t, d1, d2]"
    using n by (simp add: EncodeEvent_def Let_def and_0x80)
  moreover have "ProcessBytes st [?t, d1, d2] = run ParseByte st [?t, d1, d2]"
    using ProcessBytes_data_run [of "[d1, d2]" _ "[]"] assms(3,4) n t(1)
    by (simp add: ProcessBytes_status_data ParseByte_def split_beta)
  moreover have "message_ok (Short ?t [d1, d2])"
  proof -
    have "?t AND 0xF0 \<le> ?t" by (simp add: word_and_le2)
    then have "?t AND 0xF0 < 0xC0" using assms(2) by (rule order_le_less_trans)
    then have "?t AND 0xF0 \<noteq> 0xC0" "?t AND 0xF0 \<noteq> 0xD0" by auto
    then show ?thesis using t assms by (auto simp: GetExpectedDataLength_def)
  qed
  then obtain st' where "run ParseByte st [?t, d1, d2] = (st', [UmpPacket_words [short_word (proc_group st) ?t [d1, d2]]])"
    using short_parse [OF assms(1)] by blast
  ultimately show ?thesis by (simp only: packets_words_def) simp
qed
section \<open>Properties\<close>

text \<open>
  C6: the payload of an encoded BLE packet, fed to the byte parser of the other side, has exactly
  the effect of the MIDI bytes themselves, without timestamps: same packets, same final state.
  Each event has to start with a status byte.
\<close>

theorem ble_roundtrip:
  assumes "\<forall>e\<in>set events. fst e = [] \<or> 0x80 \<le> hd (fst e)"
  shows "ProcessBytes st (tl (EncodeEvents events)) = run ParseByte st (concat (map fst events))"
proof -
  have "tl (EncodeEventsLoop True events) = EncodeEventsLoop False events"
    by (induction events) (simp_all add: Let_def)
  then show ?thesis using ProcessBytes_EncodeEvents [OF assms] by (simp add: EncodeEvents_def)
qed

theorem ble_roundtrip_witness:
  "ProcessBytes new_UmpProcessor (tl (EncodeEvents [([0x90, 0x3C, 0x40], 5), ([0xF0, 1, 2, 0xF7], 9000)]))
   = run ParseByte new_UmpProcessor (concat (map fst [([0x90, 0x3C, 0x40], 5 :: u16), ([0xF0, 1, 2, 0xF7], 9000)]))"
  by (rule ble_roundtrip) code_simp

text \<open>
  An encoded event has two bytes of overhead and one more for each status byte after the first
  byte; its header and timestamp bytes have the marks of the BLE MIDI format and give back the
  timestamp modulo 8192.
\<close>

lemma ble_header:
  assumes "bs \<noteq> []"
  shows "length (EncodeEvent (Some bs) ts) = 2 + length bs + length (filter (\<lambda>b. 0x80 \<le> b) (tl bs))
    \<and> (let hb = EncodeEvent (Some bs) ts ! 0; tb = EncodeEvent (Some bs) ts ! 1
       in bit hb 7 \<and> \<not> bit hb 6 \<and> bit tb 7
         \<and> unat (hb AND 0x3F) * 128 + unat (tb AND 0x7F) = unat ts mod 8192)"
proof -
  let ?ts = "ts AND TIMESTAMP_MASK"
  have len: "length (EncodeBytes t i bs) = length bs + length (filter (\<lambda>b. 0x80 \<le> b) (if i > 0 then bs else tl bs))"
    for t i by (induction bs arbitrary: i) (auto simp: and_0x80)
  have "bit (headerByte ?ts) 7" "\<not> bit (headerByte ?ts) 6" "bit (timestampByte ?ts) 7"
    unfolding headerByte_def timestampByte_def by (simp_all add: bit_simps)
  moreover have h: "(0x80 :: u16) = 2 ^ 7" by simp
  have "headerByte ?ts AND 0x3F = ucast (drop_bit 7 (take_bit 13 ts))"
    "timestampByte ?ts AND 0x7F = ucast (take_bit 7 ts)"
    unfolding headerByte_def timestampByte_def TIMESTAMP_MASK_def and_masks h
    by (rule bit_word_eqI; auto simp: bit_simps dest: bit_imp_le_length simp del: power_numeral)+
  moreover have "unat (ucast (drop_bit 7 (take_bit 13 ts)) :: u8) = unat ts mod 8192 div 128"
  proof -
    have "unat ts mod 8192 div 128 < 256" by (rule less_mult_imp_div_less) (simp add: less_le_trans [OF mod_less_divisor])
    then show ?thesis
      by (simp add: unsigned_ucast_eq unsigned_drop_bit_eq unsigned_take_bit_eq drop_bit_eq_div [where 'a = nat]
          take_bit_eq_mod [where 'a = nat])
  qed
  moreover have "unat (ucast (take_bit 7 ts) :: u8) = unat ts mod 8192 mod 128"
    by (simp add: unsigned_ucast_eq unsigned_take_bit_eq take_bit_eq_mod [where 'a = nat] mod_mod_cancel)
  ultimately show ?thesis
    using assms by (simp add: EncodeEvent_def Let_def len)
qed
end
