(* ===== verification/Ble_Driver.thy ===== *)
theory Ble_Driver
  imports Device_Manager Ble_Encoder
begin

text \<open>
  \<^verbatim>\<open>services/server/src/midi_device_ble.cpp\<close>: the driver for Bluetooth devices, between the manager and the
  GATT client interface of the system.

  The interface is a record of functions, \<open>BluetoothStack\<close>, whose answers may depend on everything that was called before.
  The calls themselves, with the reports to the manager and the events passed to an open input port, are
  recorded in order in the field \<open>trace\<close>. The lock of the driver is held during each operation and callback; the model runs
  them one after the other. The text of the identifiers that the characteristic points to is kept as a value.
\<close>

section \<open>The Bluetooth stack\<close>

text \<open>
  What the driver calls, in the order of the calls: the GATT client interface, the callback that the manager gave it
  for a device (\<open>Report\<close>), and the callback of an open input port (\<open>Input\<close>).
\<close>

datatype BleOp =
    GattRegister int
  | GattUnRegister int
  | GattConnect int "u8 list" int
  | GattDisconnect int
  | GattSearchServices int
  | GattRegisterNotification int
  | GattWrite int "u8 list"
  | Report bool DeviceInformation
  | Input int MidiEvent

text \<open>What the stack answers, which may depend on everything that has been called.\<close>

record BluetoothStack =
  OHOS_STATE_CONNECTED :: int
  OHOS_STATE_DISCONNECTED :: int
  BleGattcRegister :: "BleOp list \<Rightarrow> int"
  BleGattcConnect :: "int \<Rightarrow> u8 list \<Rightarrow> BleOp list \<Rightarrow> int"
  BleGattcSearchServices :: "int \<Rightarrow> BleOp list \<Rightarrow> int"
  BleGattcGetService :: "int \<Rightarrow> BleOp list \<Rightarrow> bool"
  BleGattcRegisterNotification :: "int \<Rightarrow> BleOp list \<Rightarrow> int"
  RemoteDevice :: "string \<Rightarrow> BleOp list \<Rightarrow> string \<times> u16 \<times> u16"

section \<open>State\<close>

definition MIDI_SERVICE_UUID :: string where
  "MIDI_SERVICE_UUID = ''03B80E5A-EDE8-4B33-A751-6CE34EC4C700''"
definition MIDI_CHAR_UUID :: string where
  "MIDI_CHAR_UUID = ''7772E5DB-3868-4112-A1A9-F2669D106BF3''"
definition MAX_BLE_MIDI_DATA_SIZE :: nat where "MAX_BLE_MIDI_DATA_SIZE = 512"
definition MAC_STR_LENGTH :: nat where "MAC_STR_LENGTH = 17"
definition MAC_ADDR_BYTES :: nat where "MAC_ADDR_BYTES = 6"

record DeviceCtx =
  d_id :: int
  d_address :: string
  d_connected :: bool
  serviceReady :: bool
  notifyEnabled :: bool
  inputOpen :: bool
  outputOpen :: bool
  dataCharServiceUuid :: string
  dataCharCharacteristicUuid :: string
  inputCallback :: bool
  deviceCallback :: bool
  d_processor :: "UmpProcessor option"
  outProcessor :: "UmpProcessor option"
  d_deviceName :: string
  d_productId :: u64
  d_vendorId :: u64

definition empty_DeviceCtx :: DeviceCtx where
  "empty_DeviceCtx =
     \<lparr>d_id = 0, d_address = [], d_connected = False, serviceReady = False, notifyEnabled = False,
      inputOpen = False, outputOpen = False, dataCharServiceUuid = [], dataCharCharacteristicUuid = [],
      inputCallback = False, deviceCallback = False, d_processor = None, outProcessor = None,
      d_deviceName = [], d_productId = 0, d_vendorId = 0\<rparr>"

definition CopySafeFields :: "DeviceCtx \<Rightarrow> DeviceCtx" where
  "CopySafeFields src =
     empty_DeviceCtx\<lparr>d_id := d_id src, d_address := d_address src, d_deviceName := d_deviceName src,
       d_productId := d_productId src, d_vendorId := d_vendorId src, deviceCallback := deviceCallback src\<rparr>"

text \<open>\<open>isInstance\<close>: the driver is the registered instance, which the callbacks of the stack act on.\<close>

record BleDriver =
  bt_devices :: "(int \<times> DeviceCtx) list"
  isInstance :: bool
  trace :: "BleOp list"

definition new_BleDriver :: BleDriver where
  "new_BleDriver = \<lparr>bt_devices = [], isInstance = True, trace = []\<rparr>"

definition bt_call :: "BleOp \<Rightarrow> BleDriver \<Rightarrow> BleDriver" where
  "bt_call op st = st\<lparr>trace := trace st @ [op]\<rparr>"

definition set_dev :: "int \<Rightarrow> DeviceCtx \<Rightarrow> BleDriver \<Rightarrow> BleDriver" where
  "set_dev i d st = st\<lparr>bt_devices := AList.update i d (bt_devices st)\<rparr>"

definition erase_dev :: "int \<Rightarrow> BleDriver \<Rightarrow> BleDriver" where
  "erase_dev i st = st\<lparr>bt_devices := AList.delete i (bt_devices st)\<rparr>"

section \<open>Addresses and identifiers\<close>

definition hexVal :: "char \<Rightarrow> int" where
  "hexVal c =
     (let n = of_char c :: int
      in if 48 \<le> n \<and> n \<le> 57 then n - 48
         else if 65 \<le> n \<and> n \<le> 70 then 10 + (n - 65)
         else if 97 \<le> n \<and> n \<le> 102 then 10 + (n - 97)
         else - 1)"

text \<open>The loop over the rest of the text, with the bytes that were read.\<close>

fun ParseMacLoop :: "string \<Rightarrow> u8 list \<Rightarrow> u8 list option" where
  "ParseMacLoop [] out = (if length out = MAC_ADDR_BYTES then Some out else None)"
| "ParseMacLoop [c] out = None"
| "ParseMacLoop (c1 # c2 # rest) out =
     (if \<not> (hexVal c1 \<ge> 0 \<and> hexVal c2 \<ge> 0) then None
      else
        let v1 = word_of_int (hexVal c1) :: u32; v2 = word_of_int (hexVal c2) :: u32;
            out = out @ [ucast (push_bit 4 v1 OR v2)]
        in if length out = MAC_ADDR_BYTES then Some out
           else (case rest of [] \<Rightarrow> ParseMacLoop [] out | c # rest \<Rightarrow> if c \<noteq> CHR '':'' then None else ParseMacLoop rest out))"

definition ParseMac :: "string \<Rightarrow> u8 list option" where
  "ParseMac mac = (if length mac \<noteq> MAC_STR_LENGTH then None else ParseMacLoop mac [])"

definition toupper :: "char \<Rightarrow> int" where
  "toupper c = (let n = of_char c in if 97 \<le> n \<and> n \<le> 122 then n - 32 else n)"

definition BtUuidEquals :: "string option \<Rightarrow> string \<Rightarrow> bool" where
  "BtUuidEquals u canonical =
     (case u of
        None \<Rightarrow> False
      | Some s \<Rightarrow> length canonical < 64 \<and> length s = length canonical \<and> map toupper s = map toupper canonical)"

section \<open>Telling the manager\<close>

definition GetPortInfo :: "string \<Rightarrow> MidiPortInfo list" where
  "GetPortInfo name =
     [\<lparr>portId = 0, port_name = name @ '' Out'', direction = PORT_DIRECTION_OUTPUT, port_transportProtocol = PROTOCOL_1_0\<rparr>,
      \<lparr>portId = 1, port_name = name @ '' In'', direction = PORT_DIRECTION_INPUT, port_transportProtocol = PROTOCOL_1_0\<rparr>]"

definition device_information :: "DeviceCtx \<Rightarrow> DeviceInformation" where
  "device_information d =
     \<lparr>midiDeviceInfo = default_MidiDeviceInfo\<lparr>driverDeviceId := d_id d, deviceType := DEVICE_TYPE_BLE,
        transportProtocol := PROTOCOL_1_0, address := d_address d, deviceName := d_deviceName d,
        productId := d_productId d, vendorId := d_vendorId d\<rparr>,
      portInfos = GetPortInfo (d_deviceName d)\<rparr>"

definition NotifyManager :: "DeviceCtx \<Rightarrow> bool \<Rightarrow> BleDriver \<Rightarrow> BleDriver" where
  "NotifyManager d success st =
     (if \<not> isInstance st \<or> \<not> deviceCallback d then st else bt_call (Report success (device_information d)) st)"

definition CleanupDeviceAndNotifyFailure :: "int \<Rightarrow> BleDriver \<Rightarrow> bool \<times> BleDriver" where
  "CleanupDeviceAndNotifyFailure clientId st =
     (if \<not> isInstance st then (False, bt_call (GattDisconnect clientId) st)
      else
        (case find_key (bt_devices st) clientId of
           None \<Rightarrow> (False, bt_call (GattDisconnect clientId) st)
         | Some d \<Rightarrow>
             let device = CopySafeFields d;
                 st = erase_dev clientId (bt_call (GattUnRegister clientId) st);
                 st = bt_call (GattDisconnect clientId) st
             in (True, NotifyManager device False st)))"

section \<open>Callbacks of the stack\<close>

definition GetDeviceInfo :: "BluetoothStack \<Rightarrow> BleDriver \<Rightarrow> DeviceCtx \<Rightarrow> DeviceCtx" where
  "GetDeviceInfo stack st d =
     (case RemoteDevice stack (d_address d) (trace st) of (name, product, vendor) \<Rightarrow>
        d\<lparr>d_deviceName := name, d_productId := ucast product, d_vendorId := ucast vendor\<rparr>)"

text \<open>\<open>devices_[clientId]\<close> makes an entry when there is none.\<close>

definition OnConnectionState :: "BluetoothStack \<Rightarrow> int \<Rightarrow> int \<Rightarrow> int \<Rightarrow> BleDriver \<Rightarrow> BleDriver" where
  "OnConnectionState stack clientId connState status st =
     (if \<not> isInstance st then st
      else if connState = OHOS_STATE_DISCONNECTED stack \<or> status \<noteq> 0 \<and> connState \<noteq> OHOS_STATE_CONNECTED stack then
        (case find_key (bt_devices st) clientId of
           None \<Rightarrow> st
         | Some d \<Rightarrow>
             let device = CopySafeFields d;
                 st = erase_dev clientId (bt_call (GattUnRegister clientId) st)
             in NotifyManager device False st)
      else if connState = OHOS_STATE_CONNECTED stack then
        let d = (case find_key (bt_devices st) clientId of Some d \<Rightarrow> d | None \<Rightarrow> empty_DeviceCtx);
            st = set_dev clientId (d\<lparr>d_connected := True\<rparr>) st;
            ret = BleGattcSearchServices stack clientId (trace st);
            st = bt_call (GattSearchServices clientId) st
        in if ret \<noteq> 0 then snd (CleanupDeviceAndNotifyFailure clientId st) else st
      else st)"

definition OnSearvicesComplete :: "BluetoothStack \<Rightarrow> int \<Rightarrow> int \<Rightarrow> BleDriver \<Rightarrow> BleDriver" where
  "OnSearvicesComplete stack clientId status st =
     (if \<not> isInstance st then st
      else if status \<noteq> 0 then snd (CleanupDeviceAndNotifyFailure clientId st)
      else
        (case find_key (bt_devices st) clientId of
           None \<Rightarrow> st
         | Some d \<Rightarrow>
             if BleGattcGetService stack clientId (trace st) then
               let d = d\<lparr>serviceReady := True, dataCharServiceUuid := MIDI_SERVICE_UUID, dataCharCharacteristicUuid := MIDI_CHAR_UUID\<rparr>;
                   st = set_dev clientId d st;
                   rc = BleGattcRegisterNotification stack clientId (trace st);
                   st = bt_call (GattRegisterNotification clientId) st
               in if rc \<noteq> 0 then snd (CleanupDeviceAndNotifyFailure clientId st) else st
             else snd (CleanupDeviceAndNotifyFailure clientId st)))"

definition OnRegisterNotify :: "BluetoothStack \<Rightarrow> int \<Rightarrow> int \<Rightarrow> BleDriver \<Rightarrow> BleDriver" where
  "OnRegisterNotify stack clientId status st =
     (if \<not> isInstance st then st
      else
        (case find_key (bt_devices st) clientId of
           None \<Rightarrow> st
         | Some d \<Rightarrow>
             if status = 0 then
               let d = GetDeviceInfo stack st (d\<lparr>notifyEnabled := True\<rparr>)
               in NotifyManager (CopySafeFields d) True (set_dev clientId d st)
             else snd (CleanupDeviceAndNotifyFailure clientId (set_dev clientId (d\<lparr>notifyEnabled := False\<rparr>) st))))"

text \<open>A notification of the characteristic, with the two identifiers that it names and its bytes.\<close>

record BtGattReadData =
  nt_serviceUuid :: "string option"
  nt_characteristicUuid :: "string option"
  nt_data :: "u8 list option"

definition OnNotification :: "int \<Rightarrow> BtGattReadData option \<Rightarrow> int \<Rightarrow> int \<Rightarrow> BleDriver \<Rightarrow> BleDriver" where
  "OnNotification clientId data status curNs st =
     (if \<not> isInstance st \<or> status \<noteq> 0 then st
      else
        (case data of
           None \<Rightarrow> st
         | Some n \<Rightarrow>
             if \<not> (BtUuidEquals (nt_serviceUuid n) MIDI_SERVICE_UUID \<and> BtUuidEquals (nt_characteristicUuid n) MIDI_CHAR_UUID) then st
             else
               (case nt_data n of
                  None \<Rightarrow> st
                | Some src \<Rightarrow>
                    if \<not> (length src > 1 \<and> length src \<le> MAX_BLE_MIDI_DATA_SIZE) then st
                    else
                      (case find (\<lambda>p. d_id (snd p) = clientId \<and> inputOpen (snd p) \<and> notifyEnabled (snd p)) (bt_devices st) of
                         None \<Rightarrow> st
                       | Some (key, d) \<Rightarrow>
                           (case d_processor d of
                              None \<Rightarrow> st
                            | Some processor \<Rightarrow>
                                if \<not> inputCallback d then st
                                else
                                  (case ProcessBytes processor (tl src) of (processor, packets) \<Rightarrow>
                                     let midi2 = concat (map words_of packets);
                                         st = set_dev key (d\<lparr>d_processor := Some processor\<rparr>) st
                                     in if midi2 = [] then st
                                        else bt_call (Input clientId \<lparr>me_timestamp = word_of_int (if curNs < 0 then 0 else curNs), me_words = midi2\<rparr>) st))))))"

section \<open>Operations of the driver\<close>

definition GetRegisteredDevices :: "BleDriver \<Rightarrow> DeviceInformation list" where
  "GetRegisteredDevices st = map (\<lambda>p. device_information (snd p)) (filter (\<lambda>p. d_connected (snd p)) (bt_devices st))"

definition Ble_CloseDevice :: "int \<Rightarrow> BleDriver \<Rightarrow> int \<times> BleDriver" where
  "Ble_CloseDevice i st =
     (case find_key (bt_devices st) i of
        None \<Rightarrow> (- 1, st)
      | Some d \<Rightarrow>
          let device = CopySafeFields d;
              st = bt_call (GattDisconnect (d_id device)) st;
              st = erase_dev i (bt_call (GattUnRegister (d_id device)) st)
          in (0, NotifyManager device False st))"

definition Ble_OpenDevice :: "BluetoothStack \<Rightarrow> string \<Rightarrow> bool \<Rightarrow> BleDriver \<Rightarrow> int \<times> BleDriver" where
  "Ble_OpenDevice stack deviceAddr callback st =
     (if list_ex (\<lambda>p. d_address (snd p) = deviceAddr) (bt_devices st) then (OH_MIDI_STATUS_DEVICE_ALREADY_OPEN, st)
      else
        let clientId = BleGattcRegister stack (trace st); st = bt_call (GattRegister clientId) st
        in if clientId \<le> 0 then (- 1, st)
           else
             let st = set_dev clientId (empty_DeviceCtx\<lparr>d_address := deviceAddr, deviceCallback := callback, d_id := clientId\<rparr>) st
             in (case ParseMac deviceAddr of
                   None \<Rightarrow> (OH_MIDI_STATUS_GENERIC_INVALID_ARGUMENT, erase_dev clientId (bt_call (GattUnRegister clientId) st))
                 | Some bd \<Rightarrow>
                     let ret = BleGattcConnect stack clientId bd (trace st); st = bt_call (GattConnect clientId bd ret) st
                     in if ret \<noteq> 0 then (- 1, erase_dev clientId (bt_call (GattUnRegister clientId) st)) else (0, st)))"

text \<open>The search for a device with this identifier that the port operations share.\<close>

definition with_device :: "int \<Rightarrow> (DeviceCtx \<Rightarrow> DeviceCtx option) \<Rightarrow> BleDriver \<Rightarrow> int \<times> BleDriver" where
  "with_device i change st =
     (case find (\<lambda>p. d_id (snd p) = i) (bt_devices st) of
        None \<Rightarrow> (- 1, st)
      | Some (key, d) \<Rightarrow> (case change d of None \<Rightarrow> (- 1, st) | Some d \<Rightarrow> (0, set_dev key d st)))"

definition Ble_OpenInputPort :: "int \<Rightarrow> u32 \<Rightarrow> BleDriver \<Rightarrow> int \<times> BleDriver" where
  "Ble_OpenInputPort i portIndex st =
     (if portIndex \<noteq> 1 then (- 1, st)
      else with_device i (\<lambda>d. if inputOpen d then None
             else Some (d\<lparr>inputCallback := True, inputOpen := True, d_processor := Some new_UmpProcessor\<rparr>)) st)"

definition Ble_CloseInputPort :: "int \<Rightarrow> u32 \<Rightarrow> BleDriver \<Rightarrow> int \<times> BleDriver" where
  "Ble_CloseInputPort i portIndex st =
     (if portIndex \<noteq> 1 then (- 1, st)
      else with_device i (\<lambda>d. if \<not> inputOpen d then None
             else Some (d\<lparr>inputCallback := False, inputOpen := False, d_processor := None\<rparr>)) st)"

definition Ble_OpenOutputPort :: "int \<Rightarrow> u32 \<Rightarrow> BleDriver \<Rightarrow> int \<times> BleDriver" where
  "Ble_OpenOutputPort i portIndex st =
     (if portIndex \<noteq> 0 then (- 1, st)
      else with_device i (\<lambda>d. if outputOpen d then None else Some (d\<lparr>outputOpen := True, outProcessor := Some new_UmpProcessor\<rparr>)) st)"

definition Ble_CloseOutputPort :: "int \<Rightarrow> u32 \<Rightarrow> BleDriver \<Rightarrow> int \<times> BleDriver" where
  "Ble_CloseOutputPort i portIndex st =
     (if portIndex \<noteq> 0 then (- 1, st)
      else with_device i (\<lambda>d. if \<not> outputOpen d then None else Some (d\<lparr>outputOpen := False, outProcessor := None\<rparr>)) st)"

section \<open>Sending\<close>

definition ConvertUmpToMidi1 :: "UmpProcessor \<Rightarrow> word_ptr \<Rightarrow> nat \<Rightarrow> UmpProcessor \<times> u8 list" where
  "ConvertUmpToMidi1 processor umpData umpLen =
     (case umpData of
        None \<Rightarrow> (processor, [])
      | Some p \<Rightarrow>
          if umpLen = 0 then (processor, [])
          else (case ProcessUmp processor (Some (read_words p umpLen)) of (processor, chunks) \<Rightarrow> (processor, concat chunks)))"

definition GetBleTimestampMs :: "u64 \<Rightarrow> int \<Rightarrow> u16" where
  "GetBleTimestampMs eventTimestampNs curNs =
     (let ns = (if eventTimestampNs \<noteq> 0 then eventTimestampNs else word_of_int (if curNs < 0 then 0 else curNs))
      in ucast ((ns div 1000000) AND ucast TIMESTAMP_MASK))"

text \<open>\<open>clock k\<close>: what the clock says when event \<open>k\<close> of the batch asks for it.\<close>

primrec SendEvents :: "(nat \<Rightarrow> int) \<Rightarrow> nat \<Rightarrow> int \<Rightarrow> MidiEventInner list \<Rightarrow> UmpProcessor \<Rightarrow> BleDriver \<Rightarrow> UmpProcessor \<times> BleDriver" where
  "SendEvents clock k clientId [] processor st = (processor, st)"
| "SendEvents clock k clientId (e # es) processor st =
     (if ev_data e = None then SendEvents clock (k + 1) clientId es processor st
      else
        (case ConvertUmpToMidi1 processor (ev_data e) (ev_length e) of (processor, midi1Buffer) \<Rightarrow>
           if midi1Buffer = [] then SendEvents clock (k + 1) clientId es processor st
           else
             let timestampMs = GetBleTimestampMs (timestamp e) (clock k);
                 blePacket = EncodeEvent (Some midi1Buffer) timestampMs
             in if blePacket = [] then SendEvents clock (k + 1) clientId es processor st
                else SendEvents clock (k + 1) clientId es processor (bt_call (GattWrite clientId blePacket) st)))"

definition Ble_HandleUmpInput :: "(nat \<Rightarrow> int) \<Rightarrow> int \<Rightarrow> u32 \<Rightarrow> MidiEventInner list \<Rightarrow> BleDriver \<Rightarrow> int \<times> BleDriver" where
  "Ble_HandleUmpInput clock i portIndex es st =
     (if portIndex \<noteq> 0 then (- 1, st)
      else
        (case find_key (bt_devices st) i of
           None \<Rightarrow> (- 1, st)
         | Some d \<Rightarrow>
             (case outProcessor d of
                None \<Rightarrow> (- 1, st)
              | Some processor \<Rightarrow>
                  if \<not> (outputOpen d \<and> d_connected d \<and> serviceReady d) then (- 1, st)
                  else
                    (case SendEvents clock 0 (d_id d) es processor st of (processor, st) \<Rightarrow>
                       (0, set_dev i (d\<lparr>outProcessor := Some processor\<rparr>) st)))))"

section \<open>The driver for the manager\<close>

text \<open>What the driver reported while it ran: the callback of an open stands for the address that was opened.\<close>

definition reports_since :: "BleDriver \<Rightarrow> BleDriver \<Rightarrow> (string \<times> DeviceInformation) list" where
  "reports_since st st' =
     concat (map (\<lambda>op. case op of Report False devInfo \<Rightarrow> [(address (midiDeviceInfo devInfo), devInfo)] | _ \<Rightarrow> [])
       (drop (length (trace st)) (trace st')))"

definition ble_driver :: "BluetoothStack \<Rightarrow> BleDriver MidiDeviceDriver" where
  "ble_driver stack =
     \<lparr>drv_GetRegisteredDevices = GetRegisteredDevices,
      drv_OpenDevice = (\<lambda>i st. (- 1, st)),
      drv_OpenBleDevice = (\<lambda>addr. Ble_OpenDevice stack addr True),
      drv_CloseDevice = (\<lambda>i st. case Ble_CloseDevice i st of (ret, st') \<Rightarrow> (ret, reports_since st st', st')),
      drv_OpenInputPort = Ble_OpenInputPort, drv_OpenOutputPort = Ble_OpenOutputPort,
      drv_CloseInputPort = Ble_CloseInputPort, drv_CloseOutputPort = Ble_CloseOutputPort\<rparr>"

section \<open>What can happen to the driver\<close>

datatype BleEvent =
    BleOpen string
  | BleClose int
  | BleOpenInput int u32
  | BleCloseInput int u32
  | BleOpenOutput int u32
  | BleCloseOutput int u32
  | BleSend "nat \<Rightarrow> int" int u32 "MidiEventInner list"
  | BleConnection int int int
  | BleServices int int
  | BleRegistered int int
  | BleNotification int "BtGattReadData option" int int

definition ble_do :: "BluetoothStack \<Rightarrow> BleEvent \<Rightarrow> BleDriver \<Rightarrow> BleDriver" where
  "ble_do stack e st =
     (case e of
        BleOpen addr \<Rightarrow> snd (Ble_OpenDevice stack addr True st)
      | BleClose i \<Rightarrow> snd (Ble_CloseDevice i st)
      | BleOpenInput i p \<Rightarrow> snd (Ble_OpenInputPort i p st)
      | BleCloseInput i p \<Rightarrow> snd (Ble_CloseInputPort i p st)
      | BleOpenOutput i p \<Rightarrow> snd (Ble_OpenOutputPort i p st)
      | BleCloseOutput i p \<Rightarrow> snd (Ble_CloseOutputPort i p st)
      | BleSend clock i p es \<Rightarrow> snd (Ble_HandleUmpInput clock i p es st)
      | BleConnection c connState status \<Rightarrow> OnConnectionState stack c connState status st
      | BleServices c status \<Rightarrow> OnSearvicesComplete stack c status st
      | BleRegistered c status \<Rightarrow> OnRegisterNotify stack c status st
      | BleNotification c data status curNs \<Rightarrow> OnNotification c data status curNs st)"

text \<open>
  The stack reports on a connection only while its client is registered: a client that the driver has
  unregistered gets no \<open>connected\<close> any more.
\<close>

definition ble_allowed :: "BluetoothStack \<Rightarrow> BleEvent \<Rightarrow> BleDriver \<Rightarrow> bool" where
  "ble_allowed stack e st =
     (case e of BleConnection c connState status \<Rightarrow> connState = OHOS_STATE_CONNECTED stack \<longrightarrow> has_key (bt_devices st) c | _ \<Rightarrow> True)"

inductive ble_reachable :: "BluetoothStack \<Rightarrow> BleDriver \<Rightarrow> bool" for stack where
  start: "ble_reachable stack new_BleDriver"
| event: "ble_reachable stack st \<Longrightarrow> ble_allowed stack e st \<Longrightarrow> ble_reachable stack (ble_do stack e st)"

end
