(* ===== verification/Ble_Clients.thy ===== *)
theory Ble_Clients
  imports Ble_Driver
begin

text \<open>
  What the Bluetooth driver keeps in every sequence of requests and callbacks, without any condition on the order in which the
  stack reports: the clients that are registered with the stack are those of the devices in its table, and every connection is
  in the table or has been answered. An entry that a late \<open>connected\<close> makes for an unknown client, a ghost, is no device: it has
  no client, no address and no callback.
\<close>

section \<open>Counting calls\<close>

definition registers :: "int \<Rightarrow> BleOp list \<Rightarrow> nat" where
  "registers i ops = length (filter (\<lambda>op. op = GattRegister i) ops)"

definition unregisters :: "int \<Rightarrow> BleOp list \<Rightarrow> nat" where
  "unregisters i ops = length (filter (\<lambda>op. op = GattUnRegister i) ops)"

definition connects :: "int \<Rightarrow> BleOp list \<Rightarrow> nat" where
  "connects i ops = length (filter (\<lambda>op. case op of GattConnect j _ ret \<Rightarrow> j = i \<and> ret = 0 | _ \<Rightarrow> False) ops)"

definition losses :: "int \<Rightarrow> BleOp list \<Rightarrow> nat" where
  "losses i ops = length (filter (\<lambda>op. case op of Report success dev \<Rightarrow> \<not> success \<and> driverDeviceId (midiDeviceInfo dev) = i | _ \<Rightarrow> False) ops)"

lemmas count_defs = registers_def unregisters_def connects_def losses_def

lemma count_append [simp]:
  "registers i (a @ b) = registers i a + registers i b" "unregisters i (a @ b) = unregisters i a + unregisters i b"
  "connects i (a @ b) = connects i a + connects i b" "losses i (a @ b) = losses i a + losses i b"
  by (simp_all add: count_defs)

lemma bt_fields [simp]:
  "bt_devices (bt_call op st) = bt_devices st" "isInstance (bt_call op st) = isInstance st" "trace (bt_call op st) = trace st @ [op]"
  "bt_devices (set_dev i d st) = AList.update i d (bt_devices st)" "isInstance (set_dev i d st) = isInstance st" "trace (set_dev i d st) = trace st"
  "bt_devices (erase_dev i st) = AList.delete i (bt_devices st)" "isInstance (erase_dev i st) = isInstance st" "trace (erase_dev i st) = trace st"
  by (simp_all add: bt_call_def set_dev_def erase_dev_def)

section \<open>Clients in use\<close>

text \<open>A client is in use when the last thing that was done with its identifier is the registration.\<close>

definition use_step :: "int \<Rightarrow> bool \<Rightarrow> BleOp \<Rightarrow> bool" where
  "use_step i used op = (if op = GattRegister i then True else if op = GattUnRegister i then False else used)"

definition in_use :: "int \<Rightarrow> BleOp list \<Rightarrow> bool" where
  "in_use i ops = foldl (use_step i) False ops"

lemma in_use_append [simp]: "in_use i (a @ b) = foldl (use_step i) (in_use i a) b"
  by (simp add: in_use_def)

text \<open>What the driver relies on: the identifier that the stack gives to a new client is not in use.\<close>

definition stack_ok :: "BluetoothStack \<Rightarrow> bool" where
  "stack_ok stack \<longleftrightarrow> (\<forall>tr. \<not> in_use (BleGattcRegister stack tr) tr)"

text \<open>The entry of a device that was opened, and a ghost.\<close>

definition genuine :: "int \<Rightarrow> DeviceCtx \<Rightarrow> bool" where
  "genuine i d \<longleftrightarrow> d_id d = i \<and> 0 < i \<and> deviceCallback d"

definition ghost :: "DeviceCtx \<Rightarrow> bool" where
  "ghost d \<longleftrightarrow> d_id d = 0 \<and> \<not> deviceCallback d"

definition owned :: "int \<Rightarrow> BleDriver \<Rightarrow> bool" where
  "owned i st \<longleftrightarrow> (\<exists>d. find_key (bt_devices st) i = Some d \<and> genuine i d)"

section \<open>The invariant of every sequence\<close>

definition ble_safe :: "BleDriver \<Rightarrow> bool" where
  "ble_safe st \<longleftrightarrow> isInstance st \<and> distinct (keys_of (bt_devices st))
     \<and> (\<forall>i d. find_key (bt_devices st) i = Some d \<longrightarrow> genuine i d \<or> ghost d)
     \<and> (\<forall>i j d e. find_key (bt_devices st) i = Some d \<longrightarrow> find_key (bt_devices st) j = Some e \<longrightarrow> genuine i d \<longrightarrow> genuine j e
          \<longrightarrow> d_address d = d_address e \<longrightarrow> i = j)
     \<and> (\<forall>i>0. in_use i (trace st) \<longleftrightarrow> owned i st)
     \<and> (\<forall>i. connects i (trace st) = losses i (trace st) + of_bool (owned i st))"

lemma ble_safeD:
  assumes "ble_safe st"
  shows "isInstance st" "distinct (keys_of (bt_devices st))"
    "find_key (bt_devices st) i = Some d \<Longrightarrow> genuine i d \<or> ghost d"
    "find_key (bt_devices st) i = Some d \<Longrightarrow> find_key (bt_devices st) j = Some e \<Longrightarrow> genuine i d \<Longrightarrow> genuine j e
       \<Longrightarrow> d_address d = d_address e \<Longrightarrow> i = j"
    "0 < i \<Longrightarrow> in_use i (trace st) \<longleftrightarrow> owned i st"
    "connects i (trace st) = losses i (trace st) + of_bool (owned i st)"
  using assms unfolding ble_safe_def by blast+

lemma ble_safeI:
  assumes "isInstance st" "distinct (keys_of (bt_devices st))"
    "\<And>i d. find_key (bt_devices st) i = Some d \<Longrightarrow> genuine i d \<or> ghost d"
    "\<And>i j d e. find_key (bt_devices st) i = Some d \<Longrightarrow> find_key (bt_devices st) j = Some e \<Longrightarrow> genuine i d \<Longrightarrow> genuine j e
       \<Longrightarrow> d_address d = d_address e \<Longrightarrow> i = j"
    "\<And>i. 0 < i \<Longrightarrow> in_use i (trace st) \<longleftrightarrow> owned i st"
    "\<And>i. connects i (trace st) = losses i (trace st) + of_bool (owned i st)"
  shows "ble_safe st"
  unfolding ble_safe_def by (intro conjI allI impI assms)

lemma ble_safe_new: "ble_safe new_BleDriver"
  by (simp add: ble_safe_def new_BleDriver_def count_defs owned_def in_use_def)

text \<open>Calls that register, connect and lose nothing, and give up nothing that is in use.\<close>

definition harmless :: "BleDriver \<Rightarrow> BleOp \<Rightarrow> bool" where
  "harmless st op = (case op of GattRegister j \<Rightarrow> j \<le> 0 | GattUnRegister j \<Rightarrow> \<not> owned j st
     | GattConnect _ _ ret \<Rightarrow> ret \<noteq> 0 | Report success _ \<Rightarrow> success | _ \<Rightarrow> True)"

lemma harmless_counts:
  "harmless st op \<Longrightarrow> connects i [op] = 0 \<and> losses i [op] = 0 \<and> (0 < i \<longrightarrow> use_step i (owned i st) op = owned i st)"
  by (cases op) (auto simp: harmless_def count_defs use_step_def)

lemma harmless_simps [simp]:
  "harmless st (GattSearchServices i)" "harmless st (GattRegisterNotification i)" "harmless st (GattWrite i bs)" "harmless st (Report True dev)"
  "harmless st (Input i e)" "harmless st (GattDisconnect i)" "harmless st (GattRegister i) \<longleftrightarrow> i \<le> 0"
  "harmless st (GattUnRegister i) \<longleftrightarrow> \<not> owned i st"
  by (simp_all add: harmless_def)

text \<open>
  The general step: the table changes at one key, from what is in it to \<open>co\<close>, and the calls fit that.
\<close>

lemma ble_safe_step:
  assumes "ble_safe st" "isInstance st'" "distinct (keys_of (bt_devices st'))"
    "\<And>j. find_key (bt_devices st') j = (if j = i then co else find_key (bt_devices st) j)" "trace st' = trace st @ ops"
    "\<And>d. co = Some d \<Longrightarrow> genuine i d \<or> ghost d"
    "\<And>d j e. co = Some d \<Longrightarrow> genuine i d \<Longrightarrow> j \<noteq> i \<Longrightarrow> find_key (bt_devices st) j = Some e \<Longrightarrow> genuine j e \<Longrightarrow> d_address d \<noteq> d_address e"
    "\<And>j. 0 < j \<Longrightarrow> foldl (use_step j) (owned j st) ops = owned j st'"
    "\<And>j. connects j ops + of_bool (owned j st) = losses j ops + of_bool (owned j st')"
  shows "ble_safe st'"
proof (rule ble_safeI)
  note I = ble_safeD [OF assms(1)]
  show "isInstance st'" "distinct (keys_of (bt_devices st'))" by fact+
  show "genuine a x \<or> ghost x" if "find_key (bt_devices st') a = Some x" for a x
    using that I(3) assms(6) unfolding assms(4) by (cases "a = i") simp_all
  show "a = b" if "find_key (bt_devices st') a = Some x" "find_key (bt_devices st') b = Some y" "genuine a x" "genuine b y"
      "d_address x = d_address y" for a b x y
  proof -
    consider "a = i" "b = i" | "a = i" "b \<noteq> i" | "a \<noteq> i" "b = i" | "a \<noteq> i" "b \<noteq> i" by blast
    then show ?thesis
    proof cases
      case 2
      then have "co = Some x" "find_key (bt_devices st) b = Some y" using that(1,2) unfolding assms(4) by simp_all
      then show ?thesis using assms(7) [of x b y] that(3-5) 2 by simp
    next
      case 3
      then have "co = Some y" "find_key (bt_devices st) a = Some x" using that(1,2) unfolding assms(4) by simp_all
      then show ?thesis using assms(7) [of y a x] that(3-5) 3 by simp
    next
      case 4
      then have "find_key (bt_devices st) a = Some x" "find_key (bt_devices st) b = Some y" using that(1,2) unfolding assms(4) by simp_all
      then show ?thesis by (rule I(4)) (rule that)+
    qed simp
  qed
  show "in_use j (trace st') \<longleftrightarrow> owned j st'" if "0 < j" for j
    using I(5) [OF that] assms(8) [OF that] by (simp add: assms(5))
  show "connects j (trace st') = losses j (trace st') + of_bool (owned j st')" for j
    using I(6) [of j] assms(9) [of j] by (simp add: assms(5))
qed

lemma ble_safe_call:
  assumes "ble_safe st" "harmless st op"
  shows "ble_safe (bt_call op st)"
proof -
  have "owned j (bt_call op st) = owned j st" for j by (simp add: owned_def)
  then show ?thesis using harmless_counts [OF assms(2)] ble_safeD(1,2) [OF assms(1)] ble_safeD(3,4) [OF assms(1)]
    by (intro ble_safe_step [OF assms(1), where i = 0 and co = "find_key (bt_devices st) 0" and ops = "[op]"]) auto
qed

lemma owned_set: "find_key (bt_devices st') j = find_key (bt_devices st) j \<Longrightarrow> owned j st' = owned j st"
  by (simp add: owned_def)

lemma ble_safe_set:
  assumes "ble_safe st" "find_key (bt_devices st) i = Some d" "d_id d' = d_id d" "d_address d' = d_address d" "deviceCallback d' = deviceCallback d"
  shows "ble_safe (set_dev i d' st)"
proof -
  have g: "genuine i d' = genuine i d" "ghost d' = ghost d" using assms(3,5) by (simp_all add: genuine_def ghost_def)
  have o: "owned j (set_dev i d' st) = owned j st" for j using assms(2) g by (cases "j = i") (auto simp: owned_def)
  note I = ble_safeD [OF assms(1)]
  show ?thesis
    by (rule ble_safe_step [OF assms(1), where i = i and co = "Some d'" and ops = "[]"])
      (use I(1,2) I(3) [OF assms(2)] I(4) [OF assms(2)] assms(4) g in \<open>auto simp: o distinct_update count_defs\<close>)
qed

text \<open>A late \<open>connected\<close> makes a ghost.\<close>

lemma ble_safe_ghost:
  assumes "ble_safe st" "find_key (bt_devices st) i = None" "ghost d"
  shows "ble_safe (set_dev i d st)"
proof -
  have n: "\<not> genuine i d" using assms(3) by (auto simp: ghost_def genuine_def)
  have o: "owned j (set_dev i d st) = owned j st" for j using assms(2) n by (cases "j = i") (auto simp: owned_def)
  show ?thesis
    by (rule ble_safe_step [OF assms(1), where i = i and co = "Some d" and ops = "[]"])
      (use ble_safeD(1,2) [OF assms(1)] assms(3) n in \<open>auto simp: o distinct_update count_defs\<close>)
qed

text \<open>An entry goes, of a device or a ghost.\<close>

lemma ble_safe_gone:
  assumes "ble_safe st" "find_key (bt_devices st) i = Some d" "bt_devices st' = AList.delete i (bt_devices st)" "isInstance st' = isInstance st"
    "trace st' = trace st @ ops"
    "\<And>j used. 0 < j \<Longrightarrow> genuine i d \<Longrightarrow> foldl (use_step j) used ops \<longleftrightarrow> used \<and> j \<noteq> i"
    "\<And>j used. 0 < j \<Longrightarrow> ghost d \<Longrightarrow> (j = i \<longrightarrow> \<not> used) \<Longrightarrow> foldl (use_step j) used ops \<longleftrightarrow> used"
    "\<And>j. connects j ops = 0" "\<And>j. losses j ops = of_bool (j = i \<and> genuine i d)"
  shows "ble_safe st'"
proof -
  note I = ble_safeD [OF assms(1)]
  have f: "find_key (bt_devices st') j = (if j = i then None else find_key (bt_devices st) j)" for j by (simp add: assms(3))
  have o: "owned j st' \<longleftrightarrow> owned j st \<and> j \<noteq> i" for j unfolding owned_def f by simp
  have g: "owned i st \<longleftrightarrow> genuine i d" using assms(2) by (simp add: owned_def)
  have n: "\<not> (genuine i d \<and> ghost d)" by (auto simp: genuine_def ghost_def)
  show ?thesis
  proof (rule ble_safe_step [OF assms(1), where i = i and co = None and ops = ops])
    show "foldl (use_step j) (owned j st) ops = owned j st'" if "0 < j" for j
      using I(3) [OF assms(2)] assms(6) [OF that, of "owned j st"] assms(7) [OF that, of "owned j st"] g n unfolding o by metis
    show "connects j ops + of_bool (owned j st) = losses j ops + of_bool (owned j st')" for j
      using g unfolding o assms(8,9) by (cases "j = i") auto
  qed (use I(1,2) f assms(3-5) in \<open>simp_all add: distinct_delete\<close>)
qed

section \<open>Every event keeps it\<close>

lemma Notify_trace:
  "isInstance st \<Longrightarrow> deviceCallback d \<Longrightarrow> NotifyManager (CopySafeFields d) success st = bt_call (Report success (device_information (CopySafeFields d))) st"
  "\<not> deviceCallback d \<Longrightarrow> NotifyManager (CopySafeFields d) success st = st"
  by (simp_all add: NotifyManager_def CopySafeFields_def)

lemma information_id [simp]: "driverDeviceId (midiDeviceInfo (device_information (CopySafeFields d))) = d_id d"
  by (simp add: device_information_def CopySafeFields_def)

lemma Cleanup_safe:
  assumes "ble_safe st"
  shows "ble_safe (snd (CleanupDeviceAndNotifyFailure i st))"
proof (cases "find_key (bt_devices st) i")
  case None
  then show ?thesis using ble_safeD(1) [OF assms] ble_safe_call [OF assms, of "GattDisconnect i"]
    by (simp add: CleanupDeviceAndNotifyFailure_def)
next
  case (Some d)
  show ?thesis
    by (rule ble_safe_gone [OF assms Some, where ops = "[GattUnRegister i, GattDisconnect i] @
          (if genuine i d then [Report False (device_information (CopySafeFields d))] else [])"])
      (use ble_safeD(1) [OF assms] ble_safeD(3) [OF assms Some] Some
        in \<open>auto simp: CleanupDeviceAndNotifyFailure_def Let_def Notify_trace count_defs use_step_def genuine_def ghost_def\<close>)
qed

lemma CopySafe_id [simp]: "d_id (CopySafeFields d) = d_id d"
  by (simp add: CopySafeFields_def)

lemma Close_safe:
  assumes "ble_safe st"
  shows "ble_safe (snd (Ble_CloseDevice i st))"
proof (cases "find_key (bt_devices st) i")
  case (Some d)
  show ?thesis
    by (rule ble_safe_gone [OF assms Some, where ops = "[GattDisconnect (d_id d), GattUnRegister (d_id d)] @
          (if genuine i d then [Report False (device_information (CopySafeFields d))] else [])"])
      (use ble_safeD(1) [OF assms] ble_safeD(3) [OF assms Some] Some
        in \<open>auto simp: Ble_CloseDevice_def Let_def Notify_trace count_defs use_step_def genuine_def ghost_def\<close>)
qed (use assms in \<open>simp add: Ble_CloseDevice_def\<close>)

lemma erased_find: "find_key (AList.delete i (AList.update i d m)) j = (if j = i then None else find_key m j)"
  by simp

lemma Open_safe:
  assumes "stack_ok stack" "ble_safe st"
  shows "ble_safe (snd (Ble_OpenDevice stack addr True st))"
proof (cases "list_ex (\<lambda>p. d_address (snd p) = addr) (bt_devices st) \<or> BleGattcRegister stack (trace st) \<le> 0")
  case True
  then show ?thesis using assms(2) ble_safe_call [OF assms(2)] by (auto simp: Ble_OpenDevice_def Let_def)
next
  case False
  define i where "i = BleGattcRegister stack (trace st)"
  note I = ble_safeD [OF assms(2)]
  have i: "0 < i" "\<not> in_use i (trace st)" using False assms(1) by (simp_all add: i_def stack_ok_def)
  then have none: "\<not> owned i st" using I(5) by simp
  have addr: "d_address d \<noteq> addr" if "find_key (bt_devices st) j = Some d" for j d
    using False map_of_SomeD [OF that] by (auto simp: list_ex_iff)
  define d where "d = empty_DeviceCtx\<lparr>d_address := addr, deviceCallback := True, d_id := i\<rparr>"
  have d: "genuine i d" "d_address d = addr" using i(1) by (simp_all add: d_def genuine_def)
  let ?st' = "snd (Ble_OpenDevice stack addr True st)"
  show ?thesis
  proof (cases "\<exists>bd. ParseMac addr = Some bd \<and> BleGattcConnect stack i bd (trace st @ [GattRegister i]) = 0")
    case True
    then obtain bd where bd: "ParseMac addr = Some bd" "BleGattcConnect stack i bd (trace st @ [GattRegister i]) = 0" by blast
    have E: "?st' = bt_call (GattConnect i bd 0) (set_dev i d (bt_call (GattRegister i) st))"
      using False bd by (simp add: Ble_OpenDevice_def Let_def i_def d_def)
    have o: "owned j ?st' \<longleftrightarrow> owned j st \<or> j = i" for j using d(1) by (cases "j = i") (auto simp: owned_def E)
    show ?thesis
      by (rule ble_safe_step [OF assms(2), where i = i and co = "Some d" and ops = "[GattRegister i, GattConnect i bd 0]"])
        (use I(1,2) d none in \<open>auto simp: E o [unfolded E] distinct_update use_step_def count_defs simp del: map_of_eq_Some_iff dest: addr\<close>)
  next
    case False
    have "\<exists>ops. trace ?st' = trace st @ ops \<and> (ops = [GattRegister i, GattUnRegister i] \<or>
       (\<exists>bd ret. ops = [GattRegister i, GattConnect i bd ret, GattUnRegister i] \<and> ret \<noteq> 0))
      \<and> bt_devices ?st' = AList.delete i (AList.update i d (bt_devices st)) \<and> isInstance ?st' = isInstance st"
    proof (cases "ParseMac addr")
      case None
      then have "?st' = erase_dev i (bt_call (GattUnRegister i) (set_dev i d (bt_call (GattRegister i) st)))"
        using \<open>\<not> (_ \<or> _)\<close> by (simp add: Ble_OpenDevice_def Let_def i_def d_def)
      then show ?thesis by (intro exI [of _ "[GattRegister i, GattUnRegister i]"]) simp
    next
      case (Some bd)
      define ret where "ret = BleGattcConnect stack i bd (trace st @ [GattRegister i])"
      have r: "ret \<noteq> 0" using False Some by (simp add: ret_def)
      then have "?st' = erase_dev i (bt_call (GattUnRegister i) (bt_call (GattConnect i bd ret) (set_dev i d (bt_call (GattRegister i) st))))"
        using \<open>\<not> (_ \<or> _)\<close> Some by (simp add: Ble_OpenDevice_def Let_def i_def d_def ret_def)
      then show ?thesis using r by (intro exI [of _ "[GattRegister i, GattConnect i bd ret, GattUnRegister i]"]) simp
    qed
    then obtain ops where ops: "trace ?st' = trace st @ ops" "ops = [GattRegister i, GattUnRegister i] \<or>
       (\<exists>bd ret. ops = [GattRegister i, GattConnect i bd ret, GattUnRegister i] \<and> ret \<noteq> 0)"
      and b: "bt_devices ?st' = AList.delete i (AList.update i d (bt_devices st))" "isInstance ?st' = isInstance st" by blast
    have o: "owned j ?st' = owned j st" for j
      using none unfolding owned_def b(1) erased_find by (cases "j = i") (simp_all add: owned_def)
    have u: "foldl (use_step j) (owned j st) ops = owned j st" for j using ops(2) none by (auto simp: use_step_def split: if_splits)
    have z: "connects j ops = 0" "losses j ops = 0" for j using ops(2) by (auto simp: count_defs)
    show ?thesis
      by (rule ble_safe_step [OF assms(2), where i = i and co = None and ops = ops])
        (use I(1,2) in \<open>simp_all add: ops(1) b erased_find o u z distinct_update distinct_delete\<close>)
  qed
qed

lemma find_in: "find P xs = Some x \<Longrightarrow> x \<in> set xs \<and> P x"
  by (auto simp: find_Some_iff)

lemma find_device:
  assumes "distinct (keys_of (bt_devices st))" "find (\<lambda>p. P (snd p)) (bt_devices st) = Some (key, d)"
  shows "find_key (bt_devices st) key = Some d \<and> P d"
  using find_in [OF assms(2)] map_of_is_SomeI [OF assms(1)] by simp

lemma with_device_safe:
  assumes "ble_safe st" "\<And>d d'. change d = Some d' \<Longrightarrow> d_id d' = d_id d \<and> d_address d' = d_address d \<and> deviceCallback d' = deviceCallback d"
  shows "ble_safe (snd (with_device i change st))"
proof (cases "find (\<lambda>p. d_id (snd p) = i) (bt_devices st)")
  case (Some kd)
  obtain key d where kd: "kd = (key, d)" by fastforce
  have f: "find_key (bt_devices st) key = Some d" using find_device [OF ble_safeD(2) [OF assms(1)], of "\<lambda>d. d_id d = i"] Some kd by simp
  show ?thesis
  proof (cases "change d")
    case (Some d')
    then show ?thesis using ble_safe_set [OF assms(1) f, of d'] assms(2) [OF Some] kd \<open>find _ _ = Some kd\<close>
      by (simp add: with_device_def)
  qed (use assms(1) Some kd in \<open>simp add: with_device_def\<close>)
qed (use assms(1) in \<open>simp add: with_device_def\<close>)

lemma SendEvents_safe: "ble_safe st \<Longrightarrow> ble_safe (snd (SendEvents clock k c es processor st)) \<and> bt_devices (snd (SendEvents clock k c es processor st)) = bt_devices st"
proof (induction es arbitrary: k processor st)
  case (Cons e es)
  then show ?case using ble_safe_call [OF Cons.prems] by (simp add: Let_def split: prod.split)
qed simp

lemma Send_safe:
  assumes "ble_safe st"
  shows "ble_safe (snd (Ble_HandleUmpInput clock i p es st))"
proof (cases "find_key (bt_devices st) i")
  case (Some d)
  have "ble_safe (snd (case SendEvents clock 0 (d_id d) es processor st of (processor, st) \<Rightarrow> (0 :: int, set_dev i (d\<lparr>outProcessor := Some processor\<rparr>) st)))"
    for processor
  proof -
    obtain pr st1 where S: "SendEvents clock 0 (d_id d) es processor st = (pr, st1)" by fastforce
    have "ble_safe st1" "bt_devices st1 = bt_devices st" using SendEvents_safe [OF assms, of clock 0 "d_id d" es processor] by (simp_all add: S)
    then have "ble_safe (set_dev i (d\<lparr>outProcessor := Some pr\<rparr>) st1)" using Some by (intro ble_safe_set [where d = d]) simp_all
    then show ?thesis by (simp add: S)
  qed
  then show ?thesis using assms Some by (simp add: Ble_HandleUmpInput_def split: option.split)
qed (use assms in \<open>simp add: Ble_HandleUmpInput_def\<close>)

lemma Connection_safe:
  assumes "ble_safe st"
  shows "ble_safe (OnConnectionState stack c connState status st)"
proof -
  note inst = ble_safeD(1) [OF assms]
  show ?thesis
  proof (cases "connState = OHOS_STATE_DISCONNECTED stack \<or> status \<noteq> 0 \<and> connState \<noteq> OHOS_STATE_CONNECTED stack")
    case True
    show ?thesis
    proof (cases "find_key (bt_devices st) c")
      case (Some d)
      show ?thesis
        by (rule ble_safe_gone [OF assms Some, where ops = "GattUnRegister c #
              (if genuine c d then [Report False (device_information (CopySafeFields d))] else [])"])
          (use inst ble_safeD(3) [OF assms Some] Some True
            in \<open>auto simp: OnConnectionState_def Let_def Notify_trace count_defs use_step_def genuine_def ghost_def\<close>)
    qed (use assms inst True in \<open>simp add: OnConnectionState_def\<close>)
  next
    case False
    have "ble_safe (set_dev c ((case find_key (bt_devices st) c of Some d \<Rightarrow> d | None \<Rightarrow> empty_DeviceCtx)\<lparr>d_connected := True\<rparr>) st)"
    proof (cases "find_key (bt_devices st) c")
      case None
      then show ?thesis using ble_safe_ghost [OF assms None, of "empty_DeviceCtx\<lparr>d_connected := True\<rparr>"]
        by (simp add: ghost_def empty_DeviceCtx_def)
    next
      case (Some d)
      then show ?thesis using ble_safe_set [OF assms Some, of "d\<lparr>d_connected := True\<rparr>"] by simp
    qed
    from ble_safe_call [OF this, of "GattSearchServices c"] show ?thesis
      using assms False inst Cleanup_safe
      by (cases "connState = OHOS_STATE_CONNECTED stack") (simp_all add: OnConnectionState_def Let_def)
  qed
qed

lemma Services_safe:
  assumes "ble_safe st"
  shows "ble_safe (OnSearvicesComplete stack c status st)"
proof (cases "status = 0 \<and> (\<exists>d. find_key (bt_devices st) c = Some d)")
  case True
  then obtain d where d: "find_key (bt_devices st) c = Some d" "status = 0" by blast
  define st1 where "st1 = bt_call (GattRegisterNotification c)
    (set_dev c (d\<lparr>serviceReady := True, dataCharServiceUuid := MIDI_SERVICE_UUID, dataCharCharacteristicUuid := MIDI_CHAR_UUID\<rparr>) st)"
  have "ble_safe st1" unfolding st1_def by (intro ble_safe_call ble_safe_set [OF assms d(1)]) simp_all
  then show ?thesis using d assms ble_safeD(1) [OF assms] Cleanup_safe
    by (simp add: OnSearvicesComplete_def Let_def st1_def [symmetric])
next
  case False
  then show ?thesis using assms Cleanup_safe [OF assms] ble_safeD(1) [OF assms]
    by (auto simp: OnSearvicesComplete_def simp del: map_of_eq_Some_iff split: option.split)
qed

lemma Registered_safe:
  assumes "ble_safe st"
  shows "ble_safe (OnRegisterNotify stack c status st)"
proof (cases "find_key (bt_devices st) c")
  case (Some d)
  have s: "ble_safe (set_dev c (d\<lparr>notifyEnabled := False\<rparr>) st)" by (rule ble_safe_set [OF assms Some]) simp_all
  define d' where "d' = GetDeviceInfo stack st (d\<lparr>notifyEnabled := True\<rparr>)"
  have d': "d_id d' = d_id d" "d_address d' = d_address d" "deviceCallback d' = deviceCallback d"
    by (simp_all add: d'_def GetDeviceInfo_def split: prod.split)
  have i: "ble_safe (set_dev c d' st)" by (rule ble_safe_set [OF assms Some d'])
  have "ble_safe (NotifyManager (CopySafeFields d') True (set_dev c d' st))"
    using i ble_safe_call [OF i] by (simp add: NotifyManager_def)
  then show ?thesis using Some s Cleanup_safe ble_safeD(1) [OF assms]
    by (simp add: OnRegisterNotify_def Let_def d'_def [symmetric])
qed (use assms in \<open>simp add: OnRegisterNotify_def\<close>)

lemma OnNotification_cases:
  "OnNotification c data status curNs st = st \<or>
   (\<exists>key d pr. find (\<lambda>p. d_id (snd p) = c \<and> inputOpen (snd p) \<and> notifyEnabled (snd p)) (bt_devices st) = Some (key, d)
      \<and> (OnNotification c data status curNs st = set_dev key (d\<lparr>d_processor := pr\<rparr>) st
         \<or> (\<exists>e. OnNotification c data status curNs st = bt_call (Input c e) (set_dev key (d\<lparr>d_processor := pr\<rparr>) st))))"
  unfolding OnNotification_def Let_def by (auto split: option.split prod.split)

lemma Notification_safe:
  assumes "ble_safe st"
  shows "ble_safe (OnNotification c data status curNs st)"
proof -
  have keep: "ble_safe (set_dev key (d\<lparr>d_processor := pr\<rparr>) st)"
    if "find (\<lambda>p. d_id (snd p) = c \<and> inputOpen (snd p) \<and> notifyEnabled (snd p)) (bt_devices st) = Some (key, d)" for key d pr
    using find_device [OF ble_safeD(2) [OF assms], of "\<lambda>d. d_id d = c \<and> inputOpen d \<and> notifyEnabled d"] that
    by (intro ble_safe_set [OF assms, of _ d]) simp_all
  from OnNotification_cases [of c data status curNs st] show ?thesis
  proof (elim disjE exE conjE)
    fix key d pr e
    assume "find (\<lambda>p. d_id (snd p) = c \<and> inputOpen (snd p) \<and> notifyEnabled (snd p)) (bt_devices st) = Some (key, d)"
      "OnNotification c data status curNs st = bt_call (Input c e) (set_dev key (d\<lparr>d_processor := pr\<rparr>) st)"
    then show ?thesis using ble_safe_call [OF keep] by simp
  qed (simp_all add: assms keep)
qed

lemma ports_safe:
  assumes "ble_safe st"
  shows "ble_safe (snd (Ble_OpenInputPort i p st))" "ble_safe (snd (Ble_CloseInputPort i p st))"
    "ble_safe (snd (Ble_OpenOutputPort i p st))" "ble_safe (snd (Ble_CloseOutputPort i p st))"
  using assms
  by (auto simp: Ble_OpenInputPort_def Ble_CloseInputPort_def Ble_OpenOutputPort_def Ble_CloseOutputPort_def
      intro!: with_device_safe split: if_splits)

lemma ble_do_safe: "stack_ok stack \<Longrightarrow> ble_safe st \<Longrightarrow> ble_safe (ble_do stack e st)"
  by (cases e) (simp_all add: ble_do_def Open_safe Close_safe ports_safe Send_safe Connection_safe Services_safe Registered_safe Notification_safe)

lemma ble_run_safe: "stack_ok stack \<Longrightarrow> ble_safe (fold (ble_do stack) es new_BleDriver)"
proof -
  assume "stack_ok stack"
  then have "ble_safe st \<Longrightarrow> ble_safe (fold (ble_do stack) es st)" for st
    by (induction es arbitrary: st) (simp_all add: ble_do_safe)
  then show ?thesis by (simp add: ble_safe_new)
qed

end
