(* ===== verification/Ble_Driver_Properties.thy ===== *)
theory Ble_Driver_Properties
  imports Ble_Clients
begin

text \<open>
  The invariant of the Bluetooth driver over every sequence of requests and callbacks, with the balance of its clients and of
  its reports, and what a sent event becomes on the other side of the link.
\<close>

section \<open>Invariant\<close>

definition ble_inv :: "BleDriver \<Rightarrow> bool" where
  "ble_inv st \<longleftrightarrow> isInstance st \<and> distinct (keys_of (bt_devices st))
     \<and> (\<forall>i d. find_key (bt_devices st) i = Some d \<longrightarrow> d_id d = i \<and> 0 < i \<and> deviceCallback d)
     \<and> (\<forall>i j d e. find_key (bt_devices st) i = Some d \<longrightarrow> find_key (bt_devices st) j = Some e \<longrightarrow> d_address d = d_address e \<longrightarrow> i = j)
     \<and> (\<forall>i>0. registers i (trace st) = unregisters i (trace st) + of_bool (has_key (bt_devices st) i))
     \<and> (\<forall>i. connects i (trace st) = losses i (trace st) + of_bool (has_key (bt_devices st) i))"

lemma ble_invD:
  assumes "ble_inv st"
  shows "isInstance st" "distinct (keys_of (bt_devices st))"
    "find_key (bt_devices st) i = Some d \<Longrightarrow> d_id d = i \<and> 0 < i \<and> deviceCallback d"
    "find_key (bt_devices st) i = Some d \<Longrightarrow> find_key (bt_devices st) j = Some e \<Longrightarrow> d_address d = d_address e \<Longrightarrow> i = j"
    "0 < i \<Longrightarrow> registers i (trace st) = unregisters i (trace st) + of_bool (has_key (bt_devices st) i)"
    "connects i (trace st) = losses i (trace st) + of_bool (has_key (bt_devices st) i)"
  using assms unfolding ble_inv_def by blast+

lemma ble_invI:
  assumes "isInstance st" "distinct (keys_of (bt_devices st))"
    "\<And>i d. find_key (bt_devices st) i = Some d \<Longrightarrow> d_id d = i \<and> 0 < i \<and> deviceCallback d"
    "\<And>i j d e. find_key (bt_devices st) i = Some d \<Longrightarrow> find_key (bt_devices st) j = Some e \<Longrightarrow> d_address d = d_address e \<Longrightarrow> i = j"
    "\<And>i. 0 < i \<Longrightarrow> registers i (trace st) = unregisters i (trace st) + of_bool (has_key (bt_devices st) i)"
    "\<And>i. connects i (trace st) = losses i (trace st) + of_bool (has_key (bt_devices st) i)"
  shows "ble_inv st"
proof -
  have "\<forall>i d. find_key (bt_devices st) i = Some d \<longrightarrow> d_id d = i \<and> 0 < i \<and> deviceCallback d" by (intro allI impI assms(3))
  moreover have "\<forall>i j d e. find_key (bt_devices st) i = Some d \<longrightarrow> find_key (bt_devices st) j = Some e \<longrightarrow> d_address d = d_address e \<longrightarrow> i = j"
    by (intro allI impI assms(4))
  moreover have "\<forall>i>0. registers i (trace st) = unregisters i (trace st) + of_bool (has_key (bt_devices st) i)" by (intro allI impI assms(5))
  moreover have "\<forall>i. connects i (trace st) = losses i (trace st) + of_bool (has_key (bt_devices st) i)" by (intro allI assms(6))
  ultimately show ?thesis using assms(1,2) unfolding ble_inv_def by (intro conjI)
qed

lemma ble_inv_new: "ble_inv new_BleDriver"
  by (simp add: ble_inv_def new_BleDriver_def count_defs)

text \<open>Calls that register, give up and lose nothing.\<close>

definition neutral :: "BleOp \<Rightarrow> bool" where
  "neutral op = (case op of GattRegister j \<Rightarrow> j \<le> 0 | GattUnRegister _ \<Rightarrow> False | GattConnect _ _ ret \<Rightarrow> ret \<noteq> 0 | Report success _ \<Rightarrow> success | _ \<Rightarrow> True)"

lemma neutral_counts: "neutral op \<Longrightarrow> unregisters i [op] = 0 \<and> connects i [op] = 0 \<and> losses i [op] = 0 \<and> (0 < i \<longrightarrow> registers i [op] = 0)"
  by (cases op) (auto simp: neutral_def count_defs)

lemma ble_inv_call: "ble_inv st \<Longrightarrow> neutral op \<Longrightarrow> ble_inv (bt_call op st)"
  using neutral_counts [of op] unfolding ble_inv_def by simp

lemma ble_inv_set:
  assumes "ble_inv st" "find_key (bt_devices st) i = Some d" "d_id d' = d_id d" "d_address d' = d_address d" "deviceCallback d' = deviceCallback d"
  shows "ble_inv (set_dev i d' st)"
proof (rule ble_invI)
  note I = ble_invD [OF assms(1)]
  have f: "find_key (bt_devices (set_dev i d' st)) j = (if j = i then Some d' else find_key (bt_devices st) j)" for j by simp
  have k: "has_key (bt_devices (set_dev i d' st)) j = has_key (bt_devices st) j" for j using assms(2) by simp
  show "isInstance (set_dev i d' st)" "distinct (keys_of (bt_devices (set_dev i d' st)))"
    using I(1,2) by (simp_all add: distinct_update)
  show "a = b" if "find_key (bt_devices (set_dev i d' st)) a = Some x" "find_key (bt_devices (set_dev i d' st)) b = Some y"
      "d_address x = d_address y" for a b x y
    using that I(4) assms(2,4) unfolding f by (metis option.inject)
  show "d_id x = a \<and> 0 < a \<and> deviceCallback x" if "find_key (bt_devices (set_dev i d' st)) a = Some x" for a x
    using that I(3) assms(2,3,5) unfolding f by (metis option.inject)
  show "registers j (trace (set_dev i d' st)) = unregisters j (trace (set_dev i d' st)) + of_bool (has_key (bt_devices (set_dev i d' st)) j)"
    if "0 < j" for j using I(5) [OF that] unfolding k by (simp only: bt_fields)
  show "connects j (trace (set_dev i d' st)) = losses j (trace (set_dev i d' st)) + of_bool (has_key (bt_devices (set_dev i d' st)) j)"
    for j using I(6) unfolding k by (simp only: bt_fields)
qed

text \<open>A device goes: its client is unregistered and the manager is told.\<close>

lemma ble_inv_gone:
  assumes "ble_inv st" "find_key (bt_devices st) i = Some d"
    "bt_devices st' = AList.delete i (bt_devices st)" "isInstance st' = isInstance st" "trace st' = trace st @ ops"
    "\<And>j. 0 < j \<Longrightarrow> registers j ops = 0" "\<And>j. unregisters j ops = of_bool (j = i)" "\<And>j. connects j ops = 0" "\<And>j. losses j ops = of_bool (j = i)"
  shows "ble_inv st'"
proof (rule ble_invI)
  note I = ble_invD [OF assms(1)]
  have f: "find_key (bt_devices st') j = (if j = i then None else find_key (bt_devices st) j)" for j by (simp add: assms(3))
  show "isInstance st'" "distinct (keys_of (bt_devices st'))" using I(1,2) by (simp_all add: assms(3,4) distinct_delete)
  show "d_id x = a \<and> 0 < a \<and> deviceCallback x" if "find_key (bt_devices st') a = Some x" for a x
    using that I(3) unfolding f by (metis option.distinct(1))
  show "a = b" if "find_key (bt_devices st') a = Some x" "find_key (bt_devices st') b = Some y" "d_address x = d_address y" for a b x y
    using that I(4) unfolding f by (metis option.distinct(1))
  have p: "of_bool (has_key (bt_devices st) j) = (of_bool (has_key (bt_devices st') j) + of_bool (j = i) :: nat)" for j
    using assms(2) unfolding f by (cases "j = i") simp_all
  show "registers j (trace st') = unregisters j (trace st') + of_bool (has_key (bt_devices st') j)" if "0 < j" for j
    using I(5) [OF that] unfolding p assms(5) by (simp only: count_append assms(6) [OF that] assms(7))
  show "connects j (trace st') = losses j (trace st') + of_bool (has_key (bt_devices st') j)" for j
    using I(6) [of j] unfolding p assms(5) by (simp only: count_append assms(8,9))
qed

lemma Cleanup_inv:
  assumes "ble_inv st"
  shows "ble_inv (snd (CleanupDeviceAndNotifyFailure i st))"
proof (cases "find_key (bt_devices st) i")
  case None
  then show ?thesis using ble_invD(1) [OF assms] ble_inv_call [OF assms, of "GattDisconnect i"]
    by (simp add: CleanupDeviceAndNotifyFailure_def neutral_def)
next
  case (Some d)
  note D = ble_invD(3) [OF assms Some]
  show ?thesis
    by (rule ble_inv_gone [OF assms Some, where ops = "[GattUnRegister i, GattDisconnect i, Report False (device_information (CopySafeFields d))]"])
      (use ble_invD(1) [OF assms] Some D in \<open>simp_all add: CleanupDeviceAndNotifyFailure_def Let_def Notify_trace count_defs\<close>)
qed

section \<open>Every event keeps the invariant\<close>

lemma neutral_simps [simp]:
  "neutral (GattSearchServices i)" "neutral (GattRegisterNotification i)" "neutral (GattWrite i bs)" "neutral (Report True dev)"
  "neutral (Input i e)" "neutral (GattDisconnect i)" "neutral (GattRegister i) \<longleftrightarrow> i \<le> 0"
  by (simp_all add: neutral_def)

lemma Ble_CloseDevice_inv: "ble_inv st \<Longrightarrow> ble_inv (snd (Ble_CloseDevice i st))"
proof (cases "find_key (bt_devices st) i")
  case (Some d)
  assume i: "ble_inv st"
  note D = ble_invD(3) [OF i Some]
  have id: "d_id (CopySafeFields d) = i" using D by (simp add: CopySafeFields_def)
  show ?thesis
    by (rule ble_inv_gone [OF i Some, where ops = "[GattDisconnect i, GattUnRegister i, Report False (device_information (CopySafeFields d))]"])
      (use ble_invD(1) [OF i] Some D id in \<open>simp_all add: Ble_CloseDevice_def Let_def Notify_trace count_defs\<close>)
qed (simp add: Ble_CloseDevice_def)

lemma erase_new: "find_key m i = None \<Longrightarrow> AList.delete i (AList.update i d m) = m"
  by (induction m) (auto simp: AList.delete_eq map_of_eq_None_iff intro: filter_True split: if_splits)

text \<open>The new identifier has been given up as often as it was registered: its client would be in the table otherwise.\<close>

lemma new_client:
  assumes "stack_ok stack" "ble_inv st" "ble_safe st" "0 < BleGattcRegister stack (trace st)"
  shows "registers (BleGattcRegister stack (trace st)) (trace st) = unregisters (BleGattcRegister stack (trace st)) (trace st)"
proof -
  let ?i = "BleGattcRegister stack (trace st)"
  have "\<not> owned ?i st" using assms(1) ble_safeD(5) [OF assms(3,4)] by (simp add: stack_ok_def)
  then have "find_key (bt_devices st) ?i = None"
    using ble_invD(3) [OF assms(2), of ?i] by (cases "find_key (bt_devices st) ?i") (auto simp: owned_def genuine_def simp del: map_of_eq_Some_iff)
  then show ?thesis using ble_invD(5) [OF assms(2,4)] by simp
qed

lemma Ble_OpenDevice_inv:
  assumes "stack_ok stack" "ble_inv st" "ble_safe st"
  shows "ble_inv (snd (Ble_OpenDevice stack addr True st))"
proof (cases "list_ex (\<lambda>p. d_address (snd p) = addr) (bt_devices st) \<or> BleGattcRegister stack (trace st) \<le> 0")
  case True
  then show ?thesis using assms(2) ble_inv_call [OF assms(2)] by (auto simp: Ble_OpenDevice_def Let_def)
next
  case False
  define i where "i = BleGattcRegister stack (trace st)"
  note I = ble_invD [OF assms(2)]
  have i: "0 < i" "registers i (trace st) = unregisters i (trace st)" using False new_client [OF assms] by (simp_all add: i_def)
  have none: "find_key (bt_devices st) i = None" using I(5) [OF i(1)] i(2) by (cases "find_key (bt_devices st) i") simp_all
  have addr: "d_address d \<noteq> addr" if "find_key (bt_devices st) j = Some d" for j d
    using False map_of_SomeD [OF that] by (auto simp: list_ex_iff)
  define d where "d = empty_DeviceCtx\<lparr>d_address := addr, deviceCallback := True, d_id := i\<rparr>"
  define ok where "ok = (case ParseMac addr of None \<Rightarrow> False | Some bd \<Rightarrow> BleGattcConnect stack i bd (trace st @ [GattRegister i]) = 0)"
  let ?st' = "snd (Ble_OpenDevice stack addr True st)"
  show ?thesis
  proof (cases ok)
    case True
    then obtain bd where bd: "ParseMac addr = Some bd" "BleGattcConnect stack i bd (trace st @ [GattRegister i]) = 0"
      by (auto simp: ok_def split: option.splits)
    have E: "?st' = bt_call (GattConnect i bd 0) (set_dev i d (bt_call (GattRegister i) st))"
      using False bd by (simp add: Ble_OpenDevice_def Let_def i_def d_def)
    have f: "find_key (bt_devices ?st') j = (if j = i then Some d else find_key (bt_devices st) j)" for j by (simp add: E)
    have t: "trace ?st' = trace st @ [GattRegister i, GattConnect i bd 0]" by (simp add: E)
    have p: "of_bool (has_key (bt_devices ?st') j) = (of_bool (has_key (bt_devices st) j) + of_bool (j = i) :: nat)" for j
      using none unfolding f by (cases "j = i") simp_all
    show ?thesis
    proof (rule ble_invI)
      show "isInstance ?st'" "distinct (keys_of (bt_devices ?st'))" using I(1,2) by (simp_all add: E distinct_update)
      show "d_id x = a \<and> 0 < a \<and> deviceCallback x" if "find_key (bt_devices ?st') a = Some x" for a x
        using that I(3) [of a x] i(1) unfolding f by (auto simp: d_def split: if_splits)
      show "a = b" if "find_key (bt_devices ?st') a = Some x" "find_key (bt_devices ?st') b = Some y" "d_address x = d_address y" for a b x y
        using that I(4) [of a x b y] addr [of a x] addr [of b y] unfolding f by (auto simp: d_def split: if_splits)
      show "registers j (trace ?st') = unregisters j (trace ?st') + of_bool (has_key (bt_devices ?st') j)" if "0 < j" for j
        using I(5) [OF that] unfolding p t by (simp add: count_defs)
      show "connects j (trace ?st') = losses j (trace ?st') + of_bool (has_key (bt_devices ?st') j)" for j
        using I(6) [of j] unfolding p t by (simp add: count_defs)
    qed
  next
    case False
    obtain ops where ops: "trace ?st' = trace st @ ops" "ops = [GattRegister i, GattUnRegister i] \<or>
       (\<exists>bd ret. ops = [GattRegister i, GattConnect i bd ret, GattUnRegister i] \<and> ret \<noteq> 0)"
      and b: "bt_devices ?st' = bt_devices st" "isInstance ?st' = isInstance st"
      using False \<open>\<not> (_ \<or> _)\<close> erase_new [OF none]
      by (auto simp: Ble_OpenDevice_def Let_def ok_def i_def split: option.splits)
    have z: "registers j ops = unregisters j ops" "connects j ops = 0" "losses j ops = 0" for j
      using ops(2) by (auto simp: count_defs)
    have e: "registers j (trace st @ ops) = unregisters j (trace st @ ops) + n \<longleftrightarrow> registers j (trace st) = unregisters j (trace st) + n"
      "connects j (trace st @ ops) = losses j (trace st @ ops) + n \<longleftrightarrow> connects j (trace st) = losses j (trace st) + n" for j n
      by (simp_all add: z)
    show ?thesis using assms(2) unfolding ble_inv_def ops(1) b e .
  qed
qed

lemma with_device_inv:
  assumes "ble_inv st" "\<And>d d'. change d = Some d' \<Longrightarrow> d_id d' = d_id d \<and> d_address d' = d_address d \<and> deviceCallback d' = deviceCallback d"
  shows "ble_inv (snd (with_device i change st))"
proof (cases "find (\<lambda>p. d_id (snd p) = i) (bt_devices st)")
  case (Some kd)
  obtain key d where kd: "kd = (key, d)" by fastforce
  have f: "find_key (bt_devices st) key = Some d" using find_device [OF ble_invD(2) [OF assms(1)], of "\<lambda>d. d_id d = i"] Some kd by simp
  show ?thesis
  proof (cases "change d")
    case (Some d')
    then show ?thesis using ble_inv_set [OF assms(1) f, of d'] assms(2) [OF Some] kd \<open>find _ _ = Some kd\<close>
      by (simp add: with_device_def)
  qed (use assms(1) Some kd in \<open>simp add: with_device_def\<close>)
qed (use assms(1) in \<open>simp add: with_device_def\<close>)

lemma SendEvents_inv: "ble_inv st \<Longrightarrow> ble_inv (snd (SendEvents clock k c es processor st)) \<and> bt_devices (snd (SendEvents clock k c es processor st)) = bt_devices st"
proof (induction es arbitrary: k processor st)
  case (Cons e es)
  then show ?case using ble_inv_call [OF Cons.prems] by (simp add: Let_def split: prod.split)
qed simp

lemma Send_inv:
  assumes "ble_inv st"
  shows "ble_inv (snd (Ble_HandleUmpInput clock i p es st))"
proof (cases "find_key (bt_devices st) i")
  case (Some d)
  have "ble_inv (snd (case SendEvents clock 0 (d_id d) es processor st of (processor, st) \<Rightarrow> (0 :: int, set_dev i (d\<lparr>outProcessor := Some processor\<rparr>) st)))"
    for processor
  proof -
    obtain pr st1 where S: "SendEvents clock 0 (d_id d) es processor st = (pr, st1)" by fastforce
    have "ble_inv st1" "bt_devices st1 = bt_devices st" using SendEvents_inv [OF assms, of clock 0 "d_id d" es processor] by (simp_all add: S)
    then have "ble_inv (set_dev i (d\<lparr>outProcessor := Some pr\<rparr>) st1)" using Some by (intro ble_inv_set [where d = d]) simp_all
    then show ?thesis by (simp add: S)
  qed
  then show ?thesis using assms Some by (simp add: Ble_HandleUmpInput_def split: option.split)
qed (use assms in \<open>simp add: Ble_HandleUmpInput_def\<close>)

lemma Connection_inv:
  assumes "ble_inv st" "connState = OHOS_STATE_CONNECTED stack \<longrightarrow> has_key (bt_devices st) c"
  shows "ble_inv (OnConnectionState stack c connState status st)"
proof -
  note inst = ble_invD(1) [OF assms(1)]
  show ?thesis
  proof (cases "connState = OHOS_STATE_DISCONNECTED stack \<or> status \<noteq> 0 \<and> connState \<noteq> OHOS_STATE_CONNECTED stack")
    case True
    show ?thesis
    proof (cases "find_key (bt_devices st) c")
      case (Some d)
      note D = ble_invD(3) [OF assms(1) Some]
      show ?thesis
        by (rule ble_inv_gone [OF assms(1) Some, where ops = "[GattUnRegister c, Report False (device_information (CopySafeFields d))]"])
          (use inst Some D True in \<open>simp_all add: OnConnectionState_def Let_def Notify_trace count_defs\<close>)
    qed (use assms(1) inst True in \<open>simp add: OnConnectionState_def\<close>)
  next
    case False
    show ?thesis
    proof (cases "connState = OHOS_STATE_CONNECTED stack")
      case True
      then obtain d where d: "find_key (bt_devices st) c = Some d" using assms(2) by auto
      have "ble_inv (bt_call (GattSearchServices c) (set_dev c (d\<lparr>d_connected := True\<rparr>) st))"
        by (intro ble_inv_call ble_inv_set [OF assms(1) d]) simp_all
      then show ?thesis using True False inst d Cleanup_inv by (simp add: OnConnectionState_def Let_def)
    qed (use False inst assms(1) in \<open>simp add: OnConnectionState_def\<close>)
  qed
qed

lemma Services_inv:
  assumes "ble_inv st"
  shows "ble_inv (OnSearvicesComplete stack c status st)"
proof (cases "status = 0 \<and> (\<exists>d. find_key (bt_devices st) c = Some d)")
  case True
  then obtain d where d: "find_key (bt_devices st) c = Some d" "status = 0" by blast
  define st1 where "st1 = bt_call (GattRegisterNotification c)
    (set_dev c (d\<lparr>serviceReady := True, dataCharServiceUuid := MIDI_SERVICE_UUID, dataCharCharacteristicUuid := MIDI_CHAR_UUID\<rparr>) st)"
  have "ble_inv st1" unfolding st1_def by (intro ble_inv_call ble_inv_set [OF assms d(1)]) simp_all
  then show ?thesis using d assms ble_invD(1) [OF assms] Cleanup_inv
    by (simp add: OnSearvicesComplete_def Let_def st1_def [symmetric])
next
  case False
  then show ?thesis using assms Cleanup_inv [OF assms] ble_invD(1) [OF assms]
    by (auto simp: OnSearvicesComplete_def simp del: map_of_eq_Some_iff split: option.split)
qed

lemma Registered_inv:
  assumes "ble_inv st"
  shows "ble_inv (OnRegisterNotify stack c status st)"
proof (cases "find_key (bt_devices st) c")
  case (Some d)
  note D = ble_invD(3) [OF assms Some]
  have s: "ble_inv (set_dev c (d\<lparr>notifyEnabled := False\<rparr>) st)" by (rule ble_inv_set [OF assms Some]) simp_all
  define d' where "d' = GetDeviceInfo stack st (d\<lparr>notifyEnabled := True\<rparr>)"
  have d': "d_id d' = d_id d" "d_address d' = d_address d" "deviceCallback d' = deviceCallback d"
    by (simp_all add: d'_def GetDeviceInfo_def split: prod.split)
  have i: "ble_inv (set_dev c d' st)" by (rule ble_inv_set [OF assms Some d'])
  have "ble_inv (bt_call (Report True (device_information (CopySafeFields d'))) (set_dev c d' st))"
    by (rule ble_inv_call [OF i]) simp
  then show ?thesis using Some s Cleanup_inv ble_invD(1) [OF assms] D d'
    by (simp add: OnRegisterNotify_def Let_def d'_def [symmetric] Notify_trace)
qed (use assms in \<open>simp add: OnRegisterNotify_def\<close>)

lemma Notification_inv:
  assumes "ble_inv st"
  shows "ble_inv (OnNotification c data status curNs st)"
proof -
  have keep: "ble_inv (set_dev key (d\<lparr>d_processor := pr\<rparr>) st)"
    if "find (\<lambda>p. d_id (snd p) = c \<and> inputOpen (snd p) \<and> notifyEnabled (snd p)) (bt_devices st) = Some (key, d)" for key d pr
    using find_device [OF ble_invD(2) [OF assms], of "\<lambda>d. d_id d = c \<and> inputOpen d \<and> notifyEnabled d"] that
    by (intro ble_inv_set [OF assms, of _ d]) simp_all
  from OnNotification_cases [of c data status curNs st] show ?thesis
  proof (elim disjE exE conjE)
    fix key d pr e
    assume "find (\<lambda>p. d_id (snd p) = c \<and> inputOpen (snd p) \<and> notifyEnabled (snd p)) (bt_devices st) = Some (key, d)"
      "OnNotification c data status curNs st = bt_call (Input c e) (set_dev key (d\<lparr>d_processor := pr\<rparr>) st)"
    then show ?thesis using ble_inv_call [OF keep] by simp
  qed (simp_all add: assms keep)
qed

lemma ports_inv:
  assumes "ble_inv st"
  shows "ble_inv (snd (Ble_OpenInputPort i p st))" "ble_inv (snd (Ble_CloseInputPort i p st))"
    "ble_inv (snd (Ble_OpenOutputPort i p st))" "ble_inv (snd (Ble_CloseOutputPort i p st))"
  using assms
  by (auto simp: Ble_OpenInputPort_def Ble_CloseInputPort_def Ble_OpenOutputPort_def Ble_CloseOutputPort_def
      intro!: with_device_inv split: if_splits)

lemma ble_do_inv:
  assumes "stack_ok stack" "ble_inv st" "ble_safe st" "ble_allowed stack e st"
  shows "ble_inv (ble_do stack e st)"
proof (cases e)
  case (BleConnection c s t)
  then show ?thesis using Connection_inv [OF assms(2)] assms(4) by (simp add: ble_do_def ble_allowed_def)
qed (use assms in \<open>simp_all add: ble_do_def Ble_OpenDevice_inv Ble_CloseDevice_inv ports_inv Send_inv Services_inv Registered_inv Notification_inv\<close>)

lemma ble_reachable_both: "ble_reachable stack st \<Longrightarrow> stack_ok stack \<Longrightarrow> ble_inv st \<and> ble_safe st"
  by (induction rule: ble_reachable.induct) (simp_all add: ble_inv_new ble_safe_new ble_do_inv ble_do_safe)

lemma ble_reachable_inv: "ble_reachable stack st \<Longrightarrow> stack_ok stack \<Longrightarrow> ble_inv st"
  using ble_reachable_both by blast

section \<open>A stack and a driver to evaluate\<close>

definition next_id :: "BleOp list \<Rightarrow> int" where
  "next_id tr = 1 + foldr (\<lambda>op m. case op of GattRegister i \<Rightarrow> max i m | GattUnRegister i \<Rightarrow> max i m | _ \<Rightarrow> m) tr 0"

definition demo_stack :: BluetoothStack where
  "demo_stack = \<lparr>OHOS_STATE_CONNECTED = 1, OHOS_STATE_DISCONNECTED = 3, BleGattcRegister = next_id,
     BleGattcConnect = (\<lambda>_ _ _. 0), BleGattcSearchServices = (\<lambda>_ _. 0), BleGattcGetService = (\<lambda>_ _. True),
     BleGattcRegisterNotification = (\<lambda>_ _. 0), RemoteDevice = (\<lambda>_ _. (''Keys'', 1, 2))\<rparr>"

lemma demo_stack_ok: "stack_ok demo_stack"
proof -
  have le: "j < next_id tr" if "op \<in> set tr" "op = GattRegister j \<or> op = GattUnRegister j" for op j tr
    using that by (induction tr) (auto simp: next_id_def split: BleOp.splits)
  have "\<not> in_use i tr" if "\<forall>op\<in>set tr. op \<noteq> GattRegister i" for i tr
    using that by (induction tr rule: rev_induct) (auto simp: in_use_def use_step_def)
  moreover have "\<forall>op\<in>set tr. op \<noteq> GattRegister (next_id tr)" for tr using le [of _ tr "next_id tr"] by blast
  ultimately show ?thesis by (simp add: stack_ok_def demo_stack_def)
qed

definition demo_mac :: string where "demo_mac = ''01:23:45:67:89:aB''"

lemma demo_mac_bytes: "ParseMac demo_mac = Some [0x01, 0x23, 0x45, 0x67, 0x89, 0xAB]"
  by code_simp

text \<open>A device is opened, comes up, and its output port is opened; a second open fails at once.\<close>

definition demo_ble :: BleDriver where
  "demo_ble = ble_do demo_stack (BleOpenOutput 1 0) (ble_do demo_stack (BleRegistered 1 0) (ble_do demo_stack (BleServices 1 0)
     (ble_do demo_stack (BleConnection 1 1 0) (ble_do demo_stack (BleOpen demo_mac) new_BleDriver))))"

lemma ble_event: "ble_reachable stack st \<Longrightarrow> ble_allowed stack e st \<Longrightarrow> st' = ble_do stack e st \<Longrightarrow> ble_reachable stack st'"
  using ble_reachable.event by blast

lemma demo_opened: "map fst (bt_devices (ble_do demo_stack (BleOpen demo_mac) new_BleDriver)) = [1]"
  by code_simp

lemma demo_ble_reachable: "ble_reachable demo_stack demo_ble"
proof -
  have "ble_allowed demo_stack (BleConnection 1 1 0) (ble_do demo_stack (BleOpen demo_mac) new_BleDriver)"
    using demo_opened by (auto simp: ble_allowed_def map_of_eq_None_iff simp flip: not_None_eq)
  then show ?thesis unfolding demo_ble_def
    by (intro ble_reachable.intros) (simp_all add: ble_allowed_def)
qed

section \<open>Properties\<close>

text \<open>
  C25: the driver loses no Bluetooth client and leaves no opener without an answer, whatever the manager asks and the stack reports, in any
  order, late and repeated reports included. All that is required of the stack is that the identifier of a new client is not in use. Every entry of
  the table is the one of a device, under the identifier of its client, with an address of its own and the manager's
  callback; or it is a ghost, which a \<open>connected\<close> for an unknown client makes, without identifier and callback. The clients that are
  registered with the stack and not given up are exactly those of the devices in the table; and every connection that has been
  started is of a device in the table or has been reported to the manager as failed or lost, once. When no such late report comes, there are no ghosts, and every
  client that is not in the table has been unregistered exactly as often as registered.
\<close>

theorem ble_clients_balanced:
  assumes "stack_ok stack" "st = fold (ble_do stack) events new_BleDriver"
  shows "distinct (keys_of (bt_devices st))
     \<and> (\<forall>i d. find_key (bt_devices st) i = Some d \<longrightarrow> genuine i d \<or> ghost d)
     \<and> (\<forall>i j d e. find_key (bt_devices st) i = Some d \<longrightarrow> find_key (bt_devices st) j = Some e \<longrightarrow> genuine i d \<longrightarrow> genuine j e
          \<longrightarrow> d_address d = d_address e \<longrightarrow> i = j)
     \<and> (\<forall>i>0. in_use i (trace st) \<longleftrightarrow> (\<exists>d. find_key (bt_devices st) i = Some d \<and> genuine i d))
     \<and> (\<forall>i. connects i (trace st) = losses i (trace st) + (if \<exists>d. find_key (bt_devices st) i = Some d \<and> genuine i d then 1 else 0))
     \<and> (ble_reachable stack st \<longrightarrow>
          (\<forall>i d. find_key (bt_devices st) i = Some d \<longrightarrow> genuine i d)
          \<and> (\<forall>i>0. registers i (trace st) = unregisters i (trace st) + (if has_key (bt_devices st) i then 1 else 0)))"
proof -
  have s: "ble_safe st" using ble_run_safe [OF assms(1)] by (simp add: assms(2))
  have c: "connects i (trace st) = losses i (trace st) + (if \<exists>d. find_key (bt_devices st) i = Some d \<and> genuine i d then 1 else 0)" for i
    using ble_safeD(6) [OF s, of i] by (simp only: owned_def of_bool_def)
  have u: "\<forall>i>0. in_use i (trace st) \<longleftrightarrow> (\<exists>d. find_key (bt_devices st) i = Some d \<and> genuine i d)"
    unfolding owned_def [symmetric] by (intro allI impI ble_safeD(5) [OF s])
  have r: "(\<forall>i d. find_key (bt_devices st) i = Some d \<longrightarrow> genuine i d)
      \<and> (\<forall>i>0. registers i (trace st) = unregisters i (trace st) + (if has_key (bt_devices st) i then 1 else 0))" if "ble_reachable stack st"
  proof -
    note I = ble_invD [OF ble_reachable_inv [OF that assms(1)]]
    show ?thesis using I(3) I(5) unfolding genuine_def of_bool_def by blast
  qed
  have e: "\<forall>i d. find_key (bt_devices st) i = Some d \<longrightarrow> genuine i d \<or> ghost d"
    "\<forall>i j d e. find_key (bt_devices st) i = Some d \<longrightarrow> find_key (bt_devices st) j = Some e \<longrightarrow> genuine i d \<longrightarrow> genuine j e
       \<longrightarrow> d_address d = d_address e \<longrightarrow> i = j"
    by (intro allI impI ble_safeD(3) [OF s], assumption) (intro allI impI, rule ble_safeD(4) [OF s])
  show ?thesis by (intro conjI ble_safeD(2) [OF s] e u allI [OF c] impI [OF r])
qed

text \<open>A device is opened and closed, and its \<open>connected\<close> comes late: its connection is answered once, and what is left is a ghost.\<close>

theorem ble_clients_balanced_witness:
  "case fold (ble_do demo_stack) [BleOpen demo_mac, BleClose 1, BleConnection 1 1 0] new_BleDriver of st \<Rightarrow>
     has_key (bt_devices st) 1 \<and> \<not> in_use 1 (trace st) \<and> connects 1 (trace st) = 1 \<and> losses 1 (trace st) = 1"
proof -
  let ?st = "fold (ble_do demo_stack) [BleOpen demo_mac, BleClose 1, BleConnection 1 1 0] new_BleDriver"
  have k: "map (\<lambda>p. (fst p, d_id (snd p))) (bt_devices ?st) = [(1, 0)]" by code_simp
  have n: "connects 1 (trace ?st) = 1" by code_simp
  obtain d where d: "find_key (bt_devices ?st) 1 = Some d" "d_id d = 0" using k by (cases "bt_devices ?st") auto
  then have g: "\<not> (\<exists>d. find_key (bt_devices ?st) 1 = Some d \<and> genuine 1 d)" by (simp add: genuine_def)
  note B = ble_clients_balanced [OF demo_stack_ok refl, of "[BleOpen demo_mac, BleClose 1, BleConnection 1 1 0]"]
  have "in_use 1 (trace ?st) \<longleftrightarrow> (\<exists>d. find_key (bt_devices ?st) 1 = Some d \<and> genuine 1 d)"
    "connects 1 (trace ?st) = losses 1 (trace ?st) + (if \<exists>d. find_key (bt_devices ?st) 1 = Some d \<and> genuine 1 d then 1 else 0)"
    using B by (elim conjE, simp)+
  then show ?thesis using g d(1) n by (simp add: Let_def)
qed

section \<open>From an event to the air\<close>

text \<open>An event that carries whole MIDI 1.0 messages: its words are the packets of a parse of their bytes.\<close>

definition carries :: "MidiEventInner \<Rightarrow> Midi1Message list \<Rightarrow> bool" where
  "carries e ms \<longleftrightarrow> ms \<noteq> [] \<and> (\<forall>m\<in>set ms. message_ok m)
     \<and> (\<exists>p st. ev_data e = Some p \<and> proc_ok st
          \<and> read_words p (ev_length e) = packets_words (snd (run ParseByte st (concat (map message_bytes ms)))))"

lemma message_bytes_hd: "message_ok m \<Longrightarrow> message_bytes m \<noteq> [] \<and> 0x80 \<le> hd (message_bytes m)"
  by (cases m) simp_all

lemma messages_hd:
  assumes "ms \<noteq> []" "\<forall>m\<in>set ms. message_ok m"
  shows "concat (map message_bytes ms) \<noteq> [] \<and> 0x80 \<le> hd (concat (map message_bytes ms))"
  using assms message_bytes_hd [of "hd ms"] by (cases ms) simp_all

lemma Convert_carries:
  assumes "carries e ms"
  shows "\<exists>pr'. ConvertUmpToMidi1 pr (ev_data e) (ev_length e) = (pr', concat (map message_bytes ms)) \<and> ev_data e \<noteq> None"
proof -
  obtain p st where p: "ev_data e = Some p" "proc_ok st" "ms \<noteq> []" "\<forall>m\<in>set ms. message_ok m"
    "read_words p (ev_length e) = packets_words (snd (run ParseByte st (concat (map message_bytes ms))))"
    using assms unfolding carries_def by blast
  obtain st' out where out: "run ParseByte st (concat (map message_bytes ms)) = (st', out)" "bytes_back pr out = concat (map message_bytes ms)"
    using messages_back [OF p(2,4)] by blast
  have ws: "read_words p (ev_length e) = packets_words out" using p(5) out(1) by simp
  have "packets_words out \<noteq> []" using out(2) messages_hd [OF p(3,4)] by (auto simp: bytes_back_def)
  then have "read_words p (ev_length e) \<noteq> []" by (simp only: ws not_False_eq_True)
  then have "ev_length e \<noteq> 0" by (auto simp: read_words_def)
  obtain pr' chunks where L: "ProcessUmpLoop pr (packets_words out) = (pr', chunks)" by fastforce
  have "concat chunks = concat (map message_bytes ms)" using out(2) L by (simp add: bytes_back_def)
  then show ?thesis using p(1) L \<open>ev_length e \<noteq> 0\<close> \<open>packets_words out \<noteq> []\<close>
    by (simp add: ConvertUmpToMidi1_def ProcessUmp_def ws)
qed

lemma SendEvents_carries:
  assumes "list_all2 carries es mss"
  shows "\<exists>pkts. trace (snd (SendEvents clock k c es pr st)) = trace st @ map (GattWrite c) pkts
     \<and> list_all2 (\<lambda>pkt ms. \<forall>rx. ProcessBytes rx (tl pkt) = run ParseByte rx (concat (map message_bytes ms))) pkts mss"
  using assms
proof (induction es mss arbitrary: k pr st rule: list_all2_induct)
  case (Cons e es ms mss)
  obtain pr' where C: "ConvertUmpToMidi1 pr (ev_data e) (ev_length e) = (pr', concat (map message_bytes ms))" "ev_data e \<noteq> None"
    using Convert_carries [OF Cons.hyps(1)] by blast
  have h: "concat (map message_bytes ms) \<noteq> []" "0x80 \<le> hd (concat (map message_bytes ms))"
    using Cons.hyps(1) messages_hd unfolding carries_def by blast+
  define pkt where "pkt = EncodeEvent (Some (concat (map message_bytes ms))) (GetBleTimestampMs (timestamp e) (clock k))"
  have ne: "pkt \<noteq> []" using h(1) by (simp add: pkt_def EncodeEvent_def Let_def)
  obtain pkts where I: "trace (snd (SendEvents clock (k + 1) c es pr' (bt_call (GattWrite c pkt) st))) = trace (bt_call (GattWrite c pkt) st) @ map (GattWrite c) pkts"
    "list_all2 (\<lambda>pkt ms. \<forall>rx. ProcessBytes rx (tl pkt) = run ParseByte rx (concat (map message_bytes ms))) pkts mss"
    using Cons.IH by blast
  have "SendEvents clock k c (e # es) pr st = SendEvents clock (k + 1) c es pr' (bt_call (GattWrite c pkt) st)"
    unfolding SendEvents.simps using C h(1) ne by (simp only: if_False case_prod_conv Let_def pkt_def [symmetric])
  then show ?case using I EncodeEvent_back [OF h]
    by (intro exI [of _ "pkt # pkts"]) (simp add: pkt_def)
qed simp

text \<open>
  C26: events that carry whole MIDI 1.0 messages reach the other side of the Bluetooth link. Sent to an output port that is
  ready, every event is written to the device as one packet, in order, and the payload of that packet has on the parser of a
  receiver, in any state, exactly the effect of the bytes of the messages.
\<close>

theorem ble_delivery:
  assumes "find_key (bt_devices st) i = Some d" "outputOpen d" "d_connected d" "serviceReady d" "outProcessor d \<noteq> None"
    "list_all2 carries es mss" "Ble_HandleUmpInput clock i 0 es st = (ret, st')"
  shows "ret = 0 \<and> (\<exists>pkts. trace st' = trace st @ map (GattWrite (d_id d)) pkts
     \<and> list_all2 (\<lambda>pkt ms. \<forall>rx. ProcessBytes rx (tl pkt) = run ParseByte rx (concat (map message_bytes ms))) pkts mss)"
proof -
  obtain pr where pr: "outProcessor d = Some pr" using assms(5) by blast
  obtain pr' st1 where S: "SendEvents clock 0 (d_id d) es pr st = (pr', st1)" by fastforce
  have "ret = 0" "st' = set_dev i (d\<lparr>outProcessor := Some pr'\<rparr>) st1"
    using assms(1-4,7) pr S by (simp_all add: Ble_HandleUmpInput_def)
  then show ?thesis using SendEvents_carries [OF assms(6), of clock 0 "d_id d" pr st] by (simp add: S)
qed

definition demo_note :: MidiEventInner where
  "demo_note = \<lparr>timestamp = 5000000, ev_length = 1, ev_data = Some (\<lambda>_. 0x20903C40)\<rparr>"

lemma demo_note_carries: "carries demo_note [Short 0x90 [0x3C, 0x40]]"
proof -
  have "packets_words (snd (run ParseByte new_UmpProcessor (concat (map message_bytes [Short 0x90 [0x3C, 0x40]])))) = [0x20903C40]"
    by code_simp
  moreover have "proc_ok new_UmpProcessor" "message_ok (Short 0x90 [0x3C, 0x40])" by code_simp+
  ultimately show ?thesis
    unfolding carries_def by (intro conjI exI [of _ "\<lambda>_. 0x20903C40"] exI [of _ new_UmpProcessor])
      (simp_all add: demo_note_def read_words_def)
qed

lemma demo_ble_device:
  "\<exists>d. find_key (bt_devices demo_ble) 1 = Some d \<and> d_id d = 1 \<and> outputOpen d \<and> d_connected d \<and> serviceReady d \<and> outProcessor d \<noteq> None"
proof -
  have "(case find_key (bt_devices demo_ble) 1 of None \<Rightarrow> False
     | Some d \<Rightarrow> d_id d = 1 \<and> outputOpen d \<and> d_connected d \<and> serviceReady d \<and> outProcessor d \<noteq> None)" by code_simp
  then show ?thesis by (auto split: option.splits)
qed

theorem ble_delivery_witness:
  "\<exists>pkt. trace (snd (Ble_HandleUmpInput (\<lambda>_. 0) 1 0 [demo_note] demo_ble)) = trace demo_ble @ [GattWrite 1 pkt]
     \<and> ProcessBytes new_UmpProcessor (tl pkt) = run ParseByte new_UmpProcessor [0x90, 0x3C, 0x40]"
proof -
  obtain d where d: "find_key (bt_devices demo_ble) 1 = Some d" "d_id d = 1" "outputOpen d" "d_connected d" "serviceReady d" "outProcessor d \<noteq> None"
    using demo_ble_device by blast
  have "list_all2 carries [demo_note] [[Short 0x90 [0x3C, 0x40]]]" using demo_note_carries by simp
  from ble_delivery [OF d(1) d(3-6) this prod.collapse [symmetric], of "\<lambda>_. 0"] show ?thesis
    by (auto simp: list_all2_Cons2 d(2))
qed

text \<open>
  An event that holds only the continuation of a system exclusive message is written with a timestamp in front of its data bytes,
  which a receiver takes for a status byte (\<open>continuation_misread\<close>); and a report that a client which
  the driver does not know is connected makes a device of its own, with the identifier zero, that no operation reaches.
\<close>

lemma ghost_device:
  assumes "isInstance st" "find_key (bt_devices st) c = None" "BleGattcSearchServices stack c (trace st) = 0"
  shows "find_key (bt_devices (OnConnectionState stack c (OHOS_STATE_CONNECTED stack) 0 st)) c = Some (empty_DeviceCtx\<lparr>d_connected := True\<rparr>)
     \<or> OHOS_STATE_CONNECTED stack = OHOS_STATE_DISCONNECTED stack"
  using assms by (simp add: OnConnectionState_def Let_def)

end
