(* ===== verification/Hot_Plug.thy ===== *)
theory Hot_Plug
  imports Usb_Driver Ble_Driver_Properties
begin

text \<open>
  The parts of \<^verbatim>\<open>services/server/src/midi_device_mananger.cpp\<close> that tie the registry to its surroundings: the constructor
  with the two drivers, the subscription to the events of the USB bus, and what an event leads to. The texts of the two actions, the parser of the data of
  an event and the answer to the subscription come from outside.
\<close>

section \<open>The drivers of the manager\<close>

text \<open>A driver on one part of the common state.\<close>

definition driver_on :: "('s \<Rightarrow> 'd) \<Rightarrow> ('d \<Rightarrow> 's \<Rightarrow> 's) \<Rightarrow> 'd MidiDeviceDriver \<Rightarrow> 's MidiDeviceDriver" where
  "driver_on get put driver =
     (let on = (\<lambda>f s. case f (get s) of (ret, d) \<Rightarrow> (ret, put d s))
      in \<lparr>drv_GetRegisteredDevices = (\<lambda>s. drv_GetRegisteredDevices driver (get s)),
          drv_OpenDevice = (\<lambda>i. on (drv_OpenDevice driver i)),
          drv_OpenBleDevice = (\<lambda>addr. on (drv_OpenBleDevice driver addr)),
          drv_CloseDevice = (\<lambda>i s. case drv_CloseDevice driver i (get s) of (ret, reports, d) \<Rightarrow> (ret, reports, put d s)),
          drv_OpenInputPort = (\<lambda>i p. on (drv_OpenInputPort driver i p)),
          drv_OpenOutputPort = (\<lambda>i p. on (drv_OpenOutputPort driver i p)),
          drv_CloseInputPort = (\<lambda>i p. on (drv_CloseInputPort driver i p)),
          drv_CloseOutputPort = (\<lambda>i p. on (drv_CloseOutputPort driver i p))\<rparr>)"

text \<open>
  The constructor fills an unordered map, whose order is up to the library: \<open>usb_first\<close> says which of the two drivers a loop
  over it meets first.
\<close>

definition manager_drivers :: "bool \<Rightarrow> 'h IMidiInterface option \<Rightarrow> BluetoothStack \<Rightarrow> ('h \<times> BleDriver) Drivers" where
  "manager_drivers usb_first midiHdi stack =
     (let usb = (DEVICE_TYPE_USB, driver_on fst (\<lambda>h (_, b). (h, b)) (usb_driver midiHdi));
          ble = (DEVICE_TYPE_BLE, driver_on snd (\<lambda>b (h, _). (h, b)) (ble_driver stack))
      in if usb_first then [usb, ble] else [ble, usb])"

section \<open>Events\<close>

definition AUDIO_CLASS_ID :: int where "AUDIO_CLASS_ID = 1"
definition MIDI_SUBCLASS_ID :: int where "MIDI_SUBCLASS_ID = 3"

text \<open>A USB device: the class and the subclass of each interface of each configuration.\<close>

type_synonym UsbDevice = "(int \<times> int) list list"

definition isMidiDevice :: "UsbDevice \<Rightarrow> bool" where
  "isMidiDevice usbDevice = list_ex (list_ex (\<lambda>(c, s). c = AUDIO_CLASS_ID \<and> s = MIDI_SUBCLASS_ID)) usbDevice"

record UsbEvents =
  USB_DEVICE_ATTACHED :: string
  USB_DEVICE_DETACHED :: string
  ParseUsbDevice :: "string \<Rightarrow> UsbDevice option"

text \<open>The callback that \<open>Init\<close> subscribes calls \<open>UpdateDevices\<close>, while the manager exists.\<close>

definition OnReceiveEvent ::
  "UsbEvents \<Rightarrow> 'd Drivers \<Rightarrow> string \<Rightarrow> string \<Rightarrow> 'd MidiDeviceManager \<Rightarrow> ManagerCall list \<times> 'd MidiDeviceManager" where
  "OnReceiveEvent ev drv action devStr m =
     (if \<not> (action = USB_DEVICE_ATTACHED ev \<or> action = USB_DEVICE_DETACHED ev) then ([], m)
      else if devStr = [] then ([], m)
      else (case ParseUsbDevice ev devStr of
              None \<Rightarrow> ([], m)
            | Some usbDevice \<Rightarrow> if \<not> isMidiDevice usbDevice then ([], m) else UpdateDevices drv m))"

text \<open>\<open>subscribed\<close>: whether there is a subscriber; \<open>ret\<close>: the answer to the subscription.\<close>

definition Manager_Init ::
  "int \<Rightarrow> 'd Drivers \<Rightarrow> bool \<Rightarrow> 'd MidiDeviceManager \<Rightarrow> bool \<times> ManagerCall list \<times> 'd MidiDeviceManager" where
  "Manager_Init ret drv subscribed m =
     (if subscribed then (subscribed, [], m) else (ret = OH_MIDI_STATUS_OK, UpdateDevices drv m))"

section \<open>What the drivers report together\<close>

definition in_order :: "bool \<Rightarrow> 'a list \<Rightarrow> 'a list \<Rightarrow> 'a list" where
  "in_order usb_first us bs = (if usb_first then us @ bs else bs @ us)"

lemma in_order_simps [simp]:
  "map f (in_order o1 us bs) = in_order o1 (map f us) (map f bs)" "length (in_order o1 us bs) = length us + length bs"
  "set (in_order o1 us bs) = set us \<union> set bs" "distinct (in_order o1 us bs) = distinct (us @ bs)"
  by (auto simp: in_order_def)

lemma list_all2_in_order:
  assumes "list_all2 R (in_order o1 us bs) news"
  obtains us' bs' where "news = in_order o1 us' bs'" "list_all2 R us us'" "list_all2 R bs bs'"
  using assms by (cases o1) (auto simp: in_order_def list_all2_append1)

lemma manager_driver_devices:
  "driver_devices (manager_drivers usb_first midiHdi stack) (h, b)
   = in_order usb_first (Usb_GetRegisteredDevices midiHdi h) (GetRegisteredDevices b)"
  by (simp add: driver_devices_def manager_drivers_def driver_on_def usb_driver_def ble_driver_def in_order_def)

lemma usb_keys:
  "map driver_key (Usb_GetRegisteredDevices (Some hdi) h)
   = (case hdi_GetDeviceList hdi h of (ret, deviceList) \<Rightarrow>
        if ret \<noteq> OH_MIDI_STATUS_OK then [] else map (\<lambda>d. (hd_deviceId d, DEVICE_TYPE_USB)) (filter (\<lambda>d. hd_protocol d \<in> {1, 2}) deviceList))"
proof -
  have "map driver_key (List.map_filter (\<lambda>d. map_option (\<lambda>p. usb_device p d) (protocol_of (hd_protocol d))) ds)
      = map (\<lambda>d. (hd_deviceId d, DEVICE_TYPE_USB)) (filter (\<lambda>d. hd_protocol d \<in> {1, 2}) ds)" for ds
    by (induction ds) (auto simp: map_filter_simps protocol_of_def usb_device_def driver_key_def)
  then show ?thesis by (simp add: Usb_GetRegisteredDevices_def prod.case_eq_if)
qed

lemma ble_keys:
  assumes "ble_inv b"
  shows "map driver_key (GetRegisteredDevices b) = map (\<lambda>p. (fst p, DEVICE_TYPE_BLE)) (filter (\<lambda>p. d_connected (snd p)) (bt_devices b))"
proof -
  have "d_id (snd p) = fst p" if "p \<in> set (bt_devices b)" for p
    using ble_invD(2,3) [OF assms] that by (metis map_of_eq_Some_iff prod.collapse)
  then show ?thesis by (simp add: GetRegisteredDevices_def driver_key_def device_information_def)
qed

lemma drivers_distinct:
  assumes "ble_inv b" "distinct (map hd_deviceId (snd (hdi_GetDeviceList hdi h)))"
  shows "distinct (map driver_key (Usb_GetRegisteredDevices (Some hdi) h @ GetRegisteredDevices b))"
proof -
  have "distinct (map (\<lambda>d. (hd_deviceId d, DEVICE_TYPE_USB)) (filter P ds))" if "distinct (map hd_deviceId ds)" for P ds
    using that by (induction ds) auto
  moreover have "distinct (map (\<lambda>p. (fst p, DEVICE_TYPE_BLE)) (filter P xs))" if "distinct (map fst xs)" for P and xs :: "(int \<times> DeviceCtx) list"
    using that by (induction xs) auto
  ultimately have "distinct (map driver_key (Usb_GetRegisteredDevices (Some hdi) h))" "distinct (map driver_key (GetRegisteredDevices b))"
    using assms ble_invD(2) [OF assms(1)] by (auto simp: usb_keys ble_keys split: prod.split)
  moreover have "set (map driver_key (Usb_GetRegisteredDevices (Some hdi) h)) \<inter> set (map driver_key (GetRegisteredDevices b)) = {}"
    by (auto simp: usb_keys ble_keys [OF assms(1)] simp del: set_map split: prod.splits if_splits) (auto)
  ultimately show ?thesis by simp
qed

section \<open>Hot plugging\<close>

text \<open>An event that says that a MIDI device came or went.\<close>

definition midi_event :: "UsbEvents \<Rightarrow> string \<Rightarrow> string \<Rightarrow> bool" where
  "midi_event ev action devStr \<longleftrightarrow> action \<in> {USB_DEVICE_ATTACHED ev, USB_DEVICE_DETACHED ev} \<and> devStr \<noteq> []
     \<and> (\<exists>usbDevice. ParseUsbDevice ev devStr = Some usbDevice
          \<and> (\<exists>config\<in>set usbDevice. (AUDIO_CLASS_ID, MIDI_SUBCLASS_ID) \<in> set config))"

lemma OnReceiveEvent_cases: "OnReceiveEvent ev drv action devStr m = (if midi_event ev action devStr then UpdateDevices drv m else ([], m))"
  by (auto simp: OnReceiveEvent_def midi_event_def isMidiDevice_def list_ex_iff split: option.splits)

text \<open>How the devices of the two drivers appear in the registry.\<close>

definition usb_listed :: "'h IMidiInterface \<Rightarrow> 'h \<Rightarrow> DeviceInformation list \<Rightarrow> bool" where
  "usb_listed hdi h devs \<longleftrightarrow>
     (case hdi_GetDeviceList hdi h of (ret, deviceList) \<Rightarrow>
        list_all2 device_shown (if ret = OH_MIDI_STATUS_OK then filter (\<lambda>d. hd_protocol d \<in> {1, 2}) deviceList else []) devs)"

definition ble_listed :: "BleDriver \<Rightarrow> DeviceInformation list \<Rightarrow> bool" where
  "ble_listed b devs \<longleftrightarrow>
     list_all2 (\<lambda>(clientId, d) dev. driver_key dev = (clientId, DEVICE_TYPE_BLE) \<and> address (midiDeviceInfo dev) = d_address d)
       (filter (\<lambda>(clientId, d). d_connected d) (bt_devices b)) devs"

lemma device_shown_with_id: "device_shown d (with_id i dev) = device_shown d dev"
  by (simp add: device_shown_def with_id_def)

lemma list_all2_with_id:
  assumes "list_all2 (\<lambda>dev new. new = with_id (device_id new) dev) devs news" "list_all2 R xs devs"
    "\<And>x dev i. x \<in> set xs \<Longrightarrow> R x dev \<Longrightarrow> Q x (with_id i dev)"
  shows "list_all2 Q xs news"
  using assms by (auto simp: list_all2_conv_all_nth) (metis nth_mem)

lemma drivers_listed:
  assumes "list_all2 (\<lambda>dev new. new = with_id (device_id new) dev)
      (in_order usb_first (Usb_GetRegisteredDevices (Some hdi) h) (GetRegisteredDevices b)) news" "ble_inv b"
  shows "\<exists>us bs. news = in_order usb_first us bs \<and> usb_listed hdi h us \<and> ble_listed b bs"
proof -
  obtain us bs where n: "news = in_order usb_first us bs" "list_all2 (\<lambda>dev new. new = with_id (device_id new) dev) (Usb_GetRegisteredDevices (Some hdi) h) us"
      "list_all2 (\<lambda>dev new. new = with_id (device_id new) dev) (GetRegisteredDevices b) bs"
    by (rule list_all2_in_order [OF assms(1)])
  obtain ret deviceList where D: "hdi_GetDeviceList hdi h = (ret, deviceList)" by fastforce
  let ?shown = "if ret = OH_MIDI_STATUS_OK then filter (\<lambda>d. hd_protocol d \<in> {1, 2}) deviceList else []"
  have "list_all2 device_shown ?shown (Usb_GetRegisteredDevices (Some hdi) h)"
    using usb_devices_shown [of hdi h deviceList] D by (simp add: Usb_GetRegisteredDevices_def)
  then have "list_all2 device_shown ?shown us"
    by (rule list_all2_with_id [OF n(2)]) (simp add: device_shown_with_id)
  moreover have "list_all2 (\<lambda>p dev. driver_key dev = (fst p, DEVICE_TYPE_BLE) \<and> address (midiDeviceInfo dev) = d_address (snd p))
      (filter (\<lambda>p. d_connected (snd p)) (bt_devices b)) (GetRegisteredDevices b)"
    using ble_keys [OF assms(2)] unfolding GetRegisteredDevices_def
    by (simp add: list_all2_map2 list_all2_same device_information_def)
  then have "list_all2 (\<lambda>p dev. driver_key dev = (fst p, DEVICE_TYPE_BLE) \<and> address (midiDeviceInfo dev) = d_address (snd p))
      (filter (\<lambda>p. d_connected (snd p)) (bt_devices b)) bs"
    by (rule list_all2_with_id [OF n(3)]) (simp_all add: with_id_def driver_key_def)
  ultimately have "usb_listed hdi h us \<and> ble_listed b bs"
    unfolding usb_listed_def ble_listed_def D split_def fst_conv snd_conv by blast
  then show ?thesis using n(1) by blast
qed

text \<open>
  C14: what a USB event does to the registry of the service, with both drivers. Only an event about a MIDI device does anything. Afterwards the registry
  holds exactly the devices of the hardware interface with a known protocol, as they are, and the connected Bluetooth devices, in the
  order in which the table of drivers is walked, each
  under an identifier of its own; a device that was there keeps its identifier, one that the registry has never seen gets a new one, and that of a device that is gone is forgotten. Exactly the
  new devices are announced as added, then exactly those that are gone as removed; when the hardware interface
  reports an error, that is every USB device.
\<close>

theorem hot_plug:
  assumes "manager_inv m" "driver_state m = (h, b)" "ble_reachable stack b" "stack_ok stack"
    "distinct (map hd_deviceId (snd (hdi_GetDeviceList hdi h)))"
    "ids_left (length (snd (hdi_GetDeviceList hdi h)) + length (bt_devices b)) m"
    "OnReceiveEvent ev (manager_drivers usb_first (Some hdi) stack) action devStr m = (calls, m')"
  shows "if midi_event ev action devStr then
       manager_inv m' \<and> (\<exists>us bs. devices m' = (if usb_first then us @ bs else bs @ us) \<and> usb_listed hdi h us \<and> ble_listed b bs)
       \<and> (\<forall>old\<in>set (devices m). \<forall>new\<in>set (devices m'). driver_key new = driver_key old \<longrightarrow> device_id new = device_id old)
       \<and> (\<forall>new\<in>set (devices m'). find_key (driverIdToMidiId m) (driver_key new) = None \<longrightarrow> nextDeviceId m < device_id new)
       \<and> (\<forall>old\<in>set (devices m). driver_key old \<notin> driver_key ` set (devices m') \<longrightarrow> find_key (driverIdToMidiId m') (driver_key old) = None)
       \<and> calls = map (NotifyChange ADD) (filter (\<lambda>n. driver_key n \<notin> driver_key ` set (devices m)) (devices m'))
           @ map (NotifyChange REMOVED) (filter (\<lambda>p. driver_key p \<notin> driver_key ` set (devices m')) (devices m))
     else calls = [] \<and> m' = m"
proof (cases "midi_event ev action devStr")
  case True
  let ?devs = "in_order usb_first (Usb_GetRegisteredDevices (Some hdi) h) (GetRegisteredDevices b)"
  have b: "ble_inv b" by (rule ble_reachable_inv [OF assms(3,4)])
  have "length (map driver_key (Usb_GetRegisteredDevices (Some hdi) h)) \<le> length (snd (hdi_GetDeviceList hdi h))"
    unfolding usb_keys by (auto split: prod.split)
  moreover have "length (GetRegisteredDevices b) \<le> length (bt_devices b)" by (simp add: GetRegisteredDevices_def)
  ultimately have left: "ids_left (length ?devs) m" using assms(6) by (simp add: ids_left_def)
  have U: "UpdateDevices (manager_drivers usb_first (Some hdi) stack) m = (calls, m')" using assms(7) True by (simp add: OnReceiveEvent_cases)
  have d: "?devs = driver_devices (manager_drivers usb_first (Some hdi) stack) (driver_state m)" by (simp add: assms(2) manager_driver_devices)
  have "distinct (map driver_key ?devs)" using drivers_distinct [OF b assms(5)] by simp
  note R = update_devices [OF assms(1) d this left, unfolded U prod.case]
  have "map driver_key (devices m') = map driver_key ?devs" using R keys_with_ids by blast
  then have "driver_key ` set ?devs = driver_key ` set (devices m')" by (metis list.set_map)
  then show ?thesis using True R drivers_listed [OF _ b, of usb_first hdi h "devices m'"] by (simp add: in_order_def)
qed (use assms(7) in \<open>simp add: OnReceiveEvent_cases\<close>)

text \<open>The piano is plugged in while a Bluetooth device that the registry knows is connected.\<close>

definition demo_bus :: UsbEvents where
  "demo_bus = \<lparr>USB_DEVICE_ATTACHED = ''attached'', USB_DEVICE_DETACHED = ''detached'', ParseUsbDevice = (\<lambda>_. Some [[(1, 1), (1, 3)]])\<rparr>"

definition demo_registry :: "(unit \<times> BleDriver) MidiDeviceManager" where
  "demo_registry = new_MidiDeviceManager ((), demo_ble)"

theorem hot_plug_witness:
  "\<exists>us bs. devices (snd (OnReceiveEvent demo_bus (manager_drivers False (Some demo_hdi) demo_stack) ''attached'' ''{}'' demo_registry)) = bs @ us
     \<and> usb_listed demo_hdi () us \<and> length us = 1 \<and> ble_listed demo_ble bs"
proof -
  let ?r = "OnReceiveEvent demo_bus (manager_drivers False (Some demo_hdi) demo_stack) ''attached'' ''{}'' demo_registry"
  have e: "midi_event demo_bus ''attached'' ''{}''"
    by (simp add: midi_event_def demo_bus_def AUDIO_CLASS_ID_def MIDI_SUBCLASS_ID_def)
  have m: "manager_inv demo_registry" "driver_state demo_registry = ((), demo_ble)"
    by (simp_all add: demo_registry_def new_MidiDeviceManager_def manager_inv_def)
  have d: "distinct (map hd_deviceId (snd (hdi_GetDeviceList demo_hdi ())))" by (simp add: demo_hdi_def)
  have "length (bt_devices demo_ble) = 1" by code_simp
  then have l: "ids_left (length (snd (hdi_GetDeviceList demo_hdi ())) + length (bt_devices demo_ble)) demo_registry"
    by (simp add: ids_left_def demo_registry_def new_MidiDeviceManager_def demo_hdi_def)
  have "?r = (fst ?r, snd ?r)" by simp
  from hot_plug [OF m demo_ble_reachable demo_stack_ok d l this] obtain us bs
    where r: "devices (snd ?r) = bs @ us" "usb_listed demo_hdi () us" "ble_listed demo_ble bs"
    unfolding if_P [OF e] by auto
  moreover have "length us = 1" using r(2) by (auto simp: usb_listed_def demo_hdi_def OH_MIDI_STATUS_OK_def dest: list_all2_lengthD)
  ultimately show ?thesis by blast
qed

end
