(* ===== verification/Midi_Server.thy ===== *)
theory Midi_Server
  imports Text_Dump Hot_Plug Service_Properties
begin

text \<open>
  \<^verbatim>\<open>services/server/src/midi_server.cpp\<close>: the entry of the service, which the system starts and stops, and through which a client is
  created and the state is shown. The controller is a static object that lives as long as the process; the server only
  has a pointer to it.
\<close>

section \<open>Operations\<close>

text \<open>
  \<open>sp_instance\<close>: the controller that \<open>GetInstance\<close> gives; \<open>sp_subscribed\<close>: whether its manager has a subscriber for the events of the
  bus; \<open>sp_controller\<close>: whether the server's pointer is set.
\<close>

record 'd MidiServer =
  sp_instance :: "'d MidiServiceController"
  sp_subscribed :: bool
  sp_controller :: bool

definition new_MidiServer :: "'d \<Rightarrow> 'd MidiServer" where
  "new_MidiServer d = \<lparr>sp_instance = new_MidiServiceController d, sp_subscribed = False, sp_controller = False\<rparr>"

text \<open>\<open>MidiServiceController::Init\<close>, with the notifications that the manager sends meanwhile.\<close>

definition Controller_Init :: "int \<Rightarrow> 'd Drivers \<Rightarrow> bool \<Rightarrow> 'd MidiServiceController \<Rightarrow> bool \<times> 'd MidiServiceController" where
  "Controller_Init ret drv subscribed st =
     (case Manager_Init ret drv subscribed (manager st) of (subscribed, calls, m) \<Rightarrow>
        (subscribed, fold (HandleManagerCall drv) calls (st\<lparr>manager := m\<rparr>)))"

text \<open>\<open>ret\<close> is the answer to the subscription. Whether the service could be published is only logged.\<close>

definition OnStart :: "int \<Rightarrow> 'd Drivers \<Rightarrow> 'd MidiServer \<Rightarrow> 'd MidiServer" where
  "OnStart ret drv s =
     (case Controller_Init ret drv (sp_subscribed s) (sp_instance s) of (subscribed, st) \<Rightarrow>
        \<lparr>sp_instance = st, sp_subscribed = subscribed, sp_controller = True\<rparr>)"

definition OnStop :: "'d MidiServer \<Rightarrow> 'd MidiServer" where
  "OnStop s = s\<lparr>sp_controller := False\<rparr>"

text \<open>\<open>out\<close> is what writing a text to the descriptor returns.\<close>

definition Dump :: "(int \<Rightarrow> string \<Rightarrow> int) \<Rightarrow> int \<Rightarrow> ServiceEnv \<Rightarrow> int \<Rightarrow> u16 list list \<Rightarrow> 'd MidiServer \<Rightarrow> int" where
  "Dump out nowMs env fd args s =
     (if fd < 0 then OH_MIDI_STATUS_GENERIC_INVALID_ARGUMENT else out fd (HandleDump nowMs env args (sp_instance s)))"

definition Server_CreateMidiInServer :: "bool \<Rightarrow> bool \<Rightarrow> bool \<Rightarrow> u32 \<Rightarrow> 'd MidiServer \<Rightarrow> int \<times> 'd MidiServer" where
  "Server_CreateMidiInServer valid allocated added callingUid s =
     (if \<not> sp_controller s then (OH_MIDI_STATUS_SYSTEM_ERROR, s)
      else (case CreateMidiInServer valid allocated added callingUid (sp_instance s) of
              (ret, _, st) \<Rightarrow> (ret, s\<lparr>sp_instance := st\<rparr>)))"

section \<open>The life of the service\<close>

text \<open>The system starts and stops the server; clients are created through it; every other request goes to the controller.\<close>

definition not_create :: "'d Request \<Rightarrow> bool" where
  "not_create req \<longleftrightarrow> (case req of Create _ _ _ _ \<Rightarrow> False | _ \<Rightarrow> True)"

inductive server_step :: "'d Drivers \<Rightarrow> 'd MidiServer \<Rightarrow> 'd MidiServer \<Rightarrow> bool" for drv where
  started: "server_step drv s (OnStart ret drv s)"
| stopped: "server_step drv s (OnStop s)"
| created: "server_step drv s (snd (Server_CreateMidiInServer valid allocated added callingUid s))"
| served: "not_create req \<Longrightarrow> server_step drv s (s\<lparr>sp_instance := snd (serve drv req (sp_instance s))\<rparr>)"

definition server_reachable :: "'d Drivers \<Rightarrow> 'd MidiServer \<Rightarrow> bool" where
  "server_reachable drv s \<longleftrightarrow> (\<exists>d. (server_step drv)\<^sup>*\<^sup>* (new_MidiServer d) s)"

lemma reachable_serve: "reachable drv st \<Longrightarrow> reachable drv (snd (serve drv req st))"
  by (rule reachable.step [OF _ service_step.intros [of drv req st "fst (serve drv req st)"]]) simp_all

lemma Init_serve: "snd (Controller_Init ret drv subscribed st) = (if subscribed then st else snd (serve drv BusChange st))"
  by (simp add: Controller_Init_def Manager_Init_def serve_def with_manager_def split: prod.split)

lemma Create_serve: "snd (Server_CreateMidiInServer valid allocated added u s)
    = (if sp_controller s then s\<lparr>sp_instance := snd (serve drv (Create valid allocated added u) (sp_instance s))\<rparr> else s)"
  by (simp add: Server_CreateMidiInServer_def serve_def split: prod.split)

text \<open>
  The entry adds nothing to what can happen to the controller: in every state of the service the controller is in one of the states that
  \<open>Service_Controller\<close> describes, so that its invariant and all its theorems hold behind the entry.
\<close>

lemma server_controller:
  assumes "server_reachable drv s"
  shows "reachable drv (sp_instance s)" "service_inv (sp_instance s)"
proof -
  obtain d where "(server_step drv)\<^sup>*\<^sup>* (new_MidiServer d) s" using assms by (auto simp: server_reachable_def)
  then show r: "reachable drv (sp_instance s)"
  proof (induction rule: rtranclp_induct)
    case base
    show ?case by (simp add: new_MidiServer_def reachable.init)
  next
    case (step s s')
    from step(2) show ?case
    proof cases
      case (started ret)
      then have "sp_instance s' = snd (Controller_Init ret drv (sp_subscribed s) (sp_instance s))"
        by (simp add: OnStart_def prod.case_eq_if)
      then show ?thesis using step(3) by (simp add: Init_serve reachable_serve)
    next
      case (created valid allocated added u)
      then show ?thesis using step(3) by (simp add: Create_serve [of _ _ _ _ _ drv] reachable_serve)
    qed (use step(3) in \<open>simp_all add: OnStop_def reachable_serve\<close>)
  qed
  show "service_inv (sp_instance s)" by (rule reachable_inv [OF r])
qed

text \<open>
  Between the start and the stop the server hands a client's request on, and otherwise refuses it. Stopping forgets nothing: a service
  that is started again in the same process finds its clients, its devices and its subscription as they were.
\<close>

lemma server_stopped:
  "Server_CreateMidiInServer valid allocated added u (OnStop s) = (OH_MIDI_STATUS_SYSTEM_ERROR, OnStop s)"
  "sp_subscribed s \<Longrightarrow> sp_instance (OnStart ret drv (OnStop s)) = sp_instance s \<and> sp_subscribed (OnStart ret drv (OnStop s))"
  "sp_controller (OnStart ret drv s)"
  by (simp_all add: Server_CreateMidiInServer_def OnStop_def OnStart_def Controller_Init_def Manager_Init_def split: prod.split)

text \<open>
  A subscription that failed is tried again at the next start, which then searches the buses again; without it the service never hears of
  a device that is plugged in.
\<close>

lemma server_subscription: "sp_subscribed (OnStart ret drv s) \<longleftrightarrow> sp_subscribed s \<or> ret = OH_MIDI_STATUS_OK"
  by (auto simp: OnStart_def Controller_Init_def Manager_Init_def split: prod.split)

end
