(* ===== verification/Ble_Lifecycle.thy ===== *)
theory Ble_Lifecycle
  imports Hot_Plug
begin

text \<open>
  The beginning and the end of the Bluetooth driver (\<^verbatim>\<open>services/server/src/midi_device_ble.cpp\<close>): the table of callbacks that it gives to the
  stack, the one instance that the callbacks act on, and what its destructor does; and the destructor of the manager, which ends it.
\<close>

section \<open>Callbacks\<close>

datatype GattCallback = ConnectionState | SearchServicesComplete | WriteComplete | RegisterNotify | Notification

record BtGattClientCallbacks =
  ConnectionStateCb :: "GattCallback option"
  connectParaUpdateCb :: "GattCallback option"
  searchServiceCompleteCb :: "GattCallback option"
  readCharacteristicCb :: "GattCallback option"
  writeCharacteristicCb :: "GattCallback option"
  readDescriptorCb :: "GattCallback option"
  writeDescriptorCb :: "GattCallback option"
  configureMtuSizeCb :: "GattCallback option"
  registerNotificationCb :: "GattCallback option"
  notificationCb :: "GattCallback option"
  serviceChangeCb :: "GattCallback option"

definition gattCallbacks :: BtGattClientCallbacks where
  "gattCallbacks =
     \<lparr>ConnectionStateCb = Some ConnectionState, connectParaUpdateCb = None, searchServiceCompleteCb = Some SearchServicesComplete,
      readCharacteristicCb = None, writeCharacteristicCb = Some WriteComplete, readDescriptorCb = None, writeDescriptorCb = None,
      configureMtuSizeCb = None, registerNotificationCb = Some RegisterNotify, notificationCb = Some Notification, serviceChangeCb = None\<rparr>"

text \<open>The completion of a writing changes nothing, whatever its status.\<close>

definition OnwriteComplete :: "int \<Rightarrow> int \<Rightarrow> BleDriver \<Rightarrow> BleDriver" where
  "OnwriteComplete clientId status st = st"

section \<open>The instance\<close>

text \<open>\<open>g\<close> is the driver that is registered; drivers are named by numbers.\<close>

definition RegisterInstance :: "nat \<Rightarrow> nat option \<Rightarrow> bool \<times> nat option" where
  "RegisterInstance inst g = (if g \<noteq> None then (False, g) else (True, Some inst))"

definition UnregisterInstance :: "nat option \<Rightarrow> nat option" where
  "UnregisterInstance g = None"

text \<open>The registered driver is the one whose callbacks act; the field says so of one driver.\<close>

definition set_instance :: "nat option \<Rightarrow> nat \<Rightarrow> BleDriver \<Rightarrow> BleDriver" where
  "set_instance g inst st = st\<lparr>isInstance := (g = Some inst)\<rparr>"

definition destroy_BleDriver :: "BleDriver \<Rightarrow> BleDriver" where
  "destroy_BleDriver st =
     (let clientIds = map fst (bt_devices st)
      in fold (\<lambda>cid st. bt_call (GattUnRegister cid) (bt_call (GattDisconnect cid) st)) clientIds st)"

text \<open>
  The destructor of the manager, for the driver \<open>inst\<close>: the instance is given up, and the table of drivers, which holds the last
  reference, is cleared.
\<close>

definition destroy_Manager :: "nat \<Rightarrow> nat option \<Rightarrow> BleDriver \<Rightarrow> nat option \<times> BleDriver" where
  "destroy_Manager inst g st =
     (let g = UnregisterInstance g
      in (g, destroy_BleDriver (set_instance g inst st)))"

section \<open>After the end\<close>

definition from_stack :: "BleEvent \<Rightarrow> bool" where
  "from_stack e = (case e of BleConnection _ _ _ \<Rightarrow> True | BleServices _ _ \<Rightarrow> True | BleRegistered _ _ \<Rightarrow> True | BleNotification _ _ _ _ \<Rightarrow> True | _ \<Rightarrow> False)"

lemma destroy_trace:
  "trace (fold (\<lambda>cid st. bt_call (GattUnRegister cid) (bt_call (GattDisconnect cid) st)) cs st)
     = trace st @ concat (map (\<lambda>cid. [GattDisconnect cid, GattUnRegister cid]) cs)"
  "isInstance (fold (\<lambda>cid st. bt_call (GattUnRegister cid) (bt_call (GattDisconnect cid) st)) cs st) = isInstance st"
  by (induction cs arbitrary: st) simp_all

lemma destroy_counts:
  "registers i (concat (map (\<lambda>cid. [GattDisconnect cid, GattUnRegister cid]) cs)) = 0"
  "unregisters i (concat (map (\<lambda>cid. [GattDisconnect cid, GattUnRegister cid]) cs)) = count_list cs i"
  "losses i (concat (map (\<lambda>cid. [GattDisconnect cid, GattUnRegister cid]) cs)) = 0"
  by (induction cs) (simp_all add: count_defs)

lemma count_list_distinct: "distinct xs \<Longrightarrow> count_list xs x = of_bool (x \<in> set xs)"
  by (induction xs) auto

lemma dead_callbacks: "\<not> isInstance st \<Longrightarrow> from_stack e \<Longrightarrow> ble_do stack e st = st"
  by (cases e) (simp_all add: from_stack_def ble_do_def OnConnectionState_def OnSearvicesComplete_def OnRegisterNotify_def OnNotification_def)

text \<open>
  When the manager is destroyed, in any state that the driver can be in, every client that the driver ever registered with the stack has been unregistered as often as it was
  registered; no callback of the stack changes anything any more; and no connection that was being made or in use is reported as lost.
\<close>

lemma ble_destroyed:
  assumes "ble_reachable stack st" "stack_ok stack" "destroy_Manager inst g st = (g', st')"
  shows "g' = None" "\<forall>i>0. registers i (trace st') = unregisters i (trace st')" "from_stack e \<Longrightarrow> ble_do stack e st' = st'"
    "losses i (trace st') = losses i (trace st)"
proof -
  let ?cs = "map fst (bt_devices st)"
  have I: "ble_inv st" by (rule ble_reachable_inv [OF assms(1,2)])
  show "g' = None" using assms(3) by (simp add: destroy_Manager_def UnregisterInstance_def Let_def)
  have st': "st' = fold (\<lambda>cid st. bt_call (GattUnRegister cid) (bt_call (GattDisconnect cid) st)) ?cs (st\<lparr>isInstance := False\<rparr>)"
    using assms(3) by (auto simp: destroy_Manager_def UnregisterInstance_def set_instance_def destroy_BleDriver_def Let_def)
  have "\<not> isInstance st'" by (simp add: st' destroy_trace)
  then show "from_stack e \<Longrightarrow> ble_do stack e st' = st'" by (rule dead_callbacks)
  have t: "trace st' = trace st @ concat (map (\<lambda>cid. [GattDisconnect cid, GattUnRegister cid]) ?cs)" by (simp add: st' destroy_trace)
  then show "losses i (trace st') = losses i (trace st)" using destroy_counts(3) [of i ?cs] by simp
  have "count_list ?cs i = of_bool (has_key (bt_devices st) i)" for i
    using count_list_distinct [of ?cs i] ble_invD(2) [OF I] by (simp add: map_of_eq_None_iff)
  then show "\<forall>i>0. registers i (trace st') = unregisters i (trace st')"
    using ble_invD(5) [OF I] destroy_counts(1,2) [of _ ?cs] by (simp add: t)
qed

text \<open>A second driver is not registered, and the callbacks do not reach it.\<close>

lemma one_instance:
  assumes "RegisterInstance inst g = (ok, g')" "g = Some other" "inst \<noteq> other"
  shows "\<not> ok" "isInstance (set_instance g' other st)" "\<not> isInstance (set_instance g' inst st)"
  using assms by (auto simp: RegisterInstance_def set_instance_def)

end
