(* ===== verification/Spec2Isabelle.thy ===== *)
theory Spec2Isabelle
  imports Client_Session Unload_Timer Shared_Memory Info_Parcel Output_Thread Midi_Server Ble_Lifecycle
begin

text \<open>
  A model of the OpenHarmony MIDI framework, all paths under \<^verbatim>\<open>src/\<close>.

  \<^bold>\<open>The program.\<close> An application uses the client library (\<^verbatim>\<open>frameworks/native/midi\<close>), which calls the MIDI
  service over IPC. The service (\<^verbatim>\<open>services/server\<close>) keeps the tables of clients, devices and open ports in the
  controller, the registry of the devices in the device manager, and one connection per open port of a device. Each client of
  a port shares a ring of events with the connection (\<^verbatim>\<open>services/common\<close>); an eventfd or a futex in the shared
  memory wakes the other side. Drivers for USB (the hardware interface) and Bluetooth (the GATT client) move Universal MIDI
  Packets (UMP) between the connections and the devices; the Bluetooth driver translates them from and to MIDI 1.0 bytes.

  \<^bold>\<open>The conversions.\<close>
  \<^item> \<open>Ump_Converter\<close> (\<^verbatim>\<open>services/common/src/ump_converter.cpp\<close>): conversion of one packet between MIDI 1.0 and
    2.0 channel voice messages, and the splitting of a block of words. A MIDI 1.0 message survives the way to MIDI 2.0 and back; every
    conversion appends one whole packet or nothing; splitting is maximal and inverts concatenation.
  \<^item> \<open>Ump_Packet\<close>, \<open>Ump_Processor\<close> (\<^verbatim>\<open>ump_packet.cpp\<close>, \<^verbatim>\<open>ump_processor.cpp\<close>): the stateful parser of bytes into
    packets and the way back. A callback is an output list. The parser's invariant and the shape of what it emits on any bytes,
    the round trip of whole messages, and the agreement of the block loop with a translation packet by packet.
  \<^item> \<open>Ble_Encoder\<close> (\<^verbatim>\<open>ble_midi_encoder.cpp\<close>): the framing of a BLE MIDI packet and its effect on the parser.
  \<^item> \<open>Midi_Utils\<close> (\<^verbatim>\<open>frameworks/native/midiutils\<close>): packing of SysEx bytes and the texts of logs.

  \<^bold>\<open>Shared memory.\<close>
  \<^item> \<open>Futex_Tool\<close> (\<^verbatim>\<open>futex_tool.cpp\<close>): waiting on a word in a world that other threads change during every
    clock reading and system call. The loop is bounded by \<open>WAIT_TRY_COUNT\<close>, as in the code.
  \<^item> \<open>Shared_Ring\<close>, \<open>Ring_Records\<close>, \<open>Ring_Fifo\<close>, \<open>Ring_Queue\<close> (\<^verbatim>\<open>midi_shared_ring.cpp\<close>): the control words and the data area as a memory
    of 32 bit words, the records laid out in it, and the operations. \<open>ring_holds\<close> relates a ring to the list of the events in it; the
    refinement shows that writing and reading are the operations of a FIFO queue with a capacity. For arbitrary memory
    contents, as a hostile peer may leave them, only the bounds of the accesses are shown. The loop of \<open>DrainToBatch\<close> recurses on the
    number of events that it may still take, and the loops of the writer on the batch.

  \<^item> \<open>Unique_Fd\<close> (\<^verbatim>\<open>frameworks/native/midiutils\<close>): the owner of a file descriptor, over the table of descriptors and
    tags that the C library keeps, with steps for everything that can be done with owners: each tagged descriptor has exactly one.
  \<^item> \<open>Shared_Memory\<close> (\<^verbatim>\<open>midi_shared_ring.cpp\<close>, the objects that own memory): creating, sending, receiving and destroying a
    ring, followed through the table of descriptors and mappings. What these functions make refines what \<open>Shared_Ring\<close> and
    \<open>Device_Connection\<close> say of their contents; what
    they leave behind when they fail is shown for every answer of the system calls.

  \<^bold>\<open>The service.\<close>
  \<^item> \<open>Midi_Server\<close> (\<^verbatim>\<open>midi_server.cpp\<close>): starting, stopping and showing the service. Behind the entry the controller is always in one of its reachable
    states, and it outlives a stop.
  \<^item> \<open>Client_Connection\<close>, \<open>Device_Connection\<close>, \<open>Device_Delivery\<close> (\<^verbatim>\<open>midi_client_connection.cpp\<close>, \<^verbatim>\<open>midi_device_connection.cpp\<close>): a port
    with its clients. The priority queue is an interface (a locale, interpreted on a sorted list). Delivery: each wake-up
    passes on what is due, in order, keeps the rest and arms the timer for the earliest of it. \<open>CollectLoop\<close> has the number of all pending events
    as its fuel, and each round but the last takes one away. \<open>Output_Thread\<close> has the thread around it: it ends when the port is stopped, and when a
    wait fails.
  \<^item> \<open>Device_Manager\<close> (\<^verbatim>\<open>midi_device_mananger.cpp\<close>, \<^verbatim>\<open>midi_device_driver.h\<close>): the registry over drivers that are records of
    functions on a state of their own. What the manager calls on the controller is an output list.
  \<^item> \<open>Service_Controller\<close> (\<^verbatim>\<open>midi_service_controller.cpp\<close>): the tables and the operations of the service; \<open>Request\<close> and \<open>serve\<close>
    collect them into one step. \<open>Service_Tables\<close> holds the invariant and the changes of one entry, \<open>Service_Operations\<close>,
    \<open>Service_Closing\<close>, \<open>Service_Clients\<close> and \<open>Service_Ble\<close> the effect of each operation, \<open>Service_Invariant\<close> the
    induction over all reachable states, and \<open>Service_Properties\<close> what a client can rely on. The search for a free
    client identifier has the number of clients plus one as its fuel, which one of the theorems shows to be enough.
  \<^item> \<open>Unload_Timer\<close>: the thread that unloads a service without clients, as steps between the requests. It is stopped by a creation and
    started by the last destruction; the theorem says when it exists, when it unloads, and which two orders go wrong.
  \<^item> \<open>Ble_Driver\<close>, \<open>Ble_Driver_Properties\<close> (\<^verbatim>\<open>midi_device_ble.cpp\<close>): the driver over a record of the GATT functions, with
    the calls it makes recorded in order: the balance of registered clients over every sequence of requests and
    callbacks, and the delivery of events as BLE packets. \<open>Ble_Lifecycle\<close> has its callbacks, its one instance and its end, which unregisters every client.
  \<^item> \<open>Usb_Driver\<close> (\<^verbatim>\<open>midi_device_usb.cpp\<close>): the driver over a record of the functions of the hardware interface: which devices and
    ports it reports, with identifiers read from text, and the events of both directions. \<open>Hot_Plug\<close> puts both drivers into the
    manager and shows what an event of the USB bus does to the registry.
  \<^item> \<open>Midi_In_Server\<close> (\<^verbatim>\<open>midi_in_server.cpp\<close>, \<^verbatim>\<open>midi_permission.cpp\<close>): the stub that serves one client, with the permission for
    Bluetooth as an argument of each call, and the slot that counts who uses the callback of the client.
  \<^item> \<open>Text_Dump\<close> (\<^verbatim>\<open>midi_server_dump.cpp\<close> and the controller): the text that shows the state. The totals in it are
    the sums over all ports; the identifiers in it are decimal digits behind a hexadecimal prefix.

  \<^bold>\<open>The client.\<close>
  \<^item> \<open>Client_Ports\<close>, \<open>Client_Ports_Properties\<close> (\<^verbatim>\<open>midi_client.cpp\<close>, the two port classes): sending events and SysEx
    messages to a ring that the service reads meanwhile, and the thread that receives.
  \<^item> \<open>Client_Library\<close>, \<open>Client_Api\<close> (\<^verbatim>\<open>midi_client.cpp\<close>, \<^verbatim>\<open>midi_service_client.cpp\<close>, \<^verbatim>\<open>OHMidi.cpp\<close>): devices and
    clients over any service, and the C interface on handles. A dereference of a handle that does not exist is \<open>None\<close>.
    \<open>Client_Invariant\<close> has the invariant of the client, \<open>Client_Properties\<close> what an application can rely on, and
    \<open>Client_Session\<close> the whole way of a port through library, stub and controller.

  \<^bold>\<open>Foundations.\<close> \<open>Prelude\<close> holds the conventions of the model (machine integers as words, unordered maps as
  association lists), the rule collections and the generic lemmas; \<open>Midi_Types\<close> the status codes and structures of
  \<^verbatim>\<open>native_midi_base.h\<close> and \<^verbatim>\<open>midi_info.h\<close>; \<open>Info_Parcel\<close> their way through a parcel.

  \<^bold>\<open>Interfaces.\<close> The locales \<open>timed_queue\<close> (the pending events), \<open>event_queue\<close> (the ring) and \<open>connection\<close> (the ports of a device, input and
  output) and \<open>midi_service\<close> (what the client library calls) state what their clients rely on; each is interpreted on the model's operations in the theory that
  provides them.

  \<^bold>\<open>Concurrency.\<close> An operation of the ring, of the service or of a driver runs to its end before another one starts. Where the
  code gives up a lock in the middle (closing a device in the manager), what may arrive meanwhile is an argument or an
  output that the model processes at that point. Finer steps are taken where the code relies on them: the futex and the ports of the
  client with others acting between the steps, the guards of the callback slot, and the unload thread.

  \<^bold>\<open>Not modelled.\<close> The public headers \<^verbatim>\<open>native_midi.h\<close> and \<^verbatim>\<open>native_midi_base.h\<close> only declare what the client library
  implements; their status codes are in \<open>Midi_Types\<close>. Left out are logging, thread names and priorities, the functions that only the tests of the repository use, and
  the code that the interface description generates. The system, which is not part of the repository, is an argument everywhere:
  system calls, clocks, parcels, the GATT client, the hardware interface, and the managers of permissions, services and events.
\<close>

end
